(* ===== verification/Euclid_Prelude.thy ===== *)
theory Euclid_Prelude
  imports
    Main
    "HOL-Library.Char_ord"
    "HOL-Library.List_Lexorder"
    "HOL-Library.Sublist"
    "HOL-Library.Multiset"
begin

text \<open>
  What the components share: the collections of rewrite rules the component proofs use, the
  operations of \<^verbatim>\<open>std::string\<close>, \<^verbatim>\<open>std::ranges\<close> and \<^verbatim>\<open>std::vector\<close> that the sources call, and the
  generic facts on lists that carry the proofs.

  Conventions. A \<^verbatim>\<open>std::string\<close> is a list of characters ordered by \<open>List_Lexorder\<close> over \<open>Char_ord\<close>, which
  is the order of \<^verbatim>\<open>std::string::operator<\<close> (bytes as unsigned values, a proper prefix first). A
  position that may be \<^verbatim>\<open>npos\<close> is a \<^typ>\<open>nat option\<close>. A \<^verbatim>\<open>long\<close> is an \<^typ>\<open>int\<close>; every counter in the
  sources is far from its bounds, and where a width decides something it is written out.
\<close>

named_theorems euclid_defs \<open>definitions a component proof unfolds\<close>
named_theorems euclid_intros \<open>introduction rules for component invariants\<close>

type_synonym ern = string
type_synonym millis = int

subsection \<open>Strings\<close>

text \<open>\<^verbatim>\<open>find\<close> and \<^verbatim>\<open>rfind\<close> of one character; \<open>None\<close> is \<^verbatim>\<open>npos\<close>.\<close>

fun find_char :: "char \<Rightarrow> string \<Rightarrow> nat option" where
  "find_char c [] = None"
| "find_char c (x # xs) = (if x = c then Some 0 else map_option Suc (find_char c xs))"

definition rfind_char :: "char \<Rightarrow> string \<Rightarrow> nat option" where
  "rfind_char c s = map_option (\<lambda>i. length s - 1 - i) (find_char c (rev s))"

abbreviation starts_with :: "string \<Rightarrow> string \<Rightarrow> bool" where
  "starts_with s p \<equiv> prefix p s"

definition ends_with :: "string \<Rightarrow> string \<Rightarrow> bool" where
  "ends_with s p \<longleftrightarrow> length p \<le> length s \<and> drop (length s - length p) s = p"

lemma find_char_None: "find_char c s = None \<longleftrightarrow> c \<notin> set s"
  by (induction s) auto

lemma find_char_SomeD:
  "find_char c s = Some i \<Longrightarrow> i < length s \<and> s ! i = c \<and> c \<notin> set (take i s)"
proof (induction s arbitrary: i)
  case Nil
  then show ?case by simp
next
  case (Cons x xs)
  then show ?case by (cases "x = c") (auto simp: take_Cons')
qed

lemma find_char_append:
  "c \<notin> set xs \<Longrightarrow> find_char c (xs @ c # ys) = Some (length xs)"
  by (induction xs) auto

lemma ends_with_append [simp]: "ends_with (xs @ ys) ys"
  by (simp add: ends_with_def)

lemma ends_withE:
  assumes "ends_with s p"
  obtains q where "s = q @ p"
  using assms by (metis append_take_drop_id ends_with_def)

lemma ends_with_iff: "ends_with s p \<longleftrightarrow> (\<exists>q. s = q @ p)"
  by (auto elim: ends_withE)

subsection \<open>\<^verbatim>\<open>std::ranges::binary_search\<close>\<close>

text \<open>The halving loop of \<^verbatim>\<open>lower_bound\<close> over the range that starts at \<open>first\<close> and is \<open>len\<close> long.\<close>

function lower_bound :: "'a::linorder list \<Rightarrow> nat \<Rightarrow> nat \<Rightarrow> 'a \<Rightarrow> nat" where
  "lower_bound xs first len v =
     (if len = 0 then first
      else let half = len div 2; mid = first + half in
        if xs ! mid < v then lower_bound xs (Suc mid) (len - half - 1) v
        else lower_bound xs first half v)"
  by pat_completeness auto
termination
  by (relation "measure (\<lambda>(xs, first, len, v). len)") auto

declare lower_bound.simps [simp del]

definition binary_search :: "'a::linorder list \<Rightarrow> 'a \<Rightarrow> bool" where
  "binary_search xs v =
     (let i = lower_bound xs 0 (length xs) v in i < length xs \<and> \<not> v < xs ! i)"

lemma lower_bound_spec:
  assumes "sorted xs" and "first + len \<le> length xs"
    and "\<forall>i < first. xs ! i < v" and "\<forall>i < length xs. first + len \<le> i \<longrightarrow> v \<le> xs ! i"
  shows "lower_bound xs first len v \<le> length xs
       \<and> (\<forall>i < lower_bound xs first len v. xs ! i < v)
       \<and> (\<forall>i < length xs. lower_bound xs first len v \<le> i \<longrightarrow> v \<le> xs ! i)"
  using assms
proof (induction xs first len v rule: lower_bound.induct)
  case (1 xs first len v)
  define mid where "mid = first + len div 2"
  let ?ok = "\<lambda>r. r \<le> length xs \<and> (\<forall>i < r. xs ! i < v) \<and> (\<forall>i < length xs. r \<le> i \<longrightarrow> v \<le> xs ! i)"
  show ?case
  proof (cases "len = 0")
    case True
    with "1.prems" show ?thesis by (simp add: lower_bound.simps [of xs first 0 v])
  next
    case False
    then have mid: "mid < length xs" "mid < first + len" using "1.prems"(2) by (auto simp: mid_def)
    have step: "lower_bound xs first len v =
        (if xs ! mid < v then lower_bound xs (Suc mid) (len - len div 2 - 1) v
         else lower_bound xs first (len div 2) v)"
      using False by (subst lower_bound.simps) (simp add: mid_def Let_def)
    show ?thesis
    proof (cases "xs ! mid < v")
      case True
      have "\<forall>i < Suc mid. xs ! i < v"
        using "1.prems"(1) mid(1) True by (meson le_less_trans less_Suc_eq_le sorted_nth_mono)
      moreover have "Suc mid + (len - len div 2 - 1) = first + len"
        using False by (simp add: mid_def)
      ultimately have "?ok (lower_bound xs (Suc mid) (len - len div 2 - 1) v)"
        using False True "1.prems" by (intro "1.IH"(1) [OF False refl mid_def]) auto
      with step True show ?thesis by simp
    next
      case ge: False
      have "\<forall>i < length xs. mid \<le> i \<longrightarrow> v \<le> xs ! i"
        using "1.prems"(1) ge by (meson linorder_not_le order_trans sorted_nth_mono)
      then have "?ok (lower_bound xs first (len div 2) v)"
        using False ge mid "1.prems" by (intro "1.IH"(2) [OF False refl mid_def]) (auto simp: mid_def)
      with step ge show ?thesis by simp
    qed
  qed
qed

text \<open>On a sorted vector the halving search answers membership.\<close>

lemma binary_search_iff: "sorted xs \<Longrightarrow> binary_search xs v \<longleftrightarrow> v \<in> set xs"
proof -
  assume s: "sorted xs"
  define k where "k = lower_bound xs 0 (length xs) v"
  have k: "k \<le> length xs" "\<forall>i < k. xs ! i < v" "\<forall>i < length xs. k \<le> i \<longrightarrow> v \<le> xs ! i"
    using lower_bound_spec [OF s, of 0 "length xs" v] by (auto simp: k_def)
  show ?thesis
  proof
    assume "binary_search xs v"
    with k show "v \<in> set xs"
      by (metis binary_search_def k_def le_refl linorder_not_less nth_mem order_antisym)
  next
    assume "v \<in> set xs"
    then obtain i where i: "i < length xs" "xs ! i = v" by (auto simp: in_set_conv_nth)
    with k(2) have "k \<le> i" by (metis linorder_not_le order_less_irrefl)
    then have "k < length xs" and "xs ! k \<le> v"
      using i s by (auto intro: sorted_nth_mono)
    then show "binary_search xs v" by (simp add: binary_search_def k_def [symmetric] Let_def)
  qed
qed

subsection \<open>Lists\<close>

text \<open>\<^verbatim>\<open>std::ranges::unique\<close> followed by \<^verbatim>\<open>erase\<close>: equal neighbours collapse into the first.\<close>

fun unique_adjacent :: "'a list \<Rightarrow> 'a list" where
  "unique_adjacent [] = []"
| "unique_adjacent [x] = [x]"
| "unique_adjacent (x # y # ys) =
     (if x = y then unique_adjacent (x # ys) else x # unique_adjacent (y # ys))"

lemma set_unique_adjacent [simp]: "set (unique_adjacent xs) = set xs"
  by (induction xs rule: unique_adjacent.induct) auto

lemma sorted_unique_adjacent:
  "sorted xs \<Longrightarrow> sorted (unique_adjacent xs) \<and> distinct (unique_adjacent xs)"
proof (induction xs rule: unique_adjacent.induct)
  case (3 x y ys)
  then show ?case by (cases "x = y") auto
qed auto

lemma find_SomeD: "find P xs = Some x \<Longrightarrow> x \<in> set xs \<and> P x"
  by (auto simp: find_Some_iff)

lemma find_None_iff_Ball: "find P xs = None \<longleftrightarrow> (\<forall>x \<in> set xs. \<not> P x)"
  by (auto simp: find_None_iff)

lemma map_sum_eq_Inr [simp]: "map_sum f g x = Inr y \<longleftrightarrow> (\<exists>z. x = Inr z \<and> y = g z)"
  by (cases x) auto

lemma sum_list_update_int: "i < length xs \<Longrightarrow> sum_list (xs[i := v]) = sum_list xs - xs ! i + (v :: int)"
proof (induction xs arbitrary: i)
  case (Cons x xs)
  then show ?case by (cases i) auto
qed simp

text \<open>How many entries satisfy a predicate, as a list is updated in one place.\<close>

definition count_if :: "('a \<Rightarrow> bool) \<Rightarrow> 'a list \<Rightarrow> int" where
  "count_if P xs = int (length (filter P xs))"

lemma count_if_Nil [simp]: "count_if P [] = 0"
  and count_if_Cons [simp]: "count_if P (x # xs) = of_bool (P x) + count_if P xs"
  and count_if_append [simp]: "count_if P (xs @ ys) = count_if P xs + count_if P ys"
  by (simp_all add: count_if_def)

lemma count_if_nonneg [simp, intro]: "0 \<le> count_if P xs"
  by (simp add: count_if_def)

lemma count_if_update:
  "i < length xs \<Longrightarrow> count_if P (xs[i := x]) = count_if P xs - of_bool (P (xs ! i)) + of_bool (P x)"
proof (induction xs arbitrary: i)
  case (Cons y ys)
  then show ?case by (cases i) auto
qed simp

lemma count_if_pos: "count_if P xs > 0 \<longleftrightarrow> (\<exists>x \<in> set xs. P x)"
  by (auto simp: count_if_def filter_empty_conv simp flip: length_greater_0_conv)

lemma count_if_replicate [simp]: "count_if P (replicate n x) = (if P x then int n else 0)"
  by (simp add: count_if_def)

subsection \<open>\<^verbatim>\<open>std::ranges::stable_sort\<close>\<close>

text \<open>Insertion into place, which is what every stable sort computes when its comparator is a strict weak order.\<close>

fun insert_stable :: "('a \<Rightarrow> 'a \<Rightarrow> bool) \<Rightarrow> 'a \<Rightarrow> 'a list \<Rightarrow> 'a list" where
  "insert_stable lt x [] = [x]"
| "insert_stable lt x (y # ys) = (if lt y x then y # insert_stable lt x ys else x # y # ys)"

definition stable_sort :: "('a \<Rightarrow> 'a \<Rightarrow> bool) \<Rightarrow> 'a list \<Rightarrow> 'a list" where
  "stable_sort lt xs = foldr (insert_stable lt) xs []"

text \<open>What a stable sort needs of its comparator, on the elements it is given.\<close>

locale weak_order_on =
  fixes S :: "'a set" and lt :: "'a \<Rightarrow> 'a \<Rightarrow> bool"
  assumes asym: "lt x y \<Longrightarrow> \<not> lt y x"
    and negtrans: "x \<in> S \<Longrightarrow> y \<in> S \<Longrightarrow> z \<in> S \<Longrightarrow> \<not> lt y x \<Longrightarrow> \<not> lt z y \<Longrightarrow> \<not> lt z x"
begin

definition tied :: "'a \<Rightarrow> 'a \<Rightarrow> bool" where
  "tied x y \<longleftrightarrow> \<not> lt x y \<and> \<not> lt y x"

lemma mset_insert_stable: "mset (insert_stable lt x ys) = add_mset x (mset ys)"
  by (induction ys) auto

lemma mset_stable_sort: "mset (stable_sort lt xs) = mset xs"
  by (induction xs) (auto simp: stable_sort_def mset_insert_stable)

lemma set_insert_stable: "set (insert_stable lt x ys) = insert x (set ys)"
  by (metis mset_insert_stable set_mset_add_mset_insert set_mset_mset)

lemma set_stable_sort: "set (stable_sort lt xs) = set xs"
  by (metis mset_stable_sort set_mset_mset)

lemma sorted_insert_stable:
  assumes "x \<in> S" and "set ys \<subseteq> S" and "sorted_wrt (\<lambda>a b. \<not> lt b a) ys"
  shows "sorted_wrt (\<lambda>a b. \<not> lt b a) (insert_stable lt x ys)"
  using assms
proof (induction ys)
  case (Cons y ys)
  show ?case
  proof (cases "lt y x")
    case True
    then have "\<not> lt x y" by (rule asym)
    with Cons True show ?thesis by (auto simp: set_insert_stable)
  next
    case False
    have "\<not> lt z x" if "z \<in> set ys" for z
      using Cons.prems that False by (intro negtrans [of x y z]) auto
    with Cons.prems False show ?thesis by auto
  qed
qed simp

lemma sorted_stable_sort: "set xs \<subseteq> S \<Longrightarrow> sorted_wrt (\<lambda>a b. \<not> lt b a) (stable_sort lt xs)"
proof (induction xs)
  case (Cons x xs)
  then show ?case
    using sorted_insert_stable [of x "stable_sort lt xs"] set_stable_sort [of xs] by (simp add: stable_sort_def)
qed (simp add: stable_sort_def)

text \<open>Elements that tie with one another keep the order they came in.\<close>

lemma filter_insert_stable:
  assumes "x \<in> S" and "set ys \<subseteq> S" and "z \<in> S"
  shows "filter (tied z) (insert_stable lt x ys) = filter (tied z) (x # ys)"
  using assms
proof (induction ys)
  case (Cons y ys)
  have "\<not> (tied z x \<and> tied z y)" if "lt y x"
    using Cons.prems that negtrans [of x z y] by (auto simp: tied_def)
  with Cons show ?case by auto
qed simp

lemma filter_stable_sort: "set xs \<subseteq> S \<Longrightarrow> z \<in> S \<Longrightarrow> filter (tied z) (stable_sort lt xs) = filter (tied z) xs"
proof (induction xs)
  case (Cons x xs)
  then show ?case
    using filter_insert_stable [of x "stable_sort lt xs" z] set_stable_sort [of xs]
    by (simp add: stable_sort_def)
qed (simp add: stable_sort_def)

end

subsection \<open>\<^verbatim>\<open>std::map\<close>\<close>

text \<open>
  A \<^verbatim>\<open>std::map\<close> is the list of its entries in key order, the order it iterates in. \<open>map_put\<close> is
  \<^verbatim>\<open>insert_or_assign\<close> (and assignment through \<^verbatim>\<open>operator[]\<close>), \<open>map_erase\<close> is \<^verbatim>\<open>erase\<close> by key and
  \<^const>\<open>map_of\<close> is \<^verbatim>\<open>find\<close>.
\<close>

fun map_put :: "'k::linorder \<Rightarrow> 'v \<Rightarrow> ('k \<times> 'v) list \<Rightarrow> ('k \<times> 'v) list" where
  "map_put k v [] = [(k, v)]"
| "map_put k v ((k', v') # m) =
     (if k < k' then (k, v) # (k', v') # m
      else if k = k' then (k, v) # m
      else (k', v') # map_put k v m)"

definition map_erase :: "'k \<Rightarrow> ('k \<times> 'v) list \<Rightarrow> ('k \<times> 'v) list" where
  "map_erase k m = filter (\<lambda>e. fst e \<noteq> k) m"

definition key_ordered :: "('k::linorder \<times> 'v) list \<Rightarrow> bool" where
  "key_ordered m \<longleftrightarrow> sorted_wrt (<) (map fst m)"

lemma key_ordered_Nil [simp, intro]: "key_ordered []"
  by (simp add: key_ordered_def)

lemma map_of_map_put [simp]: "map_of (map_put k v m) = (map_of m)(k \<mapsto> v)"
  by (induction m rule: map_put.induct) auto

lemma keys_map_put [simp]: "fst ` set (map_put k v m) = insert k (fst ` set m)"
  by (induction k v m rule: map_put.induct) auto

lemma key_ordered_map_put [simp, intro]: "key_ordered m \<Longrightarrow> key_ordered (map_put k v m)"
proof (induction k v m rule: map_put.induct)
  case (2 k v k' v' m)
  have "fst ` set (map_put k v m) = insert k (fst ` set m)" by simp
  with 2 show ?case by (fastforce simp: key_ordered_def)
qed (simp add: key_ordered_def)

lemma map_of_map_erase [simp]: "map_of (map_erase k m) = (map_of m)(k := None)"
  by (induction m) (auto simp: map_erase_def)

lemma keys_map_erase [simp]: "fst ` set (map_erase k m) = fst ` set m - {k}"
  by (auto simp: map_erase_def)

lemma key_ordered_map_erase [simp, intro]: "key_ordered m \<Longrightarrow> key_ordered (map_erase k m)"
  by (induction m) (auto simp: key_ordered_def map_erase_def)

lemma key_ordered_distinct: "key_ordered m \<Longrightarrow> distinct (map fst m)"
  by (simp add: key_ordered_def strict_sorted_iff)

text \<open>The interface a client of such a map relies on, and the promise that order and lookup are kept.\<close>

locale ordered_map =
  fixes lookup :: "'m \<Rightarrow> 'k \<Rightarrow> 'v option"
    and put :: "'k \<Rightarrow> 'v \<Rightarrow> 'm \<Rightarrow> 'm"
    and erase :: "'k \<Rightarrow> 'm \<Rightarrow> 'm"
    and ok :: "'m \<Rightarrow> bool"
  assumes lookup_put: "lookup (put k v m) = (lookup m)(k \<mapsto> v)"
    and lookup_erase: "lookup (erase k m) = (lookup m)(k := None)"
    and ok_put: "ok m \<Longrightarrow> ok (put k v m)"
    and ok_erase: "ok m \<Longrightarrow> ok (erase k m)"
begin

text \<open>Writing a list of fields one after another: the last write of a key wins, the rest is kept.\<close>

lemma lookup_fold_put: "lookup (fold (\<lambda>(k, v). put k v) es m) = lookup m ++ map_of (rev es)"
proof (induction es arbitrary: m)
  case (Cons e es)
  then show ?case by (cases e) (simp add: lookup_put map_add_def fun_eq_iff split: option.split)
qed simp

lemma ok_fold_put: "ok m \<Longrightarrow> ok (fold (\<lambda>(k, v). put k v) es m)"
  by (induction es arbitrary: m) (auto simp: ok_put)

end

interpretation omap: ordered_map map_of map_put map_erase key_ordered
  by unfold_locales auto

subsection \<open>Transition systems\<close>

text \<open>The states a component reaches from its start by its steps, and the invariant principle they share.\<close>

inductive reach :: "'s \<Rightarrow> ('s \<Rightarrow> 's \<Rightarrow> bool) \<Rightarrow> 's \<Rightarrow> bool" for init step where
  start: "reach init step init"
| step: "reach init step s \<Longrightarrow> step s t \<Longrightarrow> reach init step t"

locale inductive_invariant =
  fixes init :: 's and step :: "'s \<Rightarrow> 's \<Rightarrow> bool" and inv :: "'s \<Rightarrow> bool"
  assumes inv_init: "inv init"
    and inv_step: "inv s \<Longrightarrow> step s t \<Longrightarrow> inv t"
begin

lemma reach_inv: "reach init step s \<Longrightarrow> inv s"
  by (induction rule: reach.induct) (auto intro: inv_init inv_step)

end

end
