(* ===== verification/Permissions.thy ===== *)
theory Permissions
  imports Euclid_Prelude
begin

text \<open>
  The permission vocabulary of \<^verbatim>\<open>core/src/Permissions.cpp\<close>: what can be granted, and whether something granted
  covers something required. The vocabulary is written out block by block as the source lists it, because
  \<^verbatim>\<open>Exists\<close> binary-searches it and its order is therefore part of its correctness. The lemmas show that the
  vocabulary is sorted and free of duplicates, so that the search is membership, and what each of the
  three grant forms covers.
\<close>

subsection \<open>The vocabulary\<close>

text \<open>The module of \<^verbatim>\<open><module>:<action>\<close>, and its action; the whole string without a colon.\<close>

definition moduleOf :: "string \<Rightarrow> string" where
  "moduleOf permission =
     (case find_char CHR '':'' permission of None \<Rightarrow> permission | Some colon \<Rightarrow> take colon permission)"

definition kAll_ead :: "string list" where
  "kAll_ead =
    [''ead:count-events'', ''ead:get-metrics'', ''ead:list-events'', ''ead:purge-events'']"

definition kAll_eag :: "string list" where
  "kAll_eag =
    [''eag:create-route'', ''eag:delete-route'', ''eag:get-metrics'', ''eag:get-route'',
     ''eag:list-routes'', ''eag:update-route'']"

definition kAll_eam :: "string list" where
  "kAll_eam =
    [''eam:change-email'', ''eam:change-namespace'', ''eam:change-password'',
     ''eam:change-userid'', ''eam:check-permission'', ''eam:create-access-key'',
     ''eam:create-account'', ''eam:create-namespace'', ''eam:create-role'',
     ''eam:create-user-group'', ''eam:delete-access-key'', ''eam:delete-account'',
     ''eam:delete-namespace'', ''eam:delete-role'', ''eam:delete-user'',
     ''eam:delete-user-group'', ''eam:get-account'', ''eam:get-metrics'', ''eam:get-role'',
     ''eam:get-user'', ''eam:get-user-group'', ''eam:grant-role'', ''eam:list-access-keys'',
     ''eam:list-accounts'', ''eam:list-grants'', ''eam:list-my-accounts'',
     ''eam:list-namespaces'', ''eam:list-permissions'', ''eam:list-roles'',
     ''eam:list-user-groups'', ''eam:list-users'', ''eam:login'', ''eam:oidc-authorize'',
     ''eam:oidc-callback'', ''eam:oidc-login'', ''eam:refresh-session'', ''eam:register'',
     ''eam:revoke-role'', ''eam:saml-acs'', ''eam:saml-authorize'', ''eam:saml-login'',
     ''eam:saml-metadata'', ''eam:update-role'', ''eam:user-group-add-user'',
     ''eam:user-group-remove-user'']"

definition kAll_eap :: "string list" where
  "kAll_eap =
    [''eap:acquire-egress-permit'', ''eap:apply-infrastructure'', ''eap:apply-platform'',
     ''eap:assign-instance'', ''eap:copy-application'', ''eap:create-application'',
     ''eap:delete-application'', ''eap:delete-egress-limit'', ''eap:delete-egress-site'',
     ''eap:delete-node'', ''eap:drain-node'', ''eap:get-application'', ''eap:get-metrics'',
     ''eap:get-node'', ''eap:get-platform'', ''eap:issue-instance-credentials'',
     ''eap:list-applications'', ''eap:list-egress-sites'', ''eap:list-nodes'',
     ''eap:list-platforms'', ''eap:plan-infrastructure'', ''eap:plan-platform'',
     ''eap:rebalance-application'', ''eap:redeploy-application'', ''eap:register-node'',
     ''eap:release-egress-permit'', ''eap:renew-node'', ''eap:report-egress-throttled'',
     ''eap:report-load'', ''eap:report-node-instance'', ''eap:restart-application'',
     ''eap:scale-application'', ''eap:set-application-limits'', ''eap:set-egress-limit'',
     ''eap:set-log-level'', ''eap:start-application'', ''eap:stop-application'',
     ''eap:update-application'']"

definition kAll_ees :: "string list" where
  "kAll_ees =
    [''ees:ack-events'', ''ees:get-metrics'', ''ees:list-subscriptions'',
     ''ees:receive-events'', ''ees:subscribe-events'', ''ees:unsubscribe-events'']"

definition kAll_ekm :: "string list" where
  "kAll_ekm =
    [''ekm:add-key-tag'', ''ekm:create-certificate'', ''ekm:create-key'', ''ekm:decrypt'',
     ''ekm:delete-certificate'', ''ekm:delete-key'', ''ekm:delete-key-tag'', ''ekm:encrypt'',
     ''ekm:get-certificate'', ''ekm:get-key'', ''ekm:import-certificate'',
     ''ekm:list-certificates'', ''ekm:list-keys'', ''ekm:revoke-key'',
     ''ekm:set-key-description'']"

definition kAll_ekv :: "string list" where
  "kAll_ekv =
    [''ekv:create-table'', ''ekv:delete-item'', ''ekv:delete-table'', ''ekv:get-item'',
     ''ekv:get-metrics'', ''ekv:get-table'', ''ekv:list-tables'', ''ekv:put-item'',
     ''ekv:query'', ''ekv:scan'']"

definition kAll_emo :: "string list" where
  "kAll_emo =
    [''emo:average'', ''emo:create-alert-rule'', ''emo:delete-alert-rule'',
     ''emo:delete-dashboard'', ''emo:get-dashboard'', ''emo:list'',
     ''emo:list-alert-history'', ''emo:list-alert-rules'', ''emo:list-alerts'',
     ''emo:list-dashboards'', ''emo:list-metrics'', ''emo:push-metrics'',
     ''emo:save-dashboard'', ''emo:update-alert-rule'']"

definition kAll_ens :: "string list" where
  "kAll_ens =
    [''ens:add-topic-tag'', ''ens:create-topic'', ''ens:delete-topic'',
     ''ens:delete-topic-tag'', ''ens:get-message'', ''ens:get-message-attribute'',
     ''ens:get-message-count'', ''ens:get-topic'', ''ens:get-topic-ern'',
     ''ens:get-topic-metadata'', ''ens:list-messages'', ''ens:list-subscriptions'',
     ''ens:list-topics'', ''ens:publish-message'', ''ens:purge-all-topics'',
     ''ens:purge-topic'', ''ens:resend-messages'', ''ens:set-message-attribute'',
     ''ens:set-topic-delete-after-delivery'', ''ens:set-topic-max-message-length'',
     ''ens:set-topic-retention'', ''ens:set-topic-tag'', ''ens:start-topic'',
     ''ens:stop-topic'', ''ens:subscribe'', ''ens:unsubscribe'', ''ens:update-message-body'']"

definition kAll_eqs :: "string list" where
  "kAll_eqs =
    [''eqs:add-metadata'', ''eqs:add-queue-tag'', ''eqs:create-queue'',
     ''eqs:delete-message'', ''eqs:delete-queue'', ''eqs:delete-queue-tag'',
     ''eqs:get-message'', ''eqs:get-message-attribute'', ''eqs:get-message-count'',
     ''eqs:get-message-metadata'', ''eqs:get-metadata'', ''eqs:get-metrics'',
     ''eqs:get-queue'', ''eqs:get-queue-ern'', ''eqs:get-queue-metadata'',
     ''eqs:list-messages'', ''eqs:list-queues'', ''eqs:purge-all-queues'',
     ''eqs:purge-queue'', ''eqs:receive-messages'', ''eqs:redrive-dlq'', ''eqs:send-message'',
     ''eqs:send-message-batch'', ''eqs:set-message-attribute'',
     ''eqs:set-message-visibility'', ''eqs:set-queue-delay'',
     ''eqs:set-queue-max-message-length'', ''eqs:set-queue-max-retries'',
     ''eqs:set-queue-tag'', ''eqs:set-queue-visibility'', ''eqs:set-visibility'',
     ''eqs:start-queue'', ''eqs:stop-queue'', ''eqs:update-message-body'']"

definition kAll_esm :: "string list" where
  "kAll_esm =
    [''esm:abort-upload'', ''esm:add-bucket-tag'', ''esm:add-object-attribute'',
     ''esm:archive-object'', ''esm:complete-download'', ''esm:complete-upload'',
     ''esm:copy-object'', ''esm:count-objects'', ''esm:create-bucket'',
     ''esm:create-download'', ''esm:create-upload'', ''esm:delete-bucket'',
     ''esm:delete-bucket-lifecycle'', ''esm:delete-bucket-tag'', ''esm:delete-object'',
     ''esm:delete-object-attribute'', ''esm:delete-objects'', ''esm:disable-encryption'',
     ''esm:download-part'', ''esm:enable-encryption'', ''esm:get-bucket'',
     ''esm:get-bucket-ern'', ''esm:get-bucket-lifecycle'', ''esm:get-bucket-size'',
     ''esm:get-metrics'', ''esm:get-object'', ''esm:get-object-count'',
     ''esm:get-object-size'', ''esm:list-buckets'', ''esm:list-object-attributes'',
     ''esm:list-object-versions'', ''esm:list-objects'', ''esm:list-subscriptions'',
     ''esm:move-object'', ''esm:purge-bucket'', ''esm:put-object'', ''esm:rename-bucket'',
     ''esm:rename-object'', ''esm:restore-object'', ''esm:set-bucket-internal'',
     ''esm:set-bucket-lifecycle'', ''esm:set-bucket-priority'', ''esm:set-bucket-tag'',
     ''esm:set-bucket-versioning'', ''esm:set-object-attribute'', ''esm:start-bucket'',
     ''esm:stop-bucket'', ''esm:subscribe'', ''esm:touch-object'', ''esm:unsubscribe'',
     ''esm:upload-part'', ''esm:verify-objects'']"

definition kAll_ess :: "string list" where
  "kAll_ess =
    [''ess:add-secret-tag'', ''ess:create-secret'', ''ess:delete-secret'',
     ''ess:delete-secret-tag'', ''ess:get-metrics'', ''ess:get-secret'', ''ess:list-secrets'',
     ''ess:update-secret'']"

definition kAll_ets :: "string list" where
  "kAll_ets =
    [''ets:create-directory'', ''ets:create-server'', ''ets:delete-directory'',
     ''ets:delete-file'', ''ets:delete-server'', ''ets:get-file'', ''ets:get-metrics'',
     ''ets:get-server'', ''ets:list-directory'', ''ets:list-servers'', ''ets:put-file'',
     ''ets:rename-file'', ''ets:start-server'', ''ets:stop-server'', ''ets:update-server'']"

definition All_permissions :: "string list" where
  "All_permissions =
     kAll_ead @ kAll_eag @ kAll_eam @ kAll_eap @ kAll_ees @ kAll_ekm @ kAll_ekv @ kAll_emo @
     kAll_ens @ kAll_eqs @ kAll_esm @ kAll_ess @ kAll_ets"

lemmas kAll_defs = kAll_ead_def kAll_eag_def kAll_eam_def kAll_eap_def kAll_ees_def kAll_ekm_def
  kAll_ekv_def kAll_emo_def kAll_ens_def kAll_eqs_def kAll_esm_def kAll_ess_def kAll_ets_def

text \<open>The loop that keeps a module when it differs from the last one kept.\<close>

fun collect_modules :: "string list \<Rightarrow> string list \<Rightarrow> string list" where
  "collect_modules [] modules = modules"
| "collect_modules (permission # rest) modules =
     (let m = moduleOf permission in
      collect_modules rest (if modules = [] \<or> last modules \<noteq> m then modules @ [m] else modules))"

definition Modules :: "string list" where
  "Modules = collect_modules All_permissions []"

definition UnbindableModules :: "string list" where
  "UnbindableModules = [''emd'', ''emm'']"

definition UngatedActions :: "string list" where
  "UngatedActions = [''eam:change-namespace'', ''eam:list-my-accounts'', ''eam:list-namespaces'']"

definition Everything :: string where
  "Everything = ''*:*''"

definition IsBindable :: "string \<Rightarrow> bool" where
  "IsBindable m = (if m \<in> set UnbindableModules then False else m \<in> set Modules)"

definition Of_permission :: "string \<Rightarrow> string \<Rightarrow> string" where
  "Of_permission target action = target @ '':'' @ action"

definition Exists_permission :: "string \<Rightarrow> bool" where
  "Exists_permission permission = binary_search All_permissions permission"

text \<open>Three grant forms: everything, the exact permission, and \<^verbatim>\<open><module>:*\<close>.\<close>

definition Matches_permission :: "string \<Rightarrow> string \<Rightarrow> bool" where
  "Matches_permission granted required =
     (if \<not> Exists_permission required then False
      else if granted = Everything then True
      else if granted = required then True
      else let m = moduleOf granted in
        length granted = length m + 2 \<and> ends_with granted '':*'' \<and> m = moduleOf required)"

subsection \<open>Reading and second-level actions\<close>

definition permission_action :: "string \<Rightarrow> string" where
  "permission_action permission =
     (case find_char CHR '':'' permission of
        None \<Rightarrow> permission
      | Some colon \<Rightarrow> drop (Suc colon) permission)"

definition IsRead :: "string \<Rightarrow> bool" where
  "IsRead permission =
     (let action = permission_action permission in
      starts_with action ''list-'' \<or> starts_with action ''get-'' \<or> starts_with action ''describe-''
      \<or> starts_with action ''count-'' \<or> starts_with action ''verify-'')"

definition kTransferBrackets :: "string list" where
  "kTransferBrackets = [''create-upload'', ''complete-upload'', ''abort-upload'',
     ''create-download'', ''complete-download'']"

definition kLifecycleChanges :: "string list" where
  "kLifecycleChanges = [''archive-object'', ''restore-object'']"

definition kUnnamedSecondLevel :: "string list" where
  "kUnnamedSecondLevel = [''send-message-batch'', ''set-visibility'', ''query'', ''scan'']"

definition kSecondLevel :: "string list" where
  "kSecondLevel = [''message'', ''messages'', ''object'', ''objects'', ''item'', ''items'',
     ''event'', ''events'', ''part'', ''parts'', ''upload'', ''download'']"

text \<open>The text after the last hyphen, or all of it without one.\<close>

definition last_word :: "string \<Rightarrow> string" where
  "last_word s = (case rfind_char CHR ''-'' s of None \<Rightarrow> s | Some i \<Rightarrow> drop (Suc i) s)"

definition IsSecondLevel :: "string \<Rightarrow> bool" where
  "IsSecondLevel permission =
     (let action = permission_action permission in
      if action \<in> set kTransferBrackets then False
      else if starts_with action ''purge-'' then False
      else if action \<in> set kLifecycleChanges then False
      else if action \<in> set kUnnamedSecondLevel then True
      else
        let lastSeparator = rfind_char CHR ''-'' action; subject = last_word action in
        if subject \<in> set kSecondLevel then True
        else if subject = ''attribute'' \<or> subject = ''attributes'' \<or> subject = ''visibility'' then
          let head = (case lastSeparator of None \<Rightarrow> action | Some i \<Rightarrow> take i action) in
          last_word head \<in> set kSecondLevel
        else False)"

subsection \<open>The vocabulary is sorted, so the search is membership\<close>

lemma All_permissions_successively: "successively (<) All_permissions"
  by code_simp

lemma All_permissions_strict: "sorted_wrt (<) All_permissions"
  using All_permissions_successively by (simp add: successively_conv_sorted_wrt)

lemma All_permissions_sorted: "sorted All_permissions"
  using All_permissions_strict by (simp add: strict_sorted_imp_sorted)

lemma All_permissions_distinct: "distinct All_permissions"
  using All_permissions_strict by (simp add: strict_sorted_iff)

lemma Exists_mem: "Exists_permission permission \<longleftrightarrow> permission \<in> set All_permissions"
  unfolding Exists_permission_def by (rule binary_search_iff [OF All_permissions_sorted])

text \<open>The vocabulary is strictly increasing, with no duplicate, and so the halving search over it
  answers exactly membership: an action is a permission if and only if the vocabulary lists it.\<close>

theorem Exists_permission_correct:
  "sorted_wrt (<) All_permissions \<and>
   (\<forall>permission. Exists_permission permission \<longleftrightarrow> permission \<in> set All_permissions)"
  using All_permissions_strict Exists_mem by blast

subsection \<open>Modules\<close>

lemma moduleOf_Of [simp]:
  "CHR '':'' \<notin> set target \<Longrightarrow> moduleOf (Of_permission target action) = target"
  by (simp add: moduleOf_def Of_permission_def find_char_append)

lemma permission_action_Of [simp]:
  "CHR '':'' \<notin> set target \<Longrightarrow> permission_action (Of_permission target action) = action"
  by (simp add: permission_action_def Of_permission_def find_char_append)

lemma moduleOf_no_colon: "CHR '':'' \<notin> set (moduleOf permission)"
  by (auto simp: moduleOf_def find_char_None split: option.split dest: find_char_SomeD)

lemma take_moduleOf: "take (length (moduleOf permission)) permission = moduleOf permission"
proof (cases "find_char CHR '':'' permission")
  case (Some i)
  then have "i < length permission" by (rule find_char_SomeD [THEN conjunct1])
  with Some show ?thesis by (simp add: moduleOf_def)
qed (simp add: moduleOf_def)

lemma moduleOf_wildcard [simp]: "CHR '':'' \<notin> set m \<Longrightarrow> moduleOf (m @ '':*'') = m"
  using moduleOf_Of [of m "''*''"] by (simp add: Of_permission_def)

lemma Modules_eq:
  "Modules = [''ead'', ''eag'', ''eam'', ''eap'', ''ees'', ''ekm'', ''ekv'', ''emo'', ''ens'',
     ''eqs'', ''esm'', ''ess'', ''ets'']"
  by code_simp

lemma All_permissions_modules: "list_all (\<lambda>p. moduleOf p \<in> set Modules) All_permissions"
  unfolding Modules_eq by code_simp

lemma moduleOf_in_Modules: "permission \<in> set All_permissions \<Longrightarrow> moduleOf permission \<in> set Modules"
  using All_permissions_modules by (auto simp: list_all_iff)

lemma IsBindable_iff: "IsBindable m \<longleftrightarrow> m \<in> set Modules"
  by (auto simp: IsBindable_def UnbindableModules_def Modules_eq)

lemma Of_in_AllD:
  "Of_permission target action \<in> set All_permissions \<Longrightarrow> CHR '':'' \<notin> set target \<Longrightarrow> IsBindable target"
  using moduleOf_in_Modules by (fastforce simp: IsBindable_iff)

subsection \<open>What a grant covers\<close>

lemma wildcard_form:
  "length granted = length (moduleOf granted) + 2 \<and> ends_with granted '':*'' \<and> moduleOf granted = m
   \<longleftrightarrow> CHR '':'' \<notin> set m \<and> granted = m @ '':*''" (is "?l \<longleftrightarrow> ?r")
proof
  assume l: ?l
  then obtain q where q: "granted = q @ '':*''" by (auto elim: ends_withE)
  from l q have "length q = length m" by simp
  with q have "take (length m) granted = q" by simp
  moreover have "take (length m) granted = m" using l take_moduleOf [of granted] by metis
  ultimately have "q = m" by (rule trans [OF sym])
  with q l moduleOf_no_colon [of granted] show ?r by metis
qed simp

text \<open>A grant covers a required permission exactly when the permission is in the vocabulary and the
  grant is \<^verbatim>\<open>*:*\<close>, the permission itself, or \<^verbatim>\<open><module>:*\<close> for the permission's own module.\<close>

theorem Matches_permission_iff:
  "Matches_permission granted required \<longleftrightarrow>
     required \<in> set All_permissions \<and>
     (granted = ''*:*'' \<or> granted = required \<or> granted = moduleOf required @ '':*'')"
  using wildcard_form [of granted "moduleOf required"] moduleOf_no_colon [of required]
  by (auto simp: Matches_permission_def Exists_mem Everything_def Let_def)

lemma Matches_Exists: "Matches_permission granted required \<Longrightarrow> Exists_permission required"
  by (simp add: Matches_permission_def split: if_splits)

lemma Matches_Everything [simp]: "Matches_permission Everything required = Exists_permission required"
  by (simp add: Matches_permission_def)

lemma Matches_refl: "Exists_permission required \<Longrightarrow> Matches_permission required required"
  by (simp add: Matches_permission_def)

text \<open>No grant of any form, \<^verbatim>\<open>*:*\<close> included, covers an action of the document store \<^verbatim>\<open>emd\<close> or of the
  module manager \<^verbatim>\<open>emm\<close>.\<close>

theorem unbindable_never_matched:
  assumes "m \<in> set UnbindableModules"
  shows "\<not> Matches_permission granted (Of_permission m action)"
proof
  assume "Matches_permission granted (Of_permission m action)"
  then have "Of_permission m action \<in> set All_permissions"
    using Matches_Exists Exists_mem by blast
  moreover have "CHR '':'' \<notin> set m" using assms by (auto simp: UnbindableModules_def)
  ultimately have "IsBindable m" by (rule Of_in_AllD)
  with assms show False by (simp add: IsBindable_def)
qed

theorem unbindable_never_matched_witness:
  "''emd'' \<in> set UnbindableModules \<and> \<not> Matches_permission ''*:*'' (Of_permission ''emd'' ''replace-one'')"
  using unbindable_never_matched [of "''emd''" "''*:*''" "''replace-one''"]
  by (simp add: UnbindableModules_def)

end
