(* ===== verification/Builtin_Roles.thy ===== *)
theory Builtin_Roles
  imports Permissions
begin

text \<open>
  The roles every installation has, \<^verbatim>\<open>core/src/BuiltinRoles.cpp\<close>: two that are rules over the vocabulary
  (operator and reader), the short lists, and the application role merged from them. The lemmas show that
  the lists name only permissions that exist and what the rules admit once a grant of the role is matched
  against a request.
\<close>

subsection \<open>Selecting from the vocabulary\<close>

definition actionOf :: "string \<Rightarrow> string" where
  "actionOf permission =
     (case find_char CHR '':'' permission of
        None \<Rightarrow> permission
      | Some colon \<Rightarrow> drop (Suc colon) permission)"

definition select_permissions :: "(string \<Rightarrow> bool) \<Rightarrow> string list" where
  "select_permissions rule = filter rule All_permissions"

definition isDestructive :: "string \<Rightarrow> bool" where
  "isDestructive permission =
     (let action = actionOf permission in starts_with action ''delete-'' \<or> starts_with action ''purge-'')"

definition isWorkplaceLookup :: "string \<Rightarrow> bool" where
  "isWorkplaceLookup permission = (permission = ''eam:list-namespaces'')"

subsection \<open>The short lists\<close>

definition publisherPermissions :: "string list" where
  "publisherPermissions =
     sort [''ens:get-topic-ern'', ''ens:publish-message'', ''eqs:get-queue-ern'', ''eqs:send-message'']"

definition consumerPermissions :: "string list" where
  "consumerPermissions =
     sort [''ens:subscribe'', ''ens:unsubscribe'', ''eqs:delete-message'', ''eqs:get-queue-ern'',
           ''eqs:receive-messages'', ''eqs:set-message-visibility'', ''eqs:set-visibility'']"

definition transferPermissions :: "string list" where
  "transferPermissions =
     sort [''ets:create-directory'', ''ets:delete-directory'', ''ets:delete-file'', ''ets:get-file'',
           ''ets:list-directory'', ''ets:put-file'', ''ets:rename-file'',
           ''esm:delete-object'', ''esm:get-object'', ''esm:list-objects'', ''esm:put-object'',
           ''esm:complete-download'', ''esm:complete-upload'', ''esm:create-download'',
           ''esm:create-upload'', ''esm:download-part'', ''esm:upload-part'']"

definition nodePermissions :: "string list" where
  "nodePermissions =
     sort [''eap:issue-instance-credentials'', ''eap:register-node'', ''eap:renew-node'',
           ''eap:report-node-instance'', ''esm:complete-download'', ''esm:create-download'',
           ''esm:download-part'', ''esm:get-object'']"

definition merged :: "string list \<Rightarrow> string list \<Rightarrow> string list \<Rightarrow> string list" where
  "merged left right extra = unique_adjacent (sort (left @ right @ extra))"

definition applicationExtra :: "string list" where
  "applicationExtra =
     [''esm:get-object'', ''esm:get-object-size'', ''esm:put-object'', ''eqs:create-queue'',
      ''eqs:delete-queue'', ''eqs:list-queues'', ''eqs:add-queue-tag'', ''ens:list-subscriptions'',
      ''esm:subscribe'', ''esm:unsubscribe'', ''esm:list-subscriptions'', ''eap:report-load'',
      ''eap:acquire-egress-permit'', ''eap:release-egress-permit'', ''eap:report-egress-throttled'',
      ''eqs:get-message-count'', ''eam:list-user-groups'', ''emo:push-metrics'', ''ess:get-secret'']"

definition applicationPermissions :: "string list" where
  "applicationPermissions = merged publisherPermissions consumerPermissions applicationExtra"

subsection \<open>The table of roles\<close>

definition AccountAdministrator :: string where
  "AccountAdministrator = ''account-administrator''"
definition Operator :: string where
  "Operator = ''operator''"
definition Reader :: string where
  "Reader = ''reader''"
definition Publisher :: string where
  "Publisher = ''publisher''"
definition Consumer :: string where
  "Consumer = ''consumer''"
definition Application :: string where
  "Application = ''application''"
definition Transfer :: string where
  "Transfer = ''transfer''"
definition Node :: string where
  "Node = ''node''"

lemmas role_names = AccountAdministrator_def Operator_def Reader_def Publisher_def Consumer_def
  Application_def Transfer_def Node_def

definition operator_rule :: "string \<Rightarrow> bool" where
  "operator_rule permission =
     (if isDestructive permission then False
      else moduleOf permission \<noteq> ''eam'' \<or> isWorkplaceLookup permission)"

text \<open>The assignments to the map, in the order the code makes them.\<close>

definition role_assignments :: "(string \<times> string list) list" where
  "role_assignments =
     [(AccountAdministrator, [Everything]),
      (Operator, select_permissions operator_rule),
      (Reader, select_permissions IsRead),
      (Publisher, publisherPermissions),
      (Consumer, consumerPermissions),
      (Application, applicationPermissions),
      (Transfer, transferPermissions),
      (Node, nodePermissions)]"

definition roles :: "(string \<times> string list) list" where
  "roles = fold (\<lambda>(name, permissions). map_put name permissions) role_assignments []"

definition role_Names :: "string list" where
  "role_Names = map fst roles"

definition Exists_role :: "string \<Rightarrow> bool" where
  "Exists_role name = (map_of roles name \<noteq> None)"

definition PermissionsOf :: "string \<Rightarrow> string list" where
  "PermissionsOf name = (case map_of roles name of None \<Rightarrow> [] | Some permissions \<Rightarrow> permissions)"

subsection \<open>Looking a role up\<close>

lemma roles_lookup: "map_of roles = map_of (rev role_assignments)"
  unfolding roles_def by (simp add: omap.lookup_fold_put)

lemma roles_key_ordered: "key_ordered roles"
  unfolding roles_def by (rule omap.ok_fold_put) simp

lemma PermissionsOf_simps [simp]:
  "PermissionsOf AccountAdministrator = [Everything]"
  "PermissionsOf Operator = select_permissions operator_rule"
  "PermissionsOf Reader = select_permissions IsRead"
  "PermissionsOf Publisher = publisherPermissions"
  "PermissionsOf Consumer = consumerPermissions"
  "PermissionsOf Application = applicationPermissions"
  "PermissionsOf Transfer = transferPermissions"
  "PermissionsOf Node = nodePermissions"
  by (simp_all add: PermissionsOf_def roles_lookup role_assignments_def role_names)

lemma Exists_role_iff: "Exists_role name \<longleftrightarrow> name \<in> fst ` set role_assignments"
proof -
  have "Exists_role name \<longleftrightarrow> name \<in> fst ` set (rev role_assignments)"
    unfolding Exists_role_def roles_lookup by (simp only: map_of_eq_None_iff not_not)
  then show ?thesis by simp
qed

lemma PermissionsOf_cases:
  "PermissionsOf name \<noteq> [] \<Longrightarrow> name \<in> fst ` set role_assignments"
  using Exists_role_iff [of name] by (auto simp: PermissionsOf_def Exists_role_def split: option.splits)

lemma role_Names_eq:
  "role_Names = [''account-administrator'', ''application'', ''consumer'', ''node'', ''operator'',
     ''publisher'', ''reader'', ''transfer'']"
  by (simp add: role_Names_def roles_def role_assignments_def role_names)

subsection \<open>The lists name permissions that exist\<close>

lemma kAll_subset:
  "set kAll_ens \<subseteq> set All_permissions" "set kAll_eqs \<subseteq> set All_permissions"
  "set kAll_esm \<subseteq> set All_permissions" "set kAll_ets \<subseteq> set All_permissions"
  "set kAll_eap \<subseteq> set All_permissions" "set kAll_eam \<subseteq> set All_permissions"
  "set kAll_emo \<subseteq> set All_permissions" "set kAll_ess \<subseteq> set All_permissions"
  by (auto simp: All_permissions_def)

lemma publisher_in_vocabulary: "set publisherPermissions \<subseteq> set kAll_ens \<union> set kAll_eqs"
  by (simp add: publisherPermissions_def kAll_ens_def kAll_eqs_def)

lemma consumer_in_vocabulary: "set consumerPermissions \<subseteq> set kAll_ens \<union> set kAll_eqs"
  by (simp add: consumerPermissions_def kAll_ens_def kAll_eqs_def)

lemma transfer_in_vocabulary: "set transferPermissions \<subseteq> set kAll_ets \<union> set kAll_esm"
  by (simp add: transferPermissions_def kAll_ets_def kAll_esm_def)

lemma node_in_vocabulary: "set nodePermissions \<subseteq> set kAll_eap \<union> set kAll_esm"
  by (simp add: nodePermissions_def kAll_eap_def kAll_esm_def)

lemma applicationExtra_in_vocabulary:
  "set applicationExtra \<subseteq> set kAll_esm \<union> set kAll_eqs \<union> set kAll_ens \<union> set kAll_eap \<union> set kAll_eam
     \<union> set kAll_emo \<union> set kAll_ess"
  by (simp add: applicationExtra_def kAll_esm_def kAll_eqs_def kAll_ens_def kAll_eap_def kAll_eam_def
      kAll_emo_def kAll_ess_def)

lemmas lists_in_vocabulary = publisher_in_vocabulary consumer_in_vocabulary transfer_in_vocabulary
  node_in_vocabulary applicationExtra_in_vocabulary

lemma short_lists_exist:
  "set publisherPermissions \<subseteq> set All_permissions" "set consumerPermissions \<subseteq> set All_permissions"
  "set transferPermissions \<subseteq> set All_permissions" "set nodePermissions \<subseteq> set All_permissions"
  "set applicationExtra \<subseteq> set All_permissions"
  using lists_in_vocabulary kAll_subset by blast+

lemma set_applicationPermissions:
  "set applicationPermissions =
     set publisherPermissions \<union> set consumerPermissions \<union> set applicationExtra"
  by (auto simp: applicationPermissions_def merged_def)

lemma set_select_permissions: "set (select_permissions rule) = {p \<in> set All_permissions. rule p}"
  by (auto simp: select_permissions_def)

lemma role_permissions_exist:
  assumes "name \<noteq> AccountAdministrator" and "p \<in> set (PermissionsOf name)"
  shows "p \<in> set All_permissions"
proof -
  have "name \<in> fst ` set role_assignments" using assms(2) by (intro PermissionsOf_cases) auto
  then show ?thesis
    using assms short_lists_exist
    by (auto simp: role_assignments_def set_select_permissions set_applicationPermissions)
qed

text \<open>No entry of the vocabulary is itself a wildcard, so a grant of a listed permission covers only itself.\<close>

lemma no_wildcards: "list_all (\<lambda>p. \<not> ends_with p ''*'') All_permissions"
  by code_simp

lemma Matches_listed:
  assumes "p \<in> set All_permissions"
  shows "Matches_permission p required \<longleftrightarrow> p = required"
proof -
  have "\<not> ends_with p ''*''" using no_wildcards assms by (simp add: list_all_iff)
  then have "p \<noteq> ''*:*''" and "\<not> ends_with p '':*''"
    by (auto simp: ends_with_iff)
  with assms show ?thesis
    by (auto simp: Matches_permission_def Exists_mem Everything_def Let_def)
qed

lemma role_covers:
  assumes "name \<noteq> AccountAdministrator"
  shows "(\<exists>p \<in> set (PermissionsOf name). Matches_permission p required) \<longleftrightarrow>
         required \<in> set (PermissionsOf name) \<and> Exists_permission required"
proof -
  have "Matches_permission p required \<longleftrightarrow> p = required" if "p \<in> set (PermissionsOf name)" for p
    using that role_permissions_exist [OF assms] Matches_listed by blast
  moreover have "required \<in> set (PermissionsOf name) \<Longrightarrow> Exists_permission required"
    using role_permissions_exist [OF assms] Exists_mem by blast
  ultimately show ?thesis by blast
qed

text \<open>Every permission a built-in role other than the account administrator holds exists in the
  vocabulary, and the role covers exactly the permissions it lists: no built-in role widens itself
  through a wildcard.\<close>

theorem builtin_role_covers:
  assumes "name \<noteq> AccountAdministrator"
  shows "((\<exists>p \<in> set (PermissionsOf name). Matches_permission p required) \<longleftrightarrow>
          required \<in> set (PermissionsOf name) \<and> Exists_permission required) \<and>
         set (PermissionsOf name) \<subseteq> set All_permissions"
  using role_covers [OF assms] role_permissions_exist [OF assms] by blast

theorem builtin_role_covers_witness:
  "Node \<noteq> AccountAdministrator \<and> set (PermissionsOf Node) \<subseteq> set All_permissions \<and>
   (\<exists>p \<in> set (PermissionsOf Node). Matches_permission p ''eap:renew-node'')"
proof -
  have n: "Node \<noteq> AccountAdministrator" by (simp add: role_names)
  have m: "''eap:renew-node'' \<in> set (PermissionsOf Node)" by (simp add: nodePermissions_def)
  note covers = builtin_role_covers [OF n]
  have "Exists_permission ''eap:renew-node''" using m covers Exists_mem by blast
  with m covers n show ?thesis by blast
qed

text \<open>What the two rule-based roles admit. An operator is covered for exactly the permissions that
  neither delete nor purge and are not access management, listing namespaces excepted; a reader for
  exactly the permissions whose action is named as a read.\<close>

theorem operator_and_reader_admit:
  "((\<exists>p \<in> set (PermissionsOf Operator). Matches_permission p required) \<longleftrightarrow>
      required \<in> set All_permissions \<and> \<not> isDestructive required \<and>
      (moduleOf required = ''eam'' \<longrightarrow> required = ''eam:list-namespaces'')) \<and>
   ((\<exists>p \<in> set (PermissionsOf Reader). Matches_permission p required) \<longleftrightarrow>
      required \<in> set All_permissions \<and> IsRead required)"
proof -
  have "Operator \<noteq> AccountAdministrator" and "Reader \<noteq> AccountAdministrator"
    by (simp_all add: role_names)
  note c = this [THEN role_covers, of required]
  show ?thesis
    unfolding c unfolding PermissionsOf_simps set_select_permissions
    by (auto simp: operator_rule_def isWorkplaceLookup_def Exists_mem)
qed

theorem operator_and_reader_admit_witness:
  "(\<exists>p \<in> set (PermissionsOf Operator). Matches_permission p ''eqs:send-message'') \<and>
   \<not> (\<exists>p \<in> set (PermissionsOf Operator). Matches_permission p ''eqs:purge-queue'') \<and>
   \<not> (\<exists>p \<in> set (PermissionsOf Reader). Matches_permission p ''eqs:send-message'')"
proof -
  have m: "''eqs:send-message'' \<in> set All_permissions"
    using kAll_subset(2) by (auto simp: kAll_eqs_def)
  show ?thesis
    unfolding operator_and_reader_admit [THEN conjunct1] operator_and_reader_admit [THEN conjunct2]
    by (simp add: m isDestructive_def actionOf_def moduleOf_def IsRead_def permission_action_def)
qed

end
