(* ===== verification/Authorization.thy ===== *)
theory Authorization
  imports Builtin_Roles
begin

text \<open>
  The role gate, \<^verbatim>\<open>database/src/Authorization.cpp\<close>: a request is decided from the caller's grants alone. The
  lemmas give the decision as the existence of one grant that covers the request, and from that the
  properties the model rests on: no ordering, no precedence, no deny rules, closed to the modules that
  cannot be granted.
\<close>

record AuthorizationRequest =
  req_target :: string
  req_action :: string
  req_accountId :: string
  req_nameSpace :: string
  req_resourceErn :: string

record AuthorizationResult =
  allowed :: bool
  reason :: string
  result_role :: string

record Grant =
  grant_oid :: string
  grant_role :: string
  principal :: string
  grant_accountId :: string
  namespaces :: "string list"
  resources :: "string list"
  grant_granted :: millis
  grant_grantedBy :: string

type_synonym RoleLookup = "string \<Rightarrow> string \<Rightarrow> string list option"

definition kEverything :: string where
  "kEverything = ''*''"

definition coversNamespace :: "Grant \<Rightarrow> string \<Rightarrow> bool" where
  "coversNamespace grant nameSpace =
     (if kEverything \<in> set (namespaces grant) then True else nameSpace \<in> set (namespaces grant))"

definition ResourceMatches :: "string \<Rightarrow> string \<Rightarrow> bool" where
  "ResourceMatches pattern resourceErn =
     (if pattern = kEverything then True
      else if pattern = resourceErn then True
      else if \<not> ends_with pattern ''*'' then False
      else starts_with resourceErn (take (length pattern - 1) pattern))"

definition coversResource :: "Grant \<Rightarrow> string \<Rightarrow> bool" where
  "coversResource grant resourceErn =
     (if resourceErn = [] then True
      else list_ex (\<lambda>pattern. ResourceMatches pattern resourceErn) (resources grant))"

text \<open>The loop over the grants; \<open>considered\<close> counts the ones that applied.\<close>

fun Allows_loop ::
  "AuthorizationRequest \<Rightarrow> RoleLookup \<Rightarrow> string \<Rightarrow> Grant list \<Rightarrow> int \<Rightarrow> AuthorizationResult" where
  "Allows_loop request lookup required [] considered =
     (if considered = 0 then
        \<lparr>allowed = False,
         reason = ''no grant applies to this caller in account '' @ [CHR 0x27] @ req_accountId request @
           [CHR 0x27] @ '', namespace '' @ [CHR 0x27] @ req_nameSpace request @ [CHR 0x27] @
           (if req_resourceErn request = [] then []
            else '', resource '' @ [CHR 0x27] @ req_resourceErn request @ [CHR 0x27]),
         result_role = []\<rparr>
      else
        \<lparr>allowed = False,
         reason = ''no role granted here holds '' @ [CHR 0x27] @ required @ [CHR 0x27],
         result_role = []\<rparr>)"
| "Allows_loop request lookup required (grant # grants) considered =
     (if grant_accountId grant \<noteq> req_accountId request then Allows_loop request lookup required grants considered
      else if \<not> coversNamespace grant (req_nameSpace request) then Allows_loop request lookup required grants considered
      else if \<not> coversResource grant (req_resourceErn request) then Allows_loop request lookup required grants considered
      else
        (case lookup (grant_accountId grant) (grant_role grant) of
           None \<Rightarrow> Allows_loop request lookup required grants (considered + 1)
         | Some permissions \<Rightarrow>
             if list_ex (\<lambda>granted. Matches_permission granted required) permissions then
               \<lparr>allowed = True,
                reason = ''granted by role '' @ [CHR 0x27] @ grant_role grant @ [CHR 0x27] @ '' to '' @ principal grant,
                result_role = grant_role grant\<rparr>
             else Allows_loop request lookup required grants (considered + 1)))"

definition Allows :: "AuthorizationRequest \<Rightarrow> Grant list \<Rightarrow> RoleLookup \<Rightarrow> AuthorizationResult" where
  "Allows request grants lookup =
     (let required = Of_permission (req_target request) (req_action request) in
      if \<not> Exists_permission required then
        \<lparr>allowed = False,
         reason = [CHR 0x27] @ required @ [CHR 0x27] @ '' is not a permission any role can hold'',
         result_role = []\<rparr>
      else Allows_loop request lookup required grants 0)"

subsection \<open>The decision\<close>

text \<open>One grant covers a request: same account, namespace and resource within it, and a role that resolves
  to something matching the permission.\<close>

definition grant_covers :: "RoleLookup \<Rightarrow> AuthorizationRequest \<Rightarrow> Grant \<Rightarrow> bool" where
  "grant_covers lookup request grant \<longleftrightarrow>
     grant_accountId grant = req_accountId request \<and>
     coversNamespace grant (req_nameSpace request) \<and>
     coversResource grant (req_resourceErn request) \<and>
     (\<exists>permissions. lookup (grant_accountId grant) (grant_role grant) = Some permissions \<and>
        (\<exists>granted \<in> set permissions.
           Matches_permission granted (Of_permission (req_target request) (req_action request))))"

lemma Allows_loop_allowed:
  "allowed (Allows_loop request lookup (Of_permission (req_target request) (req_action request)) grants n) \<longleftrightarrow>
   (\<exists>grant \<in> set grants. grant_covers lookup request grant)"
proof (induction grants arbitrary: n)
  case (Cons grant grants)
  then show ?case
    by (auto simp: grant_covers_def list_ex_iff split: option.splits)
qed simp

lemma grant_covers_Exists:
  "grant_covers lookup request grant \<Longrightarrow>
   Exists_permission (Of_permission (req_target request) (req_action request))"
  unfolding grant_covers_def using Matches_Exists by blast

lemma Allows_allowed:
  "allowed (Allows request grants lookup) \<longleftrightarrow> (\<exists>grant \<in> set grants. grant_covers lookup request grant)"
  using grant_covers_Exists by (auto simp: Allows_def Let_def Allows_loop_allowed)

text \<open>(C37) A request is allowed exactly when some grant of the caller covers it: the grant is of the
  request's account, holds its namespace (or every one), holds the named resource (or the action names
  none) and its role resolves to a permission matching the action.\<close>

theorem Allows_iff:
  "allowed (Allows request grants lookup) \<longleftrightarrow>
     (\<exists>grant \<in> set grants.
        grant_accountId grant = req_accountId request \<and>
        (''*'' \<in> set (namespaces grant) \<or> req_nameSpace request \<in> set (namespaces grant)) \<and>
        (req_resourceErn request = [] \<or>
           (\<exists>pattern \<in> set (resources grant). ResourceMatches pattern (req_resourceErn request))) \<and>
        (\<exists>permissions. lookup (grant_accountId grant) (grant_role grant) = Some permissions \<and>
           (\<exists>granted \<in> set permissions.
              Matches_permission granted (Of_permission (req_target request) (req_action request)))))"
  unfolding Allows_allowed grant_covers_def coversNamespace_def coversResource_def kEverything_def
  by (auto simp: list_ex_iff)

text \<open>There are no deny rules and no order: a caller given more grants is never refused what fewer
  grants allowed, and the order in which grants are listed does not change the decision.\<close>

theorem Allows_monotone:
  assumes "set grants \<subseteq> set wider"
  shows "(allowed (Allows request grants lookup) \<longrightarrow> allowed (Allows request wider lookup)) \<and>
         (set wider \<subseteq> set grants \<longrightarrow>
          allowed (Allows request wider lookup) = allowed (Allows request grants lookup))"
  using assms by (auto simp: Allows_allowed)

definition sample_grant :: Grant where
  "sample_grant = \<lparr>grant_oid = ''g1'', grant_role = ''consumer'', principal = ''ern:eam:user:ann'', grant_accountId = ''1'',
     namespaces = [''dev''], resources = [''ern:eqs:queue:order-*''],
     grant_granted = 0, grant_grantedBy = ''root''\<rparr>"

definition sample_request :: AuthorizationRequest where
  "sample_request = \<lparr>req_target = ''eqs'', req_action = ''receive-messages'', req_accountId = ''1'',
     req_nameSpace = ''dev'', req_resourceErn = ''ern:eqs:queue:order-in''\<rparr>"

definition builtin_lookup :: RoleLookup where
  "builtin_lookup accountId role = (if Exists_role role then Some (PermissionsOf role) else None)"

lemma sample_allowed: "grant_covers builtin_lookup sample_request sample_grant"
proof -
  have r: "Exists_role ''consumer''" by (simp add: Exists_role_iff role_assignments_def role_names)
  have m: "''eqs:receive-messages'' \<in> set consumerPermissions" by (simp add: consumerPermissions_def)
  then have "''eqs:receive-messages'' \<in> set All_permissions" using short_lists_exist(2) by blast
  then have "Matches_permission ''eqs:receive-messages'' ''eqs:receive-messages''"
    by (simp add: Matches_refl Exists_mem)
  moreover have "PermissionsOf ''consumer'' = consumerPermissions"
    using PermissionsOf_simps(5) by (simp add: Consumer_def)
  ultimately show ?thesis using r m
    by (auto simp: grant_covers_def builtin_lookup_def sample_request_def sample_grant_def
        coversNamespace_def coversResource_def ResourceMatches_def kEverything_def ends_with_def
        Of_permission_def)
qed

theorem Allows_monotone_witness:
  "set [sample_grant] \<subseteq> set [sample_grant, sample_grant\<lparr>grant_accountId := ''2''\<rparr>] \<and>
   allowed (Allows sample_request [sample_grant, sample_grant\<lparr>grant_accountId := ''2''\<rparr>] builtin_lookup)"
proof -
  have "set [sample_grant] \<subseteq> set [sample_grant, sample_grant\<lparr>grant_accountId := ''2''\<rparr>]" by simp
  moreover from this have
    "allowed (Allows sample_request [sample_grant, sample_grant\<lparr>grant_accountId := ''2''\<rparr>] builtin_lookup)"
    by (rule Allows_monotone [THEN conjunct1, THEN mp]) (simp add: Allows_allowed sample_allowed)
  ultimately show ?thesis by blast
qed

text \<open>The reason of an allowed request names a grant that covers it.\<close>

lemma Allows_loop_role:
  "allowed (Allows_loop request lookup (Of_permission (req_target request) (req_action request)) grants n) \<Longrightarrow>
   \<exists>grant \<in> set grants. grant_covers lookup request grant \<and>
     result_role (Allows_loop request lookup (Of_permission (req_target request) (req_action request)) grants n)
       = grant_role grant"
proof (induction grants arbitrary: n)
  case (Cons grant grants)
  then show ?case
    by (auto simp: grant_covers_def list_ex_iff split: option.splits if_splits)
qed (simp split: if_splits)

text \<open>No set of grants and no definition of roles reaches the document store or the module manager: a
  request for an action of \<^verbatim>\<open>emd\<close> or \<^verbatim>\<open>emm\<close> is refused, and so is any action outside the vocabulary.\<close>

theorem Allows_closed:
  assumes "req_target request \<in> set UnbindableModules \<or>
           Of_permission (req_target request) (req_action request) \<notin> set All_permissions"
  shows "\<not> allowed (Allows request grants lookup)"
proof
  assume "allowed (Allows request grants lookup)"
  then have e: "Of_permission (req_target request) (req_action request) \<in> set All_permissions"
    using grant_covers_Exists Exists_mem by (auto simp: Allows_allowed)
  with assms have m: "req_target request \<in> set UnbindableModules" by blast
  then have "CHR '':'' \<notin> set (req_target request)" by (auto simp: UnbindableModules_def)
  with e have "IsBindable (req_target request)" by (rule Of_in_AllD)
  with m show False by (simp add: IsBindable_def)
qed

theorem Allows_closed_witness:
  "\<not> allowed (Allows (sample_request\<lparr>req_target := ''emm'', req_action := ''import''\<rparr>) [sample_grant]
     (\<lambda>_ _. Some [''*:*'']))"
  by (rule Allows_closed) (simp add: UnbindableModules_def)

text \<open>When a request is allowed, the result names the role of a grant that covers it, so that the
  answer to why a caller may do something is one of the grants that let it.\<close>

theorem Allows_names_covering_grant:
  assumes "allowed (Allows request grants lookup)"
  shows "\<exists>grant \<in> set grants. grant_covers lookup request grant \<and>
           result_role (Allows request grants lookup) = grant_role grant"
  using assms Allows_loop_role by (simp add: Allows_def Let_def split: if_splits)

theorem Allows_names_covering_grant_witness:
  "\<exists>grant \<in> set [sample_grant]. grant_covers builtin_lookup sample_request grant \<and>
     result_role (Allows sample_request [sample_grant] builtin_lookup) = grant_role grant"
  by (rule Allows_names_covering_grant) (simp add: Allows_allowed sample_allowed)

subsection \<open>Resource patterns\<close>

text \<open>A resource pattern covers exactly itself, everything when it is a lone star, and with a trailing
  star every resource that starts with what stands before the star. A pattern without a trailing star
  never covers anything but itself.\<close>

lemma ResourceMatches_iff:
  "ResourceMatches pattern resourceErn \<longleftrightarrow>
     pattern = resourceErn \<or> (\<exists>p. pattern = p @ ''*'' \<and> prefix p resourceErn)"
proof (cases "ends_with pattern ''*''")
  case True
  then obtain p where p: "pattern = p @ ''*''" by (rule ends_withE)
  then have "take (length pattern - 1) pattern = p" by simp
  with p True show ?thesis by (auto simp: ResourceMatches_def kEverything_def)
next
  case False
  then have "\<nexists>p. pattern = p @ ''*''" and "pattern \<noteq> ''*''" by (auto simp: ends_with_def)
  with False show ?thesis by (simp add: ResourceMatches_def kEverything_def)
qed

end
