(* ===== verification/Bson.thy ===== *)
theory Bson
  imports Euclid_Prelude "HOL-Library.Word"
begin

text \<open>
  The values of the document store and how it compares and matches them: the first half of
  \<^verbatim>\<open>database/src/emd/DocumentStore.cpp\<close> (\<^verbatim>\<open>isNumeric\<close> to \<^verbatim>\<open>matches\<close>).

  A BSON document is the list of its fields in order; \<^verbatim>\<open>document[name]\<close> is the first field of that name, so
  \<^const>\<open>map_of\<close>. A value is one of the types the store gives a meaning to or the repositories write; timestamps
  and the other exotic types of BSON are left out. Two values have the same bytes exactly
  when they are equal here, except that a double's sign of zero and the payload of a NaN are not represented.

  A double is a multiple of the least subnormal, two to the power of -1074, so the finite doubles are integers and their
  comparison is that of integers; \<open>Finite (2 ^ 1074)\<close> is \<open>1.0\<close>. Conversions and sums round to 53 significant
  bits, ties to even, and overflow to infinity.

  Everything the code throws is an error value. The expression engine of \<^verbatim>\<open>std::regex\<close> is a parameter:
  \<open>regex_search E pattern\<close> is \<open>None\<close> when the constructor of the expression throws, and otherwise the search
  function. The clock and the generator of object ids are the other two parameters of the environment.
\<close>

subsection \<open>Values\<close>

datatype double = Finite int | PosInf | NegInf | NaN

datatype bson =
    BDouble double
  | BString string
  | BDoc "(string \<times> bson) list"
  | BArray "bson list"
  | BBinary "8 word list"
  | BOid string
  | BBool bool
  | BDate int
  | BNull
  | BInt32 int
  | BInt64 int

type_synonym doc = "(string \<times> bson) list"

datatype store_error =
    UnknownQueryOperator string
  | NotAnOperator string
  | NestedPath string string
  | UnknownUpdateOperator string
  | DuplicateKey string
  | WrongType
  | RegexError

record store_env =
  regex_search :: "string \<Rightarrow> (string \<Rightarrow> bool) option"
  clock :: millis
  new_oid :: string

text \<open>The numeric values of \<^verbatim>\<open>bsoncxx::type\<close>.\<close>

fun type_of :: "bson \<Rightarrow> nat" where
  "type_of (BDouble _) = 1"
| "type_of (BString _) = 2"
| "type_of (BDoc _) = 3"
| "type_of (BArray _) = 4"
| "type_of (BBinary _) = 5"
| "type_of (BOid _) = 7"
| "type_of (BBool _) = 8"
| "type_of (BDate _) = 9"
| "type_of BNull = 10"
| "type_of (BInt32 _) = 16"
| "type_of (BInt64 _) = 18"

fun isNumeric :: "nat \<Rightarrow> bool" where
  "isNumeric t \<longleftrightarrow> t = 16 \<or> t = 18 \<or> t = 1"

subsection \<open>Doubles\<close>

function bit_length :: "nat \<Rightarrow> nat" where
  "bit_length n = (if n = 0 then 0 else Suc (bit_length (n div 2)))"
  by pat_completeness auto
termination
  by (relation "measure id") auto

declare bit_length.simps [simp del]

text \<open>A magnitude rounded to 53 significant bits, to nearest with ties to even.\<close>

definition round_magnitude :: "nat \<Rightarrow> nat" where
  "round_magnitude n =
     (if bit_length n \<le> 53 then n
      else let s = bit_length n - 53; q = n div 2 ^ s; r = n mod 2 ^ s; half = 2 ^ (s - 1) in
        (if half < r \<or> (r = half \<and> odd q) then Suc q else q) * 2 ^ s)"

definition round_double :: "int \<Rightarrow> double" where
  "round_double n =
     (let m = round_magnitude (nat \<bar>n\<bar>) in
      if 2 ^ 2098 \<le> m then (if 0 < n then PosInf else NegInf) else Finite (sgn n * int m))"

definition double_of_int :: "int \<Rightarrow> double" where
  "double_of_int i = round_double (i * 2 ^ 1074)"

text \<open>\<^verbatim>\<open>operator<\<close> on doubles: false as soon as a NaN takes part.\<close>

fun double_less :: "double \<Rightarrow> double \<Rightarrow> bool" where
  "double_less (Finite a) (Finite b) \<longleftrightarrow> a < b"
| "double_less NegInf (Finite _) \<longleftrightarrow> True"
| "double_less NegInf PosInf \<longleftrightarrow> True"
| "double_less (Finite _) PosInf \<longleftrightarrow> True"
| "double_less _ _ \<longleftrightarrow> False"

fun double_add :: "double \<Rightarrow> double \<Rightarrow> double" where
  "double_add (Finite a) (Finite b) = round_double (a + b)"
| "double_add NaN _ = NaN"
| "double_add _ NaN = NaN"
| "double_add PosInf NegInf = NaN"
| "double_add NegInf PosInf = NaN"
| "double_add PosInf _ = PosInf"
| "double_add _ PosInf = PosInf"
| "double_add NegInf _ = NegInf"
| "double_add _ NegInf = NegInf"

text \<open>Sums of \<^verbatim>\<open>long\<close> at their 64 bits.\<close>

definition wrap64 :: "int \<Rightarrow> int" where
  "wrap64 i = (i + 2 ^ 63) mod 2 ^ 64 - 2 ^ 63"

text \<open>The truncation towards zero of \<^verbatim>\<open>static_cast<long>\<close>; a value outside the range of \<^verbatim>\<open>long\<close> is undefined in
  the language and is given the value the x86-64 conversion gives it.\<close>

fun long_of_double :: "double \<Rightarrow> int" where
  "long_of_double (Finite n) =
     (let q = sgn n * (\<bar>n\<bar> div 2 ^ 1074) in if - (2 ^ 63) \<le> q \<and> q < 2 ^ 63 then q else - (2 ^ 63))"
| "long_of_double _ = - (2 ^ 63)"

fun asDouble :: "bson \<Rightarrow> double" where
  "asDouble (BInt32 i) = double_of_int i"
| "asDouble (BInt64 i) = double_of_int i"
| "asDouble (BDouble d) = d"
| "asDouble _ = Finite 0"

fun asLong :: "bson \<Rightarrow> int" where
  "asLong (BInt32 i) = i"
| "asLong (BInt64 i) = i"
| "asLong (BDouble d) = long_of_double d"
| "asLong _ = 0"

subsection \<open>Comparing\<close>

text \<open>The three-way idiom \<^verbatim>\<open>l < r ? -1 : (l > r ? 1 : 0)\<close>.\<close>

definition three_way :: "('a \<Rightarrow> 'a \<Rightarrow> bool) \<Rightarrow> 'a \<Rightarrow> 'a \<Rightarrow> int" where
  "three_way lt l r = (if lt l r then -1 else if lt r l then 1 else 0)"

fun compare_same :: "bson \<Rightarrow> bson \<Rightarrow> int" where
  "compare_same (BString l) (BString r) = three_way (<) l r"
| "compare_same (BBool l) (BBool r) = (if l = r then 0 else if \<not> l then -1 else 1)"
| "compare_same (BDate l) (BDate r) = three_way (<) l r"
| "compare_same (BOid l) (BOid r) = three_way (<) l r"
| "compare_same _ _ = 0"

definition compare_bson :: "bson \<Rightarrow> bson \<Rightarrow> int" where
  "compare_bson left right =
     (if isNumeric (type_of left) \<and> isNumeric (type_of right)
      then three_way double_less (asDouble left) (asDouble right)
      else if type_of left \<noteq> type_of right
      then (if type_of left < type_of right then -1 else 1)
      else compare_same left right)"

definition equals_bson :: "bson \<Rightarrow> bson \<Rightarrow> bool" where
  "equals_bson left right =
     (if isNumeric (type_of left) \<and> isNumeric (type_of right) then compare_bson left right = 0
      else if type_of left \<noteq> type_of right then False
      else compare_bson left right = 0)"

subsection \<open>Paths\<close>

function resolve :: "doc \<Rightarrow> string \<Rightarrow> bson list" where
  "resolve document path =
     (case find_char CHR ''.'' path of
        None \<Rightarrow> (case map_of document path of None \<Rightarrow> [] | Some v \<Rightarrow> [v])
      | Some dot \<Rightarrow>
          (case map_of document (take dot path) of
             Some (BDoc d) \<Rightarrow> resolve d (drop (Suc dot) path)
           | Some (BArray es) \<Rightarrow>
               concat (map (\<lambda>e. case e of BDoc d \<Rightarrow> resolve d (drop (Suc dot) path) | _ \<Rightarrow> []) es)
           | _ \<Rightarrow> []))"
  by pat_completeness auto
termination
  by (relation "measure (\<lambda>(document, path). length path)") (auto dest!: find_char_SomeD)

declare resolve.simps [simp del]

definition valuesAt :: "doc \<Rightarrow> string \<Rightarrow> bson list" where
  "valuesAt document path = resolve document path"

subsection \<open>Matching\<close>

text \<open>One operator of an operator document, on the values the path reached.\<close>

definition matchesOperator :: "store_env \<Rightarrow> bson list \<Rightarrow> string \<Rightarrow> bson \<Rightarrow> store_error + bool" where
  "matchesOperator E values name operand =
     (let satisfied = (\<lambda>predicate. list_ex predicate values) in
      if name = ''$eq'' then Inr (satisfied (\<lambda>v. equals_bson v operand))
      else if name = ''$ne'' then Inr (\<not> satisfied (\<lambda>v. equals_bson v operand))
      else if name = ''$gt'' then Inr (satisfied (\<lambda>v. compare_bson v operand > 0))
      else if name = ''$gte'' then Inr (satisfied (\<lambda>v. compare_bson v operand \<ge> 0))
      else if name = ''$lt'' then Inr (satisfied (\<lambda>v. compare_bson v operand < 0))
      else if name = ''$lte'' then Inr (satisfied (\<lambda>v. compare_bson v operand \<le> 0))
      else if name = ''$in'' \<or> name = ''$nin'' then
        (case operand of
           BArray candidates \<Rightarrow>
             (let anyIn = list_ex (\<lambda>candidate. satisfied (\<lambda>v. equals_bson v candidate)) candidates in
              Inr (if name = ''$in'' then anyIn else \<not> anyIn))
         | _ \<Rightarrow> Inl WrongType)
      else if name = ''$exists'' then
        (let wanted = (case operand of BBool b \<Rightarrow> b | _ \<Rightarrow> True) in Inr ((values = []) \<noteq> wanted))
      else if name = ''$regex'' then
        (case operand of
           BString pattern \<Rightarrow>
             (case regex_search E pattern of
                None \<Rightarrow> Inl RegexError
              | Some search \<Rightarrow> Inr (satisfied (\<lambda>v. case v of BString s \<Rightarrow> search s | _ \<Rightarrow> False)))
         | _ \<Rightarrow> Inl WrongType)
      else if name = ''$size'' then Inr False
      else Inl (UnknownQueryOperator name))"

fun matchesOperators :: "store_env \<Rightarrow> bson list \<Rightarrow> doc \<Rightarrow> store_error + bool" where
  "matchesOperators E values [] = Inr True"
| "matchesOperators E values ((name, operand) # ops) =
     (case matchesOperator E values name operand of
        Inl e \<Rightarrow> Inl e
      | Inr False \<Rightarrow> Inr False
      | Inr True \<Rightarrow> matchesOperators E values ops)"

text \<open>An operator document is told apart by the leading dollar of its first key.\<close>

fun operatorsOf :: "bson \<Rightarrow> doc option" where
  "operatorsOf (BDoc ((name, operand) # ops)) =
     (if starts_with name ''$'' then Some ((name, operand) # ops) else None)"
| "operatorsOf _ = None"

definition matchesCondition :: "store_env \<Rightarrow> bson list \<Rightarrow> bson \<Rightarrow> store_error + bool" where
  "matchesCondition E values condition =
     (case operatorsOf condition of
        Some ops \<Rightarrow> matchesOperators E values ops
      | None \<Rightarrow> Inr (list_ex (\<lambda>v. equals_bson v condition) values))"

text \<open>The \<^verbatim>\<open>$size\<close> condition: the operand, when the first key of the condition is \<^verbatim>\<open>$size\<close>.\<close>

fun sizeOperand :: "bson \<Rightarrow> bson option" where
  "sizeOperand (BDoc ((name, operand) # ops)) = (if name = ''$size'' then Some operand else None)"
| "sizeOperand _ = None"

definition matchesSize :: "doc \<Rightarrow> string \<Rightarrow> bson \<Rightarrow> bool" where
  "matchesSize document key operand =
     (case map_of document key of Some (BArray es) \<Rightarrow> int (length es) = asLong operand | _ \<Rightarrow> False)"

definition logical :: "string \<Rightarrow> bool" where
  "logical key \<longleftrightarrow> key = ''$and'' \<or> key = ''$or'' \<or> key = ''$nor''"

definition logical_holds :: "string \<Rightarrow> bool list \<Rightarrow> bool" where
  "logical_holds key oks =
     (if key = ''$and'' then list_all id oks
      else if key = ''$or'' then list_ex id oks
      else \<not> list_ex id oks)"

function matches :: "store_env \<Rightarrow> doc \<Rightarrow> doc \<Rightarrow> store_error + bool"
  and matchesBranches :: "store_env \<Rightarrow> doc \<Rightarrow> bson list \<Rightarrow> store_error + bool list" where
  "matches E document [] = Inr True"
| "matches E document ((key, condition) # rest) =
     (if logical key then
        (case condition of
           BArray branches \<Rightarrow>
             (case matchesBranches E document branches of
                Inl e \<Rightarrow> Inl e
              | Inr oks \<Rightarrow> if logical_holds key oks then matches E document rest else Inr False)
         | _ \<Rightarrow> Inl WrongType)
      else if starts_with key ''$'' then Inl (UnknownQueryOperator key)
      else (case sizeOperand condition of
              Some operand \<Rightarrow> if matchesSize document key operand then matches E document rest else Inr False
            | None \<Rightarrow>
                (case matchesCondition E (valuesAt document key) condition of
                   Inl e \<Rightarrow> Inl e
                 | Inr ok \<Rightarrow> if ok then matches E document rest else Inr False)))"
| "matchesBranches E document [] = Inr []"
| "matchesBranches E document (branch # branches) =
     (case branch of
        BDoc f \<Rightarrow>
          (case matches E document f of
             Inl e \<Rightarrow> Inl e
           | Inr ok \<Rightarrow> map_sum id (\<lambda>oks. ok # oks) (matchesBranches E document branches))
      | _ \<Rightarrow> Inl WrongType)"
  by pat_completeness auto
termination
  by (relation "measure (case_sum (\<lambda>(E, d, f). size (BDoc f)) (\<lambda>(E, d, bs). size (BArray bs)))") auto


subsection \<open>The order of values\<close>

lemma three_way_refl [simp]: "\<not> lt x x \<Longrightarrow> three_way lt x x = 0"
  by (simp add: three_way_def)

lemma three_way_linorder [simp]:
  "three_way (<) (x :: 'a::linorder) y = 0 \<longleftrightarrow> x = y"
  "three_way (<) x y < 0 \<longleftrightarrow> x < y"
  "three_way (<) x y \<le> 0 \<longleftrightarrow> x \<le> y"
  "0 < three_way (<) x y \<longleftrightarrow> y < x"
  "0 \<le> three_way (<) x y \<longleftrightarrow> y \<le> x"
  by (auto simp: three_way_def)

lemma double_less_irrefl [simp]: "\<not> double_less x x"
  by (cases x) auto

lemma double_less_asym: "double_less x y \<Longrightarrow> \<not> double_less y x"
  by (cases x; cases y) auto

lemma three_way_double_swap: "three_way double_less y x = - three_way double_less x y"
  by (auto simp: three_way_def dest: double_less_asym)

lemma double_le_trans:
  "y \<noteq> NaN \<Longrightarrow> \<not> double_less y x \<Longrightarrow> \<not> double_less z y \<Longrightarrow> \<not> double_less z x"
  by (cases x; cases y; cases z) auto

lemma compare_same_refl [simp]: "compare_same v v = 0"
  by (cases v) auto

lemma compare_refl [simp]: "compare_bson v v = 0"
  by (simp add: compare_bson_def)

lemma compare_same_swap: "compare_same y x = - compare_same x y"
  by (cases x; cases y) (auto simp: three_way_def)

lemma compare_swap: "compare_bson y x = - compare_bson x y"
  by (simp add: compare_bson_def three_way_double_swap [of "asDouble y"] compare_same_swap [of y])

lemma equals_refl [simp]: "equals_bson v v"
  by (simp add: equals_bson_def)

lemma equals_sym: "equals_bson x y \<longleftrightarrow> equals_bson y x"
  by (auto simp: equals_bson_def compare_swap [of y x])

text \<open>The values a sort can order: no NaN, and no double beside a value that is not a number.\<close>

definition is_double :: "bson \<Rightarrow> bool" where
  "is_double v \<longleftrightarrow> type_of v = 1"

definition orderable :: "bson set \<Rightarrow> bool" where
  "orderable S \<longleftrightarrow> BDouble NaN \<notin> S \<and>
     ((\<forall>v \<in> S. \<not> is_double v) \<or> (\<forall>v \<in> S. isNumeric (type_of v)))"

definition value_rank :: "bson \<Rightarrow> nat" where
  "value_rank v = (if isNumeric (type_of v) then 16 else type_of v)"

lemma double_of_int_not_NaN [simp]: "double_of_int i \<noteq> NaN"
  by (simp add: double_of_int_def round_double_def Let_def)

lemma asDouble_not_NaN: "v \<noteq> BDouble NaN \<Longrightarrow> asDouble v \<noteq> NaN"
  by (cases v) auto

lemma compare_by_class:
  assumes "orderable S" and "x \<in> S" and "y \<in> S"
  shows "compare_bson x y =
    (if value_rank x \<noteq> value_rank y then three_way (<) (value_rank x) (value_rank y)
     else if isNumeric (type_of x) then three_way double_less (asDouble x) (asDouble y)
     else compare_same x y)"
proof -
  have "(is_double x \<longrightarrow> isNumeric (type_of y)) \<and> (is_double y \<longrightarrow> isNumeric (type_of x))"
    using assms by (auto simp: orderable_def)
  then show ?thesis
    by (cases x; cases y) (auto simp: compare_bson_def value_rank_def is_double_def three_way_def)
qed

lemma compare_same_trans:
  "type_of x = type_of y \<Longrightarrow> type_of y = type_of z \<Longrightarrow> compare_same x y \<le> 0 \<Longrightarrow> compare_same y z \<le> 0 \<Longrightarrow>
   compare_same x z \<le> 0"
  by (cases x; cases y; simp; cases z; auto split: if_splits)

lemma value_rank_numeric: "value_rank x = value_rank y \<Longrightarrow> isNumeric (type_of x) = isNumeric (type_of y)"
  by (cases x; cases y) (simp_all add: value_rank_def)

lemma compare_trans:
  assumes S: "orderable S" "x \<in> S" "y \<in> S" "z \<in> S"
    and le: "compare_bson x y \<le> 0" "compare_bson y z \<le> 0"
  shows "compare_bson x z \<le> 0"
proof (cases "value_rank x = value_rank y \<and> value_rank y = value_rank z")
  case True
  then have same: "isNumeric (type_of x) = isNumeric (type_of y)" "isNumeric (type_of y) = isNumeric (type_of z)"
    using value_rank_numeric by blast+
  show ?thesis
  proof (cases "isNumeric (type_of x)")
    case num: True
    have "asDouble y \<noteq> NaN" using S by (intro asDouble_not_NaN) (auto simp: orderable_def)
    moreover have "\<not> double_less (asDouble y) (asDouble x)" "\<not> double_less (asDouble z) (asDouble y)"
      using le True num same compare_by_class [OF S(1)] S
      by (auto simp: three_way_def dest: double_less_asym split: if_splits)
    ultimately have "\<not> double_less (asDouble z) (asDouble x)" by (rule double_le_trans)
    then show ?thesis using True num compare_by_class [OF S(1,2,4)] by (simp add: three_way_def)
  next
    case False
    then show ?thesis
      using le True same compare_by_class [OF S(1)] S
      by (auto simp: value_rank_def intro: compare_same_trans [of x y z])
  qed
next
  case False
  then have "value_rank x \<le> value_rank y" "value_rank y \<le> value_rank z"
    using le compare_by_class [OF S(1)] S by (auto split: if_splits)
  then show ?thesis using False compare_by_class [OF S(1,2,4)] by (auto split: if_splits)
qed

subsection \<open>Integers as doubles\<close>

lemma bit_length_double: "0 < n \<Longrightarrow> bit_length (2 * n) = Suc (bit_length n)"
  by (subst bit_length.simps) simp

lemma bit_length_shift: "0 < n \<Longrightarrow> bit_length (n * 2 ^ k) = bit_length n + k"
proof (induction k)
  case (Suc k)
  then show ?case using bit_length_double [of "n * 2 ^ k"] by (simp add: algebra_simps)
qed simp

lemma bit_length_less: "n < 2 ^ k \<Longrightarrow> bit_length n \<le> k"
proof (induction k arbitrary: n)
  case 0
  then show ?case by (simp add: bit_length.simps)
next
  case (Suc k)
  show ?case
  proof (cases "n = 0")
    case False
    have "n div 2 < 2 ^ k" using Suc.prems by auto
    from Suc.IH [OF this] show ?thesis using False by (subst bit_length.simps) simp
  qed (simp add: bit_length.simps)
qed

lemma round_magnitude_exact:
  assumes "n < 2 ^ 53"
  shows "round_magnitude (n * 2 ^ k) = n * 2 ^ k"
proof (cases "bit_length (n * 2 ^ k) \<le> 53")
  case False
  then have pos: "0 < n" by (cases n) (simp_all add: bit_length.simps)
  define s where "s = bit_length (n * 2 ^ k) - 53"
  have "s \<le> k" using bit_length_less [OF assms] by (simp add: s_def bit_length_shift [OF pos])
  then obtain j where k: "k = j + s" by (metis add.commute le_Suc_ex)
  then have "2 ^ s dvd n * 2 ^ k" by (simp add: power_add)
  then have "n * 2 ^ k mod 2 ^ s = 0" "n * 2 ^ k div 2 ^ s * 2 ^ s = n * 2 ^ k" by simp_all
  then show ?thesis using False by (simp add: round_magnitude_def Let_def s_def [symmetric])
qed (simp add: round_magnitude_def)

lemma double_of_int_exact:
  assumes "\<bar>i\<bar> < 2 ^ 53"
  shows "double_of_int i = Finite (i * 2 ^ 1074)"
proof -
  have n: "nat \<bar>i\<bar> < 2 ^ 53" using assms by simp
  have "nat \<bar>i * 2 ^ 1074\<bar> = nat \<bar>i\<bar> * 2 ^ 1074"
    by (simp only: abs_mult nat_mult_distrib [OF abs_ge_zero]) (simp add: nat_power_eq)
  then have m: "round_magnitude (nat \<bar>i * 2 ^ 1074\<bar>) = nat \<bar>i\<bar> * 2 ^ 1074"
    by (simp only: round_magnitude_exact [OF n])
  have "nat \<bar>i\<bar> * 2 ^ 1074 < 2 ^ 53 * 2 ^ 1074"
    using n by (simp only: mult_less_cancel2) simp
  also have "\<dots> \<le> 2 ^ 2098" by simp
  finally have small: "\<not> 2 ^ 2098 \<le> nat \<bar>i\<bar> * 2 ^ 1074" by (simp only: not_le)
  have "sgn (i * 2 ^ 1074) * int (nat \<bar>i\<bar> * 2 ^ 1074) = i * 2 ^ 1074"
    by (simp only: sgn_mult of_nat_mult int_nat_eq of_nat_power of_nat_numeral) (simp add: sgn_mult_abs)
  then show ?thesis
    unfolding double_of_int_def round_double_def Let_def m using small by (simp only: if_False)
qed

lemma asDouble_int:
  "v = BInt32 i \<or> v = BInt64 i \<Longrightarrow> \<bar>i\<bar> < 2 ^ 53 \<Longrightarrow> asDouble v = Finite (i * 2 ^ 1074)"
  by (auto simp: double_of_int_exact simp del: power_numeral)

lemma compare_ints:
  assumes "v = BInt32 i \<or> v = BInt64 i" and "w = BInt32 j \<or> w = BInt64 j"
    and "\<bar>i\<bar> < 2 ^ 53" and "\<bar>j\<bar> < 2 ^ 53"
  shows "compare_bson v w = three_way (<) i j"
proof -
  have "isNumeric (type_of v)" "isNumeric (type_of w)" using assms(1,2) by auto
  then have "compare_bson v w = three_way double_less (Finite (i * 2 ^ 1074)) (Finite (j * 2 ^ 1074))"
    unfolding compare_bson_def asDouble_int [OF assms(1,3)] asDouble_int [OF assms(2,4)] by simp
  also have "\<dots> = three_way (<) i j"
    unfolding three_way_def double_less.simps by (simp only: mult_less_cancel_right) simp
  finally show ?thesis .
qed

text \<open>What the sort and the range operators of the store rest on: among values with no NaN, and with doubles
  only beside numbers, the comparison is a total preorder - a value compares equal to itself, swapping the
  operands swaps the sign, and it is transitive - and two integers below two to the 53rd compare as integers
  whatever width each was stored at.\<close>

theorem compare_total_preorder:
  assumes "orderable S" and "x \<in> S" and "y \<in> S" and "z \<in> S"
  shows "compare_bson x x = 0 \<and> compare_bson y x = - compare_bson x y \<and>
    (compare_bson x y \<le> 0 \<and> compare_bson y z \<le> 0 \<longrightarrow> compare_bson x z \<le> 0) \<and>
    (\<forall>i j. x = BInt32 i \<and> y = BInt64 j \<and> \<bar>i\<bar> < 2 ^ 53 \<and> \<bar>j\<bar> < 2 ^ 53 \<longrightarrow>
       compare_bson x y = three_way (<) i j)"
  using compare_trans [OF assms] compare_swap [of y x] compare_ints by simp

theorem compare_total_preorder_witness:
  "compare_bson (BInt32 3) (BInt64 4) \<le> 0 \<and> compare_bson (BString ''b'') (BInt32 3) \<le> 0 \<and>
   compare_bson (BString ''b'') (BInt64 4) \<le> 0"
proof -
  let ?S = "{BString ''b'', BInt32 3, BInt64 4}"
  have S: "orderable ?S" by (simp add: orderable_def is_double_def)
  have "compare_bson (BInt32 3) (BInt64 4) = three_way (<) (3 :: int) 4"
    using compare_total_preorder [OF S, of "BInt32 3" "BInt64 4" "BInt32 3"] by simp
  moreover have "compare_bson (BString ''b'') (BInt32 3) \<le> 0" by (simp add: compare_bson_def)
  ultimately show ?thesis
    using compare_total_preorder [OF S, of "BString ''b''" "BInt32 3" "BInt64 4"] by simp
qed

text \<open>Without those two conditions it is no order: a double below a string below an integer below the double.\<close>

lemma compare_intransitive:
  "compare_bson (BDouble (Finite (5 * 2 ^ 1074))) (BString ''a'') < 0 \<and>
   compare_bson (BString ''a'') (BInt32 3) < 0 \<and>
   0 < compare_bson (BDouble (Finite (5 * 2 ^ 1074))) (BInt32 3)"
proof -
  have "asDouble (BInt32 3) = Finite (3 * 2 ^ 1074)" by (rule asDouble_int) auto
  then have "three_way double_less (asDouble (BDouble (Finite (5 * 2 ^ 1074)))) (asDouble (BInt32 3)) = 1"
    by (simp only: asDouble.simps three_way_def double_less.simps) simp
  then show ?thesis by (simp add: compare_bson_def)
qed

text \<open>Documents and arrays all compare equal to one another, whatever they hold.\<close>

lemma equals_containers: "equals_bson (BDoc d) (BDoc e) \<and> equals_bson (BArray xs) (BArray ys)"
  by (simp add: equals_bson_def compare_bson_def)

subsection \<open>Filters\<close>

definition plain_condition :: "string \<times> bson \<Rightarrow> bool" where
  "plain_condition c \<longleftrightarrow> \<not> starts_with (fst c) ''$'' \<and> operatorsOf (snd c) = None"

text \<open>Some value the path reaches equals the condition's.\<close>

definition field_equals :: "doc \<Rightarrow> string \<times> bson \<Rightarrow> bool" where
  "field_equals document c \<longleftrightarrow> (\<exists>v \<in> set (valuesAt document (fst c)). equals_bson v (snd c))"

lemma logical_dollar: "logical key \<Longrightarrow> starts_with key ''$''"
  by (auto simp: logical_def)

lemma sizeOperand_operator: "operatorsOf v = None \<Longrightarrow> sizeOperand v = None"
  by (induction v rule: operatorsOf.induct) (auto split: if_splits)

lemma matches_plain_Cons:
  "plain_condition c \<Longrightarrow>
   matches E d (c # f) = (if field_equals d c then matches E d f else Inr False)"
  by (cases c)
    (auto simp: plain_condition_def field_equals_def sizeOperand_operator matchesCondition_def list_ex_iff
      dest: logical_dollar)

lemma matches_plain:
  "\<forall>c \<in> set f. plain_condition c \<Longrightarrow> matches E d f = Inr (\<forall>c \<in> set f. field_equals d c)"
  by (induction f) (auto simp: matches_plain_Cons)

text \<open>The meaning of a filter of plain values, the form every upsert and every unique index uses: it never
  fails, and it matches exactly the documents in which each named path reaches a value equal to the one given.\<close>

theorem matches_equalities:
  assumes "\<forall>c \<in> set f. plain_condition c"
  shows "matches E d f = Inr (\<forall>c \<in> set f. field_equals d c)"
  using assms by (rule matches_plain)

definition sample_env :: store_env where
  "sample_env = \<lparr>regex_search = (\<lambda>pattern. None), clock = 1000, new_oid = ''650000000000000000000001''\<rparr>"

theorem matches_equalities_witness:
  "matches sample_env [(''keys'', BArray [BDoc [(''id'', BString ''x'')], BDoc [(''id'', BString ''y'')]])]
     [(''keys.id'', BString ''y'')] = Inr True"
proof -
  let ?d = "[(''keys'', BArray [BDoc [(''id'', BString ''x'')], BDoc [(''id'', BString ''y'')]])]"
  have "field_equals ?d (''keys.id'', BString ''y'')"
    by (simp add: field_equals_def valuesAt_def resolve.simps)
  then show ?thesis
    using matches_equalities [of "[(''keys.id'', BString ''y'')]" sample_env ?d] by (simp add: plain_condition_def)
qed

end
