(* ===== verification/Document_Update.thy ===== *)
theory Document_Update
  imports Bson
begin

text \<open>
  Updates of one document: \<^verbatim>\<open>positionalIndex\<close> to \<^verbatim>\<open>sameDocument\<close> of \<^verbatim>\<open>database/src/emd/DocumentStore.cpp\<close>. The fields
  of a document are collected in a \<^verbatim>\<open>std::map\<close>, so the result of an update lists them in the order of their
  names. The lemmas give the meaning of each operator and show that an update leaves every field it does not
  name as it was.
\<close>

subsection \<open>The positional operator\<close>

text \<open>Whether a candidate element satisfies every condition the filter placed on the array.\<close>

fun allConditions :: "store_env \<Rightarrow> doc \<Rightarrow> nat \<Rightarrow> doc \<Rightarrow> store_error + bool" where
  "allConditions E candidate prefixSize [] = Inr True"
| "allConditions E candidate prefixSize ((key, condition) # conditions) =
     (case matchesCondition E (valuesAt candidate (drop prefixSize key)) condition of
        Inl e \<Rightarrow> Inl e
      | Inr False \<Rightarrow> Inr False
      | Inr True \<Rightarrow> allConditions E candidate prefixSize conditions)"

fun positionalScan :: "store_env \<Rightarrow> nat \<Rightarrow> doc \<Rightarrow> nat \<Rightarrow> bson list \<Rightarrow> store_error + nat option" where
  "positionalScan E prefixSize conditions index [] = Inr None"
| "positionalScan E prefixSize conditions index (entry # entries) =
     (case entry of
        BDoc candidate \<Rightarrow>
          (case allConditions E candidate prefixSize conditions of
             Inl e \<Rightarrow> Inl e
           | Inr True \<Rightarrow> Inr (Some index)
           | Inr False \<Rightarrow> positionalScan E prefixSize conditions (Suc index) entries)
      | _ \<Rightarrow> positionalScan E prefixSize conditions (Suc index) entries)"

definition positionalIndex :: "store_env \<Rightarrow> doc \<Rightarrow> doc \<Rightarrow> string \<Rightarrow> store_error + nat option" where
  "positionalIndex E document flt arrayField =
     (case map_of document arrayField of
        Some (BArray entries) \<Rightarrow>
          (let conditions = filter (\<lambda>c. starts_with (fst c) (arrayField @ ''.'')) flt in
           if conditions = [] then Inr None
           else positionalScan E (length arrayField + 1) conditions 0 entries)
      | _ \<Rightarrow> Inr None)"

text \<open>One field of an array element set: in place when the element has it, at the end when not.\<close>

definition setSubField :: "bson \<Rightarrow> string \<Rightarrow> bson \<Rightarrow> bson" where
  "setSubField entry subField value =
     (let fs0 = (case entry of BDoc d \<Rightarrow> d | _ \<Rightarrow> []);
          replaced = map (\<lambda>(k, v). if k = subField then (subField, value) else (k, v)) fs0 in
      BDoc (if subField \<in> set (map fst fs0) then replaced else replaced @ [(subField, value)]))"

definition positionalArray :: "bson \<Rightarrow> nat \<Rightarrow> string \<Rightarrow> bson \<Rightarrow> store_error + bson" where
  "positionalArray existing index subField value =
     (case existing of
        BArray entries \<Rightarrow>
          Inr (BArray (map (\<lambda>(at, entry).
                 if at \<noteq> index then entry
                 else if subField = [] then value
                 else setSubField entry subField value) (enumerate 0 entries)))
      | _ \<Rightarrow> Inl WrongType)"

subsection \<open>The update operators\<close>

definition requireTopLevel :: "string \<Rightarrow> string \<Rightarrow> store_error + unit" where
  "requireTopLevel field op = (if CHR ''.'' \<in> set field then Inl (NestedPath op field) else Inr ())"

text \<open>\<^verbatim>\<open>name.find(".$")\<close>.\<close>

fun find_positional :: "string \<Rightarrow> nat option" where
  "find_positional [] = None"
| "find_positional (c # cs) =
     (if starts_with (c # cs) ''.$'' then Some 0 else map_option Suc (find_positional cs))"

text \<open>The body of the loop over the fields of one stage, operator by operator. The document and the filter are
  those the update was called with; \<open>fs\<close> is what the stages before have made of the document.\<close>

definition setField :: "store_env \<Rightarrow> doc \<Rightarrow> doc \<Rightarrow> string \<Rightarrow> bson \<Rightarrow> doc \<Rightarrow> store_error + doc" where
  "setField E document flt name value fs =
     (case find_positional name of
        Some dollar \<Rightarrow>
          (let arrayField = take dollar name; rest = drop (dollar + 2) name in
           if rest \<noteq> [] \<and> \<not> starts_with rest ''.'' then Inl (NestedPath ''$set'' name)
           else (case positionalIndex E document flt arrayField of
                   Inl e \<Rightarrow> Inl e
                 | Inr index \<Rightarrow>
                     (case (index, map_of fs arrayField) of
                        (Some i, Some existing) \<Rightarrow>
                          (case positionalArray existing i (drop 1 rest) value of
                             Inl e \<Rightarrow> Inl e
                           | Inr array \<Rightarrow> Inr (map_put arrayField array fs))
                      | _ \<Rightarrow> Inr fs)))
      | None \<Rightarrow>
          (case requireTopLevel name ''$set'' of
             Inl e \<Rightarrow> Inl e
           | Inr _ \<Rightarrow> Inr (map_put name value fs)))"

definition putField :: "string \<Rightarrow> string \<Rightarrow> bson \<Rightarrow> doc \<Rightarrow> store_error + doc" where
  "putField op name value fs =
     (case requireTopLevel name op of Inl e \<Rightarrow> Inl e | Inr _ \<Rightarrow> Inr (map_put name value fs))"

definition incremented :: "bson option \<Rightarrow> bson \<Rightarrow> bson" where
  "incremented existing amount =
     (let wasDouble = (case existing of Some (BDouble _) \<Rightarrow> True | _ \<Rightarrow> False) in
      if wasDouble \<or> type_of amount = 1
      then BDouble (double_add (case existing of Some v \<Rightarrow> asDouble v | None \<Rightarrow> Finite 0) (asDouble amount))
      else BInt64 (wrap64 ((case existing of Some v \<Rightarrow> asLong v | None \<Rightarrow> 0) + asLong amount)))"

definition incField :: "string \<Rightarrow> bson \<Rightarrow> doc \<Rightarrow> store_error + doc" where
  "incField name amount fs = putField ''$inc'' name (incremented (map_of fs name) amount) fs"

definition existingEntries :: "bson option \<Rightarrow> bson list" where
  "existingEntries existing = (case existing of Some (BArray entries) \<Rightarrow> entries | _ \<Rightarrow> [])"

definition pushField :: "string \<Rightarrow> bson \<Rightarrow> doc \<Rightarrow> store_error + doc" where
  "pushField name value fs =
     putField ''$push'' name (BArray (existingEntries (map_of fs name) @ [value])) fs"

definition pullField :: "string \<Rightarrow> bson \<Rightarrow> doc \<Rightarrow> store_error + doc" where
  "pullField name value fs =
     putField ''$pull'' name
       (BArray (filter (\<lambda>entry. \<not> equals_bson entry value) (existingEntries (map_of fs name)))) fs"

fun eachField :: "(string \<Rightarrow> bson \<Rightarrow> doc \<Rightarrow> store_error + doc) \<Rightarrow> doc \<Rightarrow> doc \<Rightarrow> store_error + doc" where
  "eachField body [] fs = Inr fs"
| "eachField body ((name, value) # rest) fs =
     (case body name value fs of Inl e \<Rightarrow> Inl e | Inr fs' \<Rightarrow> eachField body rest fs')"

definition applyStage ::
  "store_env \<Rightarrow> doc \<Rightarrow> bool \<Rightarrow> doc \<Rightarrow> string \<Rightarrow> doc \<Rightarrow> doc \<Rightarrow> store_error + doc" where
  "applyStage E document inserting flt op body fs =
     (if op = ''$set'' then eachField (setField E document flt) body fs
      else if op = ''$setOnInsert'' then
        (if inserting then eachField (putField op) body fs else Inr fs)
      else if op = ''$currentDate'' then
        eachField (\<lambda>name _. putField op name (BDate (clock E))) body fs
      else if op = ''$inc'' then eachField incField body fs
      else if op = ''$unset'' then eachField (\<lambda>name _ gs. Inr (map_erase name gs)) body fs
      else if op = ''$push'' then eachField pushField body fs
      else if op = ''$pull'' then eachField pullField body fs
      else Inl (UnknownUpdateOperator op))"

fun applyStages :: "store_env \<Rightarrow> doc \<Rightarrow> bool \<Rightarrow> doc \<Rightarrow> doc \<Rightarrow> doc \<Rightarrow> store_error + doc" where
  "applyStages E document inserting flt [] fs = Inr fs"
| "applyStages E document inserting flt ((op, stage) # stages) fs =
     (if \<not> starts_with op ''$'' then Inl (NotAnOperator op)
      else case stage of
             BDoc body \<Rightarrow>
               (case applyStage E document inserting flt op body fs of
                  Inl e \<Rightarrow> Inl e
                | Inr fs' \<Rightarrow> applyStages E document inserting flt stages fs')
           | _ \<Rightarrow> Inl WrongType)"

definition applyUpdate :: "store_env \<Rightarrow> doc \<Rightarrow> doc \<Rightarrow> bool \<Rightarrow> doc \<Rightarrow> store_error + doc" where
  "applyUpdate E document update inserting flt =
     applyStages E document inserting flt update (fold (\<lambda>(k, v). map_put k v) document [])"

subsection \<open>Documents an upsert creates\<close>

definition seedFromFilter :: "doc \<Rightarrow> doc" where
  "seedFromFilter flt =
     filter (\<lambda>(key, condition).
       \<not> (starts_with key ''$'' \<or> CHR ''.'' \<in> set key) \<and> operatorsOf condition = None) flt"

definition withId :: "doc \<Rightarrow> string \<Rightarrow> doc" where
  "withId document oid = (''_id'', BOid oid) # filter (\<lambda>e. fst e \<noteq> ''_id'') document"

definition oidOf :: "doc \<Rightarrow> string option" where
  "oidOf document = (case map_of document ''_id'' of Some (BOid oid) \<Rightarrow> Some oid | _ \<Rightarrow> None)"

definition upsertId :: "store_env \<Rightarrow> doc \<Rightarrow> doc \<Rightarrow> string" where
  "upsertId E document flt =
     (case oidOf document of
        Some oid \<Rightarrow> oid
      | None \<Rightarrow> (case oidOf flt of Some oid \<Rightarrow> oid | None \<Rightarrow> new_oid E))"

definition sameDocument :: "doc \<Rightarrow> doc \<Rightarrow> bool" where
  "sameDocument left right \<longleftrightarrow> left = right"

subsection \<open>What one operator may write\<close>

text \<open>The contract of a loop body: called for a name, it writes at most the field that name targets and keeps the
  fields in order. The loop over a stage and the update as a whole inherit it.\<close>

lemma eachField_Cons_Inr:
  "eachField body (e # es) fs = Inr fs' \<longleftrightarrow>
     (\<exists>fs1. body (fst e) (snd e) fs = Inr fs1 \<and> eachField body es fs1 = Inr fs')"
  by (cases e) (auto split: sum.split)

locale field_writer =
  fixes body :: "string \<Rightarrow> bson \<Rightarrow> doc \<Rightarrow> store_error + doc"
    and writes :: "string \<Rightarrow> string"
  assumes writes_only: "body name value fs = Inr fs' \<Longrightarrow> k \<noteq> writes name \<Longrightarrow> map_of fs' k = map_of fs k"
    and keeps_order: "body name value fs = Inr fs' \<Longrightarrow> key_ordered fs \<Longrightarrow> key_ordered fs'"
begin

lemma eachField_frame:
  "eachField body es fs = Inr fs' \<Longrightarrow> k \<notin> writes ` fst ` set es \<Longrightarrow> map_of fs' k = map_of fs k"
proof (induction es arbitrary: fs)
  case (Cons e es)
  then obtain fs1 where "body (fst e) (snd e) fs = Inr fs1" and rest: "eachField body es fs1 = Inr fs'"
    by (auto simp only: eachField_Cons_Inr)
  with Cons.prems(2) have "map_of fs1 k = map_of fs k" by (intro writes_only) auto
  with Cons.IH [OF rest] Cons.prems(2) show ?case by simp
qed simp

lemma eachField_order:
  "eachField body es fs = Inr fs' \<Longrightarrow> key_ordered fs \<Longrightarrow> key_ordered fs'"
proof (induction es arbitrary: fs)
  case (Cons e es)
  then show ?case unfolding eachField_Cons_Inr using keeps_order by blast
qed simp

end

definition written_by_set :: "string \<Rightarrow> string" where
  "written_by_set name = (case find_positional name of Some dollar \<Rightarrow> take dollar name | None \<Rightarrow> name)"

lemma putField_Inr:
  "putField op name value fs = Inr fs' \<longleftrightarrow> CHR ''.'' \<notin> set name \<and> fs' = map_put name value fs"
  by (auto simp: putField_def requireTopLevel_def)

interpretation set_stage: field_writer "setField E document flt" written_by_set
  by unfold_locales
    (auto simp: setField_def written_by_set_def requireTopLevel_def Let_def
      split: option.splits sum.splits if_splits)

interpretation put_stage: field_writer "putField op" id
  by unfold_locales (auto simp: putField_Inr)

interpretation date_stage: field_writer "\<lambda>name _. putField op name v" id
  by unfold_locales (auto simp: putField_Inr)

interpretation inc_stage: field_writer incField id
  by unfold_locales (auto simp: incField_def putField_Inr)

interpretation push_stage: field_writer pushField id
  by unfold_locales (auto simp: pushField_def putField_Inr)

interpretation pull_stage: field_writer pullField id
  by unfold_locales (auto simp: pullField_def putField_Inr)

interpretation unset_stage: field_writer "\<lambda>name _ gs. Inr (map_erase name gs)" id
  by unfold_locales auto

lemmas stage_frames =
  set_stage.eachField_frame put_stage.eachField_frame [simplified] date_stage.eachField_frame [simplified]
  inc_stage.eachField_frame [simplified] unset_stage.eachField_frame [simplified]
  push_stage.eachField_frame [simplified] pull_stage.eachField_frame [simplified]

lemmas stage_orders =
  set_stage.eachField_order put_stage.eachField_order date_stage.eachField_order
  inc_stage.eachField_order unset_stage.eachField_order push_stage.eachField_order
  pull_stage.eachField_order

text \<open>The fields an update names.\<close>

fun written :: "doc \<Rightarrow> string set" where
  "written [] = {}"
| "written ((op, stage) # stages) =
     (case stage of BDoc body \<Rightarrow> (if op = ''$set'' then written_by_set else id) ` fst ` set body | _ \<Rightarrow> {})
     \<union> written stages"

lemma applyStage_frame:
  assumes "applyStage E d ins flt op body fs = Inr fs'"
    and "k \<notin> (if op = ''$set'' then written_by_set else id) ` fst ` set body"
  shows "map_of fs' k = map_of fs k"
  using assms unfolding applyStage_def
  by (auto split: if_splits dest: stage_frames)

lemma applyStage_order:
  "applyStage E d ins flt op body fs = Inr fs' \<Longrightarrow> key_ordered fs \<Longrightarrow> key_ordered fs'"
  unfolding applyStage_def
  by (auto split: if_splits dest: stage_orders)

lemma applyStages_Cons_Inr:
  "applyStages E d ins flt (s # u) fs = Inr fs' \<longleftrightarrow>
     (\<exists>body fs1. starts_with (fst s) ''$'' \<and> snd s = BDoc body \<and>
        applyStage E d ins flt (fst s) body fs = Inr fs1 \<and> applyStages E d ins flt u fs1 = Inr fs')"
  by (cases s) (auto split: sum.split bson.split)

lemma applyStages_frame:
  "applyStages E d ins flt u fs = Inr fs' \<Longrightarrow> k \<notin> written u \<Longrightarrow> map_of fs' k = map_of fs k"
proof (induction u arbitrary: fs)
  case (Cons s u)
  then obtain body fs1 where s: "snd s = BDoc body" "applyStage E d ins flt (fst s) body fs = Inr fs1"
      and rest: "applyStages E d ins flt u fs1 = Inr fs'"
    by (auto simp only: applyStages_Cons_Inr)
  have "map_of fs1 k = map_of fs k"
    using Cons.prems(2) s by (intro applyStage_frame [OF s(2)]) (cases s, auto)
  moreover have "k \<notin> written u" using Cons.prems(2) by (cases s) simp
  ultimately show ?case using Cons.IH [OF rest] by simp
qed simp

lemma applyStages_order:
  "applyStages E d ins flt u fs = Inr fs' \<Longrightarrow> key_ordered fs \<Longrightarrow> key_ordered fs'"
proof (induction u arbitrary: fs)
  case (Cons s u)
  then show ?case unfolding applyStages_Cons_Inr using applyStage_order by blast
qed simp

lemma collected_fields: "map_of (fold (\<lambda>(k, v). map_put k v) d []) = map_of (rev d)"
  using omap.lookup_fold_put [of d "[]"] by simp

lemma map_of_rev_distinct: "distinct (map fst d) \<Longrightarrow> map_of (rev d) = map_of d"
  by (metis distinct_rev map_of_eqI map_of_inject_set rev_map set_map set_rev)

subsection \<open>What an update does\<close>

lemma applyUpdate_order: "applyUpdate E d u ins flt = Inr d' \<Longrightarrow> key_ordered d'"
  unfolding applyUpdate_def by (erule applyStages_order) (simp add: omap.ok_fold_put)

lemma applyUpdate_unwritten:
  "applyUpdate E d u ins flt = Inr d' \<Longrightarrow> distinct (map fst d) \<Longrightarrow> k \<notin> written u \<Longrightarrow> map_of d' k = map_of d k"
  unfolding applyUpdate_def by (drule (1) applyStages_frame) (simp add: collected_fields map_of_rev_distinct)

text \<open>(C34) An update changes nothing it does not name: every field outside those its stages write keeps its value
  or its absence, and the fields of the result are in the order of their names with none twice.\<close>

theorem applyUpdate_frame:
  assumes "applyUpdate E document update inserting flt = Inr result" and "distinct (map fst document)"
  shows "key_ordered result \<and> distinct (map fst result) \<and>
    (\<forall>k. k \<notin> written update \<longrightarrow> map_of result k = map_of document k)"
  using applyUpdate_order [OF assms(1)] applyUpdate_unwritten [OF assms] key_ordered_distinct by blast

definition sample_message :: doc where
  "sample_message = [(''_id'', BOid ''65''), (''status'', BString ''AVAILABLE''), (''retries'', BInt64 2)]"

definition sample_update :: doc where
  "sample_update = [(''$set'', BDoc [(''status'', BString ''INVISIBLE'')]), (''$inc'', BDoc [(''retries'', BInt64 1)])]"

lemma sample_update_result:
  "applyUpdate sample_env sample_message sample_update False [] =
     Inr [(''_id'', BOid ''65''), (''retries'', BInt64 3), (''status'', BString ''INVISIBLE'')]"
  by (simp add: applyUpdate_def sample_message_def sample_update_def applyStage_def setField_def incField_def
      putField_def requireTopLevel_def incremented_def wrap64_def)

theorem applyUpdate_frame_witness:
  "''_id'' \<notin> written sample_update \<and>
   applyUpdate sample_env sample_message sample_update False [] =
     Inr [(''_id'', BOid ''65''), (''retries'', BInt64 3), (''status'', BString ''INVISIBLE'')] \<and>
   map_of [(''_id'', BOid ''65''), (''retries'', BInt64 3), (''status'', BString ''INVISIBLE'')] ''_id'' =
     map_of sample_message ''_id''"
proof -
  have "distinct (map fst sample_message)" by (simp add: sample_message_def)
  moreover have "''_id'' \<notin> written sample_update"
    by (simp add: sample_update_def written_by_set_def)
  ultimately show ?thesis using applyUpdate_frame [OF sample_update_result] sample_update_result by blast
qed

lemma find_positional_None: "CHR ''.'' \<notin> set name \<Longrightarrow> find_positional name = None"
  by (induction name) auto

lemma setField_top:
  "CHR ''.'' \<notin> set name \<Longrightarrow> setField E d flt name value fs = Inr (map_put name value fs)"
  by (simp add: setField_def find_positional_None requireTopLevel_def)

lemma eachField_put:
  assumes "\<And>name value fs. CHR ''.'' \<notin> set name \<Longrightarrow> body name value fs = Inr (map_put name value fs)"
    and "\<forall>e \<in> set es. CHR ''.'' \<notin> set (fst e)"
  shows "eachField body es fs = Inr (fold (\<lambda>(k, v). map_put k v) es fs)"
  using assms(2) by (induction es arbitrary: fs) (auto simp: assms(1))

lemma applyStage_set:
  "\<forall>e \<in> set body. CHR ''.'' \<notin> set (fst e) \<Longrightarrow>
   applyStage E d ins flt ''$set'' body fs = Inr (fold (\<lambda>(k, v). map_put k v) body fs)"
  by (simp add: applyStage_def eachField_put setField_top)

lemma applyStage_setOnInsert:
  "\<forall>e \<in> set body. CHR ''.'' \<notin> set (fst e) \<Longrightarrow>
   applyStage E d ins flt ''$setOnInsert'' body fs =
     Inr (if ins then fold (\<lambda>(k, v). map_put k v) body fs else fs)"
  by (simp add: applyStage_def eachField_put putField_def requireTopLevel_def)

text \<open>What an upsert's update is made of: with top-level names, \<^verbatim>\<open>$set\<close> gives every named field its value and
  \<^verbatim>\<open>$setOnInsert\<close> does so only for a document being created; neither fails.\<close>

theorem applyUpdate_set_semantics:
  assumes "\<forall>e \<in> set body. CHR ''.'' \<notin> set (fst e)" and "\<forall>e \<in> set onInsert. CHR ''.'' \<notin> set (fst e)"
    and "distinct (map fst document)" and "distinct (map fst body)" and "distinct (map fst onInsert)"
  shows "\<exists>result.
    applyUpdate E document [(''$set'', BDoc body), (''$setOnInsert'', BDoc onInsert)] inserting flt = Inr result \<and>
    map_of result = (if inserting then map_of document ++ map_of body ++ map_of onInsert
                     else map_of document ++ map_of body)"
proof -
  let ?fs = "fold (\<lambda>(k, v). map_put k v) document []"
  let ?set = "fold (\<lambda>(k, v). map_put k v) body ?fs"
  let ?r = "if inserting then fold (\<lambda>(k, v). map_put k v) onInsert ?set else ?set"
  have "applyUpdate E document [(''$set'', BDoc body), (''$setOnInsert'', BDoc onInsert)] inserting flt = Inr ?r"
    by (simp add: applyUpdate_def applyStage_set [OF assms(1)] applyStage_setOnInsert [OF assms(2)])
  moreover have "map_of ?r = (if inserting then map_of document ++ map_of body ++ map_of onInsert
                     else map_of document ++ map_of body)"
    by (simp add: omap.lookup_fold_put map_of_rev_distinct assms)
  ultimately show ?thesis by blast
qed

theorem applyUpdate_set_semantics_witness:
  "\<exists>result. applyUpdate sample_env [(''name'', BString ''a'')]
      [(''$set'', BDoc [(''n'', BInt32 1)]), (''$setOnInsert'', BDoc [(''n'', BInt32 2)])] True [] = Inr result \<and>
    map_of result ''n'' = Some (BInt32 2) \<and> map_of result ''name'' = Some (BString ''a'')"
  using applyUpdate_set_semantics [of "[(''n'', BInt32 1)]" "[(''n'', BInt32 2)]" "[(''name'', BString ''a'')]"
      sample_env True "[]"] by auto

text \<open>The operators the store implements; an update that names any other is refused.\<close>

definition update_operators :: "string set" where
  "update_operators = {''$set'', ''$setOnInsert'', ''$currentDate'', ''$inc'', ''$unset'', ''$push'', ''$pull''}"

lemma applyStages_known:
  "applyStages E d ins flt u fs = Inr fs' \<Longrightarrow> fst ` set u \<subseteq> update_operators"
proof (induction u arbitrary: fs)
  case (Cons s u)
  then obtain body fs1 where s: "applyStage E d ins flt (fst s) body fs = Inr fs1"
      and rest: "applyStages E d ins flt u fs1 = Inr fs'"
    by (auto simp only: applyStages_Cons_Inr)
  from s have "fst s \<in> update_operators"
    by (auto simp: applyStage_def update_operators_def split: if_splits)
  with Cons.IH [OF rest] show ?case by simp
qed simp

text \<open>Refused rather than ignored: an update document with a stage that is not one of the seven operators of
  the store fails whatever the document, so an update that names what the store cannot do never reports success.\<close>

theorem applyUpdate_refuses_unknown:
  assumes "(op, stage) \<in> set update" and "op \<notin> update_operators"
  shows "\<exists>e. applyUpdate E document update inserting flt = Inl e"
proof (cases "applyUpdate E document update inserting flt")
  case (Inr d')
  then have "fst ` set update \<subseteq> update_operators" unfolding applyUpdate_def by (rule applyStages_known)
  with assms show ?thesis by force
qed blast

theorem applyUpdate_refuses_unknown_witness:
  "\<exists>e. applyUpdate sample_env sample_message [(''$rename'', BDoc [(''status'', BString ''state'')])] False [] = Inl e"
  by (rule applyUpdate_refuses_unknown [of "''$rename''"]) (simp_all add: update_operators_def)

text \<open>Pulling an embedded document out of an array of documents empties the array: any two documents are equal to the
  store, whatever their fields.\<close>

lemma pull_document_empties:
  "CHR ''.'' \<notin> set name \<Longrightarrow> map_of fs name = Some (BArray (map BDoc ds)) \<Longrightarrow>
   pullField name (BDoc d) fs = Inr (map_put name (BArray []) fs)"
  using equals_containers
  by (auto simp: pullField_def putField_Inr existingEntries_def filter_empty_conv)

end
