(* ===== verification/Document_Store.thy ===== *)
theory Document_Store
  imports Document_Update
begin

text \<open>
  The in-memory document database, \<^verbatim>\<open>DocumentStore\<close> of \<^verbatim>\<open>database/src/emd/DocumentStore.cpp\<close>: collections of
  documents in insertion order with the unique indexes that constrain them. Every method takes the one mutex of
  the store for its whole duration, so a method is one step on the store.

  A method that may change the store returns the store beside its result, also when the result is an error: what
  had been written when an exception left the method stays written (\<^verbatim>\<open>UpdateMany\<close> and \<^verbatim>\<open>Delete\<close> stop half way), and
  \<^verbatim>\<open>_collections[name]\<close> creates an empty collection for a method that then fails or writes nothing.
\<close>

record collection =
  documents :: "doc list"
  uniqueKeys :: "string list list"

type_synonym store = "(string \<times> collection) list"

record UpdateResult =
  matched :: int
  modified :: int
  upsertedId :: "string option"

record FindOptions =
  sort_spec :: "doc option"
  limit :: int
  skip :: int

record GroupCounts =
  group_key :: "string list"
  group_count :: int
  group_sum :: int

definition empty_collection :: collection where
  "empty_collection = \<lparr>documents = [], uniqueKeys = []\<rparr>"

definition no_update :: UpdateResult where
  "no_update = \<lparr>matched = 0, modified = 0, upsertedId = None\<rparr>"

text \<open>\<^verbatim>\<open>_collections[collection]\<close>.\<close>

definition target :: "string \<Rightarrow> store \<Rightarrow> collection" where
  "target c s = (case map_of s c of Some x \<Rightarrow> x | None \<Rightarrow> empty_collection)"

subsection \<open>Unique indexes\<close>

text \<open>The equality filter on one index, \<open>None\<close> when the document misses part of the key.\<close>

fun keyFilter :: "doc \<Rightarrow> string list \<Rightarrow> doc option" where
  "keyFilter document [] = Some []"
| "keyFilter document (key # keys) =
     (case valuesAt document key of
        [] \<Rightarrow> None
      | v # _ \<Rightarrow> map_option (\<lambda>f. (key, v) # f) (keyFilter document keys))"

fun anyOther :: "store_env \<Rightarrow> doc \<Rightarrow> int \<Rightarrow> int \<Rightarrow> doc list \<Rightarrow> store_error + bool" where
  "anyOther E flt replacingIndex i [] = Inr False"
| "anyOther E flt replacingIndex i (d # ds) =
     (if i = replacingIndex then anyOther E flt replacingIndex (i + 1) ds
      else case matches E d flt of
             Inl e \<Rightarrow> Inl e
           | Inr True \<Rightarrow> Inr True
           | Inr False \<Rightarrow> anyOther E flt replacingIndex (i + 1) ds)"

definition key_names :: "string list \<Rightarrow> string" where
  "key_names keys = foldl (\<lambda>names key. names @ (if names = [] then [] else '', '') @ key) [] keys"

fun checkIndexes :: "store_env \<Rightarrow> doc list \<Rightarrow> doc \<Rightarrow> int \<Rightarrow> string list list \<Rightarrow> store_error + unit" where
  "checkIndexes E docs document replacingIndex [] = Inr ()"
| "checkIndexes E docs document replacingIndex (keys # rest) =
     (case keyFilter document keys of
        None \<Rightarrow> checkIndexes E docs document replacingIndex rest
      | Some flt \<Rightarrow>
          (case anyOther E flt replacingIndex 0 docs of
             Inl e \<Rightarrow> Inl e
           | Inr True \<Rightarrow> Inl (DuplicateKey (key_names keys))
           | Inr False \<Rightarrow> checkIndexes E docs document replacingIndex rest))"

definition CheckUnique :: "store_env \<Rightarrow> collection \<Rightarrow> doc \<Rightarrow> int \<Rightarrow> store_error + unit" where
  "CheckUnique E c document replacingIndex =
     checkIndexes E (documents c) document replacingIndex (uniqueKeys c)"

subsection \<open>Reading\<close>

text \<open>The scan for the first document that matches, with its position.\<close>

fun firstMatch :: "store_env \<Rightarrow> doc \<Rightarrow> nat \<Rightarrow> doc list \<Rightarrow> store_error + (nat \<times> doc) option" where
  "firstMatch E flt i [] = Inr None"
| "firstMatch E flt i (d # ds) =
     (case matches E d flt of
        Inl e \<Rightarrow> Inl e
      | Inr True \<Rightarrow> Inr (Some (i, d))
      | Inr False \<Rightarrow> firstMatch E flt (Suc i) ds)"

fun allMatches :: "store_env \<Rightarrow> doc \<Rightarrow> doc list \<Rightarrow> store_error + doc list" where
  "allMatches E flt [] = Inr []"
| "allMatches E flt (d # ds) =
     (case matches E d flt of
        Inl e \<Rightarrow> Inl e
      | Inr ok \<Rightarrow> map_sum id (\<lambda>r. if ok then d # r else r) (allMatches E flt ds))"

definition FindOne :: "store_env \<Rightarrow> string \<Rightarrow> doc \<Rightarrow> store \<Rightarrow> store_error + doc option" where
  "FindOne E c flt s =
     (case map_of s c of
        None \<Rightarrow> Inr None
      | Some coll \<Rightarrow> map_sum id (map_option snd) (firstMatch E flt 0 (documents coll)))"

fun sortBefore :: "doc \<Rightarrow> doc \<Rightarrow> doc \<Rightarrow> bool" where
  "sortBefore [] left right = False"
| "sortBefore ((name, direction) # keys) left right =
     (let ascending = asLong direction \<ge> 0;
          leftValues = valuesAt left name;
          rightValues = valuesAt right name in
      case (leftValues, rightValues) of
        ([], []) \<Rightarrow> sortBefore keys left right
      | ([], _ # _) \<Rightarrow> ascending
      | (_ # _, []) \<Rightarrow> \<not> ascending
      | (l # _, r # _) \<Rightarrow>
          (let order = compare_bson l r in
           if order \<noteq> 0 then (if ascending then order < 0 else order > 0)
           else sortBefore keys left right))"

definition Find :: "store_env \<Rightarrow> string \<Rightarrow> doc \<Rightarrow> FindOptions \<Rightarrow> store \<Rightarrow> store_error + doc list" where
  "Find E c flt options s =
     (case (case map_of s c of None \<Rightarrow> Inr [] | Some coll \<Rightarrow> allMatches E flt (documents coll)) of
        Inl e \<Rightarrow> Inl e
      | Inr result \<Rightarrow>
          (let sorted_result = (case sort_spec options of None \<Rightarrow> result | Some k \<Rightarrow> stable_sort (sortBefore k) result);
               skipped = (if skip options > 0 then drop (nat (skip options)) sorted_result else sorted_result) in
           Inr (if limit options > 0 \<and> int (length skipped) > limit options
                then take (nat (limit options)) skipped else skipped)))"

definition CountDocuments :: "store_env \<Rightarrow> string \<Rightarrow> doc \<Rightarrow> store \<Rightarrow> store_error + int" where
  "CountDocuments E c flt s =
     (case map_of s c of
        None \<Rightarrow> Inr 0
      | Some coll \<Rightarrow> map_sum id (\<lambda>ds. int (length ds)) (allMatches E flt (documents coll)))"

definition groupKey :: "string list \<Rightarrow> doc \<Rightarrow> string list" where
  "groupKey groupFields document =
     map (\<lambda>field. case valuesAt document field of BString v # _ \<Rightarrow> v | _ \<Rightarrow> []) groupFields"

definition groupAmount :: "string \<Rightarrow> doc \<Rightarrow> int" where
  "groupAmount sumField document =
     (if sumField = [] then 0 else case valuesAt document sumField of [] \<Rightarrow> 0 | v # _ \<Rightarrow> asLong v)"

fun addToGroup :: "string list \<Rightarrow> int \<Rightarrow> GroupCounts list \<Rightarrow> GroupCounts list" where
  "addToGroup key amount [] = [\<lparr>group_key = key, group_count = 1, group_sum = amount\<rparr>]"
| "addToGroup key amount (g # gs) =
     (if group_key g = key
      then g\<lparr>group_count := group_count g + 1, group_sum := group_sum g + amount\<rparr> # gs
      else g # addToGroup key amount gs)"

definition GroupCount ::
  "store_env \<Rightarrow> string \<Rightarrow> doc \<Rightarrow> string list \<Rightarrow> string \<Rightarrow> store \<Rightarrow> store_error + GroupCounts list" where
  "GroupCount E c flt groupFields sumField s =
     (case map_of s c of
        None \<Rightarrow> Inr []
      | Some coll \<Rightarrow>
          map_sum id (foldl (\<lambda>gs d. addToGroup (groupKey groupFields d) (groupAmount sumField d) gs) [])
            (allMatches E flt (documents coll)))"

definition Collections :: "store \<Rightarrow> string list" where
  "Collections s = map fst (filter (\<lambda>(name, c). documents c \<noteq> []) s)"

definition Size :: "string \<Rightarrow> store \<Rightarrow> int" where
  "Size c s = (case map_of s c of None \<Rightarrow> 0 | Some coll \<Rightarrow> int (length (documents coll)))"

subsection \<open>Writing\<close>

text \<open>A document stored at the end, or over the one at a position, once the unique indexes allow it.\<close>

definition store_new :: "store_env \<Rightarrow> string \<Rightarrow> collection \<Rightarrow> doc \<Rightarrow> 'a \<Rightarrow> store \<Rightarrow> store \<times> (store_error + 'a)" where
  "store_new E c coll d result s =
     (case CheckUnique E coll d (-1) of
        Inl e \<Rightarrow> (map_put c coll s, Inl e)
      | Inr _ \<Rightarrow> (map_put c (coll\<lparr>documents := documents coll @ [d]\<rparr>) s, Inr result))"

definition store_at :: "store_env \<Rightarrow> string \<Rightarrow> collection \<Rightarrow> nat \<Rightarrow> doc \<Rightarrow> 'a \<Rightarrow> store \<Rightarrow> store \<times> (store_error + 'a)" where
  "store_at E c coll i d result s =
     (case CheckUnique E coll d (int i) of
        Inl e \<Rightarrow> (map_put c coll s, Inl e)
      | Inr _ \<Rightarrow> (map_put c (coll\<lparr>documents := (documents coll)[i := d]\<rparr>) s, Inr result))"

definition InsertOne :: "store_env \<Rightarrow> string \<Rightarrow> doc \<Rightarrow> store \<Rightarrow> store \<times> (store_error + string)" where
  "InsertOne E c document s =
     (let oid = (case oidOf document of Some oid \<Rightarrow> oid | None \<Rightarrow> new_oid E) in
      store_new E c (target c s) (withId document oid) oid s)"

definition UpdateOne ::
  "store_env \<Rightarrow> string \<Rightarrow> doc \<Rightarrow> doc \<Rightarrow> bool \<Rightarrow> store \<Rightarrow> store \<times> (store_error + UpdateResult)" where
  "UpdateOne E c flt update upsert s =
     (let coll = target c s in
      case firstMatch E flt 0 (documents coll) of
        Inl e \<Rightarrow> (map_put c coll s, Inl e)
      | Inr (Some (i, d)) \<Rightarrow>
          (case applyUpdate E d update False flt of
             Inl e \<Rightarrow> (map_put c coll s, Inl e)
           | Inr updated \<Rightarrow>
               if sameDocument d updated then (map_put c coll s, Inr (no_update\<lparr>matched := 1\<rparr>))
               else store_at E c coll i updated (no_update\<lparr>matched := 1, modified := 1\<rparr>) s)
      | Inr None \<Rightarrow>
          if \<not> upsert then (map_put c coll s, Inr no_update)
          else (case applyUpdate E (seedFromFilter flt) update True [] of
                  Inl e \<Rightarrow> (map_put c coll s, Inl e)
                | Inr applied \<Rightarrow>
                    (let oid = upsertId E applied flt in
                     store_new E c coll (withId applied oid) (no_update\<lparr>upsertedId := Some oid\<rparr>) s)))"

text \<open>The loop of \<^verbatim>\<open>UpdateMany\<close> at position \<open>i\<close>: it sees what it has already written.\<close>

function updateManyLoop ::
  "store_env \<Rightarrow> doc \<Rightarrow> doc \<Rightarrow> nat \<Rightarrow> UpdateResult \<Rightarrow> collection \<Rightarrow> collection \<times> (store_error + UpdateResult)" where
  "updateManyLoop E flt update i result coll =
     (if length (documents coll) \<le> i then (coll, Inr result)
      else let d = documents coll ! i in
        case matches E d flt of
          Inl e \<Rightarrow> (coll, Inl e)
        | Inr False \<Rightarrow> updateManyLoop E flt update (Suc i) result coll
        | Inr True \<Rightarrow>
            (let result' = result\<lparr>matched := matched result + 1\<rparr> in
             case applyUpdate E d update False flt of
               Inl e \<Rightarrow> (coll, Inl e)
             | Inr updated \<Rightarrow>
                 if sameDocument d updated then updateManyLoop E flt update (Suc i) result' coll
                 else (case CheckUnique E coll updated (int i) of
                         Inl e \<Rightarrow> (coll, Inl e)
                       | Inr _ \<Rightarrow>
                           updateManyLoop E flt update (Suc i)
                             (result'\<lparr>modified := modified result' + 1\<rparr>)
                             (coll\<lparr>documents := (documents coll)[i := updated]\<rparr>))))"
  by pat_completeness auto
termination
  by (relation "measure (\<lambda>(E, flt, update, i, result, coll). length (documents coll) - i)") auto

declare updateManyLoop.simps [simp del]

definition UpdateMany :: "store_env \<Rightarrow> string \<Rightarrow> doc \<Rightarrow> doc \<Rightarrow> store \<Rightarrow> store \<times> (store_error + UpdateResult)" where
  "UpdateMany E c flt update s =
     (let (coll, result) = updateManyLoop E flt update 0 no_update (target c s) in (map_put c coll s, result))"

definition ReplaceOne ::
  "store_env \<Rightarrow> string \<Rightarrow> doc \<Rightarrow> doc \<Rightarrow> bool \<Rightarrow> store \<Rightarrow> store \<times> (store_error + UpdateResult)" where
  "ReplaceOne E c flt replacement upsert s =
     (let coll = target c s in
      case firstMatch E flt 0 (documents coll) of
        Inl e \<Rightarrow> (map_put c coll s, Inl e)
      | Inr (Some (i, d)) \<Rightarrow>
          (case oidOf d of
             None \<Rightarrow> (map_put c coll s, Inl WrongType)
           | Some oid \<Rightarrow>
               (let stored = withId replacement oid in
                if sameDocument d stored then (map_put c coll s, Inr (no_update\<lparr>matched := 1\<rparr>))
                else store_at E c coll i stored (no_update\<lparr>matched := 1, modified := 1\<rparr>) s))
      | Inr None \<Rightarrow>
          if \<not> upsert then (map_put c coll s, Inr no_update)
          else (let oid = upsertId E replacement flt in
                store_new E c coll (withId replacement oid) (no_update\<lparr>upsertedId := Some oid\<rparr>) s))"

definition FindOneAndUpdate ::
  "store_env \<Rightarrow> string \<Rightarrow> doc \<Rightarrow> doc \<Rightarrow> bool \<Rightarrow> bool \<Rightarrow> store \<Rightarrow> store \<times> (store_error + doc option)" where
  "FindOneAndUpdate E c flt update upsert returnAfter s =
     (let coll = target c s in
      case firstMatch E flt 0 (documents coll) of
        Inl e \<Rightarrow> (map_put c coll s, Inl e)
      | Inr (Some (i, before)) \<Rightarrow>
          (case applyUpdate E before update False flt of
             Inl e \<Rightarrow> (map_put c coll s, Inl e)
           | Inr updated \<Rightarrow> store_at E c coll i updated (Some (if returnAfter then updated else before)) s)
      | Inr None \<Rightarrow>
          if \<not> upsert then (map_put c coll s, Inr None)
          else (case applyUpdate E (seedFromFilter flt) update True [] of
                  Inl e \<Rightarrow> (map_put c coll s, Inl e)
                | Inr applied \<Rightarrow>
                    (let created = withId applied (new_oid E) in
                     store_new E c coll created (if returnAfter then Some created else None) s)))"

definition FindOneAndDelete :: "store_env \<Rightarrow> string \<Rightarrow> doc \<Rightarrow> store \<Rightarrow> store \<times> (store_error + doc option)" where
  "FindOneAndDelete E c flt s =
     (case map_of s c of
        None \<Rightarrow> (s, Inr None)
      | Some coll \<Rightarrow>
          (case firstMatch E flt 0 (documents coll) of
             Inl e \<Rightarrow> (s, Inl e)
           | Inr None \<Rightarrow> (s, Inr None)
           | Inr (Some (i, d)) \<Rightarrow>
               (map_put c (coll\<lparr>documents := take i (documents coll) @ drop (Suc i) (documents coll)\<rparr>) s,
                Inr (Some d))))"

fun deleteLoop :: "store_env \<Rightarrow> doc \<Rightarrow> bool \<Rightarrow> doc list \<Rightarrow> doc list \<times> (store_error + int)" where
  "deleteLoop E flt single [] = ([], Inr 0)"
| "deleteLoop E flt single (d # ds) =
     (case matches E d flt of
        Inl e \<Rightarrow> (d # ds, Inl e)
      | Inr False \<Rightarrow> map_prod (\<lambda>r. d # r) id (deleteLoop E flt single ds)
      | Inr True \<Rightarrow>
          if single then (ds, Inr 1)
          else map_prod id (map_sum id (\<lambda>n. n + 1)) (deleteLoop E flt single ds))"

definition Delete :: "store_env \<Rightarrow> string \<Rightarrow> doc \<Rightarrow> bool \<Rightarrow> store \<Rightarrow> store \<times> (store_error + int)" where
  "Delete E c flt single s =
     (case map_of s c of
        None \<Rightarrow> (s, Inr 0)
      | Some coll \<Rightarrow>
          (let (ds, result) = deleteLoop E flt single (documents coll) in
           (map_put c (coll\<lparr>documents := ds\<rparr>) s, result)))"

definition CreateIndex :: "string \<Rightarrow> doc \<Rightarrow> bool \<Rightarrow> store \<Rightarrow> store" where
  "CreateIndex c keys unique s =
     (let coll = target c s; key_fields = map fst keys in
      map_put c
        (if unique \<and> key_fields \<notin> set (uniqueKeys coll)
         then coll\<lparr>uniqueKeys := uniqueKeys coll @ [key_fields]\<rparr> else coll) s)"

definition Clear :: "store \<Rightarrow> store" where
  "Clear s = []"

subsection \<open>Unique indexes are kept\<close>

text \<open>Two documents hold the same key: both have all of it, and the values, none of them an operator document,
  are equal one by one.\<close>

definition same_key :: "string list \<Rightarrow> doc \<Rightarrow> doc \<Rightarrow> bool" where
  "same_key keys d e \<longleftrightarrow>
     (case (keyFilter d keys, keyFilter e keys) of
        (Some f, Some g) \<Rightarrow>
          list_all plain_condition f \<and> list_all plain_condition g \<and>
          list_all2 equals_bson (map snd f) (map snd g)
      | _ \<Rightarrow> False)"

definition unique_for :: "doc list \<Rightarrow> string list \<Rightarrow> bool" where
  "unique_for ds keys \<longleftrightarrow> sorted_wrt (\<lambda>d e. \<not> same_key keys d e) ds"

definition unique_ok :: "collection \<Rightarrow> bool" where
  "unique_ok coll \<longleftrightarrow> (\<forall>keys \<in> set (uniqueKeys coll). unique_for (documents coll) keys)"

lemma list_all2_equals_sym: "list_all2 equals_bson vs ws \<longleftrightarrow> list_all2 equals_bson ws vs"
  unfolding list_all2_conv_all_nth using equals_sym by metis

lemma same_key_sym: "same_key keys d e \<longleftrightarrow> same_key keys e d"
  by (auto simp: same_key_def list_all2_equals_sym split: option.split)

lemma unique_for_iff:
  "unique_for ds keys \<longleftrightarrow>
     (\<forall>i j. i < length ds \<and> j < length ds \<and> i \<noteq> j \<longrightarrow> \<not> same_key keys (ds ! i) (ds ! j))"
proof
  assume u: "unique_for ds keys"
  show "\<forall>i j. i < length ds \<and> j < length ds \<and> i \<noteq> j \<longrightarrow> \<not> same_key keys (ds ! i) (ds ! j)"
  proof (intro allI impI)
    fix i j assume "i < length ds \<and> j < length ds \<and> i \<noteq> j"
    with u show "\<not> same_key keys (ds ! i) (ds ! j)"
      unfolding unique_for_def sorted_wrt_iff_nth_less by (metis linorder_neqE_nat same_key_sym)
  qed
qed (auto simp: unique_for_def sorted_wrt_iff_nth_less)

lemma unique_for_append:
  "unique_for (ds @ [d]) keys \<longleftrightarrow> unique_for ds keys \<and> (\<forall>e \<in> set ds. \<not> same_key keys d e)"
  by (auto simp: unique_for_def sorted_wrt_append same_key_sym)

lemma unique_for_update:
  assumes "unique_for ds keys" and "i < length ds"
    and "\<And>j. j < length ds \<Longrightarrow> j \<noteq> i \<Longrightarrow> \<not> same_key keys d (ds ! j)"
  shows "unique_for (ds[i := d]) keys"
  using assms unfolding unique_for_iff by (auto simp: nth_list_update same_key_sym)

text \<open>A document whose first value under every key is equal matches the filter made from the keys.\<close>

lemma keyFilter_matched:
  "keyFilter d keys = Some f \<Longrightarrow> keyFilter e keys = Some g \<Longrightarrow> list_all2 equals_bson (map snd f) (map snd g) \<Longrightarrow>
   \<forall>c \<in> set f. field_equals e c"
proof (induction keys arbitrary: f g)
  case (Cons key keys)
  then obtain v vs f' where f: "valuesAt d key = v # vs" "keyFilter d keys = Some f'" "f = (key, v) # f'"
    by (auto split: list.splits)
  from Cons.prems obtain w ws g' where g: "valuesAt e key = w # ws" "keyFilter e keys = Some g'" "g = (key, w) # g'"
    by (auto split: list.splits)
  have "equals_bson w v" and "list_all2 equals_bson (map snd f') (map snd g')"
    using Cons.prems(3) f(3) g(3) by (simp_all add: equals_sym)
  with Cons.IH [OF f(2) g(2)] f(3) g(1) show ?case by (auto simp: field_equals_def)
qed simp

lemma anyOther_False:
  "anyOther E flt r i ds = Inr False \<Longrightarrow> j < length ds \<Longrightarrow> i + int j \<noteq> r \<Longrightarrow> matches E (ds ! j) flt = Inr False"
proof (induction ds arbitrary: i j)
  case (Cons d ds)
  show ?case
  proof (cases j)
    case 0
    with Cons.prems show ?thesis by (auto split: sum.splits bool.splits)
  next
    case (Suc j')
    have "anyOther E flt r (i + 1) ds = Inr False"
      using Cons.prems(1) by (auto split: if_splits sum.splits bool.splits)
    then show ?thesis using Cons.IH [of "i + 1" j'] Cons.prems Suc by (simp add: algebra_simps)
  qed
qed simp

lemma checkIndexes_ok:
  "checkIndexes E ds d r idx = Inr () \<Longrightarrow> keys \<in> set idx \<Longrightarrow> keyFilter d keys = Some f \<Longrightarrow>
   anyOther E f r 0 ds = Inr False"
  by (induction idx) (auto split: option.splits sum.splits bool.splits)

text \<open>What a passed check promises.\<close>

lemma CheckUnique_ok:
  assumes "CheckUnique E coll d r = Inr ()" and "keys \<in> set (uniqueKeys coll)"
    and "j < length (documents coll)" and "int j \<noteq> r"
  shows "\<not> same_key keys d (documents coll ! j)"
proof
  assume same: "same_key keys d (documents coll ! j)"
  then obtain f g where f: "keyFilter d keys = Some f" "keyFilter (documents coll ! j) keys = Some g"
      "list_all plain_condition f" "list_all2 equals_bson (map snd f) (map snd g)"
    by (auto simp: same_key_def split: option.splits)
  have "anyOther E f r 0 (documents coll) = Inr False"
    using assms(1,2) f(1) unfolding CheckUnique_def by (rule checkIndexes_ok)
  then have "matches E (documents coll ! j) f = Inr False"
    using assms(3,4) by (intro anyOther_False) auto
  moreover have "matches E (documents coll ! j) f = Inr True"
    using keyFilter_matched [OF f(1,2,4)] f(3) by (subst matches_plain) (auto simp: list_all_iff)
  ultimately show False by simp
qed

lemma unique_ok_append:
  "unique_ok coll \<Longrightarrow> CheckUnique E coll d (-1) = Inr () \<Longrightarrow> unique_ok (coll\<lparr>documents := documents coll @ [d]\<rparr>)"
  using CheckUnique_ok [of E coll d "-1"] by (fastforce simp: unique_ok_def unique_for_append in_set_conv_nth)

lemma unique_ok_update:
  "unique_ok coll \<Longrightarrow> CheckUnique E coll d (int i) = Inr () \<Longrightarrow> i < length (documents coll) \<Longrightarrow>
   unique_ok (coll\<lparr>documents := (documents coll)[i := d]\<rparr>)"
  by (auto simp: unique_ok_def intro!: unique_for_update dest: CheckUnique_ok)

lemma firstMatch_Some:
  "firstMatch E flt k ds = Inr (Some (i, d)) \<Longrightarrow>
   k \<le> i \<and> i - k < length ds \<and> ds ! (i - k) = d \<and> matches E d flt = Inr True \<and>
   (\<forall>j < i - k. matches E (ds ! j) flt = Inr False)"
proof (induction ds arbitrary: k)
  case (Cons e ds)
  show ?case
  proof (cases "matches E e flt = Inr True")
    case True
    with Cons.prems show ?thesis by simp
  next
    case False
    then have e: "matches E e flt = Inr False" and "firstMatch E flt (Suc k) ds = Inr (Some (i, d))"
      using Cons.prems by (auto split: sum.splits bool.splits)
    note IH = Cons.IH [OF this(2)]
    then obtain m where "i = Suc k + m" by (meson le_Suc_ex)
    with IH e show ?thesis by (auto simp: less_Suc_eq_0_disj)
  qed
qed simp

lemma firstMatch_None:
  "firstMatch E flt k ds = Inr None \<longleftrightarrow> (\<forall>d \<in> set ds. matches E d flt = Inr False)"
  by (induction ds arbitrary: k) (auto split: sum.splits bool.splits)

lemmas firstMatch_at = firstMatch_Some [where k = 0, simplified]

lemma updateManyLoop_unique:
  "unique_ok coll \<Longrightarrow> unique_ok (fst (updateManyLoop E flt update i result coll))"
proof (induction "length (documents coll) - i" arbitrary: i result coll)
  case 0
  then show ?case by (subst updateManyLoop.simps) simp
next
  case (Suc n)
  note IH = Suc.hyps(1) and upd = unique_ok_update [OF Suc.prems, of E _ i]
  have n: "n = length (documents coll) - Suc i" and i: "i < length (documents coll)" using Suc.hyps(2) by auto
  show ?case
    by (subst updateManyLoop.simps)
      (use n i in \<open>auto simp: Let_def not_le Suc.prems upd split: sum.split bool.split intro!: IH\<close>)
qed

lemma subseq_remove_nth: "subseq (take i ds @ drop (Suc i) ds) ds"
proof (induction ds arbitrary: i)
  case (Cons d ds)
  then show ?case by (cases i) auto
qed simp

lemma deleteLoop_subseq: "subseq (fst (deleteLoop E flt single ds)) ds"
  by (induction ds) (auto split: sum.splits bool.splits)

lemma unique_for_subseq: "subseq ds' ds \<Longrightarrow> unique_for ds keys \<Longrightarrow> unique_for ds' keys"
proof (induction ds' ds rule: list_emb.induct)
  case (list_emb_Cons2 x y xs ys)
  then show ?case by (auto simp: unique_for_def dest: list_emb_set)
qed (auto simp: unique_for_def)

lemma unique_ok_subseq:
  "unique_ok coll \<Longrightarrow> subseq ds (documents coll) \<Longrightarrow> unique_ok (coll\<lparr>documents := ds\<rparr>)"
  by (auto simp: unique_ok_def intro: unique_for_subseq)

subsection \<open>Runs of the store\<close>

datatype store_op =
    OpInsertOne string doc
  | OpUpdateOne string doc doc bool
  | OpUpdateMany string doc doc
  | OpReplaceOne string doc doc bool
  | OpFindOneAndUpdate string doc doc bool bool
  | OpFindOneAndDelete string doc
  | OpDelete string doc bool
  | OpCreateIndex string doc bool
  | OpClear

fun store_step :: "store_env \<Rightarrow> store_op \<Rightarrow> store \<Rightarrow> store" where
  "store_step E (OpInsertOne c d) s = fst (InsertOne E c d s)"
| "store_step E (OpUpdateOne c f u up) s = fst (UpdateOne E c f u up s)"
| "store_step E (OpUpdateMany c f u) s = fst (UpdateMany E c f u s)"
| "store_step E (OpReplaceOne c f r up) s = fst (ReplaceOne E c f r up s)"
| "store_step E (OpFindOneAndUpdate c f u up after) s = fst (FindOneAndUpdate E c f u up after s)"
| "store_step E (OpFindOneAndDelete c f) s = fst (FindOneAndDelete E c f s)"
| "store_step E (OpDelete c f single) s = fst (Delete E c f single s)"
| "store_step E (OpCreateIndex c keys unique) s = CreateIndex c keys unique s"
| "store_step E OpClear s = Clear s"

text \<open>An index is created on a collection whose documents do not already break it: the store does not look.\<close>

fun index_guard :: "store_op \<Rightarrow> store \<Rightarrow> bool" where
  "index_guard (OpCreateIndex c keys unique) s \<longleftrightarrow>
     unique \<longrightarrow> unique_for (documents (target c s)) (map fst keys)"
| "index_guard _ _ \<longleftrightarrow> True"

definition store_ok :: "store \<Rightarrow> bool" where
  "store_ok s \<longleftrightarrow> key_ordered s \<and> (\<forall>c coll. map_of s c = Some coll \<longrightarrow> unique_ok coll)"

lemma store_ok_put: "store_ok s \<Longrightarrow> unique_ok coll \<Longrightarrow> store_ok (map_put c coll s)"
  by (auto simp: store_ok_def)

lemma unique_ok_empty [simp]: "unique_ok empty_collection"
  by (simp add: unique_ok_def empty_collection_def)

lemma store_ok_target: "store_ok s \<Longrightarrow> unique_ok (target c s)"
  by (auto simp: store_ok_def target_def split: option.split)

lemma store_ok_new: "store_ok s \<Longrightarrow> store_ok (fst (store_new E c (target c s) d r s))"
  by (auto simp: store_new_def store_ok_target unique_ok_append split: sum.split intro!: store_ok_put)

lemma store_ok_at:
  "store_ok s \<Longrightarrow> i < length (documents (target c s)) \<Longrightarrow> store_ok (fst (store_at E c (target c s) i d r s))"
  by (auto simp: store_at_def store_ok_target unique_ok_update split: sum.split intro!: store_ok_put)

lemmas store_ok_intros = store_ok_put store_ok_target store_ok_new store_ok_at

lemma store_ok_step: "store_ok s \<Longrightarrow> index_guard op s \<Longrightarrow> store_ok (store_step E op s)"
proof (cases op)
  case (OpInsertOne c d)
  assume "store_ok s"
  then show ?thesis by (simp add: OpInsertOne InsertOne_def Let_def store_ok_new)
next
  case (OpUpdateOne c f u up)
  assume "store_ok s"
  then show ?thesis
    by (auto simp: OpUpdateOne UpdateOne_def Let_def store_ok_intros dest!: firstMatch_at
        split: sum.split option.split)
next
  case (OpUpdateMany c f u)
  assume "store_ok s"
  then show ?thesis
    using updateManyLoop_unique [of "target c s" E f u 0 no_update]
    by (auto simp: OpUpdateMany UpdateMany_def store_ok_target split: prod.splits intro!: store_ok_put)
next
  case (OpReplaceOne c f r up)
  assume "store_ok s"
  then show ?thesis
    by (auto simp: OpReplaceOne ReplaceOne_def Let_def store_ok_intros dest!: firstMatch_at
        split: sum.split option.split)
next
  case (OpFindOneAndUpdate c f u up after)
  assume "store_ok s"
  then show ?thesis
    by (auto simp: OpFindOneAndUpdate FindOneAndUpdate_def Let_def store_ok_intros dest!: firstMatch_at
        split: sum.split option.split)
next
  case (OpFindOneAndDelete c f)
  assume ok: "store_ok s"
  then show ?thesis
    using subseq_remove_nth
    by (auto simp: OpFindOneAndDelete FindOneAndDelete_def store_ok_def intro!: unique_ok_subseq
        split: sum.split option.split)
next
  case (OpDelete c f single)
  assume "store_ok s"
  then show ?thesis
    using deleteLoop_subseq
    by (auto simp: OpDelete Delete_def store_ok_def Let_def split_beta intro!: unique_ok_subseq split: option.split)
next
  case (OpCreateIndex c keys unique)
  assume ok: "store_ok s" and "index_guard op s"
  with store_ok_target [OF ok, of c] show ?thesis
    by (auto simp: OpCreateIndex CreateIndex_def Let_def unique_ok_def intro!: store_ok_put)
next
  case OpClear
  then show ?thesis by (simp add: Clear_def store_ok_def)
qed

definition store_next :: "store \<Rightarrow> store \<Rightarrow> bool" where
  "store_next s t \<longleftrightarrow> (\<exists>E op. index_guard op s \<and> t = store_step E op s)"

interpretation store_runs: inductive_invariant "[]" store_next store_ok
  by unfold_locales (auto simp: store_ok_def [of "[]"] store_next_def intro: store_ok_step)


definition sample_store :: store where
  "sample_store = store_step (sample_env\<lparr>new_oid := ''66''\<rparr>) (OpInsertOne ''role'' [(''name'', BString ''b'')])
     (store_step sample_env (OpInsertOne ''role'' [(''name'', BString ''a'')])
       (store_step sample_env (OpCreateIndex ''role'' [(''name'', BInt32 1)] True) []))"

lemma reach_step: "reach [] store_next s \<Longrightarrow> index_guard op s \<Longrightarrow> reach [] store_next (store_step E op s)"
  by (rule reach.step) (auto simp: store_next_def)

lemma sample_store_reached: "reach [] store_next sample_store"
  unfolding sample_store_def
  by (intro reach_step reach.start) (simp_all add: unique_for_def target_def empty_collection_def)

text \<open>Evaluation of the store's operations on concrete documents.\<close>

lemmas store_eval = target_def empty_collection_def withId_def oidOf_def valuesAt_def resolve.simps sample_env_def
  matchesCondition_def equals_bson_def compare_bson_def three_way_def logical_def CheckUnique_def store_new_def
  store_at_def key_names_def Let_def

lemma sample_store_is:
  "sample_store = [(''role'',
     \<lparr>documents = [[(''_id'', BOid ''650000000000000000000001''), (''name'', BString ''a'')],
                   [(''_id'', BOid ''66''), (''name'', BString ''b'')]],
      uniqueKeys = [[''name'']]\<rparr>)]"
  by (simp add: sample_store_def CreateIndex_def InsertOne_def store_eval)


subsection \<open>Single-document writes\<close>

lemma target_put [simp]: "target c' (map_put c coll s) = (if c' = c then coll else target c' s)"
  by (simp add: target_def)

lemma store_new_error: "snd (store_new E c coll d r s) = Inl e \<Longrightarrow> fst (store_new E c coll d r s) = map_put c coll s"
  and store_at_error: "snd (store_at E c coll i d r s) = Inl e \<Longrightarrow> fst (store_at E c coll i d r s) = map_put c coll s"
  by (auto simp: store_new_def store_at_def split: sum.splits)

text \<open>A single-document write that fails - a duplicate key, an operator the store does not implement, a
  malformed filter - leaves every document and every index of every collection as it was.\<close>

theorem failed_write_changes_nothing:
  assumes "snd (InsertOne E c d s) = Inl e \<and> s' = fst (InsertOne E c d s) \<or>
    snd (UpdateOne E c f u up s) = Inl e \<and> s' = fst (UpdateOne E c f u up s) \<or>
    snd (ReplaceOne E c f d up s) = Inl e \<and> s' = fst (ReplaceOne E c f d up s) \<or>
    snd (FindOneAndUpdate E c f u up after s) = Inl e \<and> s' = fst (FindOneAndUpdate E c f u up after s) \<or>
    snd (FindOneAndDelete E c f s) = Inl e \<and> s' = fst (FindOneAndDelete E c f s)"
  shows "target c' s' = target c' s"
proof -
  have "s' = map_put c (target c s) s \<or> s' = s"
    using assms
    by (auto simp: InsertOne_def UpdateOne_def ReplaceOne_def FindOneAndUpdate_def FindOneAndDelete_def Let_def
        split: sum.splits option.splits if_splits dest: store_new_error store_at_error)
  then show ?thesis by auto
qed

theorem failed_write_changes_nothing_witness:
  "snd (InsertOne sample_env ''role'' [(''name'', BString ''b'')] sample_store) = Inl (DuplicateKey ''name'') \<and>
   target ''role'' (fst (InsertOne sample_env ''role'' [(''name'', BString ''b'')] sample_store)) =
     target ''role'' sample_store"
proof -
  have "snd (InsertOne sample_env ''role'' [(''name'', BString ''b'')] sample_store) = Inl (DuplicateKey ''name'')"
    by (simp add: sample_store_is InsertOne_def store_eval)
  then show ?thesis using failed_write_changes_nothing by blast
qed

text \<open>(C22) An update without upsert reports exactly what it did: nothing matched and nothing changed, or the first
  document that matches the filter was replaced by the update of it, every other document kept its place and
  value, and the modified count says whether the update made a difference.\<close>

theorem UpdateOne_exact:
  assumes "UpdateOne E c flt u False s = (s', Inr r)"
  shows "(r = no_update \<and> target c s' = target c s \<and>
          (\<forall>d \<in> set (documents (target c s)). matches E d flt = Inr False)) \<or>
    (\<exists>i d'. i < length (documents (target c s)) \<and>
       matches E (documents (target c s) ! i) flt = Inr True \<and>
       (\<forall>j < i. matches E (documents (target c s) ! j) flt = Inr False) \<and>
       applyUpdate E (documents (target c s) ! i) u False flt = Inr d' \<and>
       documents (target c s') = (documents (target c s))[i := d'] \<and>
       r = no_update\<lparr>matched := 1, modified := of_bool (d' \<noteq> documents (target c s) ! i)\<rparr>)"
proof (cases "firstMatch E flt 0 (documents (target c s))")
  case (Inl e)
  with assms show ?thesis by (simp add: UpdateOne_def)
next
  case (Inr m)
  show ?thesis
  proof (cases m)
    case None
    with assms Inr show ?thesis by (auto simp: UpdateOne_def firstMatch_None)
  next
    case (Some p)
    obtain i d where p: "p = (i, d)" by fastforce
    note at = firstMatch_at [of E flt "documents (target c s)" i d]
    show ?thesis
      using assms Inr Some p at
      by (fastforce simp: UpdateOne_def store_at_def sameDocument_def Let_def list_update_same_conv no_update_def
          split: sum.splits if_splits intro!: exI [of _ i])
  qed
qed

theorem UpdateOne_exact_witness:
  "\<exists>r s'. UpdateOne sample_env ''role'' [(''name'', BString ''b'')] [(''$set'', BDoc [(''n'', BInt32 1)])] False
       sample_store = (s', Inr r) \<and> matched r = 1 \<and> modified r = 1"
proof -
  let ?u = "UpdateOne sample_env ''role'' [(''name'', BString ''b'')] [(''$set'', BDoc [(''n'', BInt32 1)])] False
       sample_store"
  have r: "?u = (fst ?u, Inr (no_update\<lparr>matched := 1, modified := 1\<rparr>))"
    by (simp add: sample_store_is UpdateOne_def store_eval applyUpdate_def applyStage_def setField_def
        requireTopLevel_def sameDocument_def)
  then show ?thesis using UpdateOne_exact [OF r] by (force simp: no_update_def)
qed

subsection \<open>Counting, deleting and grouping\<close>

lemma allMatches_filter:
  "allMatches E flt ds = Inr r \<longleftrightarrow>
     (\<forall>d \<in> set ds. \<exists>b. matches E d flt = Inr b) \<and> r = filter (\<lambda>d. matches E d flt = Inr True) ds"
  by (induction ds arbitrary: r) (auto split: sum.splits)

lemma deleteLoop_all:
  "deleteLoop E flt False ds = (ds', Inr n) \<Longrightarrow>
   allMatches E flt ds = Inr (filter (\<lambda>d. matches E d flt = Inr True) ds) \<and>
   n = int (length (filter (\<lambda>d. matches E d flt = Inr True) ds)) \<and>
   ds' = filter (\<lambda>d. matches E d flt = Inr False) ds"
proof (induction ds arbitrary: ds' n)
  case (Cons d ds)
  obtain ds1 r1 where l: "deleteLoop E flt False ds = (ds1, r1)" by fastforce
  with Cons show ?case by (cases r1) (auto split: sum.splits bool.splits)
qed simp

text \<open>(C24) Deleting takes exactly what counting counts: the number a delete of a filter reports is the number of
  matching documents before it, none match after it, and the others stay in their order.\<close>

theorem Delete_is_exact:
  assumes "Delete E c flt False s = (s', Inr n)"
  shows "CountDocuments E c flt s = Inr n \<and> CountDocuments E c flt s' = Inr 0 \<and>
    documents (target c s') = filter (\<lambda>d. matches E d flt = Inr False) (documents (target c s))"
proof (cases "map_of s c")
  case None
  with assms show ?thesis by (auto simp: Delete_def CountDocuments_def target_def empty_collection_def)
next
  case (Some coll)
  obtain ds' r where l: "deleteLoop E flt False (documents coll) = (ds', r)" by fastforce
  with assms Some have s': "s' = map_put c (coll\<lparr>documents := ds'\<rparr>) s" and "r = Inr n"
    by (auto simp: Delete_def)
  note del = deleteLoop_all [OF l [unfolded this(2)]]
  then have "allMatches E flt ds' = Inr []" by (auto simp: allMatches_filter filter_empty_conv)
  with del Some s' show ?thesis by (simp add: CountDocuments_def target_def)
qed

theorem Delete_is_exact_witness:
  "CountDocuments sample_env ''role'' [(''name'', BDoc [(''$gte'', BString ''a'')])] sample_store = Inr 2 \<and>
   CountDocuments sample_env ''role'' [(''name'', BDoc [(''$gte'', BString ''a'')])]
     (fst (Delete sample_env ''role'' [(''name'', BDoc [(''$gte'', BString ''a'')])] False sample_store)) = Inr 0"
proof -
  let ?d = "Delete sample_env ''role'' [(''name'', BDoc [(''$gte'', BString ''a'')])] False sample_store"
  have d: "?d = (fst ?d, Inr 2)"
    by (simp add: sample_store_is Delete_def store_eval matchesOperator_def)
  from Delete_is_exact [OF d] show ?thesis by simp
qed

definition grouped :: "string list \<Rightarrow> string \<Rightarrow> doc list \<Rightarrow> GroupCounts list" where
  "grouped groupFields sumField ds =
     foldl (\<lambda>gs d. addToGroup (groupKey groupFields d) (groupAmount sumField d) gs) [] ds"

definition group_total :: "GroupCounts list \<Rightarrow> string list \<Rightarrow> int \<times> int" where
  "group_total gs k = (case find (\<lambda>g. group_key g = k) gs of None \<Rightarrow> (0, 0) | Some g \<Rightarrow> (group_count g, group_sum g))"

lemma keys_addToGroup:
  "map group_key (addToGroup key amount gs) =
     (if key \<in> set (map group_key gs) then map group_key gs else map group_key gs @ [key])"
  by (induction gs) auto

lemma group_total_add:
  "group_total (addToGroup key amount gs) k =
     (if k = key then map_prod ((+) 1) ((+) amount) (group_total gs k) else group_total gs k)"
  by (induction gs) (auto simp: group_total_def split: option.splits)

lemma group_total_mem:
  "distinct (map group_key gs) \<Longrightarrow> g \<in> set gs \<Longrightarrow> group_total gs (group_key g) = (group_count g, group_sum g)"
  by (induction gs) (auto simp: group_total_def split: if_splits)

lemma grouped_spec:
  "distinct (map group_key (grouped fs sf ds)) \<and>
   set (map group_key (grouped fs sf ds)) = groupKey fs ` set ds \<and>
   group_total (grouped fs sf ds) k =
     (count_if (\<lambda>d. groupKey fs d = k) ds, sum_list (map (groupAmount sf) (filter (\<lambda>d. groupKey fs d = k) ds)))"
proof (induction ds rule: rev_induct)
  case Nil
  show ?case by (simp add: grouped_def group_total_def)
next
  case (snoc d ds)
  have "grouped fs sf (ds @ [d]) = addToGroup (groupKey fs d) (groupAmount sf d) (grouped fs sf ds)"
    by (simp add: grouped_def)
  with snoc show ?case unfolding keys_addToGroup group_total_add by (auto simp: keys_addToGroup group_total_add)
qed

text \<open>The grouped count is exact: one group for each key that occurs among the matching documents and no other,
  each with the number of matching documents that have that key and the sum of their amounts.\<close>

theorem GroupCount_exact:
  assumes "GroupCount E c flt groupFields sumField s = Inr gs"
    and "ds = filter (\<lambda>d. matches E d flt = Inr True) (documents (target c s))"
  shows "distinct (map group_key gs) \<and> set (map group_key gs) = groupKey groupFields ` set ds \<and>
    (\<forall>g \<in> set gs. group_count g = count_if (\<lambda>d. groupKey groupFields d = group_key g) ds \<and>
       group_sum g = sum_list (map (groupAmount sumField) (filter (\<lambda>d. groupKey groupFields d = group_key g) ds)))"
proof -
  have gs: "gs = grouped groupFields sumField ds"
  proof (cases "map_of s c")
    case None
    with assms show ?thesis by (simp add: GroupCount_def grouped_def target_def empty_collection_def)
  next
    case (Some coll)
    with assms(1) obtain r where r: "allMatches E flt (documents coll) = Inr r" and "gs = grouped groupFields sumField r"
      by (cases "allMatches E flt (documents coll)") (auto simp: GroupCount_def grouped_def)
    then show ?thesis using assms(2) Some by (simp add: allMatches_filter target_def)
  qed
  note spec = grouped_spec [of groupFields sumField ds, folded gs]
  with group_total_mem [of gs] show ?thesis by (metis prod.inject)
qed

theorem GroupCount_exact_witness:
  "\<exists>gs. GroupCount sample_env ''role'' [] [''name''] [] sample_store = Inr gs \<and> distinct (map group_key gs)"
proof -
  have "GroupCount sample_env ''role'' [] [''name''] [] sample_store =
      Inr (grouped [''name''] [] (documents (target ''role'' sample_store)))"
    by (simp add: sample_store_is GroupCount_def grouped_def store_eval)
  from GroupCount_exact [OF this refl] this show ?thesis by blast
qed

subsection \<open>Sorting\<close>

text \<open>The documents a sort specification can order: under each of its keys the values are all numbers without NaN,
  for the keys in \<open>N\<close>, or all without doubles.\<close>

definition column_value :: "string set \<Rightarrow> string \<Rightarrow> bson \<Rightarrow> bool" where
  "column_value N k v \<longleftrightarrow> (if k \<in> N then isNumeric (type_of v) \<and> v \<noteq> BDouble NaN else \<not> is_double v)"

definition sortable :: "string set \<Rightarrow> doc \<Rightarrow> doc set" where
  "sortable N keys = {d. \<forall>k \<in> fst ` set keys. \<forall>v \<in> set (valuesAt d k). column_value N k v}"

lemma column_orderable: "\<forall>v \<in> S. column_value N k v \<Longrightarrow> orderable S"
  by (cases "k \<in> N") (force simp: column_value_def orderable_def is_double_def simp del: isNumeric.simps)+

lemma sortable_Cons: "d \<in> sortable N (e # keys) \<Longrightarrow> d \<in> sortable N keys"
  by (simp add: sortable_def)

definition key_order :: "string \<Rightarrow> doc \<Rightarrow> doc \<Rightarrow> int" where
  "key_order name left right =
     (case (valuesAt left name, valuesAt right name) of
        ([], []) \<Rightarrow> 0
      | ([], _ # _) \<Rightarrow> -1
      | (_ # _, []) \<Rightarrow> 1
      | (l # _, r # _) \<Rightarrow> compare_bson l r)"

lemma sortBefore_Cons:
  "sortBefore ((name, direction) # keys) left right =
     (let order = (if asLong direction \<ge> 0 then key_order name left right else - key_order name left right) in
      if order \<noteq> 0 then order < 0 else sortBefore keys left right)"
  by (auto simp: key_order_def Let_def split: list.split)

lemma key_order_swap: "key_order name y x = - key_order name x y"
proof (cases "valuesAt x name")
  case (Cons v vs)
  then show ?thesis using compare_swap [of _ v] by (auto simp: key_order_def split: list.split)
qed (auto simp: key_order_def split: list.split)

lemma key_order_trans:
  assumes "x \<in> sortable N keys" and "y \<in> sortable N keys" and "z \<in> sortable N keys" and "name \<in> fst ` set keys"
    and le: "key_order name x y \<le> 0" "key_order name y z \<le> 0"
  shows "key_order name x z \<le> 0"
proof -
  let ?S = "set (valuesAt x name) \<union> set (valuesAt y name) \<union> set (valuesAt z name)"
  have "orderable ?S"
    using assms(1-4) by (intro column_orderable [of _ N name]) (auto simp: sortable_def)
  from compare_trans [OF this] le show ?thesis
    by (auto simp: key_order_def split: list.splits)
qed

lemma sortBefore_negtrans:
  assumes "x \<in> sortable N keys" and "y \<in> sortable N keys" and "z \<in> sortable N keys"
    and "\<not> sortBefore keys y x" and "\<not> sortBefore keys z y"
  shows "\<not> sortBefore keys z x"
  using assms
proof (induction keys)
  case (Cons e keys)
  obtain name direction where e: "e = (name, direction)" by fastforce
  define o' where "o' l r = (if asLong direction \<ge> 0 then key_order name l r else - key_order name l r)" for l r
  have step: "sortBefore (e # keys) l r = (if o' l r \<noteq> 0 then o' l r < 0 else sortBefore keys l r)" for l r
    unfolding e sortBefore_Cons Let_def o'_def by simp
  have swap: "o' l r = - o' r l" for l r using key_order_swap [of name l r] by (simp add: o'_def)
  have trans: "o' a c \<le> 0" if "{a, b, c} \<subseteq> sortable N (e # keys)" "o' a b \<le> 0" "o' b c \<le> 0" for a b c
    using that key_order_trans [of a N "e # keys" b c name] key_order_trans [of c N "e # keys" b a name]
      key_order_swap [of name c b] key_order_swap [of name b a] key_order_swap [of name c a]
    by (auto simp: o'_def e split: if_splits)
  have S: "{x, y, z} \<subseteq> sortable N keys" using Cons.prems(1-3) sortable_Cons by blast
  have "o' x y \<le> 0" "o' y z \<le> 0"
    using Cons.prems(4,5) swap [of y x] swap [of z y] by (auto simp: step split: if_splits)
  moreover have "o' x z \<le> 0" using trans [of x y z] Cons.prems(1-3) calculation by blast
  moreover have "o' x y = 0 \<and> o' y z = 0" if "o' x z = 0"
    using trans [of y z x] trans [of z x y] Cons.prems(1-3) calculation swap [of x z] swap [of x y] swap [of y z] that
    by force
  ultimately show ?case
    using Cons.IH S Cons.prems(4,5) swap [of y x] swap [of z y] swap [of z x] by (auto simp: step split: if_splits)
qed simp

interpretation by_keys: weak_order_on "sortable N keys" "sortBefore keys" for N keys
proof
  show "\<not> sortBefore keys y x" if "sortBefore keys x y" for x y
    using that
  proof (induction keys)
    case (Cons e keys)
    then show ?case
      using key_order_swap [of "fst e" x y]
      by (cases e) (auto simp: sortBefore_Cons Let_def simp del: sortBefore.simps split: if_splits)
  qed simp
qed (rule sortBefore_negtrans)

text \<open>The page a find returns of an ordered result: \<open>skipped\<close> documents left out, then at most \<open>most\<close> if that is
  positive.\<close>

definition page :: "int \<Rightarrow> int \<Rightarrow> 'a list \<Rightarrow> 'a list" where
  "page skipped most xs = (let ys = drop (nat skipped) xs in if most > 0 then take (nat most) ys else ys)"

lemma Find_page:
  assumes "Find E c flt options s = Inr r"
  shows "r = page (skip options) (limit options)
    (case sort_spec options of None \<Rightarrow> filter (\<lambda>d. matches E d flt = Inr True) (documents (target c s))
     | Some keys \<Rightarrow> stable_sort (sortBefore keys) (filter (\<lambda>d. matches E d flt = Inr True) (documents (target c s))))"
proof (cases "map_of s c")
  case None
  with assms show ?thesis
    by (auto simp: Find_def page_def target_def empty_collection_def stable_sort_def Let_def split: option.splits)
next
  case (Some coll)
  with assms obtain ds where ds: "allMatches E flt (documents coll) = Inr ds"
    by (cases "allMatches E flt (documents coll)") (auto simp: Find_def)
  then have "ds = filter (\<lambda>d. matches E d flt = Inr True) (documents coll)" by (simp add: allMatches_filter)
  with assms Some ds show ?thesis by (auto simp: Find_def page_def target_def Let_def split: option.splits)
qed

text \<open>(C23) A sorted find returns a page of the matching documents in order: all of them and no other, each before
  those that the sort keys put after it, documents the keys do not tell apart in insertion order, then skipped and
  limited as asked. The sort columns hold numbers without NaN or values without doubles.\<close>

theorem Find_sorted_page:
  assumes "Find E c flt options s = Inr r" and "sort_spec options = Some keys"
    and "ds = filter (\<lambda>d. matches E d flt = Inr True) (documents (target c s))" and "set ds \<subseteq> sortable N keys"
  shows "\<exists>ordered. r = page (skip options) (limit options) ordered \<and> mset ordered = mset ds \<and>
    sorted_wrt (\<lambda>d e. \<not> sortBefore keys e d) ordered \<and>
    (\<forall>z \<in> set ds. filter (\<lambda>d. \<not> sortBefore keys z d \<and> \<not> sortBefore keys d z) ordered =
                 filter (\<lambda>d. \<not> sortBefore keys z d \<and> \<not> sortBefore keys d z) ds)"
proof -
  let ?o = "stable_sort (sortBefore keys) ds"
  have "r = page (skip options) (limit options) ?o" using Find_page [OF assms(1)] assms(2,3) by simp
  moreover have "filter (\<lambda>d. \<not> sortBefore keys z d \<and> \<not> sortBefore keys d z) ?o =
      filter (\<lambda>d. \<not> sortBefore keys z d \<and> \<not> sortBefore keys d z) ds" if "z \<in> set ds" for z
    using by_keys.filter_stable_sort [OF assms(4), of z] that assms(4) unfolding by_keys.tied_def by blast
  ultimately show ?thesis
    using by_keys.mset_stable_sort by_keys.sorted_stable_sort [OF assms(4)] by blast
qed

theorem Find_sorted_page_witness:
  "Find sample_env ''role'' [] \<lparr>sort_spec = Some [(''name'', BInt32 (-1))], limit = 1, skip = 0\<rparr> sample_store =
     Inr [[(''_id'', BOid ''66''), (''name'', BString ''b'')]] \<and>
   (\<exists>ordered. [[(''_id'', BOid ''66''), (''name'', BString ''b'')]] = page 0 1 ordered \<and>
      mset ordered = mset (documents (target ''role'' sample_store)))"
proof -
  let ?o = "\<lparr>sort_spec = Some [(''name'', BInt32 (-1))], limit = 1, skip = 0\<rparr>"
  have r: "Find sample_env ''role'' [] ?o sample_store = Inr [[(''_id'', BOid ''66''), (''name'', BString ''b'')]]"
    by (simp add: Find_def sample_store_is stable_sort_def store_eval)
  have "set (documents (target ''role'' sample_store)) \<subseteq> sortable {} [(''name'', BInt32 (-1))]"
    by (simp add: sample_store_is sortable_def column_value_def is_double_def store_eval)
  with Find_sorted_page [OF r, of "[(''name'', BInt32 (-1))]" "documents (target ''role'' sample_store)" "{}"] r
  show ?thesis by auto
qed

subsection \<open>Upserts\<close>

text \<open>A filter an upsert can seed a document from: plain values under top-level names, each once, and an id only as an
  object id.\<close>

definition seed_filter :: "doc \<Rightarrow> bool" where
  "seed_filter flt \<longleftrightarrow> distinct (map fst flt) \<and>
     (\<forall>(k, v) \<in> set flt. plain_condition (k, v) \<and> CHR ''.'' \<notin> set k \<and> (k = ''_id'' \<longrightarrow> (\<exists>oid. v = BOid oid)))"

lemma seed_filterD:
  "seed_filter flt \<Longrightarrow> (k, v) \<in> set flt \<Longrightarrow>
   plain_condition (k, v) \<and> CHR ''.'' \<notin> set k \<and> (k = ''_id'' \<longrightarrow> (\<exists>oid. v = BOid oid))"
  by (auto simp: seed_filter_def)

lemma valuesAt_top: "CHR ''.'' \<notin> set k \<Longrightarrow> valuesAt d k = (case map_of d k of None \<Rightarrow> [] | Some v \<Rightarrow> [v])"
  by (simp add: valuesAt_def resolve.simps find_char_None [THEN iffD2])

lemma seed_filter_seed: "seed_filter flt \<Longrightarrow> seedFromFilter flt = flt"
  by (auto simp: seed_filter_def seedFromFilter_def plain_condition_def filter_id_conv)

lemma seed_filter_matches:
  assumes "seed_filter flt"
  shows "matches E d flt = Inr (\<forall>(k, v) \<in> set flt. \<exists>w. map_of d k = Some w \<and> equals_bson w v)"
proof -
  have "matches E d flt = Inr (\<forall>c \<in> set flt. field_equals d c)"
    using assms by (intro matches_plain) (auto simp: seed_filter_def)
  moreover have "field_equals d (k, v) \<longleftrightarrow> (\<exists>w. map_of d k = Some w \<and> equals_bson w v)" if "(k, v) \<in> set flt" for k v
    using seed_filterD [OF assms that] by (cases "map_of d k") (simp_all add: field_equals_def valuesAt_top)
  ultimately show ?thesis by auto
qed

lemma map_of_withId: "map_of (withId d oid) = (map_of d)(''_id'' \<mapsto> BOid oid)"
  by (simp add: withId_def map_erase_def [symmetric])

lemma created_matches:
  assumes flt: "seed_filter flt" and unwritten: "written u \<inter> fst ` set flt = {}"
    and applied: "applyUpdate E flt u True [] = Inr d"
  shows "matches E (withId d (upsertId E d flt)) flt = Inr True"
proof -
  have kept: "map_of d k = Some v" if "(k, v) \<in> set flt" for k v
  proof -
    have "map_of flt k = Some v" using flt that by (simp add: seed_filter_def)
    moreover have "k \<notin> written u" using unwritten that by force
    ultimately show ?thesis using applyUpdate_unwritten [OF applied] flt by (simp add: seed_filter_def)
  qed
  have "\<exists>w. map_of (withId d (upsertId E d flt)) k = Some w \<and> equals_bson w v" if mem: "(k, v) \<in> set flt" for k v
  proof (cases "k = ''_id''")
    case True
    then obtain oid where v: "v = BOid oid" using seed_filterD [OF flt mem] by blast
    then have "upsertId E d flt = oid" using kept [OF mem] True by (simp add: upsertId_def oidOf_def)
    then show ?thesis using True v by (simp add: map_of_withId)
  next
    case False
    then show ?thesis using kept [OF mem] by (simp add: map_of_withId)
  qed
  then show ?thesis unfolding seed_filter_matches [OF flt] by auto
qed

lemma updated_matches:
  assumes flt: "seed_filter flt" and unwritten: "written u \<inter> fst ` set flt = {}"
    and "applyUpdate E d u ins g = Inr d'" and "distinct (map fst d)" and "matches E d flt = Inr True"
  shows "matches E d' flt = Inr True"
proof -
  have "map_of d' k = map_of d k" if "(k, v) \<in> set flt" for k v
    using applyUpdate_unwritten [OF assms(3,4)] unwritten that by force
  with assms(5) show ?thesis unfolding seed_filter_matches [OF flt] by fastforce
qed

lemma firstMatch_found:
  "\<forall>d \<in> set ds. \<exists>b. matches E d flt = Inr b \<Longrightarrow> d \<in> set ds \<Longrightarrow> matches E d flt = Inr True \<Longrightarrow>
   \<exists>i e. firstMatch E flt k ds = Inr (Some (i, e))"
  by (induction ds arbitrary: k) (auto split: sum.split bool.split)

lemma FindOne_found:
  assumes "seed_filter flt" and "d \<in> set (documents (target c s))" and "matches E d flt = Inr True"
  shows "\<exists>e. FindOne E c flt s = Inr (Some e)"
proof (cases "map_of s c")
  case None
  with assms(2) show ?thesis by (simp add: target_def empty_collection_def)
next
  case (Some coll)
  then obtain i e where "firstMatch E flt 0 (documents coll) = Inr (Some (i, e))"
    using firstMatch_found [of "documents coll" E flt d 0] assms seed_filter_matches [OF assms(1)]
    by (auto simp: target_def)
  with Some show ?thesis by (simp add: FindOne_def)
qed



text \<open>\<^verbatim>\<open>FindOneAndUpdate\<close> does not keep that promise for an id: it stores what it creates under a fresh one, so a find of
  the filter it was given fails and repeating the call stores a second copy.\<close>

lemma FindOneAndUpdate_upsert_loses_id:
  "FindOne sample_env ''role'' [(''_id'', BOid ''99'')]
     (fst (FindOneAndUpdate sample_env ''role'' [(''_id'', BOid ''99'')]
        [(''$set'', BDoc [(''name'', BString ''c'')])] True True [])) = Inr None"
  by (simp add: FindOneAndUpdate_def FindOne_def store_eval applyUpdate_def applyStage_def setField_def
        requireTopLevel_def seedFromFilter_def)

end
