(* ===== verification/Periodic_Claim.thy ===== *)
theory Periodic_Claim
  imports Document_Store
begin

text \<open>
  One instance per interval, \<^verbatim>\<open>database/src/PeriodicClaim.cpp\<close>, on the document store. \<^verbatim>\<open>ClaimPeriodicRun\<close> writes in two
  steps, each atomic in the store: the claim, and the seeding of a job that has never run. Instances of a module
  interleave between those steps, so the properties are stated on arbitrary sequences of them.

  The lemmas show that the collection implements an abstract schedule, a map from jobs to the time each is next
  due, and from that that a job is claimed at most once per interval.
\<close>

definition PERIODIC_COLLECTION :: string where
  "PERIODIC_COLLECTION = ''periodic_claim''"

text \<open>\<open>ensured\<close> is the process's once flag.\<close>

definition ensureUnique :: "bool \<Rightarrow> store \<Rightarrow> store" where
  "ensureUnique ensured s =
     (if ensured then s else CreateIndex PERIODIC_COLLECTION [(''name'', BInt32 1)] True s)"

text \<open>The claim: the update of the job if it is due. An exception refuses.\<close>

definition due_filter :: "string \<Rightarrow> millis \<Rightarrow> doc" where
  "due_filter name now = [(''name'', BString name), (''nextRunAt'', BDoc [(''$lte'', BDate now)])]"

definition claim_update :: "millis \<Rightarrow> int \<Rightarrow> doc" where
  "claim_update now interval =
     [(''$set'', BDoc [(''nextRunAt'', BDate (now + 1000 * interval)), (''claimedAt'', BDate now)])]"

definition claim_attempt :: "store_env \<Rightarrow> string \<Rightarrow> int \<Rightarrow> store \<Rightarrow> store \<times> (store_error + bool)" where
  "claim_attempt E name interval s =
     (let (s', outcome) = UpdateOne E PERIODIC_COLLECTION (due_filter name (clock E))
        (claim_update (clock E) interval) False s in
      (s', map_sum id (\<lambda>r. modified r > 0) outcome))"

definition claim_seed :: "store_env \<Rightarrow> string \<Rightarrow> millis \<Rightarrow> store \<Rightarrow> store \<times> (store_error + UpdateResult)" where
  "claim_seed E name now s =
     UpdateOne E PERIODIC_COLLECTION [(''name'', BString name)]
       [(''$setOnInsert'', BDoc [(''name'', BString name), (''nextRunAt'', BDate now)])] True s"

definition ClaimPeriodicRun :: "store_env \<Rightarrow> bool \<Rightarrow> string \<Rightarrow> int \<Rightarrow> store \<Rightarrow> store \<times> bool" where
  "ClaimPeriodicRun E ensured name interval s =
     (let (s1, claimed) = claim_attempt E name interval (ensureUnique ensured s) in
      case claimed of
        Inl e \<Rightarrow> (s1, False)
      | Inr True \<Rightarrow> (s1, True)
      | Inr False \<Rightarrow> (fst (claim_seed E name (clock E) s1), False))"

subsection \<open>The schedule\<close>

text \<open>A job's document, and what the collection says of a job.\<close>

definition is_job :: "doc \<Rightarrow> bool" where
  "is_job d \<longleftrightarrow> distinct (map fst d) \<and>
     (\<exists>n. map_of d ''name'' = Some (BString n)) \<and> (\<exists>t. map_of d ''nextRunAt'' = Some (BDate t))"

definition job_name :: "doc \<Rightarrow> string" where
  "job_name d = (case map_of d ''name'' of Some (BString n) \<Rightarrow> n | _ \<Rightarrow> [])"

definition job_due :: "doc \<Rightarrow> millis" where
  "job_due d = (case map_of d ''nextRunAt'' of Some (BDate t) \<Rightarrow> t | _ \<Rightarrow> 0)"

definition schedule :: "store \<Rightarrow> string \<Rightarrow> millis option" where
  "schedule s = map_of (map (\<lambda>d. (job_name d, job_due d)) (documents (target PERIODIC_COLLECTION s)))"

definition claims_ok :: "store \<Rightarrow> bool" where
  "claims_ok s \<longleftrightarrow>
     (let coll = target PERIODIC_COLLECTION s in
      (\<forall>d \<in> set (documents coll). is_job d) \<and> distinct (map job_name (documents coll)) \<and>
      set (uniqueKeys coll) \<subseteq> {[''name'']})"

lemma is_jobD: "is_job d \<Longrightarrow> map_of d ''name'' = Some (BString (job_name d)) \<and>
    map_of d ''nextRunAt'' = Some (BDate (job_due d)) \<and> distinct (map fst d)"
  by (auto simp: is_job_def job_name_def job_due_def)

lemma equals_BString [simp]: "equals_bson (BString x) (BString y) \<longleftrightarrow> x = y"
  by (simp add: equals_bson_def compare_bson_def)

lemma compare_BDate [simp]: "compare_bson (BDate x) (BDate y) = three_way (<) x y"
  by (simp add: compare_bson_def)

lemma matches_name: "is_job d \<Longrightarrow> matches E d [(''name'', BString n)] = Inr (job_name d = n)"
  using is_jobD [of d] by (simp add: logical_def matchesCondition_def valuesAt_top)

lemma matches_due: "is_job d \<Longrightarrow> matches E d (due_filter n now) = Inr (job_name d = n \<and> job_due d \<le> now)"
  using is_jobD [of d]
  by (simp add: due_filter_def logical_def matchesCondition_def valuesAt_top matchesOperator_def
      split: bool.split)

text \<open>The claim's update of a job's document.\<close>

lemma claim_result:
  assumes "is_job d"
  shows "\<exists>d'. applyUpdate E d (claim_update now i) False flt = Inr d' \<and> is_job d' \<and>
    job_name d' = job_name d \<and> job_due d' = now + 1000 * i"
proof -
  let ?b = "[(''nextRunAt'', BDate (now + 1000 * i)), (''claimedAt'', BDate now)]"
  let ?r = "fold (\<lambda>(k, v). map_put k v) ?b (fold (\<lambda>(k, v). map_put k v) d [])"
  have "applyUpdate E d (claim_update now i) False flt = Inr ?r"
    unfolding applyUpdate_def claim_update_def using applyStage_set [of ?b] by simp
  moreover have "map_of ?r = (map_of d)(''nextRunAt'' \<mapsto> BDate (now + 1000 * i), ''claimedAt'' \<mapsto> BDate now)"
    using is_jobD [OF assms] by (simp add: collected_fields map_of_rev_distinct)
  moreover have "distinct (map fst ?r)" by (intro key_ordered_distinct omap.ok_fold_put key_ordered_Nil)
  ultimately show ?thesis using is_jobD [OF assms] by (auto simp: is_job_def job_name_def job_due_def)
qed

text \<open>Writing a job under its own name never meets the unique index.\<close>

lemma CheckUnique_job:
  assumes "\<forall>j. j < length (documents coll) \<and> int j \<noteq> r \<longrightarrow>
      is_job (documents coll ! j) \<and> job_name (documents coll ! j) \<noteq> job_name d"
    and "is_job d" and "set (uniqueKeys coll) \<subseteq> {[''name'']}"
  shows "CheckUnique E coll d r = Inr ()"
proof -
  have "anyOther E [(''name'', BString n)] r i ds = Inr False"
    if "\<forall>j. j < length ds \<and> i + int j \<noteq> r \<longrightarrow> is_job (ds ! j) \<and> job_name (ds ! j) \<noteq> n" for n i ds
    using that
  proof (induction ds arbitrary: i)
    case (Cons d ds)
    have "anyOther E [(''name'', BString n)] r (i + 1) ds = Inr False"
    proof (rule Cons.IH, intro allI impI)
      fix j assume "j < length ds \<and> i + 1 + int j \<noteq> r"
      with Cons.prems [rule_format, of "Suc j"] show "is_job (ds ! j) \<and> job_name (ds ! j) \<noteq> n" by simp
    qed
    moreover have "i \<noteq> r \<Longrightarrow> matches E d [(''name'', BString n)] = Inr False"
      using Cons.prems [rule_format, of 0] by (simp add: matches_name del: matches.simps)
    ultimately show ?case by (cases "i = r") (simp_all del: matches.simps)
  qed simp
  from this [of "documents coll" 0 "job_name d"] assms(1)
  have none: "anyOther E [(''name'', BString (job_name d))] r 0 (documents coll) = Inr False" by simp
  have key: "keyFilter d [''name''] = Some [(''name'', BString (job_name d))]"
    using is_jobD [OF assms(2)] by (simp add: valuesAt_top)
  have "checkIndexes E (documents coll) d r idx = Inr ()" if "set idx \<subseteq> {[''name'']}" for idx
    using that none by (induction idx) (auto simp: key simp del: keyFilter.simps)
  then show ?thesis using assms(3) by (simp add: CheckUnique_def)
qed

lemma map_of_update_value:
  "i < length al \<Longrightarrow> distinct (map fst al) \<Longrightarrow> map_of (al[i := (fst (al ! i), v)]) = (map_of al)(fst (al ! i) \<mapsto> v)"
proof (induction al arbitrary: i)
  case (Cons e al)
  then show ?case by (cases i; cases e) (auto simp: fun_eq_iff)
qed simp

lemma schedule_Some:
  assumes "claims_ok s" and "i < length (documents (target PERIODIC_COLLECTION s))"
  shows "schedule s (job_name (documents (target PERIODIC_COLLECTION s) ! i)) =
    Some (job_due (documents (target PERIODIC_COLLECTION s) ! i))"
  using assms unfolding schedule_def claims_ok_def Let_def
  by (intro map_of_is_SomeI) (auto simp: comp_def)

text \<open>Replacing the document of a job by another of the same job.\<close>

lemma replace_job:
  assumes ok: "claims_ok s" and i: "i < length (documents (target PERIODIC_COLLECTION s))"
    and d': "is_job d'" "job_name d' = job_name (documents (target PERIODIC_COLLECTION s) ! i)"
  defines "s' \<equiv> map_put PERIODIC_COLLECTION ((target PERIODIC_COLLECTION s)\<lparr>documents :=
      (documents (target PERIODIC_COLLECTION s))[i := d']\<rparr>) s"
  shows "claims_ok s' \<and> schedule s' = (schedule s)(job_name d' \<mapsto> job_due d') \<and>
    CheckUnique E (target PERIODIC_COLLECTION s) d' (int i) = Inr ()"
proof -
  let ?ds = "documents (target PERIODIC_COLLECTION s)"
  have jobs: "\<forall>d \<in> set ?ds. is_job d" and names: "distinct (map job_name ?ds)"
    and idx: "set (uniqueKeys (target PERIODIC_COLLECTION s)) \<subseteq> {[''name'']}"
    using ok by (auto simp: claims_ok_def Let_def)
  have "\<forall>j. j < length ?ds \<and> int j \<noteq> int i \<longrightarrow> is_job (?ds ! j) \<and> job_name (?ds ! j) \<noteq> job_name d'"
    using jobs names i d'(2) by (auto simp: distinct_conv_nth)
  note unique = CheckUnique_job [OF this d'(1) idx]
  have same: "map job_name (?ds[i := d']) = map job_name ?ds"
    using i d'(2) by (simp add: map_update list_update_same_conv)
  have "claims_ok s'"
    using jobs names idx d'(1) same
    by (auto simp: claims_ok_def s'_def dest!: set_update_subset_insert [THEN subsetD])
  moreover have "schedule s' = (schedule s)(job_name d' \<mapsto> job_due d')"
    using map_of_update_value [of i "map (\<lambda>d. (job_name d, job_due d)) ?ds" "job_due d'"] i d' names
    by (simp add: schedule_def s'_def map_update comp_def)
  ultimately show ?thesis using unique by blast
qed

text \<open>The first step against the schedule: it claims exactly when the job is there and due.\<close>

lemma claim_attempt_refines:
  assumes ok: "claims_ok s" and interval: "0 < interval"
    and step: "claim_attempt E name interval s = (s', claimed)"
  shows "claims_ok s' \<and>
    (claimed, schedule s') =
      (case schedule s name of
         Some t \<Rightarrow> if t \<le> clock E then (Inr True, (schedule s)(name \<mapsto> clock E + 1000 * interval))
                   else (Inr False, schedule s)
       | None \<Rightarrow> (Inr False, schedule s))"
proof -
  let ?P = PERIODIC_COLLECTION
  let ?ds = "documents (target ?P s)" and ?flt = "due_filter name (clock E)"
  have jobs: "\<forall>d \<in> set ?ds. is_job d" using ok by (auto simp: claims_ok_def Let_def)
  have total: "\<forall>d \<in> set ?ds. \<exists>b. matches E d ?flt = Inr b" using jobs by (simp add: matches_due)
  show ?thesis
  proof (cases "\<exists>d \<in> set ?ds. matches E d ?flt = Inr True")
    case False
    then have none: "firstMatch E ?flt 0 ?ds = Inr None" using total by (auto simp: firstMatch_None) (metis (full_types))
    then have s': "s' = map_put ?P (target ?P s) s" and "claimed = Inr False"
      using step by (auto simp: claim_attempt_def UpdateOne_def no_update_def split: prod.splits)
    moreover have "\<not> t \<le> clock E" if "schedule s name = Some t" for t
      using False jobs that by (auto simp: schedule_def matches_due dest!: map_of_SomeD)
    ultimately show ?thesis
      using ok by (auto simp: claims_ok_def schedule_def split: option.split)
  next
    case True
    then obtain i d where first: "firstMatch E ?flt 0 ?ds = Inr (Some (i, d))"
      using firstMatch_found [OF total] by blast
    note at = firstMatch_at [OF first]
    then have d: "is_job d" using jobs nth_mem by blast
    with at have due: "job_name d = name" "job_due d \<le> clock E" by (auto simp: matches_due)
    obtain d' where d': "applyUpdate E d (claim_update (clock E) interval) False ?flt = Inr d'" "is_job d'"
        "job_name d' = name" "job_due d' = clock E + 1000 * interval"
      using claim_result [OF d] due by metis
    then have changed: "d \<noteq> d'" using due interval by auto
    have upd: "claims_ok s1 \<and> schedule s1 = (schedule s)(name \<mapsto> clock E + 1000 * interval) \<and>
        CheckUnique E (target ?P s) d' (int i) = Inr ()"
      if "s1 = map_put ?P ((target ?P s)\<lparr>documents := ?ds[i := d']\<rparr>) s" for s1
      using replace_job [OF ok, of i d' E] at due d' that by auto
    have s': "s' = map_put ?P ((target ?P s)\<lparr>documents := ?ds[i := d']\<rparr>) s" "claimed = Inr True"
      using step first d'(1) changed upd [OF refl]
      by (auto simp: claim_attempt_def UpdateOne_def store_at_def sameDocument_def no_update_def Let_def)
    have "claims_ok s'" "schedule s' = (schedule s)(name \<mapsto> clock E + 1000 * interval)" using upd [OF s'(1)] by auto
    moreover have "schedule s name = Some (job_due d)" using schedule_Some [OF ok, of i] at due by auto
    ultimately show ?thesis using s' due by simp
  qed
qed

text \<open>The second step: a job that is not there is entered as due now, one that is there is left alone.\<close>

lemma seed_applied:
  "\<exists>d. applyUpdate E [(''name'', BString name)]
       [(''$setOnInsert'', BDoc [(''name'', BString name), (''nextRunAt'', BDate now)])] True [] = Inr d \<and>
     (\<forall>oid. is_job (withId d oid) \<and> job_name (withId d oid) = name \<and> job_due (withId d oid) = now)"
  by (auto simp: applyUpdate_def applyStage_def putField_def requireTopLevel_def withId_def is_job_def job_name_def
      job_due_def)

lemma seed_unchanged:
  assumes "is_job d"
  shows "\<exists>d'. applyUpdate E d [(''$setOnInsert'', BDoc body)] False flt = Inr d' \<and> is_job d' \<and>
    job_name d' = job_name d \<and> job_due d' = job_due d"
proof -
  let ?r = "fold (\<lambda>(k, v). map_put k v) d []"
  have "applyUpdate E d [(''$setOnInsert'', BDoc body)] False flt = Inr ?r"
    by (simp add: applyUpdate_def applyStage_def)
  moreover have "map_of ?r = map_of d" using is_jobD [OF assms] by (simp add: collected_fields map_of_rev_distinct)
  moreover have "distinct (map fst ?r)" by (intro key_ordered_distinct omap.ok_fold_put key_ordered_Nil)
  ultimately show ?thesis using is_jobD [OF assms] by (auto simp: is_job_def job_name_def job_due_def)
qed

lemma claim_seed_refines:
  assumes ok: "claims_ok s" and step: "claim_seed E name now s = (s', outcome)"
  shows "claims_ok s' \<and>
    schedule s' = (case schedule s name of None \<Rightarrow> (schedule s)(name \<mapsto> now) | Some t \<Rightarrow> schedule s)"
proof -
  let ?P = PERIODIC_COLLECTION
  let ?ds = "documents (target ?P s)" and ?flt = "[(''name'', BString name)]"
  have jobs: "\<forall>d \<in> set ?ds. is_job d" and names: "distinct (map job_name ?ds)"
    and idx: "set (uniqueKeys (target ?P s)) \<subseteq> {[''name'']}"
    using ok by (auto simp: claims_ok_def Let_def)
  have total: "\<forall>d \<in> set ?ds. \<exists>b. matches E d ?flt = Inr b" using jobs by (simp add: matches_name del: matches.simps)
  show ?thesis
  proof (cases "\<exists>d \<in> set ?ds. matches E d ?flt = Inr True")
    case False
    then have none: "firstMatch E ?flt 0 ?ds = Inr None" 
      unfolding firstMatch_None using total by (metis (full_types))
    have fresh: "name \<notin> job_name ` set ?ds" using False jobs by (auto simp: matches_name simp del: matches.simps)
    then have unknown: "schedule s name = None" by (auto simp: schedule_def map_of_eq_None_iff)
    obtain d where d: "applyUpdate E ?flt
        [(''$setOnInsert'', BDoc [(''name'', BString name), (''nextRunAt'', BDate now)])] True [] = Inr d"
        and job_any: "\<forall>oid. is_job (withId d oid) \<and> job_name (withId d oid) = name \<and> job_due (withId d oid) = now"
      using seed_applied [of E name now] by auto
    define oid where oid: "oid = upsertId E d ?flt"
    have job: "is_job (withId d oid)" "job_name (withId d oid) = name" "job_due (withId d oid) = now"
      using job_any by auto
    have "\<forall>j. j < length ?ds \<and> int j \<noteq> - 1 \<longrightarrow> is_job (?ds ! j) \<and> job_name (?ds ! j) \<noteq> job_name (withId d oid)"
      using fresh jobs job(2) by (metis imageI nth_mem)
    note unique = CheckUnique_job [OF this job(1) idx]
    have "seedFromFilter ?flt = ?flt" by (simp add: seedFromFilter_def)
    then have s': "s' = map_put ?P ((target ?P s)\<lparr>documents := ?ds @ [withId d oid]\<rparr>) s"
      using step none d unique oid by (simp add: claim_seed_def UpdateOne_def store_new_def Let_def del: matches.simps)
    have "schedule s' = (schedule s)(name \<mapsto> now)"
      using unknown job by (auto simp: schedule_def s' map_add_def fun_eq_iff split: option.split)
    then show ?thesis
      using ok unknown fresh job by (simp add: s' claims_ok_def Let_def)
  next
    case True
    then obtain i d where first: "firstMatch E ?flt 0 ?ds = Inr (Some (i, d))"
      using firstMatch_found [OF total] by blast
    note at = firstMatch_at [OF first]
    then have d: "is_job d" "job_name d = name" using jobs nth_mem by (auto simp: matches_name simp del: matches.simps)
    obtain d' where d': "applyUpdate E d [(''$setOnInsert'', BDoc [(''name'', BString name), (''nextRunAt'', BDate now)])]
        False ?flt = Inr d'" "is_job d'" "job_name d' = job_name d" "job_due d' = job_due d"
      using seed_unchanged [OF d(1)] by blast
    have known: "schedule s name = Some (job_due d)" using schedule_Some [OF ok, of i] at d by auto
    have upd: "claims_ok s1 \<and> schedule s1 = (schedule s)(job_name d' \<mapsto> job_due d') \<and>
        CheckUnique E (target ?P s) d' (int i) = Inr ()"
      if "s1 = map_put ?P ((target ?P s)\<lparr>documents := ?ds[i := d']\<rparr>) s" for s1
      using replace_job [OF ok, of i d' E] at d d' that by auto
    have "s' = map_put ?P (target ?P s) s \<or> s' = map_put ?P ((target ?P s)\<lparr>documents := ?ds[i := d']\<rparr>) s"
      using step first d'(1) upd
      by (auto simp: claim_seed_def UpdateOne_def store_at_def Let_def split: if_splits)
    then show ?thesis using upd known ok d d' by (auto simp: claims_ok_def schedule_def)
  qed
qed

subsection \<open>At most one run per interval\<close>

text \<open>What the instances of the installation do to the collection: claims and seeds, in any order and at any times,
  and the creation of the index. The log is what each claim of a job was told.\<close>

datatype claim_action =
    Ensure
  | Attempt store_env string int
  | Seed store_env string millis

fun claim_step :: "claim_action \<Rightarrow> store \<Rightarrow> store \<times> (string \<times> millis \<times> int) list" where
  "claim_step Ensure s = (ensureUnique False s, [])"
| "claim_step (Attempt E name interval) s =
     (let (s', claimed) = claim_attempt E name interval s in
      (s', if claimed = Inr True then [(name, clock E, interval)] else []))"
| "claim_step (Seed E name now) s = (fst (claim_seed E name now s), [])"

fun claim_run :: "claim_action list \<Rightarrow> store \<Rightarrow> store \<times> (string \<times> millis \<times> int) list" where
  "claim_run [] s = (s, [])"
| "claim_run (a # as) s =
     (let (s', log) = claim_step a s; (s'', log') = claim_run as s' in (s'', log @ log'))"

fun positive_interval :: "claim_action \<Rightarrow> bool" where
  "positive_interval (Attempt E name interval) \<longleftrightarrow> 0 < interval"
| "positive_interval _ \<longleftrightarrow> True"

text \<open>A run of a job recorded at a time starts no earlier than the interval of the one before it has passed.\<close>

fun spaced :: "string \<Rightarrow> (string \<times> millis \<times> int) list \<Rightarrow> millis option \<Rightarrow> bool" where
  "spaced job [] due \<longleftrightarrow> True"
| "spaced job ((name, at, interval) # log) due \<longleftrightarrow>
     (if name = job then (\<forall>t. due = Some t \<longrightarrow> t \<le> at) \<and> spaced job log (Some (at + 1000 * interval))
      else spaced job log due)"

lemma claims_ok_ensure: "claims_ok s \<Longrightarrow> claims_ok (ensureUnique e s) \<and> schedule (ensureUnique e s) = schedule s"
  by (auto simp: ensureUnique_def CreateIndex_def claims_ok_def schedule_def Let_def)

lemma claims_ok_empty: "claims_ok []"
  by (simp add: claims_ok_def target_def empty_collection_def)

lemma claim_step_spaced:
  assumes "claims_ok s" and "positive_interval a" and "claim_step a s = (s', log)"
  shows "claims_ok s' \<and>
    (log = [] \<and> (\<forall>t. schedule s job = Some t \<longrightarrow> schedule s' job = Some t) \<or>
     (\<exists>name at i t. log = [(name, at, i)] \<and> schedule s name = Some t \<and> t \<le> at \<and>
        schedule s' = (schedule s)(name \<mapsto> at + 1000 * i)))"
proof (cases a)
  case Ensure
  with assms claims_ok_ensure show ?thesis by auto
next
  case (Attempt E name i)
  obtain s1 c where c: "claim_attempt E name i s = (s1, c)" by fastforce
  from claim_attempt_refines [OF assms(1) _ c] assms(2,3) c Attempt show ?thesis
    by (auto split: option.splits if_splits)
next
  case (Seed E name now)
  obtain s1 c where c: "claim_seed E name now s = (s1, c)" by fastforce
  from claim_seed_refines [OF assms(1) c] assms(3) c Seed show ?thesis by (auto split: option.splits)
qed

lemma claim_run_spaced:
  assumes "claims_ok s" and "list_all positive_interval as"
    and "due = None \<or> due = schedule s job"
  shows "spaced job (snd (claim_run as s)) due"
  using assms
proof (induction as arbitrary: s due)
  case (Cons a as)
  obtain s' log where step: "claim_step a s = (s', log)" by fastforce
  obtain s'' log' where run: "claim_run as s' = (s'', log')" by fastforce
  have a: "positive_interval a" and as: "list_all positive_interval as" using Cons.prems(2) by auto
  note st = claim_step_spaced [OF Cons.prems(1) a step, of job]
  then have ok: "claims_ok s'" by blast
  show ?case
  proof (cases "log = []")
    case True
    with st Cons.prems(3) have "due = None \<or> due = schedule s' job" by (cases "schedule s job") auto
    from Cons.IH [OF ok as this] show ?thesis using step run True by simp
  next
    case False
    with st obtain name at i t where l: "log = [(name, at, i)]" "schedule s name = Some t" "t \<le> at"
        "schedule s' = (schedule s)(name \<mapsto> at + 1000 * i)" by blast
    show ?thesis
    proof (cases "name = job")
      case True
      then have "spaced job log' (Some (at + 1000 * i))"
        using Cons.IH [OF ok as, of "Some (at + 1000 * i)"] l run by simp
      then show ?thesis using l Cons.prems(3) step run True by auto
    next
      case other: False
      then have "due = None \<or> due = schedule s' job" using Cons.prems(3) l by auto
      from Cons.IH [OF ok as this] show ?thesis using step run l other by simp
    qed
  qed
qed simp

text \<open>(C32) A periodic job runs at most once per interval: however many instances claim it, at whatever times and
  however their claims and seedings interleave, two runs of a job that are granted one after the other are at least
  the interval of the first apart.\<close>

theorem periodic_claim_at_most_once:
  assumes "list_all positive_interval as"
  shows "spaced job (snd (claim_run as [])) None"
  by (rule claim_run_spaced [OF claims_ok_empty assms]) simp

definition at_time :: "millis \<Rightarrow> store_env" where
  "at_time t = sample_env\<lparr>clock := t\<rparr>"

theorem periodic_claim_at_most_once_witness:
  "list_all positive_interval
     [Seed (at_time 0) ''recount'' 0, Attempt (at_time 10) ''recount'' 5, Attempt (at_time 20) ''recount'' 5] \<and>
   spaced ''recount'' (snd (claim_run
     [Seed (at_time 0) ''recount'' 0, Attempt (at_time 10) ''recount'' 5, Attempt (at_time 20) ''recount'' 5] [])) None"
  by (intro conjI periodic_claim_at_most_once) simp_all

text \<open>(C33) The collection implements the schedule: called on it, \<^verbatim>\<open>ClaimPeriodicRun\<close> is granted exactly when the job is
  known and due, then moves it one interval ahead; a job never seen is entered as due now and not granted; a job
  that is not due yet is left as it is. No job but the one named moves.\<close>

theorem ClaimPeriodicRun_refines_schedule:
  assumes "claims_ok s" and "0 < interval"
  shows "claims_ok (fst (ClaimPeriodicRun E ensured name interval s)) \<and>
    (snd (ClaimPeriodicRun E ensured name interval s), schedule (fst (ClaimPeriodicRun E ensured name interval s))) =
      (case schedule s name of
         None \<Rightarrow> (False, (schedule s)(name \<mapsto> clock E))
       | Some t \<Rightarrow> if t \<le> clock E then (True, (schedule s)(name \<mapsto> clock E + 1000 * interval)) else (False, schedule s))"
proof -
  obtain s1 c where c: "claim_attempt E name interval (ensureUnique ensured s) = (s1, c)" by fastforce
  obtain s2 r where r: "claim_seed E name (clock E) s1 = (s2, r)" by fastforce
  have e: "claims_ok (ensureUnique ensured s)" "schedule (ensureUnique ensured s) = schedule s"
    using claims_ok_ensure [OF assms(1)] by auto
  note st = claim_attempt_refines [OF e(1) assms(2) c, unfolded e(2)]
  then have "claims_ok s1" by blast
  from claim_seed_refines [OF this r] st c r show ?thesis
    by (auto simp: ClaimPeriodicRun_def split: option.splits if_splits)
qed

theorem ClaimPeriodicRun_refines_schedule_witness:
  "\<not> snd (ClaimPeriodicRun sample_env False ''recount'' 300 []) \<and>
   schedule (fst (ClaimPeriodicRun sample_env False ''recount'' 300 [])) ''recount'' = Some 1000"
proof -
  have "schedule [] ''recount'' = None" by (simp add: schedule_def target_def empty_collection_def)
  then show ?thesis
    using ClaimPeriodicRun_refines_schedule [OF claims_ok_empty, of 300 sample_env False "''recount''"]
    by (simp add: sample_env_def)
qed

end
