(* ===== verification/Eqs_Priority.thy ===== *)
theory Eqs_Priority
  imports Complex_Main Euclid_Prelude
begin

text \<open>
  How a receive divides its slots over the priorities of a queue: \<^verbatim>\<open>database/src/entity/eqs/PriorityWeights.cpp\<close> and
  the priorities of \<^verbatim>\<open>MessagePriority.h\<close>. The arrays over the three tiers are lists in the order of the code,
  highest priority first. Weights and shares are computed in the rationals where the code computes in doubles.
\<close>

datatype MessagePriority = LOW | MEDIUM | HIGH

definition MessagePriorityNames :: "(MessagePriority \<times> string) list" where
  "MessagePriorityNames = [(LOW, ''LOW''), (MEDIUM, ''MEDIUM''), (HIGH, ''HIGH'')]"

fun MessagePriorityToString :: "MessagePriority \<Rightarrow> string" where
  "MessagePriorityToString LOW = ''LOW''"
| "MessagePriorityToString MEDIUM = ''MEDIUM''"
| "MessagePriorityToString HIGH = ''HIGH''"

definition kLegacyMediumName :: string where
  "kLegacyMediumName = ''MIDDLE''"

text \<open>\<^verbatim>\<open>std::toupper\<close> in the C locale.\<close>

definition to_upper :: "char \<Rightarrow> char" where
  "to_upper c = (if 97 \<le> (of_char c :: nat) \<and> (of_char c :: nat) \<le> 122 then char_of ((of_char c :: nat) - 32) else c)"

definition TryMessagePriorityFromString :: "string \<Rightarrow> MessagePriority option" where
  "TryMessagePriorityFromString priority =
     (let upper = map to_upper priority in
      if upper = kLegacyMediumName then Some MEDIUM
      else map_option fst (find (\<lambda>pair. snd pair = upper) MessagePriorityNames))"

definition MessagePriorityFromString :: "string \<Rightarrow> MessagePriority" where
  "MessagePriorityFromString priority =
     (case TryMessagePriorityFromString priority of Some p \<Rightarrow> p | None \<Rightarrow> MEDIUM)"

record PriorityWeights =
  weight_high :: rat
  weight_medium :: rat
  weight_low :: rat

definition default_weights :: PriorityWeights where
  "default_weights = \<lparr>weight_high = 4, weight_medium = 2, weight_low = 1\<rparr>"

text \<open>The configuration is the partial map of the keys that are set.\<close>

definition getOr :: "(string \<rightharpoonup> rat) \<Rightarrow> string \<Rightarrow> rat \<Rightarrow> rat" where
  "getOr cfg key fallback = (case cfg key of Some v \<Rightarrow> v | None \<Rightarrow> fallback)"

definition LoadPriorityWeights :: "(string \<rightharpoonup> rat) \<Rightarrow> PriorityWeights" where
  "LoadPriorityWeights cfg =
     (let high = getOr cfg ''euclid.modules.eqs.priority-weights.high'' (weight_high default_weights);
          legacyMedium = getOr cfg ''euclid.modules.eqs.priority-weights.medium'' (weight_medium default_weights);
          medium = getOr cfg ''euclid.modules.eqs.priority-weights.medium'' legacyMedium;
          low = getOr cfg ''euclid.modules.eqs.priority-weights.low'' (weight_low default_weights) in
      \<lparr>weight_high = high, weight_medium = medium, weight_low = low\<rparr>)"

subsection \<open>Apportioning\<close>

definition tier_order :: "MessagePriority list" where
  "tier_order = [HIGH, MEDIUM, LOW]"

text \<open>The slots left after rounding down, one each to the tiers with the largest remainders.\<close>

fun addRemainders :: "nat list \<Rightarrow> int \<Rightarrow> int list \<Rightarrow> int \<Rightarrow> int list \<times> int" where
  "addRemainders [] maxCount tgt allocated = (tgt, allocated)"
| "addRemainders (i # is) maxCount tgt allocated =
     (if allocated < maxCount then addRemainders is maxCount (tgt[i := tgt ! i + 1]) (allocated + 1)
      else (tgt, allocated))"

definition shareTargets :: "int \<Rightarrow> rat list \<Rightarrow> int list" where
  "shareTargets maxCount w =
     (let raw = map (\<lambda>x. of_int maxCount * x / sum_list w) w;
          tgt = map floor raw;
          remainder = map (\<lambda>x. x - of_int (floor x)) raw;
          byRemainder = stable_sort (\<lambda>a b. remainder ! a > remainder ! b) [0, 1, 2] in
      fst (addRemainders byRemainder maxCount tgt (sum_list tgt)))"

text \<open>What a tier cannot fill, to the tiers that have spare messages, highest first.\<close>

fun redistribute :: "(int \<times> int) list \<Rightarrow> int \<Rightarrow> int list" where
  "redistribute [] shortfall = []"
| "redistribute ((avail, taken) # rest) shortfall =
     (if shortfall > 0
      then let spare = min (avail - taken) shortfall in (taken + spare) # redistribute rest (shortfall - spare)
      else taken # redistribute rest shortfall)"

definition ComputeReceiveCounts ::
  "int \<Rightarrow> (MessagePriority \<rightharpoonup> int) \<Rightarrow> PriorityWeights \<Rightarrow> (MessagePriority \<times> int) list" where
  "ComputeReceiveCounts maxCount available weights =
     (let w = [weight_high weights, weight_medium weights, weight_low weights] in
      if maxCount \<le> 0 \<or> sum_list w \<le> 0 then map (\<lambda>p. (p, 0)) tier_order
      else let tgt = shareTargets maxCount w;
               avail = map (\<lambda>p. case available p of Some n \<Rightarrow> n | None \<Rightarrow> 0) tier_order;
               taken = map2 min tgt avail;
               shortfall = sum_list (map2 (-) tgt taken) in
           zip tier_order (redistribute (zip avail taken) shortfall))"

interpretation by_desc: weak_order_on UNIV "\<lambda>a b. key a > key b" for key :: "nat \<Rightarrow> rat"
  by unfold_locales auto

lemma addRemainders_sum:
  "\<forall>i \<in> set is. i < length tgt \<Longrightarrow> allocated \<le> maxCount \<Longrightarrow>
   sum_list (fst (addRemainders is maxCount tgt allocated)) =
     sum_list tgt + min (int (length is)) (maxCount - allocated) \<and>
   length (fst (addRemainders is maxCount tgt allocated)) = length tgt \<and>
   (\<forall>j < length tgt. tgt ! j \<le> fst (addRemainders is maxCount tgt allocated) ! j)"
proof (induction "is" maxCount tgt allocated rule: addRemainders.induct)
  case (2 i "is" maxCount tgt allocated)
  show ?case
  proof (cases "allocated < maxCount")
    case True
    have "sum_list (tgt[i := tgt ! i + 1]) = sum_list tgt + 1"
      using "2.prems"(1) by (simp add: sum_list_update_int)
    moreover have "tgt ! j \<le> tgt[i := tgt ! i + 1] ! j" if "j < length tgt" for j
      using that "2.prems"(1) by (simp add: nth_list_update)
    ultimately show ?thesis using 2 True by (fastforce intro: order_trans)
  qed (use "2.prems" in simp)
qed simp

text \<open>The targets are whole numbers that add up to the slots asked for.\<close>

lemma shareTargets_sum:
  assumes "0 < maxCount" and "length w = 3" and "\<forall>x \<in> set w. 0 \<le> x" and "0 < sum_list w"
  shows "sum_list (shareTargets maxCount w) = maxCount \<and> length (shareTargets maxCount w) = 3 \<and>
    (\<forall>t \<in> set (shareTargets maxCount w). 0 \<le> t)"
proof -
  define raw where "raw = map (\<lambda>x. of_int maxCount * x / sum_list w) w"
  define tgt where "tgt = map floor raw"
  define ord where "ord = stable_sort (\<lambda>a b. map (\<lambda>x. x - of_int (floor x)) raw ! a > map (\<lambda>x. x - of_int (floor x)) raw ! b) [0, 1, 2]"
  obtain x y z where w: "w = [x, y, z]" using assms(2) by (auto simp: numeral_3_eq_3 length_Suc_conv)
  have ord_mset: "mset ord = mset [0, 1, 2]" unfolding ord_def by (rule by_desc.mset_stable_sort)
  then have len: "length ord = 3" and idx: "set ord = {0, 1, 2}"
    by (metis length_Cons list.size(3) mset_eq_length numeral_3_eq_3) (metis ord_mset list.simps(15) empty_set set_mset_mset)
  let ?r = "\<lambda>x. of_int maxCount * x / (x + y + z)"
  have total: "sum_list raw = of_int maxCount"
    using assms(4) by (simp add: raw_def w add_divide_distrib [symmetric] distrib_left [symmetric] add.assoc)
  have tgt3: "length tgt = 3" by (simp add: tgt_def raw_def w)
  have nonneg: "\<forall>t \<in> set tgt. 0 \<le> t" using assms by (auto simp: tgt_def raw_def)
  obtain a b c where raw: "raw = [a, b, c]" by (simp add: raw_def w)
  have abc: "a + b + c = of_int maxCount" using total by (simp add: raw add.assoc)
  have "sum_list tgt = \<lfloor>a\<rfloor> + \<lfloor>b\<rfloor> + \<lfloor>c\<rfloor>" by (simp add: tgt_def raw)
  moreover have "of_int (\<lfloor>a\<rfloor> + \<lfloor>b\<rfloor> + \<lfloor>c\<rfloor>) \<le> (of_int maxCount :: rat)"
    using abc of_int_floor_le [of a] of_int_floor_le [of b] of_int_floor_le [of c] unfolding of_int_add by linarith
  moreover have "(of_int maxCount :: rat) < of_int (\<lfloor>a\<rfloor> + \<lfloor>b\<rfloor> + \<lfloor>c\<rfloor> + 3)"
    using abc floor_correct [of a] floor_correct [of b] floor_correct [of c] by simp
  ultimately have gap: "sum_list tgt \<le> maxCount" "maxCount < sum_list tgt + 3" by (simp_all only: of_int_le_iff of_int_less_iff)
  have "\<forall>i \<in> set ord. i < length tgt" using idx tgt3 by auto
  note add = addRemainders_sum [OF this gap(1)]
  have "shareTargets maxCount w = fst (addRemainders ord maxCount tgt (sum_list tgt))"
    by (simp add: shareTargets_def Let_def ord_def tgt_def raw_def)
  moreover have "\<forall>t \<in> set (fst (addRemainders ord maxCount tgt (sum_list tgt))). 0 \<le> t"
    using add nonneg by (metis in_set_conv_nth nth_mem order_trans)
  ultimately show ?thesis using add gap len tgt3 by simp
qed

lemma redistribute_spec:
  assumes "list_all (\<lambda>(avail, taken). taken \<le> avail) ps" and "0 \<le> shortfall"
  shows "sum_list (redistribute ps shortfall) =
      sum_list (map snd ps) + min shortfall (sum_list (map fst ps) - sum_list (map snd ps)) \<and>
    list_all2 (\<lambda>(avail, taken) r. taken \<le> r \<and> r \<le> avail) ps (redistribute ps shortfall)"
  using assms
proof (induction ps shortfall rule: redistribute.induct)
  case (2 avail taken rest shortfall)
  have le: "sum_list (map snd rest) \<le> sum_list (map fst rest)"
    using "2.prems"(1) by (induction rest) auto
  show ?case
  proof (cases "shortfall > 0")
    case True
    then show ?thesis using 2 le by (auto simp: Let_def min_def split: if_splits)
  next
    case False
    with "2.prems" have "shortfall = 0" by simp
    then show ?thesis using 2 le by (auto simp: min_def)
  qed
qed simp

definition tier_available :: "(MessagePriority \<rightharpoonup> int) \<Rightarrow> MessagePriority \<Rightarrow> int" where
  "tier_available available p = (case available p of Some n \<Rightarrow> n | None \<Rightarrow> 0)"

lemma receive_counts:
  assumes "0 < maxCount" and "0 \<le> weight_high w" and "0 \<le> weight_medium w" and "0 \<le> weight_low w"
    and "0 < weight_high w + weight_medium w + weight_low w" and "\<forall>p. 0 \<le> tier_available available p"
  shows "map fst (ComputeReceiveCounts maxCount available w) = [HIGH, MEDIUM, LOW] \<and>
    sum_list (map snd (ComputeReceiveCounts maxCount available w)) =
      min maxCount (tier_available available HIGH + tier_available available MEDIUM + tier_available available LOW) \<and>
    (\<forall>(p, n) \<in> set (ComputeReceiveCounts maxCount available w). 0 \<le> n \<and> n \<le> tier_available available p)"
proof -
  let ?w = "[weight_high w, weight_medium w, weight_low w]"
  let ?a = "map (tier_available available) [HIGH, MEDIUM, LOW]"
  have targets: "sum_list (shareTargets maxCount ?w) = maxCount" "length (shareTargets maxCount ?w) = 3"
      "\<forall>t \<in> set (shareTargets maxCount ?w). 0 \<le> t"
    using shareTargets_sum [of maxCount ?w] assms by (auto simp: add.assoc)
  then obtain x y z where t: "shareTargets maxCount ?w = [x, y, z]"
    by (auto simp: numeral_3_eq_3 length_Suc_conv)
  let ?ps = "zip ?a (map2 min [x, y, z] ?a)"
  let ?short = "sum_list (map2 (-) [x, y, z] (map2 min [x, y, z] ?a))"
  let ?r = "redistribute ?ps ?short"
  have r: "ComputeReceiveCounts maxCount available w = zip [HIGH, MEDIUM, LOW] ?r"
    using assms t by (simp add: ComputeReceiveCounts_def Let_def tier_order_def tier_available_def add.assoc)
  define ps R where "ps = ?ps" and "R = ?r"
  have ok: "list_all (\<lambda>(avail, taken). taken \<le> avail) ps" "length ps = 3" by (simp_all add: ps_def)
  have short: "0 \<le> ?short" "?short = maxCount - sum_list (map snd ps)"
    using targets(1) t by (simp_all add: ps_def)
  have spec: "sum_list R = sum_list (map snd ps) + min ?short (sum_list (map fst ps) - sum_list (map snd ps))"
      "list_all2 (\<lambda>(avail, taken) r. taken \<le> r \<and> r \<le> avail) ps R"
    using redistribute_spec [OF ok(1) short(1)] unfolding R_def ps_def by blast+
  have "length R = 3" using list_all2_lengthD [OF spec(2)] ok(2) by simp
  then obtain n1 n2 n3 where n: "R = [n1, n2, n3]" by (auto simp: numeral_3_eq_3 length_Suc_conv)
  have "sum_list R = min maxCount (sum_list (map fst ps))" unfolding spec(1) short(2) by simp
  then have total: "n1 + (n2 + n3) = min maxCount (sum_list ?a)" by (simp add: n ps_def)
  have nonneg: "0 \<le> min x (tier_available available HIGH)" "0 \<le> min y (tier_available available MEDIUM)"
      "0 \<le> min z (tier_available available LOW)"
    using targets(3) t assms(6) by simp_all
  have bounds: "0 \<le> n1" "n1 \<le> tier_available available HIGH" "0 \<le> n2" "n2 \<le> tier_available available MEDIUM"
      "0 \<le> n3" "n3 \<le> tier_available available LOW"
    using spec(2) nonneg unfolding n ps_def by (auto simp del: min.bounded_iff min_le_iff_disj)
  from total bounds r show ?thesis unfolding R_def [symmetric] n by (simp add: add.assoc)
qed

text \<open>(C35) A receive fills as many of its slots as the queue can: the counts over the three tiers add up to the slots
  asked for or to everything available, whichever is less, and no tier is asked for a negative number or for more
  than it has.\<close>

theorem ComputeReceiveCounts_fills:
  assumes "0 < maxCount" and "0 \<le> weight_high w" and "0 \<le> weight_medium w" and "0 \<le> weight_low w"
    and "0 < weight_high w + weight_medium w + weight_low w" and "\<forall>p. 0 \<le> tier_available available p"
  shows "map fst (ComputeReceiveCounts maxCount available w) = [HIGH, MEDIUM, LOW] \<and>
    sum_list (map snd (ComputeReceiveCounts maxCount available w)) =
      min maxCount (tier_available available HIGH + tier_available available MEDIUM + tier_available available LOW) \<and>
    (\<forall>(p, n) \<in> set (ComputeReceiveCounts maxCount available w). 0 \<le> n \<and> n \<le> tier_available available p)"
  using assms by (rule receive_counts)

theorem ComputeReceiveCounts_fills_witness:
  "sum_list (map snd (ComputeReceiveCounts 10 [HIGH \<mapsto> 1, LOW \<mapsto> 20] default_weights)) = 10"
  using ComputeReceiveCounts_fills [of 10 default_weights "[HIGH \<mapsto> 1, LOW \<mapsto> 20]"]
  by (simp add: default_weights_def tier_available_def)

text \<open>The legacy key the comment promises to honour is not read at all.\<close>

lemma legacy_weight_ignored:
  "LoadPriorityWeights (cfg(''euclid.modules.eqs.priority-weights.middle'' := v)) = LoadPriorityWeights cfg"
  by (simp add: LoadPriorityWeights_def getOr_def)

text \<open>A priority is read back from its stored name, in any case, and from its former name.\<close>

lemma MessagePriority_roundtrip: "TryMessagePriorityFromString (MessagePriorityToString p) = Some p"
  by (cases p; hypsubst; code_simp)

end
