(* ===== verification/Json_Values.thy ===== *)
theory Json_Values
  imports Bson
begin

text \<open>
  The JSON values a request body is parsed into, and the accessors of \<^verbatim>\<open>core/include/euclid/core/JsonUtils.h\<close>.

  A value has one of the kinds of \<^verbatim>\<open>boost::json::kind\<close>; an integer that does not fit \<^verbatim>\<open>int64\<close> is of the unsigned kind.
  The keys of an object are distinct. The parser and the serializer are Boost's, so they are parameters where they are
  used. An accessor that asks a value for a kind it does not have throws, and so does \<^verbatim>\<open>at\<close> on a missing key; what is
  thrown is an error value here.
\<close>

datatype json =
    JNull
  | JBool bool
  | JInt int
  | JUint int
  | JDouble double
  | JString string
  | JArray "json list"
  | JObject "(string \<times> json) list"

datatype json_error = NotOfKind string | NoSuchKey string

type_synonym 'a parsed = "json_error + 'a"

text \<open>What follows a value that was read, unless reading it threw.\<close>

definition and_then :: "'e + 'a \<Rightarrow> ('a \<Rightarrow> 'e + 'b) \<Rightarrow> 'e + 'b" where
  "and_then r f = (case r of Inl e \<Rightarrow> Inl e | Inr x \<Rightarrow> f x)"

lemma and_then_simps [simp]: "and_then (Inl e) f = Inl e" "and_then (Inr x) f = f x"
  by (simp_all add: and_then_def)

lemma and_then_Inr: "and_then r f = Inr y \<longleftrightarrow> (\<exists>x. r = Inr x \<and> f x = Inr y)"
  by (cases r) simp_all

fun as_object :: "json \<Rightarrow> (string \<times> json) list parsed" where
  "as_object (JObject fs) = Inr fs"
| "as_object _ = Inl (NotOfKind ''object'')"

fun as_string :: "json \<Rightarrow> string parsed" where
  "as_string (JString s) = Inr s"
| "as_string _ = Inl (NotOfKind ''string'')"

fun as_int64 :: "json \<Rightarrow> int parsed" where
  "as_int64 (JInt i) = Inr i"
| "as_int64 _ = Inl (NotOfKind ''int64'')"

fun as_bool :: "json \<Rightarrow> bool parsed" where
  "as_bool (JBool b) = Inr b"
| "as_bool _ = Inl (NotOfKind ''bool'')"

fun as_double :: "json \<Rightarrow> double parsed" where
  "as_double (JDouble d) = Inr d"
| "as_double _ = Inl (NotOfKind ''double'')"

definition json_at :: "json \<Rightarrow> string \<Rightarrow> json parsed" where
  "json_at v name =
     and_then (as_object v) (\<lambda>fs. case map_of fs name of None \<Rightarrow> Inl (NoSuchKey name) | Some w \<Rightarrow> Inr w)"

definition AttributeExists :: "json \<Rightarrow> string \<Rightarrow> bool parsed" where
  "AttributeExists v name =
     and_then (as_object v) (\<lambda>fs. Inr (case map_of fs name of None \<Rightarrow> False | Some w \<Rightarrow> w \<noteq> JNull))"

definition ValueOr :: "json \<Rightarrow> string \<Rightarrow> 'a \<Rightarrow> (json \<Rightarrow> 'a parsed) \<Rightarrow> 'a parsed" where
  "ValueOr v name fallback extract =
     and_then (AttributeExists v name) (\<lambda>here. if here then and_then (json_at v name) extract else Inr fallback)"

definition GetStringValueOr :: "json \<Rightarrow> string \<Rightarrow> string \<Rightarrow> string parsed" where
  "GetStringValueOr v name fallback = ValueOr v name fallback as_string"

definition GetStringValue :: "json \<Rightarrow> string \<Rightarrow> string parsed" where
  "GetStringValue v name = GetStringValueOr v name ''''"

definition GetLongValueOr :: "json \<Rightarrow> string \<Rightarrow> int \<Rightarrow> int parsed" where
  "GetLongValueOr v name fallback = ValueOr v name fallback as_int64"

definition GetLongValue :: "json \<Rightarrow> string \<Rightarrow> int parsed" where
  "GetLongValue v name = GetLongValueOr v name 0"

text \<open>\<^verbatim>\<open>static_cast<int32_t>\<close>.\<close>

definition int32 :: "int \<Rightarrow> int" where
  "int32 n = sint (word_of_int n :: 32 word)"

definition GetIntValue :: "json \<Rightarrow> string \<Rightarrow> int \<Rightarrow> int parsed" where
  "GetIntValue v name fallback = map_sum id int32 (GetLongValueOr v name fallback)"

definition GetBoolValue :: "json \<Rightarrow> string \<Rightarrow> bool parsed" where
  "GetBoolValue v name = ValueOr v name False as_bool"

definition GetDoubleValue :: "json \<Rightarrow> string \<Rightarrow> double parsed" where
  "GetDoubleValue v name = ValueOr v name (Finite 0) as_double"

text \<open>\<^verbatim>\<open>GetMapFromObject\<close>: a key is read as a C string, so up to its first NUL, and \<^verbatim>\<open>emplace\<close> keeps the entry that is
  there.\<close>

definition c_string :: "string \<Rightarrow> string" where
  "c_string s = takeWhile (\<lambda>c. c \<noteq> CHR 0x00) s"

definition map_emplace :: "'k::linorder \<Rightarrow> 'v \<Rightarrow> ('k \<times> 'v) list \<Rightarrow> ('k \<times> 'v) list" where
  "map_emplace k v m = (if map_of m k = None then map_put k v m else m)"

fun map_elements :: "(json \<Rightarrow> 'a parsed) \<Rightarrow> (string \<times> json) list \<Rightarrow> (string \<times> 'a) list \<Rightarrow> (string \<times> 'a) list parsed" where
  "map_elements read [] m = Inr m"
| "map_elements read ((key, value) # elements) m =
     and_then (read value) (\<lambda>x. map_elements read elements (map_emplace (c_string key) x m))"

definition GetMapFromObject :: "(json \<Rightarrow> 'a parsed) \<Rightarrow> json \<Rightarrow> string \<Rightarrow> (string \<times> 'a) list parsed" where
  "GetMapFromObject read v name =
     and_then (AttributeExists v name) (\<lambda>here.
       if here then and_then (json_at v name) (\<lambda>w. and_then (as_object w) (\<lambda>fs. map_elements read fs [])) else Inr [])"

text \<open>Boost's \<^verbatim>\<open>operator==\<close>: the two integer kinds compare by value, an object regardless of the order of its keys.\<close>

lemma size_field: "(key, v) \<in> set fs \<Longrightarrow> size v < Suc (size_list (size_prod (\<lambda>_. 0) size) fs)"
  by (induction fs) auto

function json_eq :: "json \<Rightarrow> json \<Rightarrow> bool" where
  "json_eq v w =
     (case (v, w) of
        (JNull, JNull) \<Rightarrow> True
      | (JBool a, JBool b) \<Rightarrow> a = b
      | (JInt a, JInt b) \<Rightarrow> a = b
      | (JInt a, JUint b) \<Rightarrow> a = b
      | (JUint a, JInt b) \<Rightarrow> a = b
      | (JUint a, JUint b) \<Rightarrow> a = b
      | (JDouble a, JDouble b) \<Rightarrow> a = b \<and> a \<noteq> NaN
      | (JString a, JString b) \<Rightarrow> a = b
      | (JArray xs, JArray ys) \<Rightarrow> length xs = length ys \<and> list_all (\<lambda>(x, y). json_eq x y) (zip xs ys)
      | (JObject fs, JObject gs) \<Rightarrow> length fs = length gs \<and>
          list_all (\<lambda>(key, x). case map_of gs key of None \<Rightarrow> False | Some y \<Rightarrow> json_eq x y) fs
      | _ \<Rightarrow> False)"
  by pat_completeness auto
termination
proof (relation "measure (\<lambda>(v, _). size v)", goal_cases)
  case (2 v w p xs ys q x y)
  then show ?case by (auto dest!: set_zip_leftD simp: less_Suc_eq_le intro: size_list_estimation')
qed (auto dest: size_field)

declare json_eq.simps [simp del]

subsection \<open>What the accessors return\<close>

text \<open>An object's field of the kind asked for, the default where there is none, and an error for another kind.\<close>

lemma ValueOr_cases:
  "ValueOr (JObject fs) name fallback extract =
     (case map_of fs name of None \<Rightarrow> Inr fallback | Some w \<Rightarrow> if w = JNull then Inr fallback else extract w)"
  by (simp add: ValueOr_def AttributeExists_def json_at_def split: option.split)

lemmas get_defs = GetStringValue_def GetStringValueOr_def GetLongValue_def GetLongValueOr_def GetBoolValue_def
  GetDoubleValue_def

lemma get_simps [simp]:
  "GetStringValueOr (JObject ((k, w) # fs)) name fallback =
     (if k = name then if w = JNull then Inr fallback else as_string w else GetStringValueOr (JObject fs) name fallback)"
  "GetStringValueOr (JObject []) name fallback = Inr fallback"
  "GetLongValueOr (JObject ((k, w) # fs)) name n =
     (if k = name then if w = JNull then Inr n else as_int64 w else GetLongValueOr (JObject fs) name n)"
  "GetLongValueOr (JObject []) name n = Inr n"
  "GetBoolValue (JObject ((k, w) # fs)) name =
     (if k = name then if w = JNull then Inr False else as_bool w else GetBoolValue (JObject fs) name)"
  "GetBoolValue (JObject []) name = Inr False"
  by (simp_all add: get_defs ValueOr_cases)

text \<open>Only an object has attributes; the accessors throw on any other value.\<close>

lemma get_not_object:
  assumes "\<And>fs. v \<noteq> JObject fs"
  shows "ValueOr v name fallback extract = Inl (NotOfKind ''object'')"
  using assms by (cases v) (auto simp: ValueOr_def AttributeExists_def)

lemma map_of_map_emplace: "map_of (map_emplace k v m) = (\<lambda>x. if x = k \<and> map_of m k = None then Some v else map_of m x)"
  by (auto simp: map_emplace_def fun_eq_iff)

lemma key_ordered_map_emplace [simp, intro]: "key_ordered m \<Longrightarrow> key_ordered (map_emplace k v m)"
  by (simp add: map_emplace_def)

lemma map_elements_ordered: "map_elements read es m = Inr m' \<Longrightarrow> key_ordered m \<Longrightarrow> key_ordered m'"
  by (induction read es m rule: map_elements.induct) (auto simp: and_then_Inr)

end
