(* ===== verification/Variants.thy ===== *)
theory Variants
  imports Json_Values
begin

text \<open>
  The typed attribute of a message, \<^verbatim>\<open>Dto::COM::Variant\<close> (\<^verbatim>\<open>dto/include/euclid/dto/com/Variant.h\<close>), and its JSON form
  with the Base64 codec for binary values. The entity's variant (\<^verbatim>\<open>Entity::COM::Variant\<close>) has the same alternatives and
  \<^verbatim>\<open>EqsMapper\<close> copies one into the other, so both are the type \<open>variant\<close> here.

  The codec keeps its bits in an \<^verbatim>\<open>int\<close> that is shifted left for every character and so wraps around; it is a word of
  32 bits in the model. A \<^verbatim>\<open>float\<close> is the double of the same value.
\<close>

type_synonym binary = "8 word list"

datatype variant =
    VInt int
  | VLong int
  | VDouble double
  | VFloat double
  | VBool bool
  | VString string
  | VBinary binary

text \<open>\<^verbatim>\<open>static_cast<float>\<close>: 24 significant bits, or multiples of the least subnormal, to nearest with ties to even.\<close>

definition float_magnitude :: "nat \<Rightarrow> nat" where
  "float_magnitude n =
     (let s = max 925 (bit_length n - 24); q = n div 2 ^ s; r = n mod 2 ^ s; half = 2 ^ (s - 1) in
      (if half < r \<or> (r = half \<and> odd q) then Suc q else q) * 2 ^ s)"

fun float_of_double :: "double \<Rightarrow> double" where
  "float_of_double (Finite n) =
     (let m = float_magnitude (nat \<bar>n\<bar>) in
      if 2 ^ 1202 \<le> m then (if 0 < n then PosInf else NegInf) else Finite (sgn n * int m))"
| "float_of_double d = d"

subsection \<open>Base64\<close>

definition kBase64Chars :: string where
  "kBase64Chars = ''ABCDEFGHIJKLMNOPQRSTUVWXYZabcdefghijklmnopqrstuvwxyz0123456789+/''"

text \<open>\<^verbatim>\<open>kBase64Chars[n >> k & 0x3F]\<close>.\<close>

definition sextet :: "32 word \<Rightarrow> nat \<Rightarrow> char" where
  "sextet n k = kBase64Chars ! unat (and (drop_bit k n) 0x3F)"

fun ToBase64 :: "binary \<Rightarrow> string" where
  "ToBase64 (a # b # c # rest) =
     (let n = or (or (push_bit 16 (ucast a)) (push_bit 8 (ucast b))) (ucast c) in
      [sextet n 18, sextet n 12, sextet n 6, sextet n 0] @ ToBase64 rest)"
| "ToBase64 [a] = (let n = push_bit 16 (ucast a) in [sextet n 18, sextet n 12, CHR 0x3D, CHR 0x3D])"
| "ToBase64 [a, b] =
     (let n = or (push_bit 16 (ucast a)) (push_bit 8 (ucast b)) in
      [sextet n 18, sextet n 12, sextet n 6, CHR 0x3D])"
| "ToBase64 [] = []"

definition DecodeBase64Char :: "char \<Rightarrow> int" where
  "DecodeBase64Char ch =
     (let c = int (of_char ch :: nat) in
      if 65 \<le> c \<and> c \<le> 90 then c - 65
      else if 97 \<le> c \<and> c \<le> 122 then c - 97 + 26
      else if 48 \<le> c \<and> c \<le> 57 then c - 48 + 52
      else if c = 43 then 62
      else if c = 47 then 63
      else -1)"

text \<open>The loop, with \<^verbatim>\<open>val\<close>, \<^verbatim>\<open>bits\<close> and what is decoded so far.\<close>

fun decode_loop :: "string \<Rightarrow> 32 word \<Rightarrow> int \<Rightarrow> binary \<Rightarrow> binary" where
  "decode_loop [] val bits out = out"
| "decode_loop (c # input) val bits out =
     (if c = CHR 0x3D then out
      else let d = DecodeBase64Char c in
        if d < 0 then decode_loop input val bits out
        else let val = or (push_bit 6 val) (word_of_int d); bits = bits + 6 in
          if 0 \<le> bits
          then decode_loop input val (bits - 8) (out @ [ucast (and (signed_drop_bit (nat bits) val) 0xFF)])
          else decode_loop input val bits out)"

definition FromBase64 :: "string \<Rightarrow> binary" where
  "FromBase64 input = decode_loop input 0 (-8) []"

subsection \<open>JSON\<close>

fun variant_value_from :: "variant \<Rightarrow> json" where
  "variant_value_from (VBinary b) = JObject [(''type'', JString ''binary''), (''value'', JString (ToBase64 b))]"
| "variant_value_from (VInt i) = JObject [(''type'', JString ''int''), (''value'', JInt i)]"
| "variant_value_from (VLong i) = JObject [(''type'', JString ''long''), (''value'', JInt i)]"
| "variant_value_from (VDouble d) = JObject [(''type'', JString ''double''), (''value'', JDouble d)]"
| "variant_value_from (VFloat d) = JObject [(''type'', JString ''float''), (''value'', JDouble d)]"
| "variant_value_from (VBool b) = JObject [(''type'', JString ''bool''), (''value'', JBool b)]"
| "variant_value_from (VString s) = JObject [(''type'', JString ''string''), (''value'', JString s)]"

text \<open>An unknown type leaves the variant as it is constructed, the integer zero.\<close>

definition variant_value_to :: "json \<Rightarrow> variant parsed" where
  "variant_value_to v =
     and_then (GetStringValue v ''type'') (\<lambda>t.
     and_then (json_at v ''value'') (\<lambda>val.
       if t = ''int'' then map_sum id (\<lambda>i. VInt (int32 i)) (as_int64 val)
       else if t = ''long'' then map_sum id VLong (as_int64 val)
       else if t = ''double'' then map_sum id VDouble (as_double val)
       else if t = ''float'' then map_sum id (\<lambda>d. VFloat (float_of_double d)) (as_double val)
       else if t = ''bool'' then map_sum id VBool (as_bool val)
       else if t = ''string'' then map_sum id VString (as_string val)
       else if t = ''binary'' then map_sum id (\<lambda>s. VBinary (FromBase64 s)) (as_string val)
       else Inr (VInt 0)))"

text \<open>The values the C++ types can hold.\<close>

fun in_range :: "variant \<Rightarrow> bool" where
  "in_range (VInt i) \<longleftrightarrow> - (2 ^ 31) \<le> i \<and> i < 2 ^ 31"
| "in_range (VLong i) \<longleftrightarrow> - (2 ^ 63) \<le> i \<and> i < 2 ^ 63"
| "in_range (VFloat d) \<longleftrightarrow> float_of_double d = d"
| "in_range _ \<longleftrightarrow> True"

subsection \<open>The round trip\<close>

lemma decoded_table: "map DecodeBase64Char kBase64Chars = map int [0..<64]" "CHR 0x3D \<notin> set kBase64Chars"
  by (simp_all add: kBase64Chars_def DecodeBase64Char_def upt_rec)

lemma DecodeBase64Char_nth:
  assumes "i < 64"
  shows "DecodeBase64Char (kBase64Chars ! i) = int i \<and> kBase64Chars ! i \<noteq> CHR 0x3D"
proof -
  have l: "length kBase64Chars = 64" using arg_cong [OF decoded_table(1), of length] by simp
  have "map DecodeBase64Char kBase64Chars ! i = int i" unfolding decoded_table(1) using assms by simp
  then have "DecodeBase64Char (kBase64Chars ! i) = int i" using assms l by simp
  moreover have "kBase64Chars ! i \<in> set kBase64Chars" using assms l by simp
  ultimately show ?thesis using decoded_table(2) by (metis)
qed

definition six :: "32 word \<Rightarrow> nat \<Rightarrow> 32 word" where
  "six n k = and (drop_bit k n) (mask 6)"

lemma unat_six: "unat (six n k) < 64"
proof -
  have "six n k < 2 ^ 6" unfolding six_def by (rule and_mask_less') simp
  then show ?thesis by (simp add: word_less_nat_alt)
qed

lemma sextet_six: "sextet n k = kBase64Chars ! unat (six n k)"
  by (simp add: sextet_def six_def mask_eq_exp_minus_1)

lemma sextet_decode [simp]: "DecodeBase64Char (sextet n k) = int (unat (six n k))" "sextet n k \<noteq> CHR 0x3D"
  using DecodeBase64Char_nth [OF unat_six] by (simp_all add: sextet_six)

lemma word_of_unat [simp]: "word_of_int (int (unat w)) = w"
  by simp

lemmas six_bits = six_def bit_simps bit_mask_iff

text \<open>The bytes of a group come out of the accumulator whatever it held before.\<close>

lemma byte_cases:
  assumes "\<And>i. i \<in> {0, 1, 2, 3, 4, 5, 6, 7} \<Longrightarrow> bit v i = bit w i"
  shows "v = (w :: 8 word)"
proof (rule bit_word_eqI)
  fix i assume "i < LENGTH(8)"
  then have "i \<in> {0, 1, 2, 3, 4, 5, 6, 7}" by auto
  then show "bit v i = bit w i" by (rule assms)
qed

lemma group_bytes:
  "ucast (and (signed_drop_bit 4 (or (push_bit 6 (or (push_bit 6 v) (six n 18))) (six n 12))) 0xFF) = (ucast (drop_bit 16 n) :: 8 word)"
  "ucast (and (signed_drop_bit 2 (or (push_bit 6 (or (push_bit 6 v) (six n 12))) (six n 6))) 0xFF) = (ucast (drop_bit 8 n) :: 8 word)"
  "ucast (and (or (push_bit 6 (or (push_bit 6 v) (six n 6))) (six n 0)) 0xFF) = (ucast n :: 8 word)"
  by (rule byte_cases; elim insertE emptyE; simp add: six_bits bit_numeral_rec)+

lemma group_of_bytes:
  fixes a b c :: "8 word"
  shows "ucast (drop_bit 16 (or (or (push_bit 16 (ucast a)) (push_bit 8 (ucast b))) (ucast c :: 32 word))) = a"
    and "ucast (drop_bit 8 (or (or (push_bit 16 (ucast a)) (push_bit 8 (ucast b))) (ucast c :: 32 word))) = b"
    and "ucast (or (or (push_bit 16 (ucast a)) (push_bit 8 (ucast b))) (ucast c :: 32 word)) = c"
    and "ucast (drop_bit 16 (or (push_bit 16 (ucast a)) (push_bit 8 (ucast b)) :: 32 word)) = a"
    and "ucast (drop_bit 8 (or (push_bit 16 (ucast a)) (push_bit 8 (ucast b)) :: 32 word)) = b"
    and "ucast (drop_bit 16 (push_bit 16 (ucast a) :: 32 word)) = a"
  by (rule byte_cases; elim insertE emptyE; auto simp: bit_simps dest: bit_imp_le_length)+

lemma decode_group:
  "\<exists>val'. decode_loop (sextet n 18 # sextet n 12 # sextet n 6 # sextet n 0 # rest) val (-8) out =
     decode_loop rest val' (-8) (out @ [ucast (drop_bit 16 n), ucast (drop_bit 8 n), ucast n])"
  by (auto simp: Let_def group_bytes simp del: push_bit_push_bit push_bit_or)

lemma decode_ToBase64: "decode_loop (ToBase64 b) val (-8) out = out @ b"
proof (induction b arbitrary: val out rule: ToBase64.induct)
  case (1 a b c rest)
  define n :: "32 word" where "n = or (or (push_bit 16 (ucast a)) (push_bit 8 (ucast b))) (ucast c)"
  have "ToBase64 (a # b # c # rest) = sextet n 18 # sextet n 12 # sextet n 6 # sextet n 0 # ToBase64 rest"
    by (simp add: n_def Let_def)
  moreover have "ucast (drop_bit 16 n) = a" "ucast (drop_bit 8 n) = b" "ucast n = c"
    unfolding n_def by (rule group_of_bytes)+
  ultimately show ?case using decode_group [of n "ToBase64 rest" val out] 1 by auto
next
  case (2 a)
  then show ?case using group_of_bytes(6) [of a] by (simp add: Let_def group_bytes del: push_bit_push_bit push_bit_or)
next
  case (3 a b)
  define n :: "32 word" where "n = or (push_bit 16 (ucast a)) (push_bit 8 (ucast b))"
  have "ucast (drop_bit 16 n) = a" "ucast (drop_bit 8 n) = b" unfolding n_def by (rule group_of_bytes)+
  moreover have "ToBase64 [a, b] = [sextet n 18, sextet n 12, sextet n 6, CHR 0x3D]" by (simp add: n_def Let_def)
  ultimately show ?case by (simp add: Let_def group_bytes del: push_bit_push_bit push_bit_or)
qed simp

lemma base64_roundtrip: "FromBase64 (ToBase64 b) = b"
  by (simp add: FromBase64_def decode_ToBase64)

lemma int32_id: "- (2 ^ 31) \<le> i \<Longrightarrow> i < 2 ^ 31 \<Longrightarrow> int32 i = i"
  by (simp add: int32_def sint_sbintrunc' signed_take_bit_int_eq_self)

lemma variant_reads: "in_range v \<Longrightarrow> variant_value_to (variant_value_from v) = Inr v"
  by (cases v) (simp_all add: variant_value_to_def GetStringValue_def json_at_def base64_roundtrip int32_id)

text \<open>(C36) An attribute comes back from its JSON as it was: every type, every value of it, binary data through Base64 and
  its accumulator that overflows included.\<close>

theorem variant_roundtrip:
  assumes "in_range v"
  shows "variant_value_to (variant_value_from v) = Inr v"
  by (rule variant_reads [OF assms])

theorem variant_roundtrip_witness:
  "variant_value_to (variant_value_from (VInt (-5))) = Inr (VInt (-5))"
  by (rule variant_roundtrip) simp

end
