(* ===== verification/Change_Waiters.thy ===== *)
theory Change_Waiters
  imports Euclid_Prelude "HOL-Library.Word"
begin

text \<open>
  \<^verbatim>\<open>database/src/ChangeWaiters.cpp\<close>: long polls that sleep on a condition variable under a key until something
  wakes the key. Entries are shared objects, so the model keeps a store of them: the map holds one object
  per key and every waiter holds a pointer to the object it enrolled under. The generation wraps at 64 bits.
  The change-stream thread is outside the model; it calls \<^verbatim>\<open>Wake\<close> like everything else.
\<close>

record waiter_entry =
  entry_generation :: "64 word"
  entry_waiters :: int

type_synonym waiter = "string \<times> nat"   \<comment> \<open>key, and which entry object its \<^verbatim>\<open>shared_ptr\<close> holds\<close>

record change_waiters =
  entry_of :: "string \<Rightarrow> nat option"
  entry_store :: "nat \<Rightarrow> waiter_entry"
  next_entry :: nat
  waiters :: "waiter option list"       \<comment> \<open>every \<^verbatim>\<open>Waiter\<close> made so far; \<open>None\<close> once destroyed\<close>

definition no_waiters :: change_waiters where
  "no_waiters = \<lparr>entry_of = (\<lambda>_. None), entry_store = (\<lambda>_. \<lparr>entry_generation = 0, entry_waiters = 0\<rparr>),
     next_entry = 0, waiters = []\<rparr>"

definition Enroll :: "string \<Rightarrow> change_waiters \<Rightarrow> change_waiters" where
  "Enroll key s =
     (case entry_of s key of
        Some e \<Rightarrow>
          s\<lparr>entry_store := (entry_store s)(e := (entry_store s e)\<lparr>entry_waiters := entry_waiters (entry_store s e) + 1\<rparr>),
            waiters := waiters s @ [Some (key, e)]\<rparr>
      | None \<Rightarrow>
          (let e = next_entry s in
           s\<lparr>entry_of := (entry_of s)(key := Some e), next_entry := Suc e,
             entry_store := (entry_store s)(e := \<lparr>entry_generation = 0, entry_waiters = 1\<rparr>),
             waiters := waiters s @ [Some (key, e)]\<rparr>))"

definition release :: "string \<Rightarrow> change_waiters \<Rightarrow> change_waiters" where
  "release key s =
     (case entry_of s key of
        None \<Rightarrow> s
      | Some e \<Rightarrow>
          (let n = entry_waiters (entry_store s e) - 1;
               s' = s\<lparr>entry_store := (entry_store s)(e := (entry_store s e)\<lparr>entry_waiters := n\<rparr>)\<rparr>
           in if n = 0 then s'\<lparr>entry_of := (entry_of s)(key := None)\<rparr> else s'))"

definition destroy_waiter :: "nat \<Rightarrow> change_waiters \<Rightarrow> change_waiters" where
  "destroy_waiter i s =
     (if i < length (waiters s) then
        (case waiters s ! i of
           None \<Rightarrow> s
         | Some (key, _) \<Rightarrow> (release key s)\<lparr>waiters := (waiters s)[i := None]\<rparr>)
      else s)"

definition Wake :: "string \<Rightarrow> change_waiters \<Rightarrow> change_waiters" where
  "Wake key s =
     (case entry_of s key of
        None \<Rightarrow> s
      | Some e \<Rightarrow>
          s\<lparr>entry_store := (entry_store s)(e := (entry_store s e)\<lparr>entry_generation := entry_generation (entry_store s e) + 1\<rparr>)\<rparr>)"

definition Generation :: "waiter \<Rightarrow> change_waiters \<Rightarrow> 64 word" where
  "Generation w s = entry_generation (entry_store s (snd w))"

text \<open>\<^verbatim>\<open>Wait\<close>: the predicate that ends it at once, and the moment that ends it in any case.\<close>

definition Wait_ready :: "waiter \<Rightarrow> 64 word \<Rightarrow> change_waiters \<Rightarrow> bool" where
  "Wait_ready w seen s \<longleftrightarrow> Generation w s \<noteq> seen"

definition Wait_until :: "bool \<Rightarrow> millis \<Rightarrow> millis \<Rightarrow> millis \<Rightarrow> millis \<Rightarrow> millis" where
  "Wait_until watching watchedFallback polledFallback now deadline =
     min deadline (now + (if watching then watchedFallback else polledFallback))"

datatype waiter_action = EnrollA string | DestroyA nat | WakeA string

fun waiter_step :: "change_waiters \<Rightarrow> waiter_action \<Rightarrow> change_waiters" where
  "waiter_step s (EnrollA key) = Enroll key s"
| "waiter_step s (DestroyA i) = destroy_waiter i s"
| "waiter_step s (WakeA key) = Wake key s"

definition waiter_run :: "change_waiters \<Rightarrow> waiter_action list \<Rightarrow> change_waiters" where
  "waiter_run = foldl waiter_step"

subsection \<open>Entries and waiters agree\<close>

definition waiting_on :: "string \<Rightarrow> waiter option \<Rightarrow> bool" where
  "waiting_on key w \<longleftrightarrow> (case w of None \<Rightarrow> False | Some (k, _) \<Rightarrow> k = key)"

lemma waiting_on_simps [simp]:
  "\<not> waiting_on key None" "waiting_on key (Some (k, e)) \<longleftrightarrow> k = key"
  by (simp_all add: waiting_on_def)

definition waiters_inv :: "change_waiters \<Rightarrow> bool" where
  "waiters_inv s \<longleftrightarrow>
     (\<forall>key e. entry_of s key = Some e \<longrightarrow>
        e < next_entry s \<and> entry_waiters (entry_store s e) = count_if (waiting_on key) (waiters s) \<and>
        (\<forall>key'. entry_of s key' = Some e \<longrightarrow> key' = key)) \<and>
     (\<forall>key e. Some (key, e) \<in> set (waiters s) \<longrightarrow> entry_of s key = Some e) \<and>
     (\<forall>key. entry_of s key \<noteq> None \<longrightarrow> 0 < count_if (waiting_on key) (waiters s))"

lemma waiters_invI:
  assumes "\<And>key e. entry_of s key = Some e \<Longrightarrow>
      e < next_entry s \<and> entry_waiters (entry_store s e) = count_if (waiting_on key) (waiters s) \<and>
      (\<forall>key'. entry_of s key' = Some e \<longrightarrow> key' = key)"
    and "\<And>key e. Some (key, e) \<in> set (waiters s) \<Longrightarrow> entry_of s key = Some e"
    and "\<And>key. entry_of s key \<noteq> None \<Longrightarrow> 0 < count_if (waiting_on key) (waiters s)"
  shows "waiters_inv s"
  unfolding waiters_inv_def using assms by blast

lemma waiters_inv_init: "waiters_inv no_waiters"
  by (simp add: waiters_inv_def no_waiters_def)

lemma waiters_inv_Enroll:
  assumes inv: "waiters_inv s" shows "waiters_inv (Enroll key s)"
proof (cases "entry_of s key")
  case (Some e)
  with inv show ?thesis
    by (auto simp: waiters_inv_def Enroll_def add_nonneg_pos)
next
  case None
  then have "count_if (waiting_on key) (waiters s) = 0"
  proof -
    have "\<not> (\<exists>w \<in> set (waiters s). waiting_on key w)"
      using inv None by (auto simp: waiters_inv_def waiting_on_def split: option.splits)
    then show ?thesis
      using count_if_pos [of "waiting_on key" "waiters s"] count_if_nonneg [of "waiting_on key" "waiters s"]
      by linarith
  qed
  moreover have "entry_of s k \<noteq> Some (next_entry s)" for k
    using inv by (auto simp: waiters_inv_def)
  ultimately show ?thesis
    using inv None by (auto simp: waiters_inv_def Enroll_def Let_def less_Suc_eq)
qed

lemma waiters_inv_Wake: "waiters_inv s \<Longrightarrow> waiters_inv (Wake key s)"
  by (auto simp: waiters_inv_def Wake_def split: option.splits)

lemma waiters_inv_destroy:
  assumes inv: "waiters_inv s" shows "waiters_inv (destroy_waiter i s)"
proof (cases "i < length (waiters s) \<and> waiters s ! i \<noteq> None")
  case False
  with inv show ?thesis by (auto simp: destroy_waiter_def split: option.split)
next
  case True
  then obtain key e where w: "waiters s ! i = Some (key, e)" and i: "i < length (waiters s)" by auto
  have ent: "entry_of s key = Some e" and cnt: "entry_waiters (entry_store s e) = count_if (waiting_on key) (waiters s)"
    using inv w i by (auto simp: waiters_inv_def) (metis nth_mem)+
  have upd: "count_if (waiting_on k) ((waiters s)[i := None]) =
      count_if (waiting_on k) (waiters s) - of_bool (k = key)" for k
    using w i by (auto simp: count_if_update)
  have sub: "Some w' \<in> set ((waiters s)[i := None]) \<Longrightarrow> Some w' \<in> set (waiters s)" for w'
    using set_update_subset_insert [of "waiters s" i None] by auto
  have gone: "Some (key, e') \<notin> set ((waiters s)[i := None])" if "count_if (waiting_on key) (waiters s) = 1" for e'
    using upd [of key] that count_if_pos [of "waiting_on key" "(waiters s)[i := None]"] by force
  have only: "entry_of s k = Some e \<Longrightarrow> k = key" for k
    using inv ent by (auto simp: waiters_inv_def)
  have step: "destroy_waiter i s =
      s\<lparr>entry_store := (entry_store s)(e := (entry_store s e)\<lparr>entry_waiters := entry_waiters (entry_store s e) - 1\<rparr>),
        entry_of := (if entry_waiters (entry_store s e) = 1 then (entry_of s)(key := None) else entry_of s),
        waiters := (waiters s)[i := None]\<rparr>" (is "_ = ?s'")
    using i w ent by (simp add: destroy_waiter_def release_def Let_def)
  have pos: "0 < count_if (waiting_on k) (waiters s)" if "entry_of s k = Some e'" for k e'
    using inv that by (auto simp: waiters_inv_def)
  have ents: "e' < next_entry s" "entry_waiters (entry_store s e') = count_if (waiting_on k) (waiters s)"
    "\<And>k'. entry_of s k' = Some e' \<Longrightarrow> k' = k" if "entry_of s k = Some e'" for k e'
    using inv that by (auto simp: waiters_inv_def)
  have own: "entry_of s k = Some e'" if "Some (k, e') \<in> set (waiters s)" for k e'
    using inv that by (auto simp: waiters_inv_def)
  show ?thesis
    unfolding step
  proof (rule waiters_invI)
    fix k e' assume k: "entry_of ?s' k = Some e'"
    then have k': "entry_of s k = Some e'" by (simp split: if_splits)
    then have "e' = e \<longleftrightarrow> k = key" using only [of k] ent by fastforce
    then have "entry_waiters (entry_store ?s' e') = count_if (waiting_on k) (waiters ?s')"
      using ents(2) [OF k'] upd [of k] cnt by simp
    moreover have "key' = k" if "entry_of ?s' key' = Some e'" for key'
      using that by (intro ents(3) [OF k']) (simp split: if_splits)
    ultimately show "e' < next_entry ?s' \<and>
        entry_waiters (entry_store ?s' e') = count_if (waiting_on k) (waiters ?s') \<and>
        (\<forall>key'. entry_of ?s' key' = Some e' \<longrightarrow> key' = k)"
      using ents(1) [OF k'] by simp
  next
    fix k e' assume k: "Some (k, e') \<in> set (waiters ?s')"
    then have "entry_of s k = Some e'" using sub own by simp
    moreover have "k = key \<Longrightarrow> entry_waiters (entry_store s e) \<noteq> 1" using gone k cnt by auto
    ultimately show "entry_of ?s' k = Some e'" by auto
  next
    fix k assume "entry_of ?s' k \<noteq> None"
    then obtain e' where k: "entry_of s k = Some e'" and "k = key \<longrightarrow> entry_waiters (entry_store s e) \<noteq> 1"
      by (auto split: if_splits)
    then show "0 < count_if (waiting_on k) (waiters ?s')"
      using pos [OF k] upd [of k] cnt by (cases "k = key") auto
  qed
qed

lemma waiters_inv_step: "waiters_inv s \<Longrightarrow> waiters_inv (waiter_step s a)"
  by (cases a) (auto intro: waiters_inv_Enroll waiters_inv_Wake waiters_inv_destroy)

interpretation waiters: inductive_invariant no_waiters "\<lambda>s t. \<exists>a. t = waiter_step s a" waiters_inv
  by unfold_locales (auto intro: waiters_inv_init waiters_inv_step)

lemma waiters_inv_run: "waiters_inv s \<Longrightarrow> waiters_inv (waiter_run s as)"
  by (induction as arbitrary: s) (auto simp: waiter_run_def waiters_inv_step)

subsection \<open>No wake-up is lost\<close>

lemma release_generation [simp]:
  "entry_generation (entry_store (release key s) e) = entry_generation (entry_store s e)"
  by (auto simp: release_def Let_def split: option.split)

lemma destroy_generation [simp]: "Generation w (destroy_waiter i s) = Generation w s"
  by (auto simp: Generation_def destroy_waiter_def split: option.split)

lemma Enroll_generation: "snd w < next_entry s \<Longrightarrow> Generation w (Enroll key s) = Generation w s"
  by (auto simp: Generation_def Enroll_def Let_def split: option.split)

lemma Wake_generation:
  "Generation w (Wake key s) = Generation w s + of_bool (entry_of s key = Some (snd w))"
  by (auto simp: Generation_def Wake_def split: option.split)

lemma Generation_step:
  assumes "waiters_inv s" and "Some (key, e) \<in> set (waiters s)"
  shows "Generation (key, e) (waiter_step s a) =
         Generation (key, e) s + of_bool (a = WakeA key)"
proof -
  have e: "entry_of s key = Some e" using assms by (auto simp: waiters_inv_def)
  then have n: "e < next_entry s" using assms(1) by (auto simp: waiters_inv_def)
  have only: "entry_of s k = Some e \<longleftrightarrow> k = key" for k
    using assms(1) e by (auto simp: waiters_inv_def)
  show ?thesis
    by (cases a) (simp_all add: Enroll_generation Wake_generation n only)
qed

lemma waiter_alive_step:
  assumes "i < length (waiters s)" and "a \<noteq> DestroyA i"
  shows "i < length (waiters (waiter_step s a)) \<and> waiters (waiter_step s a) ! i = waiters s ! i"
  using assms
  by (cases a) (auto simp: Enroll_def destroy_waiter_def release_def Wake_def Let_def nth_append
      split: option.splits)

lemma Generation_run:
  assumes "waiters_inv s" and "i < length (waiters s)" and "waiters s ! i = Some (key, e)"
    and "DestroyA i \<notin> set as"
  shows "Generation (key, e) (waiter_run s as) =
         Generation (key, e) s + word_of_nat (count_list as (WakeA key))"
  using assms
proof (induction as arbitrary: s)
  case (Cons a as)
  have "Some (key, e) \<in> set (waiters s)" using Cons.prems by (metis nth_mem)
  with Cons.prems(1) have "Generation (key, e) (waiter_step s a) =
      Generation (key, e) s + of_bool (a = WakeA key)" by (rule Generation_step)
  moreover have "Generation (key, e) (waiter_run (waiter_step s a) as) =
      Generation (key, e) (waiter_step s a) + word_of_nat (count_list as (WakeA key))"
    using Cons.prems waiter_alive_step [of i s a] waiters_inv_step by (intro Cons.IH) auto
  ultimately show ?case by (auto simp: waiter_run_def)
qed (simp add: waiter_run_def)

text \<open>(C39) No wake-up is lost: a waiter that reads its generation and then, while it looks for work and other
  callers come and go, has its key woken, does not sleep - \<^verbatim>\<open>Wait\<close> with the generation it read returns at
  once. If its key was not woken in between, it does sleep. The count of wake-ups is taken below two to the
  sixty-four, where the generation cannot have come round.\<close>

theorem wakeup_not_lost:
  assumes "s = waiter_run no_waiters before" and "i < length (waiters s)"
    and "waiters s ! i = Some w" and "DestroyA i \<notin> set between"
    and "count_list between (WakeA (fst w)) < 2 ^ 64"
  shows "Wait_ready w (Generation w s) (waiter_run s between) \<longleftrightarrow> WakeA (fst w) \<in> set between"
proof -
  obtain key e where w: "w = (key, e)" by (cases w)
  have "waiters_inv s" using assms(1) waiters_inv_run waiters_inv_init by simp
  then have "Generation w (waiter_run s between) =
      Generation w s + word_of_nat (count_list between (WakeA key))"
    using assms(2-4) w Generation_run by simp
  moreover have "(word_of_nat (count_list between (WakeA key)) :: 64 word) = 0 \<longleftrightarrow>
      count_list between (WakeA key) = 0"
    using assms(5) w by (auto simp: word_of_nat_eq_0_iff dest: nat_dvd_not_less)
  moreover have "count_list between (WakeA key) = 0 \<longleftrightarrow> WakeA key \<notin> set between"
    by (rule count_list_0_iff)
  ultimately show ?thesis using w by (simp add: Wait_ready_def)
qed

theorem wakeup_not_lost_witness:
  "Wait_ready (''q'', 0) (Generation (''q'', 0) (waiter_run no_waiters [EnrollA ''q'']))
     (waiter_run (waiter_run no_waiters [EnrollA ''q'']) [EnrollA ''q'', WakeA ''q'', DestroyA 1])"
proof -
  let ?s = "waiter_run no_waiters [EnrollA ''q'']"
  have "0 < length (waiters ?s)" and "waiters ?s ! 0 = Some (''q'', 0)"
    by (simp_all add: waiter_run_def Enroll_def no_waiters_def)
  from wakeup_not_lost [OF refl this, of "[EnrollA ''q'', WakeA ''q'', DestroyA 1]"] show ?thesis by simp
qed

text \<open>The map does not grow with every key ever polled: a key has an entry exactly while some waiter
  is enrolled under it, and every waiter of a key shares that one entry.\<close>

theorem waiters_entries_exact:
  "entry_of (waiter_run no_waiters as) key =
     (case find (waiting_on key) (waiters (waiter_run no_waiters as)) of
        Some (Some (k, e)) \<Rightarrow> Some e | _ \<Rightarrow> None)"
proof -
  let ?s = "waiter_run no_waiters as"
  have inv: "waiters_inv ?s" by (rule waiters_inv_run [OF waiters_inv_init])
  show ?thesis
  proof (cases "find (waiting_on key) (waiters ?s)")
    case None
    then have "count_if (waiting_on key) (waiters ?s) = 0"
      by (simp add: count_if_def find_None_iff)
    with inv None show ?thesis by (fastforce simp: waiters_inv_def)
  next
    case (Some w)
    then have "w \<in> set (waiters ?s)" and "waiting_on key w" using find_SomeD by fast+
    then obtain e where "w = Some (key, e)" by (auto simp: waiting_on_def split: option.splits)
    with inv Some \<open>w \<in> set (waiters ?s)\<close> show ?thesis by (auto simp: waiters_inv_def)
  qed
qed

end
