(* ===== verification/Ttl_Cache.thy ===== *)
theory Ttl_Cache
  imports Euclid_Prelude "HOL-Library.AList" "HOL-Library.Word"
begin

text \<open>
  \<^verbatim>\<open>core/include/euclid/core/TtlCache.h\<close>, the cache in front of the authentication and queue lookups. \<^verbatim>\<open>get\<close> is
  two critical sections with the loader between them, outside the lock; \<open>get_lookup\<close> and \<open>get_store\<close> are the
  two sections, so that other threads can clear, erase and store between them. The generation counter is a
  \<^verbatim>\<open>std::uint64_t\<close> and wraps. Times are steady-clock milliseconds.
\<close>

record ('k, 'v) ttl_cache =
  ttl :: millis
  maxEntries :: nat
  cacheMisses :: bool
  entries :: "('k \<times> ('v option \<times> millis)) list"
  generation :: "64 word"

datatype 'v cache_answer =
    Direct                     \<comment> \<open>caching is off: ask the loader, remember nothing\<close>
  | Hit "'v option"
  | Miss "64 word"             \<comment> \<open>the generation seen under the lock\<close>

definition new_cache :: "millis \<Rightarrow> nat \<Rightarrow> bool \<Rightarrow> ('k, 'v) ttl_cache" where
  "new_cache t n m = \<lparr>ttl = t, maxEntries = n, cacheMisses = m, entries = [], generation = 0\<rparr>"

definition get_lookup :: "'k \<Rightarrow> millis \<Rightarrow> ('k, 'v) ttl_cache \<Rightarrow> 'v cache_answer" where
  "get_lookup key now c =
     (if ttl c \<le> 0 then Direct
      else case map_of (entries c) key of
             Some (value, expiresAt) \<Rightarrow> if now < expiresAt then Hit value else Miss (generation c)
           | None \<Rightarrow> Miss (generation c))"

definition evict :: "millis \<Rightarrow> ('k, 'v) ttl_cache \<Rightarrow> ('k, 'v) ttl_cache" where
  "evict now c =
     (let kept = filter (\<lambda>(_, _, expiresAt). now < expiresAt) (entries c) in
      c\<lparr>entries := if maxEntries c \<le> length kept then [] else kept\<rparr>)"

definition get_store ::
  "'k \<Rightarrow> millis \<Rightarrow> 64 word \<Rightarrow> 'v option \<Rightarrow> ('k, 'v) ttl_cache \<Rightarrow> ('k, 'v) ttl_cache" where
  "get_store key now seen loaded c =
     (if seen \<noteq> generation c then c
      else if loaded = None \<and> \<not> cacheMisses c then c
      else
        let c' = (if maxEntries c \<le> length (entries c) then evict now c else c) in
        c'\<lparr>entries := AList.update key (loaded, now + ttl c) (entries c')\<rparr>)"

definition cache_get :: "'k \<Rightarrow> millis \<Rightarrow> ('k \<Rightarrow> 'v option) \<Rightarrow> ('k, 'v) ttl_cache \<Rightarrow> 'v option \<times> ('k, 'v) ttl_cache" where
  "cache_get key now loader c =
     (case get_lookup key now c of
        Direct \<Rightarrow> (loader key, c)
      | Hit value \<Rightarrow> (value, c)
      | Miss seen \<Rightarrow> (loader key, get_store key now seen (loader key) c))"

definition cache_clear :: "('k, 'v) ttl_cache \<Rightarrow> ('k, 'v) ttl_cache" where
  "cache_clear c = c\<lparr>entries := [], generation := generation c + 1\<rparr>"

definition cache_erase :: "'k \<Rightarrow> ('k, 'v) ttl_cache \<Rightarrow> ('k, 'v) ttl_cache" where
  "cache_erase key c = c\<lparr>entries := AList.delete key (entries c), generation := generation c + 1\<rparr>"

lemmas cache_defs = get_lookup_def evict_def get_store_def cache_clear_def cache_erase_def Let_def

lemma evict_simps [simp]:
  "ttl (evict now c) = ttl c" "maxEntries (evict now c) = maxEntries c"
  "cacheMisses (evict now c) = cacheMisses c" "generation (evict now c) = generation c"
  by (simp_all add: evict_def Let_def)

lemma get_store_simps [simp]:
  "ttl (get_store k now g v c) = ttl c" "maxEntries (get_store k now g v c) = maxEntries c"
  "generation (get_store k now g v c) = generation c"
  by (simp_all add: get_store_def Let_def)

lemma set_evict: "set (entries (evict now c)) \<subseteq> set (entries c)"
  by (auto simp: evict_def Let_def)

lemma set_alist_update: "set (AList.update k v m) \<subseteq> insert (k, v) (set m)"
  by (induction m) auto

text \<open>What a store can leave in the cache: the value just loaded, or what was there.\<close>

lemma get_store_memD:
  "e \<in> set (entries (get_store k now g v c)) \<Longrightarrow>
   e \<in> set (entries c) \<or> (g = generation c \<and> e = (k, v, now + ttl c))"
  using set_evict [of now c] set_alist_update
  by (fastforce simp: get_store_def Let_def split: if_splits)

subsection \<open>Size\<close>

lemma length_update: "length (AList.update k v m) \<le> Suc (length m)"
  by (induction m) auto

lemma length_evict: "length (entries (evict now c)) < maxEntries c \<or> entries (evict now c) = []"
  by (simp add: evict_def Let_def)

lemma get_store_size:
  "length (entries c) \<le> max 1 (maxEntries c) \<Longrightarrow>
   length (entries (get_store k now g v c)) \<le> max 1 (maxEntries c)"
  using length_evict [of now c] length_update [of k "(v, now + ttl c)" "entries (evict now c)"]
    length_update [of k "(v, now + ttl c)" "entries c"]
  by (auto simp: get_store_def Let_def)

subsection \<open>Threads, rows and invalidation\<close>

text \<open>
  The system around the cache: the rows in the database, the loads under way (each with the time it began,
  the generation it saw and, once the loader has read the row, what it read), and the keys whose row has
  changed and has not been forgotten yet. \<open>invalidations\<close> counts the clears and erases, as the model's own
  record of what the wrapping generation counts.
\<close>

record ('k, 'v) load =
  load_key :: 'k
  began :: millis
  seen :: "64 word"
  born :: nat
  loaded :: "'v option option"

record ('k, 'v) cached_rows =
  cache :: "('k, 'v) ttl_cache"
  rows :: "'k \<Rightarrow> 'v option"
  changed :: "'k set"
  loads :: "('k, 'v) load list"
  invalidations :: nat

datatype ('k, 'v) cache_action =
    Begin 'k millis            \<comment> \<open>a thread enters \<^verbatim>\<open>get\<close>\<close>
  | Read nat                   \<comment> \<open>its loader reads the row\<close>
  | Finish nat                 \<comment> \<open>it stores and returns\<close>
  | Change 'k "'v option"      \<comment> \<open>a row is written\<close>
  | Erase 'k
  | Clear

definition remove_nth :: "nat \<Rightarrow> 'a list \<Rightarrow> 'a list" where
  "remove_nth i xs = take i xs @ drop (Suc i) xs"

fun cache_step :: "('k, 'v) cached_rows \<Rightarrow> ('k, 'v) cache_action \<Rightarrow> ('k, 'v) cached_rows" where
  "cache_step s (Begin k now) =
     (case get_lookup k now (cache s) of
        Miss g \<Rightarrow> s\<lparr>loads := loads s @ [\<lparr>load_key = k, began = now, seen = g, born = invalidations s, loaded = None\<rparr>]\<rparr>
      | _ \<Rightarrow> s)"
| "cache_step s (Read i) =
     (if i < length (loads s)
      then s\<lparr>loads := (loads s)[i := (loads s ! i)\<lparr>loaded := Some (rows s (load_key (loads s ! i)))\<rparr>]\<rparr>
      else s)"
| "cache_step s (Finish i) =
     (if i < length (loads s) then
        (case loaded (loads s ! i) of
           None \<Rightarrow> s
         | Some v \<Rightarrow>
             s\<lparr>cache := get_store (load_key (loads s ! i)) (began (loads s ! i)) (seen (loads s ! i)) v (cache s),
               loads := remove_nth i (loads s)\<rparr>)
      else s)"
| "cache_step s (Change k v) = s\<lparr>rows := (rows s)(k := v), changed := insert k (changed s)\<rparr>"
| "cache_step s (Erase k) =
     s\<lparr>cache := cache_erase k (cache s), changed := changed s - {k}, invalidations := Suc (invalidations s)\<rparr>"
| "cache_step s Clear =
     s\<lparr>cache := cache_clear (cache s), changed := {}, invalidations := Suc (invalidations s)\<rparr>"

definition cache_run :: "('k, 'v) cached_rows \<Rightarrow> ('k, 'v) cache_action list \<Rightarrow> ('k, 'v) cached_rows" where
  "cache_run = foldl cache_step"

definition cache_start :: "millis \<Rightarrow> nat \<Rightarrow> bool \<Rightarrow> ('k \<Rightarrow> 'v option) \<Rightarrow> ('k, 'v) cached_rows" where
  "cache_start t n m db =
     \<lparr>cache = new_cache t n m, rows = db, changed = {}, loads = [], invalidations = 0\<rparr>"

definition load_ok :: "('k, 'v) cached_rows \<Rightarrow> ('k, 'v) load \<Rightarrow> bool" where
  "load_ok s l \<longleftrightarrow>
     seen l = word_of_nat (born l) \<and> born l \<le> invalidations s \<and>
     (born l = invalidations s \<longrightarrow>
        (\<forall>v. loaded l = Some v \<longrightarrow> load_key l \<in> changed s \<or> v = rows s (load_key l)))"

definition coherent :: "('k, 'v) cached_rows \<Rightarrow> bool" where
  "coherent s \<longleftrightarrow>
     generation (cache s) = word_of_nat (invalidations s) \<and>
     list_all (load_ok s) (loads s) \<and>
     (\<forall>(k, value, expiresAt) \<in> set (entries (cache s)). k \<in> changed s \<or> value = rows s k)"

lemma set_remove_nth: "set (remove_nth i xs) \<subseteq> set xs"
  by (auto simp: remove_nth_def dest: in_set_takeD in_set_dropD)

lemma coherent_Begin: "coherent s \<Longrightarrow> coherent (cache_step s (Begin k now))"
  by (auto simp: coherent_def load_ok_def list_all_iff get_lookup_def
      split: cache_answer.split option.splits if_splits)

lemma coherent_Read: "coherent s \<Longrightarrow> coherent (cache_step s (Read i))"
  by (auto simp: coherent_def load_ok_def list_all_iff dest!: set_update_subset_insert [THEN subsetD])

lemma word_of_nat_eq64:
  "(word_of_nat a :: 64 word) = word_of_nat b \<Longrightarrow> a < 2 ^ 64 \<Longrightarrow> b < 2 ^ 64 \<Longrightarrow> a = b"
  by (simp add: word_of_nat_eq_iff take_bit_nat_eq_self)

lemma coherent_Finish:
  assumes c: "coherent s" and small: "invalidations s < 2 ^ 64"
  shows "coherent (cache_step s (Finish i))"
proof (cases "i < length (loads s) \<and> loaded (loads s ! i) \<noteq> None")
  case False
  with c show ?thesis by (auto split: option.split)
next
  case True
  define l where "l = loads s ! i"
  from True obtain v where i: "i < length (loads s)" and v: "loaded l = Some v" by (auto simp: l_def)
  from c i have ok: "load_ok s l" by (auto simp: coherent_def list_all_length l_def)
  let ?c = "get_store (load_key l) (began l) (seen l) v (cache s)"
  have "k \<in> changed s \<or> w = rows s k" if e: "(k, w, x) \<in> set (entries ?c)" for k w x
  proof -
    from get_store_memD [OF e] consider
      "(k, w, x) \<in> set (entries (cache s))" | "k = load_key l" "seen l = generation (cache s)" "w = v"
      by auto
    then show ?thesis
    proof cases
      case 1
      with c show ?thesis by (auto simp: coherent_def)
    next
      case 2
      with ok c small have "born l = invalidations s"
        by (intro word_of_nat_eq64) (auto simp: coherent_def load_ok_def)
      with 2 ok v show ?thesis by (auto simp: load_ok_def)
    qed
  qed
  moreover have "list_all (load_ok s) (remove_nth i (loads s))"
    using c set_remove_nth [of i "loads s"] by (auto simp: coherent_def list_all_iff)
  ultimately show ?thesis
    using c i v by (auto simp: coherent_def l_def [symmetric] load_ok_def list_all_iff)
qed

lemma coherent_Change: "coherent s \<Longrightarrow> coherent (cache_step s (Change k v))"
  by (auto simp: coherent_def load_ok_def list_all_iff)

lemma coherent_Erase: "coherent s \<Longrightarrow> coherent (cache_step s (Erase k))"
  by (auto simp: coherent_def load_ok_def list_all_iff cache_erase_def AList.delete_eq)

lemma coherent_Clear: "coherent s \<Longrightarrow> coherent (cache_step s Clear)"
  by (auto simp: coherent_def load_ok_def list_all_iff cache_clear_def)

lemmas coherent_steps = coherent_Begin coherent_Read coherent_Finish coherent_Change coherent_Erase
  coherent_Clear

lemma invalidations_step: "invalidations (cache_step s a) \<le> Suc (invalidations s)"
  by (cases a) (auto split: cache_answer.split option.split)

lemma coherent_step: "coherent s \<Longrightarrow> invalidations s < 2 ^ 64 \<Longrightarrow> coherent (cache_step s a)"
  by (cases a) (auto simp only: coherent_steps)

lemma coherent_run:
  "coherent s \<Longrightarrow> invalidations s + length as < 2 ^ 64 \<Longrightarrow> coherent (cache_run s as)"
proof (induction as arbitrary: s)
  case (Cons a as)
  have "coherent (cache_step s a)" using Cons.prems by (intro coherent_step) auto
  moreover have "invalidations (cache_step s a) + length as < 2 ^ 64"
    using Cons.prems invalidations_step [of s a] by simp
  ultimately show ?case using Cons.IH by (simp add: cache_run_def)
qed (simp add: cache_run_def)

lemma coherent_start: "coherent (cache_start t n m db)"
  by (simp add: coherent_def cache_start_def new_cache_def)

text \<open>(C38) Whatever the threads interleave - lookups, loads that started before a change and finish after
  it, changes, erases and clears - a hit on a key whose last change has been forgotten returns the row as
  it is now. This is what the generation is for: a value read before a change is never put back over the
  forgetting. It holds for fewer than two to the sixty-four steps, where the counter cannot have come
  round.\<close>

theorem cache_hit_is_current:
  assumes "length as < 2 ^ 64"
    and "s = cache_run (cache_start t n m db) as"
    and "k \<notin> changed s" and "get_lookup k now (cache s) = Hit v"
  shows "v = rows s k"
proof -
  have "coherent s"
    using assms(1,2) coherent_run [OF coherent_start] by (simp add: cache_start_def)
  with assms(3,4) show ?thesis
    by (fastforce simp: coherent_def get_lookup_def split: if_splits option.splits dest: map_of_SomeD)
qed

definition sample_cache_run :: "(nat, nat) cache_action list" where
  "sample_cache_run = [Begin 7 0, Read 0, Change 7 (Some 2), Erase 7, Finish 0, Begin 7 10, Read 0, Finish 0]"

theorem cache_hit_is_current_witness:
  "rows (cache_run (cache_start 1000 4 True (\<lambda>_. Some 1)) sample_cache_run) 7 = Some (2 :: nat)"
proof -
  let ?s = "cache_run (cache_start 1000 4 True (\<lambda>_. Some 1)) sample_cache_run"
  have "length sample_cache_run < 2 ^ 64" and "7 \<notin> changed ?s"
    and "get_lookup 7 20 (cache ?s) = Hit (Some 2)"
    by (simp_all add: sample_cache_run_def cache_run_def cache_start_def new_cache_def cache_defs
        remove_nth_def)
  from cache_hit_is_current [OF this(1) refl this(2,3)] show ?thesis by simp
qed

subsection \<open>Age and size of what is kept\<close>

definition traced :: "millis \<Rightarrow> nat \<Rightarrow> ('k, 'v) cache_action list \<Rightarrow> ('k, 'v) cached_rows \<Rightarrow> bool" where
  "traced t n as s \<longleftrightarrow>
     ttl (cache s) = t \<and> maxEntries (cache s) = n \<and> length (entries (cache s)) \<le> max 1 n \<and>
     (\<forall>l \<in> set (loads s). Begin (load_key l) (began l) \<in> set as) \<and>
     (\<forall>(k, value, expiresAt) \<in> set (entries (cache s)). \<exists>b. Begin k b \<in> set as \<and> expiresAt = b + t)"

lemma traced_Finish:
  assumes "traced t n as s" shows "traced t n (as @ [Finish i]) (cache_step s (Finish i))"
proof (cases "i < length (loads s) \<and> loaded (loads s ! i) \<noteq> None")
  case False
  with assms show ?thesis by (auto simp: traced_def split: option.split)
next
  case True
  define l where "l = loads s ! i"
  from True obtain v where i: "i < length (loads s)" and v: "loaded l = Some v" by (auto simp: l_def)
  with assms have b: "Begin (load_key l) (began l) \<in> set as" by (auto simp: traced_def l_def)
  let ?c = "get_store (load_key l) (began l) (seen l) v (cache s)"
  have "\<exists>b. Begin k b \<in> set as \<and> x = b + t" if "(k, w, x) \<in> set (entries ?c)" for k w x
    using get_store_memD [OF that] b assms by (auto simp: traced_def)
  moreover have "length (entries ?c) \<le> max 1 n"
    using assms get_store_size [of "cache s"] by (simp add: traced_def)
  moreover have "\<forall>l \<in> set (remove_nth i (loads s)). Begin (load_key l) (began l) \<in> set as"
    using assms set_remove_nth [of i "loads s"] by (auto simp: traced_def)
  ultimately show ?thesis
    using assms i v by (fastforce simp: traced_def l_def [symmetric])
qed

lemma traced_step: "traced t n as s \<Longrightarrow> traced t n (as @ [a]) (cache_step s a)"
proof (cases a)
  case (Finish i)
  assume "traced t n as s"
  then show ?thesis unfolding Finish by (rule traced_Finish)
qed (fastforce simp: traced_def cache_erase_def cache_clear_def AList.delete_eq
      intro: le_trans [OF length_filter_le] split: cache_answer.split
      dest!: set_update_subset_insert [THEN subsetD])+

lemma traced_run: "traced t n as (cache_run (cache_start t n m db) as)"
proof (induction as rule: rev_induct)
  case Nil
  show ?case by (simp add: traced_def cache_run_def cache_start_def new_cache_def)
next
  case (snoc a as)
  then show ?case using traced_step by (simp add: cache_run_def)
qed

text \<open>A cached answer is never older than the time to live: when a lookup of a key hits at a time, a
  lookup of that key began less than the time to live before it and loaded what is served.\<close>

theorem cache_hit_age:
  assumes "get_lookup k now (cache (cache_run (cache_start t n m db) as)) = Hit v"
  shows "\<exists>b. Begin k b \<in> set as \<and> now < b + t"
  using assms traced_run [of t n as m db]
  by (fastforce simp: traced_def get_lookup_def split: if_splits option.splits dest: map_of_SomeD)

theorem cache_hit_age_witness:
  "\<exists>b. Begin (7 :: nat) b \<in> set sample_cache_run \<and> 20 < b + 1000"
  by (rule cache_hit_age [of 7 20 1000 4 True "\<lambda>_. Some 1" sample_cache_run "Some 2"])
    (simp add: sample_cache_run_def cache_run_def cache_start_def new_cache_def cache_defs remove_nth_def)

text \<open>However many different keys are asked for, the cache holds at most the configured number of
  entries (one, if configured with none).\<close>

theorem cache_size_bounded:
  "length (entries (cache (cache_run (cache_start t n m db) as))) \<le> max 1 n"
  using traced_run [of t n as m db] by (simp add: traced_def)

end
