(* ===== verification/Eqs_Counters.thy ===== *)
theory Eqs_Counters
  imports Eqs_Priority Variants Change_Waiters Ttl_Cache
begin

text \<open>
  The queue service's data and the counters a queue reports: the entities \<^verbatim>\<open>Message\<close> and \<^verbatim>\<open>Queue\<close>
  (\<^verbatim>\<open>database/include/euclid/database/entity/eqs\<close>) and, of \<^verbatim>\<open>MongoEqsRepository.cpp\<close>, the adjustments that are held in
  memory and written out after an interval.

  The message and queue collections are lists of entities in document order; an entity stands for its document
  (\<^verbatim>\<open>ToDocument\<close> and \<^verbatim>\<open>FromDocument\<close>), and a filter on fields is the corresponding test on the entity. A method of the
  repository is one step of the process that calls it: what other processes do between its round trips is not
  interleaved, and a database that cannot be reached is not modelled. The pending adjustments and the cached queue
  configurations belong to the process; the order of an \<^verbatim>\<open>unordered_map\<close> is that of insertion.

  A queue is balanced when what it has stored plus what is pending for it is what its messages add up to.
\<close>

subsection \<open>Entities\<close>

datatype MessageStatus = AVAILABLE | DELAYED | INVISIBLE | UNKNOWN

datatype QueueStatus = QUEUE_AVAILABLE | QUEUE_STOPPED | QUEUE_UNKNOWN

record Message =
  msg_oid :: string
  msg_ern :: string
  queueErn :: string
  sourceQueueErn :: string
  body :: string
  status :: MessageStatus
  priority :: MessagePriority
  reset :: millis
  delayUntil :: millis
  expiresAt :: millis
  receivedCount :: int
  msg_size :: int
  visibilityTimeout :: int
  visibilityPinned :: bool
  lastReceived :: millis
  messageId :: string
  receiptHandle :: string
  attributes :: "(string \<times> variant) list"
  systemAttributes :: "(string \<times> variant) list"
  contentType :: string
  msg_created :: millis
  msg_modified :: millis

record Queue =
  region :: string
  accountId :: string
  nameSpace :: string
  owner :: string
  queue_oid :: string
  queue_name :: string
  queue_ern :: string
  tags :: "(string \<times> string) list"
  queue_size :: int
  delay :: int
  available :: int
  delayed :: int
  invisible :: int
  visibility :: int
  maxMessageLength :: int
  maxReceiveCount :: int
  retentionPeriod :: int
  deadLetterQueueErn :: string
  queue_priority :: MessagePriority
  internal :: bool
  queue_status :: QueueStatus
  queue_created :: millis
  queue_modified :: millis

record PendingCounters =
  pending_available :: int
  pending_invisible :: int
  pending_delayed :: int
  pending_size :: int
  since :: millis

record QueueConfig =
  config_visibility :: int
  config_delay :: int
  config_maxReceiveCount :: int
  config_retentionPeriod :: int
  config_deadLetterQueueErn :: string
  readAt :: millis

record eqs =
  messages :: "Message list"
  queues :: "Queue list"
  pendingCounters :: "(string \<times> PendingCounters) list"
  queueConfigs :: "(string \<times> QueueConfig) list"
  queueCache :: "(string, Queue) ttl_cache"
  receiveWaiters :: change_waiters

text \<open>What a call reads of the world: the two clocks, the generators of object ids and receipt handles, the
  installation's retention setting and weights, and the content type libmagic gives a body.\<close>

record eqs_env =
  system_now :: millis
  steady_now :: millis
  next_oid :: "nat \<Rightarrow> string"
  next_handle :: "nat \<Rightarrow> string"
  configured_retention :: int
  weights :: PriorityWeights
  fromContent :: "string \<Rightarrow> string"

definition kDefaultRetentionPeriod :: int where
  "kDefaultRetentionPeriod = 4 * 24 * 60 * 60"

definition defaultRetentionPeriod :: "eqs_env \<Rightarrow> int" where
  "defaultRetentionPeriod E =
     (if configured_retention E > 0 then configured_retention E else kDefaultRetentionPeriod)"

definition kCounterFlushInterval :: millis where
  "kCounterFlushInterval = 250"

definition kQueueConfigTtl :: millis where
  "kQueueConfigTtl = 30 * 1000"

text \<open>An association by key, written in place or at the end.\<close>

fun assoc_put :: "'k \<Rightarrow> 'v \<Rightarrow> ('k \<times> 'v) list \<Rightarrow> ('k \<times> 'v) list" where
  "assoc_put k v [] = [(k, v)]"
| "assoc_put k v ((k', v') # m) = (if k' = k then (k, v) # m else (k', v') # assoc_put k v m)"

text \<open>\<^verbatim>\<open>update_one\<close>: the first entity that matches.\<close>

fun update_first :: "('a \<Rightarrow> bool) \<Rightarrow> ('a \<Rightarrow> 'a) \<Rightarrow> 'a list \<Rightarrow> 'a list" where
  "update_first P f [] = []"
| "update_first P f (x # xs) = (if P x then f x # xs else x # update_first P f xs)"

subsection \<open>The cached configuration of a queue\<close>

definition configOf :: "Queue \<Rightarrow> millis \<Rightarrow> QueueConfig" where
  "configOf queue when =
     \<lparr>config_visibility = visibility queue, config_delay = delay queue,
      config_maxReceiveCount = maxReceiveCount queue, config_retentionPeriod = retentionPeriod queue,
      config_deadLetterQueueErn = deadLetterQueueErn queue, readAt = when\<rparr>"

definition queueConfig :: "eqs_env \<Rightarrow> string \<Rightarrow> eqs \<Rightarrow> QueueConfig option \<times> eqs" where
  "queueConfig E ern s =
     (case map_of (queueConfigs s) ern of
        Some config \<Rightarrow>
          if steady_now E - readAt config < kQueueConfigTtl then (Some config, s)
          else (case find (\<lambda>q. queue_ern q = ern) (queues s) of
                  None \<Rightarrow> (None, s)
                | Some queue \<Rightarrow>
                    (let config = configOf queue (steady_now E) in
                     (Some config, s\<lparr>queueConfigs := assoc_put ern config (queueConfigs s)\<rparr>)))
      | None \<Rightarrow>
          (case find (\<lambda>q. queue_ern q = ern) (queues s) of
             None \<Rightarrow> (None, s)
           | Some queue \<Rightarrow>
               (let config = configOf queue (steady_now E) in
                (Some config, s\<lparr>queueConfigs := assoc_put ern config (queueConfigs s)\<rparr>))))"

definition forgetQueueConfig :: "string \<Rightarrow> eqs \<Rightarrow> eqs" where
  "forgetQueueConfig ern s =
     s\<lparr>queueConfigs := filter (\<lambda>e. fst e \<noteq> ern) (queueConfigs s), queueCache := cache_erase ern (queueCache s)\<rparr>"

subsection \<open>Counters\<close>

definition clamp :: "int \<Rightarrow> int \<Rightarrow> int" where
  "clamp delta value = (if delta \<ge> 0 then value else if value < 0 then 0 else value)"

text \<open>The increment, then the clamp of each counter that was subtracted from.\<close>

definition addPending :: "eqs_env \<Rightarrow> PendingCounters \<Rightarrow> Queue \<Rightarrow> Queue" where
  "addPending E pending q =
     q\<lparr>available := clamp (pending_available pending) (available q + pending_available pending),
       invisible := clamp (pending_invisible pending) (invisible q + pending_invisible pending),
       delayed := clamp (pending_delayed pending) (delayed q + pending_delayed pending),
       queue_size := clamp (pending_size pending) (queue_size q + pending_size pending),
       queue_modified := system_now E\<rparr>"

definition writeCounters :: "eqs_env \<Rightarrow> string \<Rightarrow> PendingCounters \<Rightarrow> Queue list \<Rightarrow> Queue list" where
  "writeCounters E ern pending qs = update_first (\<lambda>q. queue_ern q = ern) (addPending E pending) qs"

definition is_due :: "eqs_env \<Rightarrow> bool \<Rightarrow> string \<times> PendingCounters \<Rightarrow> bool" where
  "is_due E force entry \<longleftrightarrow> force \<or> steady_now E - since (snd entry) \<ge> kCounterFlushInterval"

definition flushPendingCounters :: "eqs_env \<Rightarrow> bool \<Rightarrow> eqs \<Rightarrow> eqs" where
  "flushPendingCounters E force s =
     (let due = filter (is_due E force) (pendingCounters s) in
      s\<lparr>pendingCounters := filter (\<lambda>e. \<not> is_due E force e) (pendingCounters s),
        queues := fold (\<lambda>(ern, pending). writeCounters E ern pending) due (queues s)\<rparr>)"

definition flushQueueCounters :: "eqs_env \<Rightarrow> eqs \<Rightarrow> eqs" where
  "flushQueueCounters E s = flushPendingCounters E True s"

definition addDeltas :: "eqs_env \<Rightarrow> int \<Rightarrow> int \<Rightarrow> int \<Rightarrow> int \<Rightarrow> PendingCounters option \<Rightarrow> PendingCounters" where
  "addDeltas E availableDelta invisibleDelta delayedDelta sizeDelta held =
     (let p = (case held of
                 Some p \<Rightarrow> p
               | None \<Rightarrow> \<lparr>pending_available = 0, pending_invisible = 0, pending_delayed = 0, pending_size = 0, since = 0\<rparr>);
          start = (if pending_available p = 0 \<and> pending_invisible p = 0 \<and> pending_delayed p = 0 \<and> pending_size p = 0
                   then steady_now E else since p) in
      \<lparr>pending_available = pending_available p + availableDelta,
       pending_invisible = pending_invisible p + invisibleDelta,
       pending_delayed = pending_delayed p + delayedDelta,
       pending_size = pending_size p + sizeDelta, since = start\<rparr>)"

definition adjustQueueCounters :: "eqs_env \<Rightarrow> string \<Rightarrow> int \<Rightarrow> int \<Rightarrow> int \<Rightarrow> int \<Rightarrow> eqs \<Rightarrow> eqs" where
  "adjustQueueCounters E ern availableDelta invisibleDelta delayedDelta sizeDelta s =
     (if availableDelta = 0 \<and> invisibleDelta = 0 \<and> delayedDelta = 0 \<and> sizeDelta = 0 then s
      else flushPendingCounters E False
        (s\<lparr>pendingCounters := assoc_put ern
             (addDeltas E availableDelta invisibleDelta delayedDelta sizeDelta (map_of (pendingCounters s) ern))
             (pendingCounters s)\<rparr>))"

definition adjustForDeleted :: "eqs_env \<Rightarrow> Message \<Rightarrow> eqs \<Rightarrow> eqs" where
  "adjustForDeleted E message s =
     (case status message of
        INVISIBLE \<Rightarrow> adjustQueueCounters E (queueErn message) 0 (-1) 0 (- msg_size message) s
      | DELAYED \<Rightarrow> adjustQueueCounters E (queueErn message) 0 0 (-1) (- msg_size message) s
      | _ \<Rightarrow> adjustQueueCounters E (queueErn message) (-1) 0 0 (- msg_size message) s)"

text \<open>\<^verbatim>\<open>group_count\<close> over queue and status: the count and the bytes of each group that has a message.\<close>

type_synonym message_group = "(string \<times> MessageStatus) \<times> int \<times> int"

definition groupMessage :: "Message \<Rightarrow> message_group list \<Rightarrow> message_group list" where
  "groupMessage m groups =
     (let key = (queueErn m, status m);
          (num, bytes) = (case map_of groups key of None \<Rightarrow> (0, 0) | Some g \<Rightarrow> g) in
      assoc_put key (num + 1, bytes + msg_size m) groups)"

definition group_messages :: "Message list \<Rightarrow> message_group list" where
  "group_messages msgs = fold groupMessage msgs []"

record Counts =
  counts_available :: int
  counts_delayed :: int
  counts_invisible :: int
  counts_size :: int

definition no_counts :: Counts where
  "no_counts = \<lparr>counts_available = 0, counts_delayed = 0, counts_invisible = 0, counts_size = 0\<rparr>"

definition addGroup :: "message_group \<Rightarrow> Counts \<Rightarrow> Counts" where
  "addGroup g counts =
     (case g of ((_, st), num, bytes) \<Rightarrow>
        let counts = counts\<lparr>counts_size := counts_size counts + bytes\<rparr> in
        (case st of
           AVAILABLE \<Rightarrow> counts\<lparr>counts_available := counts_available counts + num\<rparr>
         | DELAYED \<Rightarrow> counts\<lparr>counts_delayed := counts_delayed counts + num\<rparr>
         | INVISIBLE \<Rightarrow> counts\<lparr>counts_invisible := counts_invisible counts + num\<rparr>
         | UNKNOWN \<Rightarrow> counts))"

definition countedOf :: "message_group list \<Rightarrow> string \<Rightarrow> Counts" where
  "countedOf groups ern = fold (\<lambda>g counts. if fst (fst g) = ern then addGroup g counts else counts) groups no_counts"

definition setCounts :: "Counts \<Rightarrow> Queue \<Rightarrow> Queue" where
  "setCounts counts q =
     q\<lparr>available := counts_available counts, delayed := counts_delayed counts, invisible := counts_invisible counts,
       queue_size := counts_size counts\<rparr>"

definition recountQueues :: "eqs \<Rightarrow> eqs" where
  "recountQueues s =
     (let groups = group_messages (messages s) in
      s\<lparr>queues := fold (\<lambda>ern. update_first (\<lambda>q. queue_ern q = ern) (setCounts (countedOf groups ern)))
                    (map queue_ern (queues s)) (queues s)\<rparr>)"

subsection \<open>Balance\<close>

datatype counter = CAvailable | CInvisible | CDelayed | CSize

fun stored :: "counter \<Rightarrow> Queue \<Rightarrow> int" where
  "stored CAvailable q = available q"
| "stored CInvisible q = invisible q"
| "stored CDelayed q = delayed q"
| "stored CSize q = queue_size q"

fun pending_of :: "counter \<Rightarrow> PendingCounters \<Rightarrow> int" where
  "pending_of CAvailable p = pending_available p"
| "pending_of CInvisible p = pending_invisible p"
| "pending_of CDelayed p = pending_delayed p"
| "pending_of CSize p = pending_size p"

fun weight :: "counter \<Rightarrow> Message \<Rightarrow> int" where
  "weight CAvailable m = of_bool (status m = AVAILABLE)"
| "weight CInvisible m = of_bool (status m = INVISIBLE)"
| "weight CDelayed m = of_bool (status m = DELAYED)"
| "weight CSize m = msg_size m"

definition weight_in :: "counter \<Rightarrow> string \<Rightarrow> Message \<Rightarrow> int" where
  "weight_in c e m = (if queueErn m = e then weight c m else 0)"

definition tally :: "counter \<Rightarrow> string \<Rightarrow> Message list \<Rightarrow> int" where
  "tally c e msgs = sum_list (map (weight_in c e) msgs)"

definition pend :: "counter \<Rightarrow> string \<Rightarrow> eqs \<Rightarrow> int" where
  "pend c e s = (case map_of (pendingCounters s) e of None \<Rightarrow> 0 | Some p \<Rightarrow> pending_of c p)"

text \<open>The unique indexes of the two collections, and messages with a size and a status.\<close>

definition queue_key :: "Queue \<Rightarrow> string \<times> string \<times> string" where
  "queue_key q = (accountId q, nameSpace q, queue_name q)"

definition good_messages :: "Message list \<Rightarrow> bool" where
  "good_messages ms \<longleftrightarrow> distinct (map msg_oid ms) \<and> distinct (map messageId ms) \<and>
     (\<forall>m \<in> set ms. 0 \<le> msg_size m \<and> status m \<noteq> UNKNOWN)"

definition good_queues :: "Queue list \<Rightarrow> bool" where
  "good_queues qs \<longleftrightarrow> distinct (map queue_ern qs) \<and> distinct (map queue_key qs)"

definition well_formed :: "eqs \<Rightarrow> bool" where
  "well_formed s \<longleftrightarrow> good_queues (queues s) \<and> distinct (map fst (pendingCounters s)) \<and> good_messages (messages s)"

text \<open>A state owes \<open>d\<close> when every queue's counters, stored and pending, are short of its messages by \<open>d\<close>, and would
  not be negative without it.\<close>

definition owes :: "(counter \<Rightarrow> string \<Rightarrow> int) \<Rightarrow> eqs \<Rightarrow> bool" where
  "owes d s \<longleftrightarrow> well_formed s \<and>
     (\<forall>q \<in> set (queues s). \<forall>c. stored c q + pend c (queue_ern q) s + d c (queue_ern q) = tally c (queue_ern q) (messages s)
        \<and> d c (queue_ern q) \<le> tally c (queue_ern q) (messages s))"

definition balanced :: "eqs \<Rightarrow> bool" where
  "balanced s \<longleftrightarrow> well_formed s \<and>
     (\<forall>q \<in> set (queues s). \<forall>c. stored c q + pend c (queue_ern q) s = tally c (queue_ern q) (messages s))"

lemma tally_Nil [simp]: "tally c e [] = 0"
  and tally_Cons [simp]: "tally c e (m # ms) = weight_in c e m + tally c e ms"
  and tally_append [simp]: "tally c e (ms @ ns) = tally c e ms + tally c e ns"
  by (simp_all add: tally_def)

lemma tally_counts:
  "tally CAvailable e ms = count_if (\<lambda>m. queueErn m = e \<and> status m = AVAILABLE) ms"
  "tally CDelayed e ms = count_if (\<lambda>m. queueErn m = e \<and> status m = DELAYED) ms"
  "tally CInvisible e ms = count_if (\<lambda>m. queueErn m = e \<and> status m = INVISIBLE) ms"
  "tally CSize e ms = sum_list (map msg_size (filter (\<lambda>m. queueErn m = e) ms))"
  by (induction ms) (auto simp: weight_in_def)

lemma tally_nonneg: "good_messages ms \<Longrightarrow> 0 \<le> tally c e ms"
  by (induction ms; cases c) (auto simp: weight_in_def good_messages_def)

lemma map_of_assoc_put [simp]: "map_of (assoc_put k v m) = (map_of m)(k \<mapsto> v)"
  by (induction k v m rule: assoc_put.induct) auto

lemma keys_assoc_put: "fst ` set (assoc_put k v m) = insert k (fst ` set m)"
  by (induction k v m rule: assoc_put.induct) auto

lemma distinct_assoc_put: "distinct (map fst m) \<Longrightarrow> distinct (map fst (assoc_put k v m))"
  by (induction k v m rule: assoc_put.induct) (auto simp: keys_assoc_put)

lemma update_first_unique:
  "distinct (map key xs) \<Longrightarrow>
   update_first (\<lambda>x. key x = k) f xs = map (\<lambda>x. if key x = k then f x else x) xs"
  by (induction xs) (auto simp: image_iff intro!: map_idI [symmetric])

lemma addPending_ern [simp]: "queue_ern (addPending E p q) = queue_ern q" "queue_key (addPending E p q) = queue_key q"
  by (simp_all add: addPending_def queue_key_def)

lemma stored_addPending: "stored c (addPending E p q) = clamp (pending_of c p) (stored c q + pending_of c p)"
  by (cases c) (simp_all add: addPending_def)

text \<open>A flush writes each due adjustment to its queue.\<close>

definition apply_due :: "eqs_env \<Rightarrow> (string \<times> PendingCounters) list \<Rightarrow> Queue \<Rightarrow> Queue" where
  "apply_due E due q = (case map_of due (queue_ern q) of None \<Rightarrow> q | Some p \<Rightarrow> addPending E p q)"

lemma apply_due_ern [simp]: "queue_ern (apply_due E due q) = queue_ern q" "queue_key (apply_due E due q) = queue_key q"
  by (simp_all add: apply_due_def split: option.split)

lemma fold_writeCounters:
  "distinct (map queue_ern qs) \<Longrightarrow> distinct (map fst due) \<Longrightarrow>
   fold (\<lambda>(ern, pending). writeCounters E ern pending) due qs = map (apply_due E due) qs"
proof (induction due arbitrary: qs)
  case Nil
  show ?case by (simp add: apply_due_def)
next
  case (Cons d due)
  obtain e p where d: "d = (e, p)" by fastforce
  let ?qs = "map (\<lambda>q. if queue_ern q = e then addPending E p q else q) qs"
  have w: "writeCounters E e p qs = ?qs" using Cons.prems(1) by (simp add: writeCounters_def update_first_unique)
  have erns: "map queue_ern ?qs = map queue_ern qs" by simp
  have "fold (\<lambda>(ern, pending). writeCounters E ern pending) due ?qs = map (apply_due E due) ?qs"
    using Cons.IH [of ?qs] Cons.prems unfolding erns by simp
  moreover have "map_of due e = None" using Cons.prems(2) d by (simp add: map_of_eq_None_iff)
  ultimately show ?case by (auto simp: d w apply_due_def)
qed

lemma map_of_filter_due:
  "distinct (map fst ps) \<Longrightarrow>
   map_of (filter P ps) e = (case map_of ps e of None \<Rightarrow> None | Some p \<Rightarrow> if P (e, p) then Some p else None)"
  by (induction ps) (auto split: option.splits simp: map_of_eq_None_iff image_iff)

lemma flush_simps:
  assumes wf: "well_formed s"
  shows "queues (flushPendingCounters E force s) = map (apply_due E (filter (is_due E force) (pendingCounters s))) (queues s)"
    and "pendingCounters (flushPendingCounters E force s) = filter (\<lambda>e. \<not> is_due E force e) (pendingCounters s)"
    and "messages (flushPendingCounters E force s) = messages s"
  using wf by (simp_all add: flushPendingCounters_def Let_def fold_writeCounters well_formed_def good_queues_def
      distinct_map_filter)

lemma pend_flush:
  assumes "well_formed s"
  shows "pend c e (flushPendingCounters E force s) =
    (case map_of (pendingCounters s) e of None \<Rightarrow> 0 | Some p \<Rightarrow> if is_due E force (e, p) then 0 else pending_of c p)"
  using assms by (auto simp: pend_def flush_simps map_of_filter_due well_formed_def split: option.split)

lemma flush_owes: "owes d s \<Longrightarrow> owes d (flushPendingCounters E force s)"
proof -
  assume b: "owes d s"
  have wf: "well_formed s" using b by (simp add: owes_def)
  let ?t = "flushPendingCounters E force s"
  have "well_formed ?t" using wf by (simp add: well_formed_def good_queues_def flush_simps distinct_map_filter comp_def)
  moreover have "stored c q' + pend c (queue_ern q') ?t + d c (queue_ern q') = tally c (queue_ern q') (messages ?t)
      \<and> d c (queue_ern q') \<le> tally c (queue_ern q') (messages ?t)"
    if mem: "q' \<in> set (queues ?t)" for q' c
  proof -
    obtain q where q: "q \<in> set (queues s)" "q' = apply_due E (filter (is_due E force) (pendingCounters s)) q"
      using mem wf by (auto simp: flush_simps)
    have bal: "stored c q + pend c (queue_ern q) s + d c (queue_ern q) = tally c (queue_ern q) (messages s)"
      "d c (queue_ern q) \<le> tally c (queue_ern q) (messages s)"
      using b q(1) by (simp_all add: owes_def)
    have dist: "distinct (map fst (pendingCounters s))" using wf by (simp add: well_formed_def)
    show ?thesis
      using bal q(2) unfolding pend_flush [OF wf]
      by (auto simp: apply_due_def pend_def flush_simps [OF wf] map_of_filter_due [OF dist] stored_addPending clamp_def
          split: option.splits if_splits)
  qed
  ultimately show ?thesis by (simp add: owes_def)
qed

lemma balanced_owes: "balanced s \<longleftrightarrow> owes (\<lambda>_ _. 0) s"
  by (auto simp: balanced_def owes_def well_formed_def intro: tally_nonneg)

definition deltas :: "int \<Rightarrow> int \<Rightarrow> int \<Rightarrow> int \<Rightarrow> counter \<Rightarrow> int" where
  "deltas a i dl sz c = (case c of CAvailable \<Rightarrow> a | CInvisible \<Rightarrow> i | CDelayed \<Rightarrow> dl | CSize \<Rightarrow> sz)"

lemma pending_of_addDeltas:
  "pending_of c (addDeltas E a i dl sz held) =
     (case held of None \<Rightarrow> 0 | Some p \<Rightarrow> pending_of c p) + deltas a i dl sz c"
  by (cases c; cases held) (simp_all add: addDeltas_def deltas_def Let_def)

lemma adjust_owes:
  assumes o: "owes d s" and le: "\<And>c. d c ern - deltas a i dl sz c \<le> tally c ern (messages s)"
  shows "owes (\<lambda>c e. d c e - (if e = ern then deltas a i dl sz c else 0)) (adjustQueueCounters E ern a i dl sz s)"
proof (cases "a = 0 \<and> i = 0 \<and> dl = 0 \<and> sz = 0")
  case True
  then have "deltas a i dl sz c = 0" for c by (cases c) (simp_all add: deltas_def)
  then have "(\<lambda>c e. d c e - (if e = ern then deltas a i dl sz c else 0)) = d" by (intro ext) simp
  with True o show ?thesis by (simp add: adjustQueueCounters_def)
next
  case False
  let ?t = "s\<lparr>pendingCounters := assoc_put ern (addDeltas E a i dl sz (map_of (pendingCounters s) ern)) (pendingCounters s)\<rparr>"
  have p: "pend c e ?t = pend c e s + (if e = ern then deltas a i dl sz c else 0)" for c e
    by (auto simp: pend_def pending_of_addDeltas)
  have "owes (\<lambda>c e. d c e - (if e = ern then deltas a i dl sz c else 0)) ?t"
    using o le unfolding owes_def p by (auto simp: well_formed_def distinct_assoc_put algebra_simps)
  then show ?thesis unfolding adjustQueueCounters_def if_not_P [OF False] by (rule flush_owes)
qed

lemma adjust_owes_less:
  assumes o: "owes d s" and eq: "\<And>c e. d' c e = d c e - (if e = ern then deltas a i dl sz c else 0)"
    and le: "\<And>c. d' c ern \<le> tally c ern (messages s)"
  shows "owes d' (adjustQueueCounters E ern a i dl sz s)"
proof -
  have "d' = (\<lambda>c e. d c e - (if e = ern then deltas a i dl sz c else 0))" by (intro ext) (rule eq)
  moreover have "d c ern - deltas a i dl sz c \<le> tally c ern (messages s)" for c using le [of c] eq [of c ern] by simp
  ultimately show ?thesis using adjust_owes [OF o] by simp
qed

lemma adjust_settles:
  assumes "owes (\<lambda>c e. if e = ern then deltas a i dl sz c else 0) s"
  shows "balanced (adjustQueueCounters E ern a i dl sz s)"
proof -
  have "0 \<le> tally c ern (messages s)" for c
    using assms by (intro tally_nonneg) (simp add: owes_def well_formed_def)
  then show ?thesis unfolding balanced_owes
    by (intro adjust_owes_less [OF assms]) auto
qed

lemma adjust_keeps [simp]:
  "messages (adjustQueueCounters E ern a i dl sz s) = messages s"
  "queueConfigs (adjustQueueCounters E ern a i dl sz s) = queueConfigs s"
  "receiveWaiters (adjustQueueCounters E ern a i dl sz s) = receiveWaiters s"
  by (simp_all add: adjustQueueCounters_def flushPendingCounters_def Let_def)

text \<open>Changing the messages leaves the counters owing the difference.\<close>

lemma messages_owe:
  assumes b: "balanced s" and ok: "good_messages ms"
  shows "owes (\<lambda>c e. tally c e ms - tally c e (messages s)) (s\<lparr>messages := ms\<rparr>)"
proof -
  have "0 \<le> tally c e (messages s)" for c e
    using b by (intro tally_nonneg) (simp add: balanced_def well_formed_def)
  then show ?thesis using b ok by (auto simp: owes_def balanced_def well_formed_def pend_def)
qed

lemma owes_update [simp]:
  "owes d (s\<lparr>receiveWaiters := w\<rparr>) = owes d s"
  "owes d (s\<lparr>queueConfigs := cs\<rparr>) = owes d s"
  "owes d (s\<lparr>queueCache := k\<rparr>) = owes d s"
  by (simp_all add: owes_def well_formed_def pend_def)

lemma balanced_update [simp]:
  "balanced (s\<lparr>receiveWaiters := w\<rparr>) = balanced s"
  "balanced (s\<lparr>queueConfigs := cs\<rparr>) = balanced s"
  "balanced (s\<lparr>queueCache := k\<rparr>) = balanced s"
  by (simp_all add: balanced_owes)

subsection \<open>The recount\<close>

fun group_weight :: "counter \<Rightarrow> message_group \<Rightarrow> int" where
  "group_weight CAvailable ((_, st), n, b) = (if st = AVAILABLE then n else 0)"
| "group_weight CInvisible ((_, st), n, b) = (if st = INVISIBLE then n else 0)"
| "group_weight CDelayed ((_, st), n, b) = (if st = DELAYED then n else 0)"
| "group_weight CSize ((_, st), n, b) = b"

definition group_weight_in :: "counter \<Rightarrow> string \<Rightarrow> message_group \<Rightarrow> int" where
  "group_weight_in c e g = (if fst (fst g) = e then group_weight c g else 0)"

lemma sum_assoc_put:
  "sum_list (map f (assoc_put k v m)) =
   sum_list (map f m) - (case map_of m k of None \<Rightarrow> 0 | Some v' \<Rightarrow> f (k, v')) + (f (k, v) :: int)"
  by (induction k v m rule: assoc_put.induct) auto

lemma sum_groupMessage:
  "sum_list (map (group_weight_in c e) (groupMessage m gs)) = sum_list (map (group_weight_in c e) gs) + weight_in c e m"
  by (cases c; cases "map_of gs (queueErn m, status m)")
    (auto simp: groupMessage_def sum_assoc_put group_weight_in_def weight_in_def split: prod.splits)

lemma sum_group_messages: "sum_list (map (group_weight_in c e) (group_messages ms)) = tally c e ms"
proof -
  have "sum_list (map (group_weight_in c e) (fold groupMessage ms gs)) = sum_list (map (group_weight_in c e) gs) + tally c e ms"
    for gs by (induction ms arbitrary: gs) (simp_all add: sum_groupMessage)
  then show ?thesis by (simp add: group_messages_def)
qed

lemma stored_addGroup: "stored c (setCounts (addGroup g k) q) = stored c (setCounts k q) + group_weight c g"
  by (cases c; cases "snd (fst g)") (auto simp: addGroup_def setCounts_def Let_def split: prod.splits)

lemma stored_countedOf: "stored c (setCounts (countedOf gs e) q) = sum_list (map (group_weight_in c e) gs)"
proof -
  have "stored c (setCounts (fold (\<lambda>g counts. if fst (fst g) = e then addGroup g counts else counts) gs k) q) =
      stored c (setCounts k q) + sum_list (map (group_weight_in c e) gs)" for k
    by (induction gs arbitrary: k) (auto simp: stored_addGroup group_weight_in_def)
  moreover have "stored c (setCounts no_counts q) = 0" by (cases c) (simp_all add: setCounts_def no_counts_def)
  ultimately show ?thesis by (simp add: countedOf_def)
qed

lemma setCounts_ern [simp]: "queue_ern (setCounts k q) = queue_ern q"
  by (simp add: setCounts_def)

lemma fold_update_first:
  assumes "\<And>k x. key (f k x) = key x" and "distinct (map key xs)" and "distinct ks"
  shows "fold (\<lambda>k. update_first (\<lambda>x. key x = k) (f k)) ks xs =
    map (\<lambda>x. if key x \<in> set ks then f (key x) x else x) xs"
  using assms(2,3)
proof (induction ks arbitrary: xs)
  case (Cons k ks)
  let ?xs = "map (\<lambda>x. if key x = k then f k x else x) xs"
  have keys: "map key ?xs = map key xs" by (auto simp: assms(1))
  have "fold (\<lambda>k. update_first (\<lambda>x. key x = k) (f k)) ks ?xs = map (\<lambda>x. if key x \<in> set ks then f (key x) x else x) ?xs"
    using Cons.prems by (intro Cons.IH) (simp_all only: keys distinct.simps)
  then show ?case using Cons.prems by (auto simp: update_first_unique assms(1))
qed simp

lemma recountQueues_queues:
  "distinct (map queue_ern (queues s)) \<Longrightarrow>
   queues (recountQueues s) = map (\<lambda>q. setCounts (countedOf (group_messages (messages s)) (queue_ern q)) q) (queues s)"
  by (auto simp: recountQueues_def Let_def
      fold_update_first [of queue_ern "\<lambda>e. setCounts (countedOf (group_messages (messages s)) e)"])

text \<open>Whatever a queue had stored, after a recount its four counters are what its messages add up to; a queue
  without messages is at zero.\<close>

theorem recount_exact:
  assumes "distinct (map queue_ern (queues s))" and "q \<in> set (queues (recountQueues s))"
  shows "available q = count_if (\<lambda>m. queueErn m = queue_ern q \<and> status m = AVAILABLE) (messages s) \<and>
         delayed q = count_if (\<lambda>m. queueErn m = queue_ern q \<and> status m = DELAYED) (messages s) \<and>
         invisible q = count_if (\<lambda>m. queueErn m = queue_ern q \<and> status m = INVISIBLE) (messages s) \<and>
         queue_size q = sum_list (map msg_size (filter (\<lambda>m. queueErn m = queue_ern q) (messages s)))"
proof -
  have st: "stored c q = tally c (queue_ern q) (messages s)" for c
    using assms by (auto simp: recountQueues_queues stored_countedOf sum_group_messages)
  show ?thesis
    using st [of CAvailable] st [of CDelayed] st [of CInvisible] st [of CSize] by (simp add: tally_counts)
qed

subsection \<open>Samples\<close>

definition sample_eqs_env :: "millis \<Rightarrow> eqs_env" where
  "sample_eqs_env t = \<lparr>system_now = t, steady_now = t, next_oid = (\<lambda>n. replicate (Suc n) CHR ''o''),
     next_handle = (\<lambda>n. replicate (Suc n) CHR ''h''), configured_retention = 0, weights = default_weights,
     fromContent = (\<lambda>_. ''text/plain'')\<rparr>"

definition sample_queue :: "string \<Rightarrow> Queue" where
  "sample_queue ern = \<lparr>region = ''eu'', accountId = ''1'', nameSpace = ''dev'', owner = ''me'', queue_oid = '''',
     queue_name = ern, queue_ern = ern, tags = [], queue_size = 0, delay = 0, available = 0, delayed = 0, invisible = 0,
     visibility = 30, maxMessageLength = 1000, maxReceiveCount = 3, retentionPeriod = 0, deadLetterQueueErn = '''',
     queue_priority = MEDIUM, internal = False, queue_status = QUEUE_AVAILABLE, queue_created = 0, queue_modified = 0\<rparr>"

definition sample_message :: "string \<Rightarrow> string \<Rightarrow> MessageStatus \<Rightarrow> Message" where
  "sample_message oid ern st = \<lparr>msg_oid = oid, msg_ern = oid, queueErn = ern, sourceQueueErn = '''', body = ''hello'',
     status = st, priority = MEDIUM, reset = 0, delayUntil = 0, expiresAt = 0, receivedCount = 0, msg_size = 5,
     visibilityTimeout = 30, visibilityPinned = False, lastReceived = 0, messageId = oid, receiptHandle = '''',
     attributes = [], systemAttributes = [], contentType = ''text/plain'', msg_created = 0, msg_modified = 0\<rparr>"

definition sample_eqs :: "Message list \<Rightarrow> Queue list \<Rightarrow> eqs" where
  "sample_eqs ms qs = \<lparr>messages = ms, queues = qs, pendingCounters = [], queueConfigs = [],
     queueCache = new_cache 5000 4096 False, receiveWaiters = no_waiters\<rparr>"

lemmas eqs_samples = sample_eqs_env_def sample_queue_def sample_message_def sample_eqs_def

theorem recount_exact_witness:
  "available (hd (queues (recountQueues (sample_eqs [sample_message ''a'' ''q'' AVAILABLE, sample_message ''b'' ''q'' DELAYED]
     [(sample_queue ''q'')\<lparr>available := 7\<rparr>])))) = 1"
proof -
  define s where "s = sample_eqs [sample_message ''a'' ''q'' AVAILABLE, sample_message ''b'' ''q'' DELAYED]
     [(sample_queue ''q'')\<lparr>available := 7\<rparr>]"
  have d: "distinct (map queue_ern (queues s))" by (simp add: s_def eqs_samples)
  have q: "hd (queues (recountQueues s)) \<in> set (queues (recountQueues s))" "queue_ern (hd (queues (recountQueues s))) = ''q''"
    by (simp_all add: recountQueues_queues [OF d]) (simp_all add: s_def eqs_samples)
  show ?thesis unfolding s_def [symmetric] using recount_exact [OF d q(1)] unfolding q(2)
    by (simp add: s_def eqs_samples)
qed

end
