(* ===== verification/Eqs_Queue.thy ===== *)
theory Eqs_Queue
  imports Eqs_Counters
begin

text \<open>
  The operations of \<^verbatim>\<open>MongoEqsRepository.cpp\<close> on queues and messages, receiving apart: queues are stored, found and
  deleted, messages sent, edited, deleted, purged, redriven from a dead letter queue, and made visible again when
  their lease or their delay is over. Every operation that changes messages also adjusts the counters of their
  queue; the balance of the counters is kept by every one of them, under the conditions stated with it.

  A write that a unique index refuses is the only failure of the database in the model.
\<close>

subsection \<open>Queues\<close>

definition findQueueByErn :: "string \<Rightarrow> eqs \<Rightarrow> Queue option" where
  "findQueueByErn ern s = find (\<lambda>q. queue_ern q = ern) (queues s)"

definition findQueueByErnCached :: "eqs_env \<Rightarrow> string \<Rightarrow> eqs \<Rightarrow> Queue option \<times> eqs" where
  "findQueueByErnCached E ern s =
     (case cache_get ern (steady_now E) (\<lambda>key. findQueueByErn key s) (queueCache s) of
        (queue, c) \<Rightarrow> (queue, s\<lparr>queueCache := c\<rparr>))"

definition named :: "string \<Rightarrow> string \<Rightarrow> string \<Rightarrow> Queue \<Rightarrow> bool" where
  "named account ns name q \<longleftrightarrow> accountId q = account \<and> nameSpace q = ns \<and> queue_name q = name"

definition findQueueByName :: "string \<Rightarrow> string \<Rightarrow> string \<Rightarrow> eqs \<Rightarrow> Queue option" where
  "findQueueByName account ns name s = find (named account ns name) (queues s)"

definition queueExists :: "string \<Rightarrow> string \<Rightarrow> string \<Rightarrow> eqs \<Rightarrow> bool" where
  "queueExists account ns name s \<longleftrightarrow> find (named account ns name) (queues s) \<noteq> None"

definition listSourceQueues :: "string \<Rightarrow> eqs \<Rightarrow> Queue list" where
  "listSourceQueues dlq s = (if dlq = '''' then [] else filter (\<lambda>q. deadLetterQueueErn q = dlq) (queues s))"

datatype eqs_error = DuplicateQueueErn string | DuplicateMessageId string

text \<open>\<^verbatim>\<open>upsertQueue\<close>: every field of the caller's queue is written, its counters too; the id and the time of creation stay
  those of the stored queue. A queue of another name that already has the ERN makes the write fail.\<close>

definition upsertQueue :: "eqs_env \<Rightarrow> Queue \<Rightarrow> eqs \<Rightarrow> eqs_error + (Queue \<times> eqs)" where
  "upsertQueue E queue s =
     (let mine = named (accountId queue) (nameSpace queue) (queue_name queue) in
      if \<exists>q \<in> set (queues s). \<not> mine q \<and> queue_ern q = queue_ern queue then Inl (DuplicateQueueErn (queue_ern queue))
      else case find mine (queues s) of
             Some old \<Rightarrow>
               (let st = queue\<lparr>queue_oid := queue_oid old, queue_created := queue_created old, queue_modified := system_now E\<rparr> in
                Inr (st, forgetQueueConfig (queue_ern st) (s\<lparr>queues := update_first mine (\<lambda>_. st) (queues s)\<rparr>)))
           | None \<Rightarrow>
               (let st = queue\<lparr>queue_oid := next_oid E 0, queue_modified := system_now E\<rparr> in
                Inr (st, forgetQueueConfig (queue_ern st) (s\<lparr>queues := queues s @ [st]\<rparr>))))"

definition removeQueueByName :: "string \<Rightarrow> string \<Rightarrow> string \<Rightarrow> eqs \<Rightarrow> eqs" where
  "removeQueueByName account ns name s =
     (let erns = map queue_ern (filter (named account ns name) (queues s));
          s = s\<lparr>queues := filter (\<lambda>q. \<not> named account ns name q) (queues s)\<rparr>;
          s = fold forgetQueueConfig erns s in
      if erns \<noteq> [] then s\<lparr>messages := filter (\<lambda>m. queueErn m \<notin> set erns) (messages s)\<rparr> else s)"

definition deleteQueueByErn :: "string \<Rightarrow> eqs \<Rightarrow> eqs" where
  "deleteQueueByErn ern s =
     (let s = forgetQueueConfig ern s;
          s = s\<lparr>queues := filter (\<lambda>q. queue_ern q \<noteq> ern) (queues s)\<rparr>;
          s = forgetQueueConfig ern s in
      s\<lparr>messages := filter (\<lambda>m. queueErn m \<noteq> ern) (messages s)\<rparr>)"

definition clearQueues :: "eqs \<Rightarrow> eqs" where
  "clearQueues s = s\<lparr>queueConfigs := [], queues := [], queueCache := cache_clear (cache_clear (queueCache s))\<rparr>"

subsection \<open>Messages\<close>

definition messageExists :: "string \<Rightarrow> eqs \<Rightarrow> bool" where
  "messageExists mid s \<longleftrightarrow> find (\<lambda>m. messageId m = mid) (messages s) \<noteq> None"

definition findMessageByName :: "string \<Rightarrow> eqs \<Rightarrow> Message option" where
  "findMessageByName mid s = find (\<lambda>m. messageId m = mid) (messages s)"

definition findAllMessages :: "eqs \<Rightarrow> Message list" where
  "findAllMessages s = messages s"

definition countMessages :: "eqs \<Rightarrow> int" where
  "countMessages s = int (length (messages s))"

definition countMessagesOf :: "string \<Rightarrow> eqs \<Rightarrow> int" where
  "countMessagesOf ern s = count_if (\<lambda>m. queueErn m = ern) (messages s)"

definition wake :: "string \<Rightarrow> eqs \<Rightarrow> eqs" where
  "wake ern s = s\<lparr>receiveWaiters := Wake ern (receiveWaiters s)\<rparr>"

text \<open>A message as the fields of the entity start out.\<close>

definition new_Message :: Message where
  "new_Message = \<lparr>msg_oid = '''', msg_ern = '''', queueErn = '''', sourceQueueErn = '''', body = '''', status = AVAILABLE,
     priority = MEDIUM, reset = 0, delayUntil = 0, expiresAt = 0, receivedCount = 0, msg_size = 0, visibilityTimeout = 30,
     visibilityPinned = False, lastReceived = 0, messageId = '''', receiptHandle = '''', attributes = [],
     systemAttributes = [], contentType = '''', msg_created = 0, msg_modified = 0\<rparr>"

record MessageDraft =
  draft_messageId :: string
  draft_ern :: string
  draft_body :: string
  draft_attributes :: "(string \<times> variant) list"
  draft_systemAttributes :: "(string \<times> variant) list"
  draft_priority :: MessagePriority

definition buildMessage :: "eqs_env \<Rightarrow> QueueConfig option \<Rightarrow> string \<Rightarrow> MessageDraft \<Rightarrow> Message" where
  "buildMessage E config ern draft =
     (let m = new_Message\<lparr>msg_ern := draft_ern draft, queueErn := ern, body := draft_body draft,
                msg_size := int (length (draft_body draft)), messageId := draft_messageId draft,
                contentType := fromContent E (draft_body draft), attributes := draft_attributes draft,
                systemAttributes := draft_systemAttributes draft, status := AVAILABLE, priority := draft_priority draft,
                msg_created := system_now E, msg_modified := system_now E\<rparr> in
      case config of
        None \<Rightarrow> m
      | Some queue \<Rightarrow>
          (let m = m\<lparr>visibilityTimeout := config_visibility queue\<rparr>;
               m = (if config_delay queue > 0
                    then m\<lparr>status := DELAYED, delayUntil := system_now E + config_delay queue * 1000\<rparr> else m);
               retention = (if config_retentionPeriod queue > 0 then config_retentionPeriod queue else defaultRetentionPeriod E) in
           m\<lparr>expiresAt := system_now E + retention * 1000\<rparr>))"

text \<open>\<^verbatim>\<open>insert_one\<close>: the unique index on the message id refuses a second message of that id.\<close>

definition insertMessage :: "string \<Rightarrow> Message \<Rightarrow> eqs \<Rightarrow> eqs option" where
  "insertMessage oid m s =
     (if \<exists>m' \<in> set (messages s). messageId m' = messageId m then None
      else Some (s\<lparr>messages := messages s @ [m\<lparr>msg_oid := oid\<rparr>]\<rparr>))"

definition sendMessage :: "eqs_env \<Rightarrow> string \<Rightarrow> MessageDraft \<Rightarrow> eqs \<Rightarrow> Message \<times> eqs" where
  "sendMessage E ern draft s =
     (case queueConfig E ern s of (config, s) \<Rightarrow>
        let m = buildMessage E config ern draft in
        (case insertMessage (next_oid E 0) m s of
           None \<Rightarrow> (m, s)
         | Some s \<Rightarrow>
             (let isDelayed = (status m = DELAYED);
                  s = adjustQueueCounters E ern (if isDelayed then 0 else 1) 0 (if isDelayed then 1 else 0) (msg_size m) s in
              (m, if isDelayed then s else wake ern s))))"

text \<open>\<^verbatim>\<open>insert_many\<close> on the in-memory store: one insert after another, until one is refused.\<close>

fun insertMessages :: "(nat \<Rightarrow> string) \<Rightarrow> Message list \<Rightarrow> eqs \<Rightarrow> bool \<times> eqs" where
  "insertMessages oids [] s = (True, s)"
| "insertMessages oids (m # ms) s =
     (case insertMessage (oids 0) m s of
        None \<Rightarrow> (False, s)
      | Some s \<Rightarrow> insertMessages (\<lambda>n. oids (Suc n)) ms s)"

definition sendMessages :: "eqs_env \<Rightarrow> string \<Rightarrow> MessageDraft list \<Rightarrow> eqs \<Rightarrow> Message list \<times> eqs" where
  "sendMessages E ern drafts s =
     (if drafts = [] then ([], s)
      else case queueConfig E ern s of (config, s) \<Rightarrow>
        let ms = map (buildMessage E config ern) drafts; bytes = sum_list (map msg_size ms) in
        (case insertMessages (next_oid E) ms s of
           (False, s) \<Rightarrow> ([], s)
         | (True, s) \<Rightarrow>
             (let inserted = int (length ms); isDelayed = (status (hd ms) = DELAYED);
                  s = adjustQueueCounters E ern (if isDelayed then 0 else inserted) 0 (if isDelayed then inserted else 0) bytes s in
              (ms, if isDelayed then s else wake ern s))))"

definition upsertMessage :: "eqs_env \<Rightarrow> Message \<Rightarrow> eqs \<Rightarrow> eqs" where
  "upsertMessage E message s =
     (let isIt = (\<lambda>m. messageId m = messageId message) in
      if \<exists>m \<in> set (messages s). isIt m
      then s\<lparr>messages := update_first isIt
               (\<lambda>old. message\<lparr>msg_oid := msg_oid old, msg_created := msg_created old, msg_modified := system_now E\<rparr>) (messages s)\<rparr>
      else s\<lparr>messages := messages s @ [message\<lparr>msg_oid := next_oid E 0, msg_modified := system_now E\<rparr>]\<rparr>)"

definition updateMessageBody :: "eqs_env \<Rightarrow> string \<Rightarrow> string \<Rightarrow> eqs \<Rightarrow> Message option \<times> eqs" where
  "updateMessageBody E mid newBody s =
     (let newSize = int (length newBody); isIt = (\<lambda>m. messageId m = mid) in
      case find isIt (messages s) of
        None \<Rightarrow> (None, s)
      | Some previous \<Rightarrow>
          (let s = s\<lparr>messages := update_first isIt
                       (\<lambda>m. m\<lparr>body := newBody, msg_size := newSize, contentType := fromContent E newBody,
                              msg_modified := system_now E\<rparr>) (messages s)\<rparr>;
               delta = newSize - msg_size previous;
               s = (if delta \<noteq> 0 then adjustQueueCounters E (queueErn previous) 0 0 0 delta s else s) in
           (findMessageByName mid s, s)))"

text \<open>\<^verbatim>\<open>find_one_and_delete\<close>.\<close>

fun delete_first :: "('a \<Rightarrow> bool) \<Rightarrow> 'a list \<Rightarrow> 'a list" where
  "delete_first P [] = []"
| "delete_first P (x # xs) = (if P x then xs else x # delete_first P xs)"

definition deleteFirstMessage :: "eqs_env \<Rightarrow> (Message \<Rightarrow> bool) \<Rightarrow> eqs \<Rightarrow> eqs" where
  "deleteFirstMessage E P s =
     (case find P (messages s) of
        None \<Rightarrow> s
      | Some m \<Rightarrow> adjustForDeleted E m (s\<lparr>messages := delete_first P (messages s)\<rparr>))"

definition deleteMessage :: "eqs_env \<Rightarrow> string \<Rightarrow> eqs \<Rightarrow> eqs" where
  "deleteMessage E handle s = deleteFirstMessage E (\<lambda>m. receiptHandle m = handle) s"

definition deleteMessageById :: "eqs_env \<Rightarrow> string \<Rightarrow> eqs \<Rightarrow> eqs" where
  "deleteMessageById E mid s = deleteFirstMessage E (\<lambda>m. messageId m = mid) s"

subsection \<open>Purging\<close>

definition zeroCounters :: "eqs_env \<Rightarrow> Queue \<Rightarrow> Queue" where
  "zeroCounters E q = q\<lparr>queue_size := 0, available := 0, delayed := 0, invisible := 0, queue_modified := system_now E\<rparr>"

definition purgeQueue :: "eqs_env \<Rightarrow> string \<Rightarrow> eqs \<Rightarrow> eqs" where
  "purgeQueue E ern s =
     (let s = flushPendingCounters E True s in
      s\<lparr>messages := filter (\<lambda>m. queueErn m \<noteq> ern) (messages s),
        queues := update_first (\<lambda>q. queue_ern q = ern) (zeroCounters E) (queues s)\<rparr>)"

definition inScope :: "string \<Rightarrow> string \<Rightarrow> string \<Rightarrow> Queue \<Rightarrow> bool" where
  "inScope reg account ns q \<longleftrightarrow> region q = reg \<and> accountId q = account \<and> (ns = '''' \<or> nameSpace q = ns)"

definition purgeAllQueues :: "eqs_env \<Rightarrow> string \<Rightarrow> string \<Rightarrow> string \<Rightarrow> eqs \<Rightarrow> eqs" where
  "purgeAllQueues E reg account ns s =
     (let s = flushPendingCounters E True s;
          erns = map queue_ern (filter (inScope reg account ns) (queues s)) in
      if erns = [] then s
      else s\<lparr>messages := filter (\<lambda>m. queueErn m \<notin> set erns) (messages s),
             queues := map (\<lambda>q. if queue_ern q \<in> set erns then zeroCounters E q else q) (queues s)\<rparr>)"

definition clearMessages :: "eqs_env \<Rightarrow> eqs \<Rightarrow> eqs" where
  "clearMessages E s =
     (let s = flushPendingCounters E True s in
      s\<lparr>messages := [],
        queues := map (\<lambda>q. q\<lparr>queue_size := 0, available := 0, delayed := 0, invisible := 0\<rparr>) (queues s)\<rparr>)"

subsection \<open>Dead letters\<close>

definition redriven :: "eqs_env \<Rightarrow> string \<Rightarrow> Message \<Rightarrow> Message" where
  "redriven E target m = m\<lparr>queueErn := target, sourceQueueErn := '''', status := AVAILABLE, receivedCount := 0,
     receiptHandle := '''', msg_modified := system_now E\<rparr>"

definition redriveMessages :: "eqs_env \<Rightarrow> string \<Rightarrow> string \<Rightarrow> string \<Rightarrow> eqs \<Rightarrow> int \<times> eqs" where
  "redriveMessages E dlq target source s =
     (if dlq = '''' \<or> target = '''' then (0, s)
      else let P = (\<lambda>m. queueErn m = dlq \<and> (source = '''' \<or> sourceQueueErn m = source));
               movedBytes = sum_list (map msg_size (filter P (messages s)));
               moved = count_if P (messages s);
               s = s\<lparr>messages := map (\<lambda>m. if P m then redriven E target m else m) (messages s)\<rparr> in
           (moved,
            if moved > 0 then
              wake target (adjustQueueCounters E target moved 0 0 movedBytes
                (adjustQueueCounters E dlq (- moved) 0 0 (- movedBytes) s))
            else s))"

subsection \<open>Leases and delays that are over\<close>

definition leaseOver :: "eqs_env \<Rightarrow> Message \<Rightarrow> bool" where
  "leaseOver E m \<longleftrightarrow> \<not> system_now E < lastReceived m + visibilityTimeout m * 1000"

definition delayOver :: "eqs_env \<Rightarrow> Message \<Rightarrow> bool" where
  "delayOver E m \<longleftrightarrow> \<not> system_now E < delayUntil m"

text \<open>One sweep over a cursor: each message that is over is updated if it still has the status it was found with, and
  counted for its queue if that changed it.\<close>

fun sweep ::
  "(Message \<Rightarrow> bool) \<Rightarrow> MessageStatus \<Rightarrow> (Message \<Rightarrow> Message) \<Rightarrow> Message list \<Rightarrow>
   Message list \<times> (string \<times> int) list \<Rightarrow> Message list \<times> (string \<times> int) list" where
  "sweep isOver st f [] acc = acc"
| "sweep isOver st f (m # cursor) (ms, byQueue) =
     (let P = (\<lambda>m'. msg_oid m' = msg_oid m \<and> status m' = st) in
      if \<not> isOver m then sweep isOver st f cursor (ms, byQueue)
      else if find P ms = None then sweep isOver st f cursor (ms, byQueue)
      else sweep isOver st f cursor
             (update_first P f ms,
              map_put (queueErn m) ((case map_of byQueue (queueErn m) of None \<Rightarrow> 0 | Some n \<Rightarrow> n) + 1) byQueue))"

definition leaseReset :: "eqs_env \<Rightarrow> Message \<Rightarrow> Message" where
  "leaseReset E m = m\<lparr>status := AVAILABLE, receiptHandle := '''', msg_modified := system_now E, lastReceived := system_now E\<rparr>"

definition delayReset :: "eqs_env \<Rightarrow> Message \<Rightarrow> Message" where
  "delayReset E m = m\<lparr>status := AVAILABLE, msg_modified := system_now E\<rparr>"

definition resetExpiredMessages :: "eqs_env \<Rightarrow> eqs \<Rightarrow> int \<times> eqs" where
  "resetExpiredMessages E s =
     (case sweep (leaseOver E) INVISIBLE (leaseReset E) (filter (\<lambda>m. status m = INVISIBLE) (messages s)) (messages s, []) of
        (ms, resetCountByQueue) \<Rightarrow>
      case sweep (delayOver E) DELAYED (delayReset E) (filter (\<lambda>m. status m = DELAYED) ms) (ms, []) of
        (ms, delayedResetCountByQueue) \<Rightarrow>
          let s = s\<lparr>messages := ms\<rparr>;
              s = fold (\<lambda>(ern, n) s. wake ern (adjustQueueCounters E ern n (- n) 0 0 s)) resetCountByQueue s;
              s = fold (\<lambda>(ern, n) s. wake ern (adjustQueueCounters E ern n 0 (- n) 0 s)) delayedResetCountByQueue s in
          (sum_list (map snd resetCountByQueue) + sum_list (map snd delayedResetCountByQueue), s))"

subsection \<open>Lists of messages and what they add up to\<close>

lemma tally_update_first:
  "find P ms = Some m \<Longrightarrow> tally c e (update_first P f ms) = tally c e ms - weight_in c e m + weight_in c e (f m)"
  by (induction ms) (auto split: if_splits)

lemma tally_delete_first: "find P ms = Some m \<Longrightarrow> tally c e (delete_first P ms) = tally c e ms - weight_in c e m"
  by (induction ms) (auto split: if_splits)

lemma tally_filter:
  "(\<And>m. queueErn m = e \<Longrightarrow> P m) \<Longrightarrow> tally c e (filter P ms) = tally c e ms"
  by (induction ms) (auto simp: weight_in_def)

lemma tally_filter_none: "(\<And>m. queueErn m = e \<Longrightarrow> \<not> P m) \<Longrightarrow> tally c e (filter P ms) = 0"
  by (induction ms) (auto simp: weight_in_def)

lemma set_update_first: "set (update_first P f xs) \<subseteq> set xs \<union> f ` {x \<in> set xs. P x}"
  by (induction xs) auto

lemma map_update_first: "(\<And>x. P x \<Longrightarrow> g (f x) = g x) \<Longrightarrow> map g (update_first P f xs) = map g xs"
  by (induction xs) auto

lemma update_first_none: "find P xs = None \<Longrightarrow> update_first P f xs = xs"
  by (induction xs) (auto split: if_splits)

lemma set_delete_first: "set (delete_first P xs) \<subseteq> set xs"
  by (induction xs) auto

lemma distinct_delete_first: "distinct (map g xs) \<Longrightarrow> distinct (map g (delete_first P xs))"
  using set_delete_first by (induction xs) (fastforce simp: image_iff)+

lemma good_update_first:
  assumes "good_messages ms"
    and "\<And>m. P m \<Longrightarrow> msg_oid (f m) = msg_oid m \<and> messageId (f m) = messageId m"
    and "\<And>m. m \<in> set ms \<Longrightarrow> P m \<Longrightarrow> 0 \<le> msg_size (f m) \<and> status (f m) \<noteq> UNKNOWN"
  shows "good_messages (update_first P f ms)"
  using assms set_update_first [of P f ms] by (auto simp: good_messages_def map_update_first)

lemma good_map:
  assumes "good_messages ms"
    and "\<And>m. msg_oid (f m) = msg_oid m \<and> messageId (f m) = messageId m"
    and "\<And>m. m \<in> set ms \<Longrightarrow> 0 \<le> msg_size (f m) \<and> status (f m) \<noteq> UNKNOWN"
  shows "good_messages (map f ms)"
  using assms by (simp add: good_messages_def comp_def)

lemma good_filter: "good_messages ms \<Longrightarrow> good_messages (filter P ms)"
  by (simp add: good_messages_def distinct_map_filter)

lemma good_delete_first: "good_messages ms \<Longrightarrow> good_messages (delete_first P ms)"
  using set_delete_first [of P ms] by (auto simp: good_messages_def distinct_delete_first)

lemma balanced_good: "balanced s \<Longrightarrow> good_messages (messages s)"
  by (simp add: balanced_def well_formed_def)

text \<open>The messages of a balanced state change and the adjustment says by how much.\<close>

lemma adjust_balanced:
  assumes "balanced s" and "good_messages ms"
    and "\<And>c e. tally c e ms - tally c e (messages s) = (if e = ern then deltas a i dl sz c else 0)"
  shows "balanced (adjustQueueCounters E ern a i dl sz (s\<lparr>messages := ms\<rparr>))"
  using messages_owe [OF assms(1,2)] unfolding assms(3) by (rule adjust_settles)

lemma balanced_wake [simp]: "balanced (wake ern s) = balanced s"
  by (simp add: wake_def)

subsection \<open>Balance of the operations on messages\<close>

lemma queueConfig_state: "\<exists>cs. snd (queueConfig E ern s) = s\<lparr>queueConfigs := cs\<rparr>"
  by (auto simp: queueConfig_def Let_def split: option.splits intro: exI [of _ "queueConfigs s"])

lemma buildMessage_simps [simp]:
  "queueErn (buildMessage E config ern draft) = ern"
  "messageId (buildMessage E config ern draft) = draft_messageId draft"
  "msg_size (buildMessage E config ern draft) = int (length (draft_body draft))"
  "receiptHandle (buildMessage E config ern draft) = ''''"
  by (simp_all add: buildMessage_def Let_def new_Message_def split: option.split)

lemma buildMessage_status:
  "status (buildMessage E config ern draft) =
     (case config of Some queue \<Rightarrow> if config_delay queue > 0 then DELAYED else AVAILABLE | None \<Rightarrow> AVAILABLE)"
  by (simp add: buildMessage_def Let_def new_Message_def split: option.split)

definition fresh_oids :: "eqs_env \<Rightarrow> eqs \<Rightarrow> bool" where
  "fresh_oids E s \<longleftrightarrow> inj (next_oid E) \<and> (\<forall>n. next_oid E n \<notin> msg_oid ` set (messages s))"

lemma sendMessage_balanced:
  assumes b: "balanced s" and f: "fresh_oids E s"
  shows "balanced (snd (sendMessage E ern draft s))"
proof -
  obtain config t where t: "queueConfig E ern s = (config, t)" by fastforce
  then obtain cs where cs: "t = s\<lparr>queueConfigs := cs\<rparr>" using queueConfig_state [of E ern s] by auto
  define m where "m = buildMessage E config ern draft"
  let ?d = "status m = DELAYED"
  have mid: "messageId m = draft_messageId draft" by (simp add: m_def)
  have st: "status m = DELAYED \<or> status m = AVAILABLE" by (simp add: m_def buildMessage_status split: option.split)
  have "balanced (adjustQueueCounters E ern (if ?d then 0 else 1) 0 (if ?d then 1 else 0) (msg_size m)
      (t\<lparr>messages := messages t @ [m\<lparr>msg_oid := next_oid E 0\<rparr>]\<rparr>))"
    if "\<forall>m' \<in> set (messages t). messageId m' \<noteq> messageId m"
  proof (rule adjust_balanced)
    show "balanced t" using b by (simp add: cs)
    show "good_messages (messages t @ [m\<lparr>msg_oid := next_oid E 0\<rparr>])"
      using that balanced_good [OF b] f st by (auto simp: cs good_messages_def m_def fresh_oids_def)
    show "tally c e (messages t @ [m\<lparr>msg_oid := next_oid E 0\<rparr>]) - tally c e (messages t) =
        (if e = ern then deltas (if ?d then 0 else 1) 0 (if ?d then 1 else 0) (msg_size m) c else 0)" for c e
      using st by (cases c) (auto simp: weight_in_def deltas_def m_def)
  qed
  then show ?thesis using b
    by (auto simp: sendMessage_def t m_def [symmetric] insertMessage_def Let_def cs mid split: option.split)
qed

definition stamp :: "(nat \<Rightarrow> string) \<Rightarrow> Message list \<Rightarrow> Message list" where
  "stamp oids ms = map (\<lambda>(n, m). m\<lparr>msg_oid := oids n\<rparr>) (enumerate 0 ms)"

lemma stamp_Cons [simp]: "stamp oids (m # ms) = m\<lparr>msg_oid := oids 0\<rparr> # stamp (\<lambda>n. oids (Suc n)) ms"
  by (simp add: stamp_def enumerate_Suc_eq comp_def case_prod_beta)

lemma map_stamp: "(\<And>m x. g (m\<lparr>msg_oid := x\<rparr>) = g m) \<Longrightarrow> map g (stamp oids ms) = map g ms"
  by (rule nth_equalityI) (simp_all add: stamp_def nth_enumerate_eq)

lemma set_stamp: "m \<in> set (stamp oids ms) \<Longrightarrow> \<exists>m' n. m' \<in> set ms \<and> m = m'\<lparr>msg_oid := oids n\<rparr>"
  by (auto simp: stamp_def in_set_enumerate_eq) (use nth_mem in blast)

lemma stamp_oids: "map msg_oid (stamp oids ms) = map oids [0..<length ms]"
  by (rule nth_equalityI) (simp_all add: stamp_def nth_enumerate_eq)

lemma insertMessages_messages:
  "insertMessages oids ms s = (True, t) \<Longrightarrow>
   t = s\<lparr>messages := messages s @ stamp oids ms\<rparr> \<and>
   distinct (map messageId ms) \<and> (\<forall>m \<in> set ms. \<forall>m' \<in> set (messages s). messageId m' \<noteq> messageId m)"
proof (induction oids ms s arbitrary: t rule: insertMessages.induct)
  case (2 oids m ms s)
  obtain u where u: "insertMessage (oids 0) m s = Some u" using 2 by (auto split: option.splits)
  have i: "insertMessages (\<lambda>n. oids (Suc n)) ms u = (True, t)" using 2(2) u by simp
  show ?case using 2(1) [OF u i] u by (fastforce simp: insertMessage_def split: if_splits)
qed (simp add: stamp_def)

lemma insertMessages_succeeds:
  "distinct (map messageId ms) \<Longrightarrow> (\<forall>m \<in> set ms. \<forall>m' \<in> set (messages s). messageId m' \<noteq> messageId m) \<Longrightarrow>
   \<exists>t. insertMessages oids ms s = (True, t)"
  by (induction oids ms s rule: insertMessages.induct) (auto simp: insertMessage_def image_iff)

lemma deleteFirst_balanced: "balanced s \<Longrightarrow> balanced (deleteFirstMessage E P s)"
proof -
  assume b: "balanced s"
  have "balanced (adjustForDeleted E m (s\<lparr>messages := delete_first P (messages s)\<rparr>))" if m: "find P (messages s) = Some m" for m
  proof -
    have "status m \<noteq> UNKNOWN" using balanced_good [OF b] find_SomeD [OF m] by (auto simp: good_messages_def)
    moreover have "tally c e (delete_first P (messages s)) - tally c e (messages s) =
        (if e = queueErn m then - weight c m else 0)" for c e
      by (simp add: tally_delete_first [OF m] weight_in_def)
    ultimately show ?thesis unfolding adjustForDeleted_def
      using b by (cases "status m"; simp)
        (rule adjust_balanced, simp_all add: good_delete_first balanced_good deltas_def split: counter.split)+
  qed
  then show ?thesis using b by (simp add: deleteFirstMessage_def split: option.split)
qed

lemma updateMessageBody_balanced: "balanced s \<Longrightarrow> balanced (snd (updateMessageBody E mid newBody s))"
proof -
  assume b: "balanced s"
  let ?f = "\<lambda>m. m\<lparr>body := newBody, msg_size := int (length newBody), contentType := fromContent E newBody, msg_modified := system_now E\<rparr>"
  have "balanced (adjustQueueCounters E (queueErn m) 0 0 0 (int (length newBody) - msg_size m)
      (s\<lparr>messages := update_first (\<lambda>m. messageId m = mid) ?f (messages s)\<rparr>))"
    if m: "find (\<lambda>m. messageId m = mid) (messages s) = Some m" for m
  proof (rule adjust_balanced [OF b])
    show "good_messages (update_first (\<lambda>m. messageId m = mid) ?f (messages s))"
      by (rule good_update_first [OF balanced_good [OF b]]) (use balanced_good [OF b] in \<open>auto simp: good_messages_def\<close>)
    show "tally c e (update_first (\<lambda>m. messageId m = mid) ?f (messages s)) - tally c e (messages s) =
        (if e = queueErn m then deltas 0 0 0 (int (length newBody) - msg_size m) c else 0)" for c e
      by (cases c) (simp_all add: tally_update_first [OF m] weight_in_def deltas_def)
  qed
  then show ?thesis using b
    by (fastforce simp: updateMessageBody_def Let_def adjustQueueCounters_def split: option.split)
qed

lemma sendMessages_balanced:
  assumes b: "balanced s" and f: "fresh_oids E s"
    and new: "distinct (map draft_messageId drafts)"
      "\<forall>d \<in> set drafts. \<forall>m \<in> set (messages s). messageId m \<noteq> draft_messageId d"
  shows "balanced (snd (sendMessages E ern drafts s))"
proof (cases "drafts = []")
  case False
  obtain config t where t: "queueConfig E ern s = (config, t)" by fastforce
  then obtain cs where cs: "t = s\<lparr>queueConfigs := cs\<rparr>" using queueConfig_state [of E ern s] by auto
  define ms where "ms = map (buildMessage E config ern) drafts"
  obtain u where u: "insertMessages (next_oid E) ms t = (True, u)"
    using insertMessages_succeeds [of ms t "next_oid E"] new by (auto simp: ms_def cs comp_def)
  define ns where "ns = stamp (next_oid E) ms"
  have msgs: "u = t\<lparr>messages := messages t @ ns\<rparr>"
    using insertMessages_messages [OF u] by (simp add: ns_def)
  let ?d = "status (hd ms) = DELAYED" and ?n = "int (length ms)"
  have "balanced (adjustQueueCounters E ern (if ?d then 0 else ?n) 0 (if ?d then ?n else 0) (sum_list (map msg_size ms)) u)"
    unfolding msgs
  proof (rule adjust_balanced)
    show "balanced t" using b by (simp add: cs)
    have "inj_on (next_oid E) X" for X using f by (auto simp: fresh_oids_def intro: inj_on_subset)
    then have "distinct (map msg_oid ns)" by (simp add: ns_def stamp_oids distinct_map)
    moreover have "msg_oid ` set ns = next_oid E ` {0..<length ms}"
      unfolding ns_def by (simp only: set_map [symmetric] stamp_oids) simp
    ultimately have oids: "distinct (map msg_oid (messages t @ ns))"
      using balanced_good [OF b] f by (auto simp: cs fresh_oids_def good_messages_def) (metis imageI)
    have "distinct (map messageId (messages t @ ns))"
      using balanced_good [OF b] insertMessages_messages [OF u]
      by (auto simp: ns_def map_stamp cs good_messages_def simp flip: set_map) (auto simp: image_iff)
    then show "good_messages (messages t @ ns)"
      using oids balanced_good [OF b]
      by (auto simp: good_messages_def cs ns_def ms_def buildMessage_status dest!: set_stamp split: option.splits if_splits)
    show "tally c e (messages t @ ns) - tally c e (messages t) =
        (if e = ern then deltas (if ?d then 0 else ?n) 0 (if ?d then ?n else 0) (sum_list (map msg_size ms)) c else 0)" for c e
      using False
      by (cases c) (auto simp: ns_def tally_def map_stamp weight_in_def ms_def deltas_def hd_map buildMessage_status
          sum_list_triv comp_def split: option.splits)
  qed
  then show ?thesis using False by (auto simp: sendMessages_def t ms_def [symmetric] u Let_def split: if_splits)
qed (simp add: sendMessages_def b)

text \<open>After a forced flush nothing is pending, so zeroing the counters of queues without messages keeps the balance.\<close>

lemma forced_flush:
  assumes "balanced s"
  shows "balanced (flushPendingCounters E True s)" and "pend c e (flushPendingCounters E True s) = 0"
proof -
  show "balanced (flushPendingCounters E True s)" using assms flush_owes unfolding balanced_owes by blast
  show "pend c e (flushPendingCounters E True s) = 0"
    using assms by (auto simp: pend_flush balanced_def is_due_def split: option.split)
qed

lemma stored_zero [simp]:
  "stored c (q\<lparr>queue_size := 0, available := 0, delayed := 0, invisible := 0\<rparr>) = 0"
  "stored c (zeroCounters E q) = 0" "queue_ern (zeroCounters E q) = queue_ern q" "queue_key (zeroCounters E q) = queue_key q"
  by (cases c; simp add: zeroCounters_def queue_key_def)+

lemma emptied_balanced:
  assumes b: "balanced s" and none: "\<And>c e. pend c e s = 0"
    and f: "\<And>q. queue_ern (f q) = queue_ern q \<and> queue_key (f q) = queue_key q"
    and st: "\<And>q c. stored c (f q) = (if queue_ern q \<in> erns then 0 else stored c q)"
  shows "balanced (s\<lparr>messages := filter (\<lambda>m. queueErn m \<notin> erns) (messages s), queues := map f (queues s)\<rparr>)"
proof -
  have "pend c e (s\<lparr>messages := ms, queues := qs\<rparr>) = 0" for c e ms qs using none [of c e] by (simp add: pend_def)
  moreover have "tally c e (filter (\<lambda>m. queueErn m \<notin> erns) (messages s)) = (if e \<in> erns then 0 else tally c e (messages s))" for c e
    by (simp add: tally_filter tally_filter_none)
  ultimately show ?thesis using b f none st
    by (auto simp: balanced_def well_formed_def good_filter good_queues_def comp_def)
qed

lemma purgeQueue_balanced:
  assumes "balanced s" shows "balanced (purgeQueue E ern s)"
proof -
  let ?t = "flushPendingCounters E True s"
  note t = forced_flush [OF assms]
  have "queues (purgeQueue E ern s) = map (\<lambda>q. if queue_ern q = ern then zeroCounters E q else q) (queues ?t)"
    using t(1) by (simp add: purgeQueue_def Let_def balanced_def well_formed_def good_queues_def update_first_unique)
  then have "purgeQueue E ern s = ?t\<lparr>messages := filter (\<lambda>m. queueErn m \<notin> {ern}) (messages ?t),
      queues := map (\<lambda>q. if queue_ern q = ern then zeroCounters E q else q) (queues ?t)\<rparr>"
    by (simp add: purgeQueue_def Let_def)
  also have "balanced \<dots>" using t by (intro emptied_balanced) auto
  finally show ?thesis .
qed

lemma purgeAllQueues_balanced: "balanced s \<Longrightarrow> balanced (purgeAllQueues E reg account ns s)"
  using forced_flush by (auto simp: purgeAllQueues_def Let_def intro: emptied_balanced)

lemma clearMessages_balanced:
  assumes "balanced s" shows "balanced (clearMessages E s)"
proof -
  have "balanced ((flushPendingCounters E True s)\<lparr>messages := filter (\<lambda>m. queueErn m \<notin> UNIV) (messages (flushPendingCounters E True s)),
      queues := map (\<lambda>q. q\<lparr>queue_size := 0, available := 0, delayed := 0, invisible := 0\<rparr>) (queues (flushPendingCounters E True s))\<rparr>)"
    using forced_flush [OF assms] by (intro emptied_balanced) (auto simp: queue_key_def)
  then show ?thesis by (simp add: clearMessages_def Let_def)
qed

subsection \<open>Balance of the operations on queues\<close>

lemma forget_simps [simp]:
  "queues (forgetQueueConfig ern s) = queues s" "messages (forgetQueueConfig ern s) = messages s"
  "pendingCounters (forgetQueueConfig ern s) = pendingCounters s" "balanced (forgetQueueConfig ern s) = balanced s"
  by (simp_all add: forgetQueueConfig_def balanced_def well_formed_def pend_def)

lemma fold_forget [simp]:
  "queues (fold forgetQueueConfig erns s) = queues s" "messages (fold forgetQueueConfig erns s) = messages s"
  "pendingCounters (fold forgetQueueConfig erns s) = pendingCounters s"
  by (induction erns arbitrary: s) simp_all

lemma balanced_parts:
  "messages t = messages s \<Longrightarrow> queues t = queues s \<Longrightarrow> pendingCounters t = pendingCounters s \<Longrightarrow> balanced s \<Longrightarrow> balanced t"
  by (simp add: balanced_def well_formed_def pend_def)

text \<open>Queues go together with their messages.\<close>

lemma dropped_balanced:
  assumes b: "balanced s" and q: "queues t = filter (\<lambda>q. queue_ern q \<notin> erns) (queues s)"
    and m: "messages t = filter (\<lambda>m. queueErn m \<notin> erns) (messages s)" and p: "pendingCounters t = pendingCounters s"
  shows "balanced t"
  using b by (auto simp: balanced_def well_formed_def good_filter good_queues_def distinct_map_filter pend_def q m p tally_filter)

lemma deleteQueueByErn_balanced: "balanced s \<Longrightarrow> balanced (deleteQueueByErn ern s)"
  by (rule dropped_balanced [of s _ "{ern}"]) (simp_all add: deleteQueueByErn_def Let_def)

lemma named_by_ern:
  assumes "balanced s" and "q \<in> set (queues s)"
  shows "queue_ern q \<in> queue_ern ` {x \<in> set (queues s). named account ns name x} \<longleftrightarrow> named account ns name q"
  using assms by (auto simp: balanced_def well_formed_def good_queues_def distinct_map inj_on_def)

lemma removeQueueByName_balanced:
  assumes b: "balanced s" shows "balanced (removeQueueByName account ns name s)"
proof -
  let ?erns = "set (map queue_ern (filter (named account ns name) (queues s)))"
  have erns: "?erns = queue_ern ` {x \<in> set (queues s). named account ns name x}" by simp
  have "filter (\<lambda>q. \<not> named account ns name q) (queues s) = filter (\<lambda>q. queue_ern q \<notin> ?erns) (queues s)"
    unfolding erns using named_by_ern [OF b] by (intro filter_cong) auto
  then show ?thesis
    by (intro dropped_balanced [OF b, of _ ?erns]) (auto simp: removeQueueByName_def Let_def filter_empty_conv intro!: filter_True [symmetric])
qed

lemma clearQueues_balanced: "balanced s \<Longrightarrow> balanced (clearQueues s)"
  by (simp add: clearQueues_def balanced_def well_formed_def good_queues_def)

text \<open>Storing a queue keeps the balance when the caller's counters are the stored ones, or those of its messages.\<close>

definition counters_current :: "Queue \<Rightarrow> eqs \<Rightarrow> bool" where
  "counters_current queue s \<longleftrightarrow>
     (case findQueueByName (accountId queue) (nameSpace queue) (queue_name queue) s of
        Some old \<Rightarrow> queue_ern queue = queue_ern old \<and> available queue = available old \<and> invisible queue = invisible old
          \<and> delayed queue = delayed old \<and> queue_size queue = queue_size old
      | None \<Rightarrow> available queue = 0 \<and> invisible queue = 0 \<and> delayed queue = 0 \<and> queue_size queue = 0
          \<and> (\<forall>m \<in> set (messages s). queueErn m \<noteq> queue_ern queue) \<and> map_of (pendingCounters s) (queue_ern queue) = None)"

lemma upsertQueue_balanced:
  assumes b: "balanced s" and c: "counters_current queue s" and u: "upsertQueue E queue s = Inr (q, t)"
  shows "balanced t"
proof -
  let ?mine = "named (accountId queue) (nameSpace queue) (queue_name queue)"
  have ne: "\<not> (\<exists>q \<in> set (queues s). \<not> ?mine q \<and> queue_ern q = queue_ern queue)"
    using u by (auto simp: upsertQueue_def Let_def split: if_splits)
  then have new: "\<forall>q \<in> set (queues s). ?mine q \<or> queue_ern q \<noteq> queue_ern queue" by blast
  note u' = u [unfolded upsertQueue_def Let_def if_not_P [OF ne]]
  have mine: "?mine = (\<lambda>q. queue_key q = queue_key queue)" by (auto simp: named_def queue_key_def fun_eq_iff)
  have g: "distinct (map queue_ern (queues s))" "distinct (map queue_key (queues s))"
    using b by (simp_all add: balanced_def well_formed_def good_queues_def)
  show ?thesis
  proof (cases "find ?mine (queues s)")
    case None
    then have no: "\<forall>q \<in> set (queues s). \<not> ?mine q" by (simp add: find_None_iff)
    let ?st = "queue\<lparr>queue_oid := next_oid E 0, queue_modified := system_now E\<rparr>"
    have t: "t = forgetQueueConfig (queue_ern queue) (s\<lparr>queues := queues s @ [?st]\<rparr>)"
      using u' None by auto
    have zero: "stored k ?st = 0" "tally k (queue_ern queue) (messages s) = 0" "pend k (queue_ern queue) s = 0" for k
      using c None tally_filter_none [of "queue_ern queue" "\<lambda>m. queueErn m \<noteq> queue_ern queue" k "messages s"]
      by (cases k; auto simp: counters_current_def findQueueByName_def pend_def filter_id_conv [THEN iffD2])+
    have "good_queues (queues s @ [?st])"
      using g no new by (auto simp: good_queues_def mine) (auto simp: queue_key_def)
    then show ?thesis using b zero by (auto simp: t balanced_def well_formed_def pend_def)
  next
    case (Some old)
    define st where "st = queue\<lparr>queue_oid := queue_oid old, queue_created := queue_created old, queue_modified := system_now E\<rparr>"
    have old: "old \<in> set (queues s)" "queue_key old = queue_key queue" using find_SomeD [OF Some] by (simp_all add: mine)
    have t: "t = forgetQueueConfig (queue_ern queue) (s\<lparr>queues := update_first ?mine (\<lambda>_. st) (queues s)\<rparr>)"
      using u' Some by (auto simp: st_def)
    have same: "queue_ern st = queue_ern old" "queue_key st = queue_key old" "stored k st = stored k old" for k
      using c Some old(2) by (cases k; simp add: st_def counters_current_def findQueueByName_def queue_key_def)+
    have f: "queue_key x = queue_key queue \<longleftrightarrow> x = old" if "x \<in> set (queues s)" for x
      using g(2) that old by (metis distinct_map inj_onD)
    have upd: "update_first ?mine (\<lambda>_. st) (queues s) = map (\<lambda>x. if x = old then st else x) (queues s)"
      unfolding mine update_first_unique [OF g(2)] by (intro map_cong refl) (simp add: f)
    have "balanced (s\<lparr>queues := map (\<lambda>x. if x = old then st else x) (queues s)\<rparr>)"
    proof -
      have "map queue_ern (map (\<lambda>x. if x = old then st else x) (queues s)) = map queue_ern (queues s)"
        "map queue_key (map (\<lambda>x. if x = old then st else x) (queues s)) = map queue_key (queues s)"
        using same by auto
      then show ?thesis using b same old(1)
        by (auto simp: balanced_def well_formed_def good_queues_def pend_def simp del: map_map)
    qed
    then show ?thesis by (simp add: t upd)
  qed
qed

subsection \<open>Balance of a redrive\<close>

lemma redriveMessages_balanced:
  assumes b: "balanced s"
    and avail: "\<forall>m \<in> set (messages s). queueErn m = dlq \<and> (source = '''' \<or> sourceQueueErn m = source) \<longrightarrow> status m = AVAILABLE"
  shows "balanced (snd (redriveMessages E dlq target source s))"
proof -
  define P where "P = (\<lambda>m :: Message. queueErn m = dlq \<and> (source = '''' \<or> sourceQueueErn m = source))"
  define f where "f = redriven E target"
  define g where "g = deltas (count_if P (messages s)) 0 0 (sum_list (map msg_size (filter P (messages s))))"
  let ?ms = "map (\<lambda>m. if P m then f m else m) (messages s)"
  have P: "\<forall>m \<in> set (messages s). P m \<longrightarrow> queueErn m = dlq \<and> status m = AVAILABLE" using avail by (simp add: P_def)
  have "tally c e (map (\<lambda>m. if P m then f m else m) ms) =
      tally c e (filter (\<lambda>m. \<not> P m) ms) + (if e = target then deltas (count_if P ms) 0 0 (sum_list (map msg_size (filter P ms))) c else 0)"
    for c e ms by (induction ms; cases c) (auto simp: weight_in_def deltas_def f_def redriven_def)
  then have new: "tally c e ?ms = tally c e (filter (\<lambda>m. \<not> P m) (messages s)) + (if e = target then g c else 0)" for c e
    by (simp add: g_def)
  have "\<forall>m \<in> set ms. P m \<longrightarrow> queueErn m = dlq \<and> status m = AVAILABLE \<Longrightarrow>
      tally c e (filter (\<lambda>m. \<not> P m) ms) =
      tally c e ms - (if e = dlq then deltas (count_if P ms) 0 0 (sum_list (map msg_size (filter P ms))) c else 0)" for c e ms
    by (induction ms; cases c) (auto simp: weight_in_def deltas_def)
  then have old: "tally c e (filter (\<lambda>m. \<not> P m) (messages s)) = tally c e (messages s) - (if e = dlq then g c else 0)" for c e
    using P by (simp add: g_def)
  have good: "good_messages ?ms" using balanced_good [OF b] by (intro good_map) (auto simp: f_def redriven_def good_messages_def)
  have neg: "deltas (- a) 0 0 (- z) c = - deltas a 0 0 z c" for a z c by (cases c) (simp_all add: deltas_def)
  let ?t = "s\<lparr>messages := ?ms\<rparr>"
  have "owes (\<lambda>c e. tally c e ?ms - tally c e (messages s)) ?t" by (rule messages_owe [OF b good])
  then have o1: "owes (\<lambda>c e. (if e = target then g c else 0) - (if e = dlq then g c else 0)) ?t"
    unfolding new old by (simp add: algebra_simps)
  have "g c \<le> tally c target ?ms" for c
    using tally_nonneg [OF good_filter [OF balanced_good [OF b], of "\<lambda>m. \<not> P m"], of c target] new [of c target] by simp
  moreover have "0 \<le> tally c e ?ms" for c e using good by (rule tally_nonneg)
  ultimately have "owes (\<lambda>c e. if e = target then g c else 0)
      (adjustQueueCounters E dlq (- count_if P (messages s)) 0 0 (- sum_list (map msg_size (filter P (messages s)))) ?t)"
    by (intro adjust_owes_less [OF o1]) (auto simp: neg g_def [symmetric])
  then have bal: "balanced (adjustQueueCounters E target (count_if P (messages s)) 0 0 (sum_list (map msg_size (filter P (messages s))))
      (adjustQueueCounters E dlq (- count_if P (messages s)) 0 0 (- sum_list (map msg_size (filter P (messages s)))) ?t))"
    unfolding g_def by (rule adjust_settles)
  have "?ms = messages s" if "\<not> count_if P (messages s) > 0"
    using that by (auto simp: count_if_pos intro!: map_idI)
  with b bal show ?thesis unfolding f_def by (auto simp: redriveMessages_def Let_def P_def [symmetric])
qed

subsection \<open>Balance of a sweep\<close>

definition counted :: "(string \<times> int) list \<Rightarrow> string \<Rightarrow> int" where
  "counted byQueue e = (case map_of byQueue e of None \<Rightarrow> 0 | Some n \<Rightarrow> n)"

lemma counted_put: "counted (map_put k v m) e = (if e = k then v else counted m e)"
  by (simp add: counted_def)

lemma sweep_Cons:
  "sweep isOver st f (m # cursor) (ms, bq) =
     (if isOver m \<and> find (\<lambda>m'. msg_oid m' = msg_oid m \<and> status m' = st) ms \<noteq> None
      then sweep isOver st f cursor (update_first (\<lambda>m'. msg_oid m' = msg_oid m \<and> status m' = st) f ms,
             map_put (queueErn m) (counted bq (queueErn m) + 1) bq)
      else sweep isOver st f cursor (ms, bq))"
  by (simp add: Let_def counted_def)

declare sweep.simps(2) [simp del]

text \<open>What making \<open>n\<close> messages of a status available does to the counters, and what a sweep makes of a message.\<close>

definition moves :: "MessageStatus \<Rightarrow> int \<Rightarrow> counter \<Rightarrow> int" where
  "moves st n = deltas n (if st = INVISIBLE then - n else 0) (if st = DELAYED then - n else 0) 0"

definition swept :: "MessageStatus \<Rightarrow> (Message \<Rightarrow> Message) \<Rightarrow> (Message \<Rightarrow> bool) \<Rightarrow> Message list \<Rightarrow> Message \<Rightarrow> Message" where
  "swept st f isOver cursor m =
     (if status m = st \<and> (\<exists>m' \<in> set cursor. isOver m' \<and> msg_oid m' = msg_oid m) then f m else m)"

lemma moves_add: "moves st (a + b) c = moves st a c + moves st b c"
  by (cases c) (simp_all add: moves_def deltas_def)

lemma update_oid:
  assumes "distinct (map msg_oid ms)"
  shows "update_first (\<lambda>m'. msg_oid m' = k \<and> status m' = st) f ms =
    map (\<lambda>m'. if status m' = st \<and> msg_oid m' = k then f m' else m') ms"
  using assms
proof (induction ms)
  case (Cons m ms)
  have "map (\<lambda>m'. if status m' = st \<and> msg_oid m' = k then f m' else m') ms = ms" if "msg_oid m = k"
    using Cons.prems that by (intro map_idI) (auto simp: image_iff)
  then show ?case using Cons by auto
qed simp

text \<open>A sweep whose update only makes a message available: the messages of each queue change by what it counted.\<close>

locale sweeping =
  fixes st :: MessageStatus and f :: "Message \<Rightarrow> Message"
  assumes keeps: "msg_oid (f m) = msg_oid m" "messageId (f m) = messageId m" "queueErn (f m) = queueErn m"
      "msg_size (f m) = msg_size m"
    and makes: "status (f m) = AVAILABLE" and leaves: "st = INVISIBLE \<or> st = DELAYED"
begin

lemma sweep_messages:
  "distinct (map msg_oid ms) \<Longrightarrow> fst (sweep isOver st f cursor (ms, bq)) = map (swept st f isOver cursor) ms"
proof (induction cursor arbitrary: ms bq)
  case Nil
  show ?case by (simp add: swept_def)
next
  case (Cons m cursor)
  let ?P = "\<lambda>m'. msg_oid m' = msg_oid m \<and> status m' = st"
  let ?ms = "map (\<lambda>m'. if status m' = st \<and> msg_oid m' = msg_oid m then f m' else m') ms"
  have u: "update_first ?P f ms = ?ms" by (rule update_oid [OF Cons.prems])
  have d: "distinct (map msg_oid ?ms)" using Cons.prems unfolding u [symmetric] by (simp add: map_update_first keeps)
  have "st \<noteq> AVAILABLE" using leaves by auto
  then have upd: "map (swept st f isOver cursor) ?ms = map (swept st f isOver (m # cursor)) ms" if "isOver m"
    using that by (auto simp: swept_def keeps makes)
  have skip: "map (swept st f isOver (m # cursor)) ms = map (swept st f isOver cursor) ms" if "\<not> isOver m \<or> find ?P ms = None"
    using that by (auto simp: swept_def find_None_iff)
  show ?case
  proof (cases "isOver m \<and> find ?P ms \<noteq> None")
    case True
    with upd u Cons.IH [OF d] show ?thesis unfolding sweep_Cons by auto
  next
    case False
    with skip Cons.IH [OF Cons.prems] show ?thesis unfolding sweep_Cons if_not_P [OF False] by auto
  qed
qed

lemma sweep_own:
  assumes "distinct (map msg_oid ms)"
  shows "fst (sweep isOver st f (filter (\<lambda>m. status m = st) ms) (ms, bq)) =
    map (\<lambda>m. if status m = st \<and> isOver m then f m else m) ms"
  using assms by (auto simp: sweep_messages swept_def distinct_map inj_on_def)

lemma sweep_tally:
  "distinct (map msg_oid ms) \<Longrightarrow> (\<forall>m \<in> set cursor. \<forall>m' \<in> set ms. msg_oid m' = msg_oid m \<longrightarrow> queueErn m' = queueErn m) \<Longrightarrow>
   sweep isOver st f cursor (ms, bq) = (ms', bq') \<Longrightarrow>
   tally c e ms' = tally c e ms + moves st (counted bq' e - counted bq e) c"
proof (induction cursor arbitrary: ms bq)
  case Nil
  then show ?case by (cases c) (simp_all add: moves_def deltas_def)
next
  case (Cons m cursor)
  let ?P = "\<lambda>m'. msg_oid m' = msg_oid m \<and> status m' = st"
  let ?bq = "map_put (queueErn m) (counted bq (queueErn m) + 1) bq"
  show ?case
  proof (cases "isOver m \<and> find ?P ms \<noteq> None")
    case True
    then obtain x where x: "find ?P ms = Some x" by auto
    have "tally c e (update_first ?P f ms) = tally c e ms + (if e = queueErn m then moves st 1 c else 0)"
      using find_SomeD [OF x] Cons.prems(2) leaves
      by (cases c) (auto simp: tally_update_first [OF x] weight_in_def keeps makes moves_def deltas_def)
    moreover have "tally c e ms' = tally c e (update_first ?P f ms) + moves st (counted bq' e - counted ?bq e) c"
      using True Cons.prems set_update_first [of ?P f ms]
      by (intro Cons.IH) (auto simp: map_update_first keeps sweep_Cons)
    ultimately show ?thesis
      using moves_add [of st "counted bq' e - counted ?bq e" 1 c] by (auto simp: counted_put)
  next
    case False
    have "sweep isOver st f cursor (ms, bq) = (ms', bq')" using Cons.prems(3) unfolding sweep_Cons if_not_P [OF False] .
    with Cons.prems Cons.IH [of ms bq] show ?thesis by auto
  qed
qed

lemma sweep_counts:
  "key_ordered bq \<Longrightarrow> \<forall>e. 0 \<le> counted bq e \<Longrightarrow> sweep isOver st f cursor (ms, bq) = (ms', bq') \<Longrightarrow>
   key_ordered bq' \<and> (\<forall>e. 0 \<le> counted bq' e)"
proof (induction cursor arbitrary: ms bq)
  case (Cons m cursor)
  have "key_ordered (map_put (queueErn m) (counted bq (queueErn m) + 1) bq)" using Cons.prems(1) by simp
  moreover have "\<forall>e. 0 \<le> counted (map_put (queueErn m) (counted bq (queueErn m) + 1) bq) e"
    using Cons.prems(2) by (simp add: counted_put add_nonneg_nonneg)
  ultimately show ?case using Cons.prems Cons.IH unfolding sweep_Cons by (auto split: if_splits)
qed simp

end

interpretation leases: sweeping INVISIBLE "leaseReset E" for E
  by unfold_locales (simp_all add: leaseReset_def)

interpretation delays: sweeping DELAYED "delayReset E" for E
  by unfold_locales (simp_all add: delayReset_def)

lemma fold_adjust_owes:
  assumes "distinct (map fst bq)"
    and "owes (\<lambda>c e. r c e + (case map_of bq e of None \<Rightarrow> 0 | Some n \<Rightarrow> moves st n c)) s"
    and "\<And>c e. r c e \<le> tally c e (messages s)"
  shows "owes r (fold (\<lambda>(ern, n) s. wake ern (adjustQueueCounters E ern n (if st = INVISIBLE then - n else 0)
      (if st = DELAYED then - n else 0) 0 s)) bq s)"
  using assms
proof (induction bq arbitrary: s)
  case (Cons x bq)
  obtain ern n where x: "x = (ern, n)" by fastforce
  let ?t = "wake ern (adjustQueueCounters E ern n (if st = INVISIBLE then - n else 0) (if st = DELAYED then - n else 0) 0 s)"
  have none: "map_of bq ern = None" using Cons.prems(1) x by (simp add: map_of_eq_None_iff)
  have "owes (\<lambda>c e. r c e + (case map_of bq e of None \<Rightarrow> 0 | Some n \<Rightarrow> moves st n c)) ?t"
    unfolding wake_def owes_update
    using Cons.prems(3) none by (intro adjust_owes_less [OF Cons.prems(2)]) (auto simp: x moves_def)
  moreover have "messages ?t = messages s" by (simp add: wake_def)
  ultimately show ?case using Cons.IH [of ?t] Cons.prems(1,3) by (simp add: x)
qed simp

lemma fold_adjust_messages [simp]:
  "messages (fold (\<lambda>(ern, n) s. wake ern (adjustQueueCounters E ern (a n) (i n) (d n) (z n) s)) bq s) = messages s"
  by (induction bq arbitrary: s) (auto simp: wake_def)

text \<open>The two sweeps of a call, and what they leave of the messages.\<close>

lemma two_sweeps:
  assumes "distinct (map msg_oid ms)"
  obtains ms1 b1 ms2 b2 where
    "sweep (leaseOver E) INVISIBLE (leaseReset E) (filter (\<lambda>m. status m = INVISIBLE) ms) (ms, []) = (ms1, b1)"
    "sweep (delayOver E) DELAYED (delayReset E) (filter (\<lambda>m. status m = DELAYED) ms1) (ms1, []) = (ms2, b2)"
    "ms1 = map (\<lambda>m. if status m = INVISIBLE \<and> leaseOver E m then leaseReset E m else m) ms"
    "ms2 = map (\<lambda>m. if status m = DELAYED \<and> delayOver E m then delayReset E m else m) ms1"
    "\<And>c e. tally c e ms1 = tally c e ms + moves INVISIBLE (counted b1 e) c"
    "\<And>c e. tally c e ms2 = tally c e ms1 + moves DELAYED (counted b2 e) c"
    "distinct (map fst b1)" "distinct (map fst b2)"
proof -
  obtain ms1 b1 where 1: "sweep (leaseOver E) INVISIBLE (leaseReset E) (filter (\<lambda>m. status m = INVISIBLE) ms) (ms, []) = (ms1, b1)"
    by fastforce
  obtain ms2 b2 where 2: "sweep (delayOver E) DELAYED (delayReset E) (filter (\<lambda>m. status m = DELAYED) ms1) (ms1, []) = (ms2, b2)"
    by fastforce
  have ms1: "ms1 = map (\<lambda>m. if status m = INVISIBLE \<and> leaseOver E m then leaseReset E m else m) ms"
    using leases.sweep_own [OF assms, of "leaseOver E" E "[]"] 1 by simp
  have d1: "distinct (map msg_oid ms1)"
    using assms by (simp add: ms1 comp_def if_distrib leaseReset_def cong: if_cong)
  have ms2: "ms2 = map (\<lambda>m. if status m = DELAYED \<and> delayOver E m then delayReset E m else m) ms1"
    using delays.sweep_own [OF d1, of "delayOver E" E "[]"] 2 by simp
  have t1: "tally c e ms1 = tally c e ms + moves INVISIBLE (counted b1 e) c" for c e
    using leases.sweep_tally [OF assms _ 1, of c e] assms by (auto simp: counted_def distinct_map inj_on_def)
  have t2: "tally c e ms2 = tally c e ms1 + moves DELAYED (counted b2 e) c" for c e
    using delays.sweep_tally [OF d1 _ 2, of c e] d1 by (auto simp: counted_def distinct_map inj_on_def)
  have "distinct (map fst b1)" "distinct (map fst b2)"
    using leases.sweep_counts [OF _ _ 1] delays.sweep_counts [OF _ _ 2]
    by (auto simp: counted_def intro: key_ordered_distinct)
  with 1 2 ms1 ms2 t1 t2 show ?thesis by (rule that)
qed

lemma resetExpired_messages:
  assumes "distinct (map msg_oid (messages s))"
  shows "messages (snd (resetExpiredMessages E s)) =
    map (\<lambda>m. if status m = INVISIBLE \<and> leaseOver E m then leaseReset E m
              else if status m = DELAYED \<and> delayOver E m then delayReset E m else m) (messages s)"
  using assms
proof (rule two_sweeps [where E = E])
  fix ms1 b1 ms2 b2
  assume w: "sweep (leaseOver E) INVISIBLE (leaseReset E) (filter (\<lambda>m. status m = INVISIBLE) (messages s)) (messages s, []) = (ms1, b1)"
    "sweep (delayOver E) DELAYED (delayReset E) (filter (\<lambda>m. status m = DELAYED) ms1) (ms1, []) = (ms2, b2)"
    and ms: "ms1 = map (\<lambda>m. if status m = INVISIBLE \<and> leaseOver E m then leaseReset E m else m) (messages s)"
    "ms2 = map (\<lambda>m. if status m = DELAYED \<and> delayOver E m then delayReset E m else m) ms1"
  show ?thesis by (simp add: resetExpiredMessages_def w Let_def) (simp add: ms leaseReset_def)
qed

lemma resetExpired_balanced:
  assumes b: "balanced s" shows "balanced (snd (resetExpiredMessages E s))"
proof -
  have "distinct (map msg_oid (messages s))" using balanced_good [OF b] by (simp add: good_messages_def)
  then show ?thesis
  proof (rule two_sweeps [where E = E])
    fix ms1 b1 ms2 b2
    assume w: "sweep (leaseOver E) INVISIBLE (leaseReset E) (filter (\<lambda>m. status m = INVISIBLE) (messages s)) (messages s, []) = (ms1, b1)"
      "sweep (delayOver E) DELAYED (delayReset E) (filter (\<lambda>m. status m = DELAYED) ms1) (ms1, []) = (ms2, b2)"
      and ms: "ms1 = map (\<lambda>m. if status m = INVISIBLE \<and> leaseOver E m then leaseReset E m else m) (messages s)"
      "ms2 = map (\<lambda>m. if status m = DELAYED \<and> delayOver E m then delayReset E m else m) ms1"
      and t: "\<And>c e. tally c e ms1 = tally c e (messages s) + moves INVISIBLE (counted b1 e) c"
      "\<And>c e. tally c e ms2 = tally c e ms1 + moves DELAYED (counted b2 e) c"
      and d: "distinct (map fst b1)" "distinct (map fst b2)"
    have g1: "good_messages ms1" unfolding ms
      using balanced_good [OF b] by (intro good_map) (auto simp: leaseReset_def good_messages_def)
    have g2: "good_messages ms2" unfolding ms(2)
      using g1 by (intro good_map) (auto simp: delayReset_def good_messages_def)
    have zero: "moves st 0 c = 0" for st c by (cases c) (simp_all add: moves_def deltas_def)
    have count: "(case map_of bq e of None \<Rightarrow> 0 | Some n \<Rightarrow> moves st n c) = moves st (counted bq e) c" for bq e st c
      by (simp add: counted_def zero split: option.split)
    let ?s = "s\<lparr>messages := ms2\<rparr>"
    have "owes (\<lambda>c e. moves DELAYED (counted b2 e) c + moves INVISIBLE (counted b1 e) c) ?s"
      using messages_owe [OF b g2] unfolding t by (simp add: algebra_simps)
    moreover have "moves DELAYED (counted b2 e) c \<le> tally c e ms2" for c e
      using tally_nonneg [OF g1, of c e] t(2) [of c e] by simp
    ultimately have "owes (\<lambda>c e. moves DELAYED (counted b2 e) c)
        (fold (\<lambda>(ern, n) s. wake ern (adjustQueueCounters E ern n (- n) 0 0 s)) b1 ?s)"
      using fold_adjust_owes [OF d(1), of "\<lambda>c e. moves DELAYED (counted b2 e) c" INVISIBLE ?s E] by (simp add: count)
    then have "owes (\<lambda>_ _. 0) (fold (\<lambda>(ern, n) s. wake ern (adjustQueueCounters E ern n 0 (- n) 0 s)) b2
        (fold (\<lambda>(ern, n) s. wake ern (adjustQueueCounters E ern n (- n) 0 0 s)) b1 ?s))"
      using fold_adjust_owes [OF d(2), of "\<lambda>_ _. 0" DELAYED _ E] tally_nonneg [OF g2] by (simp add: count)
    then show ?thesis unfolding balanced_owes by (simp add: resetExpiredMessages_def w Let_def)
  qed
qed

end
