(* ===== verification/Eqs_Receive.thy ===== *)
theory Eqs_Receive
  imports Eqs_Queue
begin

text \<open>
  \<^verbatim>\<open>MongoEqsRepository::receiveMessages\<close>. A receive looks up to a deadline for messages, divides its slots over the
  priorities, claims candidates with conditional writes, reads back what it won, moves messages that were received
  too often to the dead letter queue, writes the queue's lease on the rest and settles the counters of both queues.

  Between finding candidates and claiming them other receives can run: \<open>M n\<close> is what they do to the messages in the
  \<open>n\<close>th pass. Between two looks of a waiting receive the world moves on: the loop is given, for each look, what the call
  reads of the world then, and what everybody else does to the state while it waits.
\<close>

type_synonym siblings = "nat \<Rightarrow> Message list \<Rightarrow> Message list"

definition alone :: siblings where
  "alone n ms = ms"

definition kClaimPasses :: nat where
  "kClaimPasses = 4"

text \<open>What the receive reads of its queue.\<close>

record receive_terms =
  terms_maxReceiveCount :: int
  terms_visibility :: int
  terms_deadLetterQueueErn :: string

definition termsOf :: "QueueConfig option \<Rightarrow> receive_terms" where
  "termsOf config =
     (case config of
        None \<Rightarrow> \<lparr>terms_maxReceiveCount = 0, terms_visibility = 0, terms_deadLetterQueueErn = ''''\<rparr>
      | Some queue \<Rightarrow> \<lparr>terms_maxReceiveCount = config_maxReceiveCount queue, terms_visibility = config_visibility queue,
                      terms_deadLetterQueueErn = config_deadLetterQueueErn queue\<rparr>)"

record receiving =
  rcv_state :: eqs
  rcv_result :: "Message list"
  claimedCount :: int
  movedToDlq :: int
  movedBytes :: int
  handlesUsed :: nat
  passesRun :: nat

definition waiting :: "string \<Rightarrow> MessagePriority \<Rightarrow> Message \<Rightarrow> bool" where
  "waiting ern p m \<longleftrightarrow> queueErn m = ern \<and> status m = AVAILABLE \<and> priority m = p"

definition claimed :: "eqs_env \<Rightarrow> string \<Rightarrow> Message \<Rightarrow> Message" where
  "claimed E handle m = m\<lparr>status := INVISIBLE, receiptHandle := handle, receivedCount := receivedCount m + 1,
     msg_modified := system_now E, lastReceived := system_now E\<rparr>"

text \<open>\<^verbatim>\<open>update_each\<close>: one conditional write after another, and how many changed a message.\<close>

fun claim_each :: "eqs_env \<Rightarrow> (string \<times> string) list \<Rightarrow> Message list \<times> int \<Rightarrow> Message list \<times> int" where
  "claim_each E [] acc = acc"
| "claim_each E ((oid, handle) # claims) (ms, modified) =
     (let P = (\<lambda>m. msg_oid m = oid \<and> status m = AVAILABLE) in
      if find P ms = None then claim_each E claims (ms, modified)
      else claim_each E claims (update_first P (claimed E handle) ms, modified + 1))"

definition wonOf :: "string list \<Rightarrow> string list \<Rightarrow> Message list \<Rightarrow> Message list" where
  "wonOf candidates handles ms =
     List.map_filter (\<lambda>oid. find (\<lambda>m. msg_oid m = oid \<and> receiptHandle m \<in> set handles) ms) candidates"

definition isDead :: "receive_terms \<Rightarrow> Message \<Rightarrow> bool" where
  "isDead T m \<longleftrightarrow> terms_deadLetterQueueErn T \<noteq> '''' \<and> receivedCount m > terms_maxReceiveCount T"

definition deadLetter :: "eqs_env \<Rightarrow> receive_terms \<Rightarrow> string \<Rightarrow> Message \<Rightarrow> Message" where
  "deadLetter E T ern m = m\<lparr>queueErn := terms_deadLetterQueueErn T, sourceQueueErn := ern, status := AVAILABLE,
     receivedCount := 0, receiptHandle := '''', msg_modified := system_now E\<rparr>"

definition isStale :: "receive_terms \<Rightarrow> Message \<Rightarrow> bool" where
  "isStale T m \<longleftrightarrow> \<not> (visibilityPinned m \<or> terms_visibility T \<le> 0 \<or> visibilityTimeout m = terms_visibility T)"

text \<open>What follows a claim that changed something: the read back, the dead letters, the lease. The result is the state
  and how many messages the pass hands out.\<close>

definition finish_pass ::
  "eqs_env \<Rightarrow> receive_terms \<Rightarrow> string \<Rightarrow> string list \<Rightarrow> string list \<Rightarrow> receiving \<Rightarrow> receiving \<times> int" where
  "finish_pass E T ern candidates handles r =
     (let ms = messages (rcv_state r);
          won = wonOf candidates handles ms;
          dead = filter (isDead T) won;
          delivered = filter (\<lambda>m. \<not> isDead T m) won;
          deadIds = map msg_oid dead;
          ms = map (\<lambda>m. if msg_oid m \<in> set deadIds then deadLetter E T ern m else m) ms;
          staleIds = map msg_oid (filter (isStale T) delivered);
          ms = map (\<lambda>m. if msg_oid m \<in> set staleIds \<and> receiptHandle m \<in> set handles
                        then m\<lparr>visibilityTimeout := int32 (terms_visibility T)\<rparr> else m) ms;
          delivered = map (\<lambda>m. if isStale T m then m\<lparr>visibilityTimeout := terms_visibility T\<rparr> else m) delivered in
      (r\<lparr>rcv_state := (rcv_state r)\<lparr>messages := ms\<rparr>, claimedCount := claimedCount r + int (length won),
         movedToDlq := movedToDlq r + int (length dead), movedBytes := movedBytes r + sum_list (map msg_size dead),
         rcv_result := rcv_result r @ delivered\<rparr>,
       int (length delivered)))"

definition claim_pass ::
  "eqs_env \<Rightarrow> siblings \<Rightarrow> receive_terms \<Rightarrow> string \<Rightarrow> MessagePriority \<Rightarrow> int \<Rightarrow> receiving \<Rightarrow> (receiving \<times> int) option" where
  "claim_pass E M T ern p want r =
     (let candidates = map msg_oid (take (nat want) (filter (waiting ern p) (messages (rcv_state r)))) in
      if candidates = [] then None
      else let handles = map (\<lambda>i. next_handle E (handlesUsed r + i)) [0..<length candidates];
               (ms, modified) = claim_each E (zip candidates handles) (M (passesRun r) (messages (rcv_state r)), 0);
               r = r\<lparr>rcv_state := (rcv_state r)\<lparr>messages := ms\<rparr>, handlesUsed := handlesUsed r + length candidates,
                     passesRun := Suc (passesRun r)\<rparr> in
           Some (if modified = 0 then (r, 0) else finish_pass E T ern candidates handles r))"

fun claim_passes ::
  "nat \<Rightarrow> eqs_env \<Rightarrow> siblings \<Rightarrow> receive_terms \<Rightarrow> string \<Rightarrow> int \<Rightarrow> MessagePriority \<Rightarrow> int \<Rightarrow> int \<Rightarrow> receiving \<Rightarrow> receiving" where
  "claim_passes 0 E M T ern maxCount p target taken r = r"
| "claim_passes (Suc n) E M T ern maxCount p target taken r =
     (if taken < target \<and> int (length (rcv_result r)) < maxCount
      then (case claim_pass E M T ern p (min (target - taken) (maxCount - int (length (rcv_result r)))) r of
              None \<Rightarrow> r
            | Some (r, k) \<Rightarrow> claim_passes n E M T ern maxCount p target (taken + k) r)
      else r)"

definition availableCounts :: "string \<Rightarrow> int \<Rightarrow> Message list \<Rightarrow> MessagePriority \<Rightarrow> int" where
  "availableCounts ern maxCount ms p =
     (if maxCount \<le> 0 then count_if (waiting ern p) ms else min (count_if (waiting ern p) ms) maxCount)"

definition receive_attempt :: "eqs_env \<Rightarrow> siblings \<Rightarrow> receive_terms \<Rightarrow> string \<Rightarrow> int \<Rightarrow> receiving \<Rightarrow> receiving" where
  "receive_attempt E M T ern maxCount r =
     (let takeCounts = ComputeReceiveCounts maxCount (\<lambda>p. Some (availableCounts ern maxCount (messages (rcv_state r)) p)) (weights E) in
      fold (\<lambda>p r. case map_of takeCounts p of
                     None \<Rightarrow> r
                   | Some target \<Rightarrow> claim_passes kClaimPasses E M T ern maxCount p target 0 r) tier_order r)"

definition settleCounters :: "eqs_env \<Rightarrow> receive_terms \<Rightarrow> string \<Rightarrow> receiving \<Rightarrow> receiving" where
  "settleCounters E T ern r =
     (let s = adjustQueueCounters E ern (- claimedCount r) (claimedCount r - movedToDlq r) 0 (- movedBytes r) (rcv_state r);
          s = (if movedToDlq r > 0
               then wake (terms_deadLetterQueueErn T)
                      (adjustQueueCounters E (terms_deadLetterQueueErn T) (movedToDlq r) 0 0 (movedBytes r) s)
               else s) in
      r\<lparr>rcv_state := s, claimedCount := 0, movedToDlq := 0, movedBytes := 0\<rparr>)"

text \<open>The loop, over the worlds of its looks; \<open>None\<close> when it is still waiting after the last of them.\<close>

type_synonym world = "eqs_env \<times> siblings \<times> (eqs \<Rightarrow> eqs)"

fun receive_loop :: "world list \<Rightarrow> receive_terms \<Rightarrow> string \<Rightarrow> int \<Rightarrow> int \<Rightarrow> millis \<Rightarrow> receiving \<Rightarrow> receiving option" where
  "receive_loop [] T ern maxCount waitTime deadline r = None"
| "receive_loop ((E, M, others) # worlds) T ern maxCount waitTime deadline r =
     (let r = receive_attempt E M T ern maxCount r in
      if rcv_result r \<noteq> [] then Some (settleCounters E T ern r)
      else if waitTime \<le> 0 \<or> steady_now E \<ge> deadline then Some (settleCounters E T ern r)
      else receive_loop worlds T ern maxCount waitTime deadline (r\<lparr>rcv_state := others (rcv_state r)\<rparr>))"

definition start_receiving :: "eqs \<Rightarrow> receiving" where
  "start_receiving s = \<lparr>rcv_state = s, rcv_result = [], claimedCount = 0, movedToDlq = 0, movedBytes = 0, handlesUsed = 0,
     passesRun = 0\<rparr>"

text \<open>The whole call: it enrolls before its first look and leaves when it returns.\<close>

definition receiveMessages :: "eqs_env \<Rightarrow> world list \<Rightarrow> string \<Rightarrow> int \<Rightarrow> int \<Rightarrow> eqs \<Rightarrow> (Message list \<times> eqs) option" where
  "receiveMessages E worlds ern maxCount waitTime s =
     (case queueConfig E ern s of (config, s) \<Rightarrow>
        let me = length (waiters (receiveWaiters s));
            r = start_receiving (s\<lparr>receiveWaiters := Enroll ern (receiveWaiters s)\<rparr>) in
        map_option (\<lambda>r. (rcv_result r, (rcv_state r)\<lparr>receiveWaiters := destroy_waiter me (receiveWaiters (rcv_state r))\<rparr>))
          (receive_loop worlds (termsOf config) ern maxCount waitTime (steady_now E + waitTime * 1000) r))"

subsection \<open>One pass without interference\<close>

lemma take_filter_own:
  "distinct (map k xs) \<Longrightarrow> filter (\<lambda>x. k x \<in> k ` set (take n (filter P xs))) xs = take n (filter P xs)"
proof (induction xs arbitrary: n)
  case (Cons x xs)
  have no: "k x \<notin> k ` set (take j (filter P xs))" for j
    using Cons.prems by (auto dest: in_set_takeD)
  show ?case
  proof (cases "P x \<and> n \<noteq> 0")
    case True
    then obtain j where j: "n = Suc j" by (cases n) auto
    have "filter (\<lambda>y. k y \<in> insert (k x) (k ` set (take j (filter P xs)))) xs =
        filter (\<lambda>y. k y \<in> k ` set (take j (filter P xs))) xs"
      using Cons.prems by (intro filter_cong) (auto simp: image_iff)
    with True j Cons show ?thesis by simp
  next
    case False
    with Cons no [of n] show ?thesis by (cases n) auto
  qed
qed simp

lemma find_unique:
  "distinct (map k xs) \<Longrightarrow> x \<in> set xs \<Longrightarrow> P x \<Longrightarrow> (\<And>y. P y \<Longrightarrow> k y = k x) \<Longrightarrow> find P xs = Some x"
proof (induction xs)
  case (Cons y ys)
  show ?case
  proof (cases "P y")
    case True
    then have "k y = k x" by (rule Cons.prems(4))
    with True Cons.prems(1,2) show ?thesis by (auto simp: image_iff)
  next
    case False
    then have "x \<in> set ys" using Cons.prems(2,3) by auto
    then have "find P ys = Some x" using Cons.prems(1,3) by (intro Cons.IH) (auto intro: Cons.prems(4))
    with False show ?thesis by simp
  qed
qed simp

definition claim_of :: "eqs_env \<Rightarrow> (string \<times> string) list \<Rightarrow> Message \<Rightarrow> Message" where
  "claim_of E cl m = (case map_of cl (msg_oid m) of Some h \<Rightarrow> if status m = AVAILABLE then claimed E h m else m | None \<Rightarrow> m)"

lemma claimed_simps [simp]:
  "msg_oid (claimed E h m) = msg_oid m" "messageId (claimed E h m) = messageId m" "status (claimed E h m) = INVISIBLE"
  "msg_size (claimed E h m) = msg_size m" "receiptHandle (claimed E h m) = h" "queueErn (claimed E h m) = queueErn m"
  "receivedCount (claimed E h m) = receivedCount m + 1"
  by (simp_all add: claimed_def)

lemma claim_of_oid [simp]: "msg_oid (claim_of E cl m) = msg_oid m" "messageId (claim_of E cl m) = messageId m"
  by (simp_all add: claim_of_def split: option.split)

text \<open>However often a message is named, the first claim of it is the one that takes it.\<close>

lemma claim_each_map:
  "distinct (map msg_oid ms) \<Longrightarrow>
   claim_each E cl (ms, n) =
     (map (claim_of E cl) ms, n + count_if (\<lambda>m. status m = AVAILABLE \<and> msg_oid m \<in> fst ` set cl) ms)"
proof (induction cl arbitrary: ms n)
  case Nil
  show ?case by (simp add: claim_of_def count_if_def)
next
  case (Cons x cl)
  obtain k h where x: "x = (k, h)" by fastforce
  let ?P = "\<lambda>m. msg_oid m = k \<and> status m = AVAILABLE"
  let ?ms = "map (\<lambda>m. if status m = AVAILABLE \<and> msg_oid m = k then claimed E h m else m) ms"
  have u: "update_first ?P (claimed E h) ms = ?ms" by (rule update_oid [OF Cons.prems])
  have d: "distinct (map msg_oid ?ms)" using Cons.prems unfolding u [symmetric] by (simp add: map_update_first)
  have comp: "map (claim_of E cl) ?ms = map (claim_of E (x # cl)) ms"
    by (auto simp: claim_of_def x split: option.split)
  have cnt: "count_if (\<lambda>m. status m = AVAILABLE \<and> msg_oid m \<in> fst ` set (x # cl)) ms =
      count_if (\<lambda>m. status m = AVAILABLE \<and> msg_oid m \<in> fst ` set cl) ?ms + of_bool (find ?P ms \<noteq> None)"
    using Cons.prems
  proof (induction ms)
    case (Cons m ms)
    have "find ?P ms = None" if "msg_oid m = k" unfolding find_None_iff
      using Cons.prems that by (metis distinct.simps(2) image_eqI list.set_map list.simps(9))
    with Cons show ?case by (auto simp: x)
  qed simp
  show ?case
  proof (cases "find ?P ms")
    case None
    then have "?ms = ms" by (intro map_idI) (auto simp: find_None_iff)
    with None Cons.IH [OF Cons.prems, of n] comp cnt show ?thesis by (simp add: x)
  next
    case (Some y)
    have "claim_each E (x # cl) (ms, n) = claim_each E cl (?ms, n + 1)" using Some u by (simp add: x Let_def)
    with Some Cons.IH [OF d, of "n + 1"] comp cnt show ?thesis by simp
  qed
qed

text \<open>Whether a candidate is dead once claimed, and what becomes of it.\<close>

definition dies :: "receive_terms \<Rightarrow> Message \<Rightarrow> bool" where
  "dies T m \<longleftrightarrow> terms_deadLetterQueueErn T \<noteq> '''' \<and> receivedCount m + 1 > terms_maxReceiveCount T"

definition lease :: "receive_terms \<Rightarrow> int \<Rightarrow> Message \<Rightarrow> Message" where
  "lease T v m = (if isStale T m then m\<lparr>visibilityTimeout := v\<rparr> else m)"

definition becomes :: "eqs_env \<Rightarrow> receive_terms \<Rightarrow> string \<Rightarrow> (string \<times> string) list \<Rightarrow> Message \<Rightarrow> Message" where
  "becomes E T ern cl m =
     (case map_of cl (msg_oid m) of
        None \<Rightarrow> m
      | Some h \<Rightarrow> if dies T m then deadLetter E T ern (claimed E h m) else lease T (int32 (terms_visibility T)) (claimed E h m))"

definition fresh_handles :: "eqs_env \<Rightarrow> receiving \<Rightarrow> bool" where
  "fresh_handles E r \<longleftrightarrow> inj (next_handle E) \<and> (\<forall>i. next_handle E i \<noteq> '''') \<and>
     (\<forall>i \<ge> handlesUsed r. next_handle E i \<notin> receiptHandle ` set (messages (rcv_state r)))"

definition candidatesOf :: "string \<Rightarrow> MessagePriority \<Rightarrow> int \<Rightarrow> receiving \<Rightarrow> Message list" where
  "candidatesOf ern p want r = take (nat want) (filter (waiting ern p) (messages (rcv_state r)))"

definition claimsOf :: "eqs_env \<Rightarrow> receiving \<Rightarrow> Message list \<Rightarrow> (string \<times> string) list" where
  "claimsOf E r cs = zip (map msg_oid cs) (map (\<lambda>i. next_handle E (handlesUsed r + i)) [0..<length cs])"

lemma map_filter_all: "(\<And>x. x \<in> set xs \<Longrightarrow> f (h x) = Some (g x)) \<Longrightarrow> List.map_filter f (map h xs) = map g xs"
  by (induction xs) (auto simp: List.map_filter_simps)

lemma candidates_mem: "m \<in> set (candidatesOf ern p want r) \<Longrightarrow> m \<in> set (messages (rcv_state r)) \<and> waiting ern p m"
  by (auto simp: candidatesOf_def dest: in_set_takeD)

lemma candidates_distinct: "good_messages (messages (rcv_state r)) \<Longrightarrow> distinct (map msg_oid (candidatesOf ern p want r))"
  by (simp add: candidatesOf_def good_messages_def distinct_map_filter take_map [symmetric])

lemma claimsOf_keys [simp]: "map fst (claimsOf E r cs) = map msg_oid cs"
  by (simp add: claimsOf_def)

lemma claimsOf_keys_set [simp]: "fst ` set (claimsOf E r cs) = msg_oid ` set cs"
  using claimsOf_keys [of E r cs] by (metis list.set_map)

lemma claimsOf_handle:
  assumes "map_of (claimsOf E r cs) k = Some h"
  shows "\<exists>i \<ge> handlesUsed r. i < handlesUsed r + length cs \<and> h = next_handle E i"
proof -
  obtain i where "i < length cs" "h = next_handle E (handlesUsed r + i)"
    using map_of_SomeD [OF assms] by (auto simp: claimsOf_def set_zip)
  then show ?thesis by (intro exI [of _ "handlesUsed r + i"]) simp
qed

lemma candidate_claim:
  assumes "m \<in> set cs" and "status m = AVAILABLE"
  obtains h where "map_of (claimsOf E r cs) (msg_oid m) = Some h" "claim_of E (claimsOf E r cs) m = claimed E h m"
      "h \<in> set (map (\<lambda>i. next_handle E (handlesUsed r + i)) [0..<length cs])"
proof -
  have "map_of (claimsOf E r cs) (msg_oid m) \<noteq> None"
    using assms(1) by (simp add: map_of_eq_None_iff)
  then obtain h where h: "map_of (claimsOf E r cs) (msg_oid m) = Some h" by auto
  then have "h \<in> set (map (\<lambda>i. next_handle E (handlesUsed r + i)) [0..<length cs])"
    using map_of_SomeD [OF h] by (auto simp: claimsOf_def dest: set_zip_rightD)
  with h assms(2) show ?thesis by (intro that) (simp_all add: claim_of_def)
qed

text \<open>The claim, the read back and the two writes after it, in one: every candidate becomes what it is due.\<close>

lemma won_alone:
  assumes d: "distinct (map msg_oid ms)" and sub: "\<And>m. m \<in> set cs \<Longrightarrow> m \<in> set ms \<and> status m = AVAILABLE"
  shows "wonOf (map msg_oid cs) (map (\<lambda>i. next_handle E (handlesUsed r + i)) [0..<length cs]) (map (claim_of E (claimsOf E r cs)) ms) =
    map (claim_of E (claimsOf E r cs)) cs"
  unfolding wonOf_def
proof (rule map_filter_all)
  fix m assume m: "m \<in> set cs"
  obtain h where h: "claim_of E (claimsOf E r cs) m = claimed E h m"
      "h \<in> set (map (\<lambda>i. next_handle E (handlesUsed r + i)) [0..<length cs])"
    by (rule candidate_claim [OF m]) (use sub [OF m] in auto)
  show "find (\<lambda>x. msg_oid x = msg_oid m \<and> receiptHandle x \<in> set (map (\<lambda>i. next_handle E (handlesUsed r + i)) [0..<length cs]))
      (map (claim_of E (claimsOf E r cs)) ms) = Some (claim_of E (claimsOf E r cs) m)"
  proof (rule find_unique [of msg_oid])
    show "distinct (map msg_oid (map (claim_of E (claimsOf E r cs)) ms))" using d by (simp add: comp_def)
    show "claim_of E (claimsOf E r cs) m \<in> set (map (claim_of E (claimsOf E r cs)) ms)" using sub [OF m] by simp
  qed (use h in auto)
qed

lemma becomes_alone:
  fixes r :: receiving and T :: receive_terms and ern :: string
  assumes d: "distinct (map msg_oid ms)" and sub: "\<And>m. m \<in> set cs \<Longrightarrow> m \<in> set ms \<and> status m = AVAILABLE"
    and fresh: "\<forall>i. next_handle E i \<noteq> ''''" and m: "m \<in> set ms"
  defines "cl \<equiv> claimsOf E r cs" and "hs \<equiv> map (\<lambda>i. next_handle E (handlesUsed r + i)) [0..<length cs]"
  defines "dead \<equiv> filter (isDead T) (map (claim_of E cl) cs)"
    and "stale \<equiv> filter (isStale T) (filter (\<lambda>m. \<not> isDead T m) (map (claim_of E cl) cs))"
  defines "m2 \<equiv> (if msg_oid (claim_of E cl m) \<in> set (map msg_oid dead) then deadLetter E T ern (claim_of E cl m) else claim_of E cl m)"
  shows "(if msg_oid m2 \<in> set (map msg_oid stale) \<and> receiptHandle m2 \<in> set hs then m2\<lparr>visibilityTimeout := v\<rparr> else m2) =
    (case map_of cl (msg_oid m) of None \<Rightarrow> m
     | Some h \<Rightarrow> if dies T m then deadLetter E T ern (claimed E h m) else lease T v (claimed E h m))"
proof (cases "m \<in> set cs")
  case True
  obtain h where h: "map_of cl (msg_oid m) = Some h" "claim_of E cl m = claimed E h m" "h \<in> set hs"
    unfolding cl_def hs_def by (rule candidate_claim [OF True]) (use sub [OF True] in auto)
  have own: "msg_oid m \<in> msg_oid ` {x \<in> claim_of E cl ` set cs. Q x} \<longleftrightarrow> Q (claim_of E cl m)" for Q
    using True d sub unfolding distinct_map inj_on_def by (auto simp: image_iff) metis
  have dead: "msg_oid m \<in> set (map msg_oid dead) \<longleftrightarrow> dies T m"
    using own [of "isDead T"] h by (simp add: dead_def isDead_def dies_def)
  have stale: "msg_oid m \<in> set (map msg_oid stale) \<longleftrightarrow> \<not> dies T m \<and> isStale T (claimed E h m)"
    using own [of "\<lambda>x. \<not> isDead T x \<and> isStale T x"] h by (simp add: stale_def isDead_def dies_def conj_commute)
  have "msg_oid m2 = msg_oid m" by (simp add: m2_def deadLetter_def)
  with dead stale h show ?thesis by (auto simp: m2_def lease_def deadLetter_def)
next
  case False
  have "msg_oid m \<notin> msg_oid ` set cs"
    using False m d sub unfolding distinct_map inj_on_def by blast
  then have "map_of cl (msg_oid m) = None" "msg_oid m \<notin> set (map msg_oid dead)" "msg_oid m \<notin> set (map msg_oid stale)"
    by (auto simp: cl_def map_of_eq_None_iff dead_def stale_def)
  then show ?thesis by (simp add: m2_def claim_of_def)
qed

lemma claim_pass_alone:
  fixes r :: receiving and ern :: string and p :: MessagePriority and want :: int
  assumes good: "good_messages (messages (rcv_state r))" and fresh: "fresh_handles E r"
  defines "cs \<equiv> candidatesOf ern p want r" and "ms \<equiv> messages (rcv_state r)"
  defines "cl \<equiv> claimsOf E r cs"
  shows "claim_pass E alone T ern p want r =
    (if cs = [] then None
     else Some (r\<lparr>rcv_state := (rcv_state r)\<lparr>messages := map (becomes E T ern cl) ms\<rparr>,
                  handlesUsed := handlesUsed r + length cs, passesRun := Suc (passesRun r),
                  claimedCount := claimedCount r + int (length cs),
                  movedToDlq := movedToDlq r + count_if (dies T) cs,
                  movedBytes := movedBytes r + sum_list (map msg_size (filter (dies T) cs)),
                  rcv_result := rcv_result r @ map (\<lambda>m. lease T (terms_visibility T) (claim_of E cl m)) (filter (\<lambda>m. \<not> dies T m) cs)\<rparr>,
                count_if (\<lambda>m. \<not> dies T m) cs))"
proof (cases "cs = []")
  case True
  then show ?thesis by (simp add: claim_pass_def cs_def candidatesOf_def Let_def)
next
  case False
  let ?hs = "map (\<lambda>i. next_handle E (handlesUsed r + i)) [0..<length cs]"
  have d: "distinct (map msg_oid ms)" using good by (simp add: good_messages_def ms_def)
  have sub: "m \<in> set ms \<and> status m = AVAILABLE" if "m \<in> set cs" for m
    using candidates_mem that by (auto simp: cs_def ms_def waiting_def)
  have claims: "claim_each E cl (alone (passesRun r) ms, 0) =
      (map (claim_of E cl) ms, count_if (\<lambda>m. status m = AVAILABLE \<and> msg_oid m \<in> msg_oid ` set cs) ms)"
    using claim_each_map [OF d, of E cl 0] by (simp add: alone_def cl_def)
  have some: "count_if (\<lambda>m. status m = AVAILABLE \<and> msg_oid m \<in> msg_oid ` set cs) ms \<noteq> 0"
    using False sub count_if_pos [of "\<lambda>m. status m = AVAILABLE \<and> msg_oid m \<in> msg_oid ` set cs" ms]
    by (metis image_eqI last_in_set less_irrefl)
  let ?r = "r\<lparr>rcv_state := (rcv_state r)\<lparr>messages := map (claim_of E cl) ms\<rparr>, handlesUsed := handlesUsed r + length cs,
      passesRun := Suc (passesRun r)\<rparr>"
  have "claim_pass E alone T ern p want r = Some (finish_pass E T ern (map msg_oid cs) ?hs ?r)"
    unfolding claim_pass_def Let_def candidatesOf_def [symmetric] length_map
    unfolding cs_def [symmetric] ms_def [symmetric] claimsOf_def [symmetric]
    unfolding cl_def [symmetric] claims using False some by simp
  moreover have won: "wonOf (map msg_oid cs) ?hs (map (claim_of E cl) ms) = map (claim_of E cl) cs"
    unfolding cl_def using d sub by (rule won_alone)
  have die: "isDead T (claim_of E cl m) = dies T m" if m: "m \<in> set cs" for m
  proof -
    obtain h where "claim_of E cl m = claimed E h m"
      unfolding cl_def by (rule candidate_claim [OF m]) (use sub [OF m] in auto)
    then show ?thesis by (simp add: isDead_def dies_def)
  qed
  have dead: "filter (isDead T) (map (claim_of E cl) cs) = map (claim_of E cl) (filter (dies T) cs)"
    "filter (\<lambda>m. \<not> isDead T m) (map (claim_of E cl) cs) = map (claim_of E cl) (filter (\<lambda>m. \<not> dies T m) cs)"
    using die by (auto simp: filter_map comp_def cong: filter_cong)
  have size: "msg_size (claim_of E cl m) = msg_size m" for m by (simp add: claim_of_def split: option.split)
  have ne: "\<forall>i. next_handle E i \<noteq> ''''" using fresh by (simp add: fresh_handles_def)
  have ms: "map (\<lambda>m. if msg_oid m \<in> set (map msg_oid (filter (isStale T) (filter (\<lambda>m. \<not> isDead T m) (map (claim_of E cl) cs)))) \<and>
        receiptHandle m \<in> set ?hs then m\<lparr>visibilityTimeout := int32 (terms_visibility T)\<rparr> else m)
      (map (\<lambda>m. if msg_oid m \<in> set (map msg_oid (filter (isDead T) (map (claim_of E cl) cs))) then deadLetter E T ern m else m)
        (map (claim_of E cl) ms)) = map (becomes E T ern cl) ms"
    unfolding map_map comp_def becomes_def cl_def by (intro map_cong refl becomes_alone ne) (use d sub in auto)
  have "finish_pass E T ern (map msg_oid cs) ?hs ?r =
      (r\<lparr>rcv_state := (rcv_state r)\<lparr>messages := map (becomes E T ern cl) ms\<rparr>,
                  handlesUsed := handlesUsed r + length cs, passesRun := Suc (passesRun r),
                  claimedCount := claimedCount r + int (length cs),
                  movedToDlq := movedToDlq r + count_if (dies T) cs,
                  movedBytes := movedBytes r + sum_list (map msg_size (filter (dies T) cs)),
                  rcv_result := rcv_result r @ map (\<lambda>m. lease T (terms_visibility T) (claim_of E cl m)) (filter (\<lambda>m. \<not> dies T m) cs)\<rparr>,
                count_if (\<lambda>m. \<not> dies T m) cs)"
    using ms unfolding finish_pass_def Let_def
    by (simp add: won dead count_if_def lease_def [symmetric] comp_def size)
  ultimately show ?thesis using False by simp
qed

subsection \<open>What a receive owes\<close>

definition debt :: "receive_terms \<Rightarrow> string \<Rightarrow> receiving \<Rightarrow> counter \<Rightarrow> string \<Rightarrow> int" where
  "debt T ern r c e =
     (if e = ern then deltas (- claimedCount r) (claimedCount r - movedToDlq r) 0 (- movedBytes r) c else 0)
     + (if e = terms_deadLetterQueueErn T then deltas (movedToDlq r) 0 0 (movedBytes r) c else 0)"

definition rcv_ok :: "eqs_env \<Rightarrow> receive_terms \<Rightarrow> string \<Rightarrow> receiving \<Rightarrow> bool" where
  "rcv_ok E T ern r \<longleftrightarrow> fresh_handles E r \<and> owes (debt T ern r) (rcv_state r) \<and> 0 \<le> movedToDlq r \<and>
     (movedToDlq r = 0 \<longrightarrow> movedBytes r = 0)"

lemma owes_messages:
  assumes "owes d s" and "good_messages ms"
  shows "owes (\<lambda>c e. d c e + (tally c e ms - tally c e (messages s))) (s\<lparr>messages := ms\<rparr>)"
proof -
  have "pend c e (s\<lparr>messages := ms\<rparr>) = pend c e s" for c e by (simp add: pend_def)
  moreover have "well_formed (s\<lparr>messages := ms\<rparr>)" using assms by (simp add: owes_def well_formed_def)
  moreover have "stored c q + pend c (queue_ern q) s + d c (queue_ern q) = tally c (queue_ern q) (messages s)
      \<and> d c (queue_ern q) \<le> tally c (queue_ern q) (messages s)" if "q \<in> set (queues s)" for q c
    using assms(1) that by (simp add: owes_def)
  ultimately show ?thesis unfolding owes_def by (simp add: add.assoc [symmetric])
qed

lemma tally_map:
  assumes "\<And>m. m \<in> set ms \<Longrightarrow> \<not> Q m \<Longrightarrow> f m = m"
  shows "tally c e (map f ms) - tally c e ms = sum_list (map (\<lambda>m. weight_in c e (f m) - weight_in c e m) (filter Q ms))"
  using assms by (induction ms) auto

lemma becomes_simps [simp]:
  "msg_oid (becomes E T ern cl m) = msg_oid m" "messageId (becomes E T ern cl m) = messageId m"
  "msg_size (becomes E T ern cl m) = msg_size m"
  by (simp_all add: becomes_def lease_def deadLetter_def split: option.split)

lemma good_becomes: "good_messages ms \<Longrightarrow> good_messages (map (becomes E T ern cl) ms)"
  by (rule good_map) (auto simp: good_messages_def becomes_def lease_def deadLetter_def split: option.split)

lemma becomes_weight:
  assumes "map_of cl (msg_oid m) = Some h" and "waiting ern p m"
  shows "weight_in c e (becomes E T ern cl m) - weight_in c e m =
    (if e = ern then deltas (- 1) (1 - of_bool (dies T m)) 0 (- (if dies T m then msg_size m else 0)) c else 0)
    + (if e = terms_deadLetterQueueErn T then deltas (of_bool (dies T m)) 0 0 (if dies T m then msg_size m else 0) c else 0)"
  using assms by (cases c) (auto simp: becomes_def weight_in_def lease_def deadLetter_def waiting_def deltas_def)

lemma pass_tally:
  fixes r :: receiving and T :: receive_terms and ern :: string and p :: MessagePriority and want :: int
  assumes good: "good_messages (messages (rcv_state r))"
  defines "cs \<equiv> candidatesOf ern p want r"
  defines "k \<equiv> int (length cs)" and "d \<equiv> count_if (dies T) cs" and "b \<equiv> sum_list (map msg_size (filter (dies T) cs))"
  shows "tally c e (map (becomes E T ern (claimsOf E r cs)) (messages (rcv_state r))) - tally c e (messages (rcv_state r)) =
    (if e = ern then deltas (- k) (k - d) 0 (- b) c else 0)
    + (if e = terms_deadLetterQueueErn T then deltas d 0 0 b c else 0)"
proof -
  let ?ms = "messages (rcv_state r)" and ?f = "becomes E T ern (claimsOf E r cs)"
  have own: "filter (\<lambda>m. msg_oid m \<in> msg_oid ` set cs) ?ms = cs"
    unfolding cs_def candidatesOf_def by (rule take_filter_own) (use good in \<open>simp add: good_messages_def\<close>)
  have "tally c e (map ?f ?ms) - tally c e ?ms = sum_list (map (\<lambda>m. weight_in c e (?f m) - weight_in c e m) cs)"
  proof -
    have "map_of (claimsOf E r cs) (msg_oid m) = None" if "msg_oid m \<notin> msg_oid ` set cs" for m :: Message
      using that by (simp add: map_of_eq_None_iff)
    then have "?f m = m" if "msg_oid m \<notin> msg_oid ` set cs" for m using that by (simp add: becomes_def)
    then show ?thesis using tally_map [of ?ms "\<lambda>m. msg_oid m \<in> msg_oid ` set cs" ?f c e] own by simp
  qed
  also have "\<dots> = (if e = ern then deltas (- k) (k - d) 0 (- b) c else 0)
      + (if e = terms_deadLetterQueueErn T then deltas d 0 0 b c else 0)"
  proof -
    have cand: "\<exists>h. map_of (claimsOf E r cs) (msg_oid m) = Some h \<and> waiting ern p m" if m: "m \<in> set cs" for m
      using candidate_claim [OF m, of E r thesis for thesis] candidates_mem [of m ern p want r] m
      by (auto simp: cs_def waiting_def)
    have "sum_list (map (\<lambda>m. weight_in c e (?f m) - weight_in c e m) xs) =
        (if e = ern then deltas (- int (length xs)) (int (length xs) - count_if (dies T) xs) 0
           (- sum_list (map msg_size (filter (dies T) xs))) c else 0)
        + (if e = terms_deadLetterQueueErn T then deltas (count_if (dies T) xs) 0 0 (sum_list (map msg_size (filter (dies T) xs))) c else 0)"
      if "set xs \<subseteq> set cs" for xs
      using that
    proof (induction xs)
      case Nil
      show ?case by (cases c) (simp_all add: deltas_def)
    next
      case (Cons m xs)
      obtain h where h: "map_of (claimsOf E r cs) (msg_oid m) = Some h" "waiting ern p m" using cand [of m] Cons.prems by auto
      show ?case unfolding list.map sum_list.Cons becomes_weight [OF h]
        using Cons by (cases c) (auto simp: deltas_def)
    qed
    then show ?thesis by (simp add: k_def d_def b_def)
  qed
  finally show ?thesis .
qed

lemma rcv_ok_good: "rcv_ok E T ern r \<Longrightarrow> good_messages (messages (rcv_state r))"
  by (simp add: rcv_ok_def owes_def well_formed_def)

lemma becomes_handle:
  assumes "m \<in> set ms"
  shows "receiptHandle (becomes E T ern (claimsOf E r cs) m) \<in> receiptHandle ` set ms \<union> {''''} \<union>
    next_handle E ` {handlesUsed r ..< handlesUsed r + length cs}"
proof (cases "map_of (claimsOf E r cs) (msg_oid m)")
  case (Some h)
  obtain i where "handlesUsed r \<le> i" "i < handlesUsed r + length cs" "h = next_handle E i"
    using claimsOf_handle [OF Some] by auto
  with Some show ?thesis by (auto simp: becomes_def lease_def deadLetter_def)
qed (use assms in \<open>simp add: becomes_def\<close>)

lemma fresh_after_pass:
  assumes "fresh_handles E r"
    and "messages (rcv_state r') = map (becomes E T ern (claimsOf E r cs)) (messages (rcv_state r))"
    and "handlesUsed r' = handlesUsed r + length cs"
  shows "fresh_handles E r'"
proof -
  have "next_handle E i \<noteq> receiptHandle (becomes E T ern (claimsOf E r cs) m)"
    if i: "handlesUsed r + length cs \<le> i" and m: "m \<in> set (messages (rcv_state r))" for i m
  proof
    assume eq: "next_handle E i = receiptHandle (becomes E T ern (claimsOf E r cs) m)"
    have "next_handle E i \<notin> next_handle E ` {handlesUsed r ..< handlesUsed r + length cs}"
      using assms(1) i by (auto simp: fresh_handles_def dest: injD)
    moreover have "next_handle E i \<notin> receiptHandle ` set (messages (rcv_state r))" "next_handle E i \<noteq> ''''"
      using assms(1) i by (simp_all add: fresh_handles_def)
    ultimately show False using becomes_handle [OF m, of E T ern r cs] unfolding eq by blast
  qed
  with assms show ?thesis by (auto simp: fresh_handles_def)
qed

lemma claim_pass_ok:
  assumes ok: "rcv_ok E T ern r" and pass: "claim_pass E alone T ern p want r = Some (r', k)"
  shows "rcv_ok E T ern r'" and "int (length (rcv_result r')) = int (length (rcv_result r)) + k" and "0 \<le> k"
    and "0 \<le> want \<Longrightarrow> k \<le> want"
proof -
  let ?cs = "candidatesOf ern p want r"
  let ?ms = "map (becomes E T ern (claimsOf E r ?cs)) (messages (rcv_state r))"
  let ?d = "count_if (dies T) ?cs" and ?b = "sum_list (map msg_size (filter (dies T) ?cs))"
  have fresh: "fresh_handles E r" using ok by (simp add: rcv_ok_def)
  note good = rcv_ok_good [OF ok]
  have some: "?cs \<noteq> []" using pass claim_pass_alone [OF good fresh, of T ern p want] by auto
  note p = pass [unfolded claim_pass_alone [OF good fresh], simplified some, simplified]
  then have r': "r' = r\<lparr>rcv_state := (rcv_state r)\<lparr>messages := ?ms\<rparr>,
        handlesUsed := handlesUsed r + length ?cs, passesRun := Suc (passesRun r),
        claimedCount := claimedCount r + int (length ?cs), movedToDlq := movedToDlq r + ?d, movedBytes := movedBytes r + ?b,
        rcv_result := rcv_result r @ map (\<lambda>m. lease T (terms_visibility T) (claim_of E (claimsOf E r ?cs) m)) (filter (\<lambda>m. \<not> dies T m) ?cs)\<rparr>"
    and k: "k = count_if (\<lambda>m. \<not> dies T m) ?cs" by auto
  have "debt T ern r' = (\<lambda>c e. debt T ern r c e + (tally c e ?ms - tally c e (messages (rcv_state r))))"
    unfolding pass_tally [OF good] by (intro ext) (auto simp: r' debt_def deltas_def split: counter.split)
  then have "owes (debt T ern r') (rcv_state r')"
    using owes_messages [of "debt T ern r" "rcv_state r" ?ms] ok good by (simp add: r' rcv_ok_def good_becomes)
  moreover have "movedBytes r' = 0" if "movedToDlq r' = 0"
  proof -
    have m: "movedToDlq r + ?d = 0" "0 \<le> movedToDlq r" "0 \<le> ?d" using that ok by (simp_all add: r' rcv_ok_def)
    then have "?d = 0" "movedToDlq r = 0" by linarith+
    then have none: "filter (dies T) ?cs = []" and zero: "movedBytes r = 0" using ok by (simp_all add: count_if_def rcv_ok_def)
    have "?b = 0" unfolding none by simp
    with zero show ?thesis by (simp add: r')
  qed
  moreover have "0 \<le> movedToDlq r'" using ok by (simp add: r' rcv_ok_def)
  moreover have "fresh_handles E r'" using fresh_after_pass [OF fresh, of r' T ern ?cs] by (simp add: r')
  ultimately show "rcv_ok E T ern r'"
    by (simp add: rcv_ok_def)
  show "int (length (rcv_result r')) = int (length (rcv_result r)) + k" by (simp add: r' k count_if_def)
  show "0 \<le> k" by (simp add: k)
  assume "0 \<le> want"
  moreover have "length ?cs \<le> nat want" by (simp add: candidatesOf_def)
  moreover have "k \<le> int (length ?cs)" by (simp add: k count_if_def)
  ultimately show "k \<le> want" by linarith
qed

lemma claim_passes_ok:
  "rcv_ok E T ern r \<Longrightarrow> int (length (rcv_result r)) \<le> max 0 maxCount \<Longrightarrow>
   rcv_ok E T ern (claim_passes n E alone T ern maxCount p target taken r) \<and>
   int (length (rcv_result (claim_passes n E alone T ern maxCount p target taken r))) \<le> max 0 maxCount"
proof (induction n arbitrary: taken r)
  case (Suc n)
  show ?case
  proof (cases "taken < target \<and> int (length (rcv_result r)) < maxCount")
    case True
    show ?thesis
    proof (cases "claim_pass E alone T ern p (min (target - taken) (maxCount - int (length (rcv_result r)))) r")
      case None
      with Suc.prems True show ?thesis by simp
    next
      case (Some x)
      obtain r' k where x: "x = (r', k)" by fastforce
      note ok = claim_pass_ok [OF Suc.prems(1) Some [unfolded x]]
      have "k \<le> maxCount - int (length (rcv_result r))" using ok(4) True by simp
      then have "int (length (rcv_result r')) \<le> max 0 maxCount" using ok(2) by simp
      with Suc.IH [OF ok(1)] True Some x show ?thesis by simp
    qed
  qed (use Suc.prems in auto)
qed simp

lemma receive_attempt_ok:
  assumes "rcv_ok E T ern r" and "int (length (rcv_result r)) \<le> max 0 maxCount"
  shows "rcv_ok E T ern (receive_attempt E alone T ern maxCount r) \<and>
    int (length (rcv_result (receive_attempt E alone T ern maxCount r))) \<le> max 0 maxCount"
proof -
  have "rcv_ok E T ern (fold (\<lambda>p r. case f p of None \<Rightarrow> r
        | Some target \<Rightarrow> claim_passes kClaimPasses E alone T ern maxCount p target 0 r) ps r) \<and>
      int (length (rcv_result (fold (\<lambda>p r. case f p of None \<Rightarrow> r
        | Some target \<Rightarrow> claim_passes kClaimPasses E alone T ern maxCount p target 0 r) ps r))) \<le> max 0 maxCount" for f ps
    using assms by (induction ps arbitrary: r) (auto simp: claim_passes_ok split: option.split)
  then show ?thesis by (simp add: receive_attempt_def Let_def)
qed

lemma settle_balanced:
  assumes ok: "rcv_ok E T ern r" and ne: "terms_deadLetterQueueErn T \<noteq> ern"
  shows "balanced (rcv_state (settleCounters E T ern r))"
proof (cases "movedToDlq r = 0")
  case True
  then have "debt T ern r = (\<lambda>c e. if e = ern then deltas (- claimedCount r) (claimedCount r - movedToDlq r) 0 (- movedBytes r) c else 0)"
    using ok by (intro ext) (auto simp: debt_def rcv_ok_def deltas_def split: counter.split)
  then have "balanced (adjustQueueCounters E ern (- claimedCount r) (claimedCount r - movedToDlq r) 0 (- movedBytes r) (rcv_state r))"
    using ok by (intro adjust_settles) (simp add: rcv_ok_def)
  with True show ?thesis by (simp add: settleCounters_def)
next
  case False
  let ?dlq = "terms_deadLetterQueueErn T"
  let ?s = "adjustQueueCounters E ern (- claimedCount r) (claimedCount r - movedToDlq r) 0 (- movedBytes r) (rcv_state r)"
  have "0 \<le> tally c e (messages (rcv_state r))" for c e using rcv_ok_good [OF ok] by (rule tally_nonneg)
  then have "owes (\<lambda>c e. if e = ?dlq then deltas (movedToDlq r) 0 0 (movedBytes r) c else 0) ?s"
    using ok ne by (intro adjust_owes_less [of "debt T ern r"]) (auto simp: rcv_ok_def debt_def)
  then have "balanced (adjustQueueCounters E ?dlq (movedToDlq r) 0 0 (movedBytes r) ?s)" by (rule adjust_settles)
  with False show ?thesis using ok by (auto simp: settleCounters_def Let_def rcv_ok_def)
qed

subsection \<open>How many messages a receive hands out\<close>

lemma length_wonOf: "length (wonOf candidates handles ms) \<le> length candidates"
  unfolding wonOf_def by (induction candidates) (auto simp: List.map_filter_simps split: option.split)

lemma finish_pass_count:
  "(r', k) = finish_pass E T ern cs hs r \<Longrightarrow>
   int (length (rcv_result r')) = int (length (rcv_result r)) + k \<and>
   k = int (length (filter (\<lambda>m. \<not> isDead T m) (wonOf cs hs (messages (rcv_state r)))))"
  by (simp add: finish_pass_def Let_def)

lemma claim_pass_bound:
  assumes "claim_pass E M T ern p want r = Some (r', k)" and "0 \<le> want"
  shows "int (length (rcv_result r')) = int (length (rcv_result r)) + k \<and> 0 \<le> k \<and> k \<le> want"
proof -
  let ?c = "map msg_oid (take (nat want) (filter (waiting ern p) (messages (rcv_state r))))"
  have won: "int (length (filter Q (wonOf ?c hs ms))) \<le> want" for Q hs ms
  proof -
    have "length ?c \<le> nat want" by simp
    then have "length (filter Q (wonOf ?c hs ms)) \<le> nat want"
      using length_filter_le [of Q "wonOf ?c hs ms"] length_wonOf [of ?c hs ms] by linarith
    with assms(2) show ?thesis by linarith
  qed
  obtain ms modified where cl: "claim_each E (zip ?c (map (\<lambda>i. next_handle E (handlesUsed r + i)) [0..<length ?c]))
      (M (passesRun r) (messages (rcv_state r)), 0) = (ms, modified)" by fastforce
  define r0 where "r0 = r\<lparr>rcv_state := (rcv_state r)\<lparr>messages := ms\<rparr>, handlesUsed := handlesUsed r + length ?c,
      passesRun := Suc (passesRun r)\<rparr>"
  have r0: "rcv_result r0 = rcv_result r" by (simp add: r0_def)
  have "(r', k) = (r0, 0) \<or> (r', k) = finish_pass E T ern ?c (map (\<lambda>i. next_handle E (handlesUsed r + i)) [0..<length ?c]) r0"
    using assms(1) unfolding claim_pass_def Let_def cl prod.case r0_def [symmetric]
    by (simp only: option.inject option.distinct split: if_splits) simp_all
  then show ?thesis
  proof
    assume "(r', k) = (r0, 0)"
    with r0 assms(2) show ?thesis by simp
  next
    assume f: "(r', k) = finish_pass E T ern ?c (map (\<lambda>i. next_handle E (handlesUsed r + i)) [0..<length ?c]) r0"
    show ?thesis using finish_pass_count [OF f] r0 won by auto
  qed
qed

lemma claim_passes_bound:
  "int (length (rcv_result r)) \<le> max 0 maxCount \<Longrightarrow>
   int (length (rcv_result (claim_passes n E M T ern maxCount p target taken r))) \<le> max 0 maxCount"
proof (induction n arbitrary: taken r)
  case (Suc n)
  have step: "int (length (rcv_result r')) \<le> max 0 maxCount"
    if "taken < target" "int (length (rcv_result r)) < maxCount"
      "claim_pass E M T ern p (min (target - taken) (maxCount - int (length (rcv_result r)))) r = Some (r', k)" for r' k
    using claim_pass_bound [OF that(3)] that by simp
  show ?case using Suc step by (auto split: option.split)
qed simp

lemma receive_attempt_bound:
  assumes "int (length (rcv_result r)) \<le> max 0 maxCount"
  shows "int (length (rcv_result (receive_attempt E M T ern maxCount r))) \<le> max 0 maxCount"
proof -
  have "int (length (rcv_result (fold (\<lambda>p r. case f p of None \<Rightarrow> r
        | Some target \<Rightarrow> claim_passes kClaimPasses E M T ern maxCount p target 0 r) ps r))) \<le> max 0 maxCount" for f ps
    using assms by (induction ps arbitrary: r) (auto simp: claim_passes_bound split: option.split)
  then show ?thesis by (simp add: receive_attempt_def Let_def)
qed

lemma receive_loop_bound:
  "receive_loop worlds T ern maxCount waitTime deadline r = Some r' \<Longrightarrow> int (length (rcv_result r)) \<le> max 0 maxCount \<Longrightarrow>
   int (length (rcv_result r')) \<le> max 0 maxCount"
proof (induction worlds arbitrary: r)
  case (Cons w worlds)
  obtain E M others where w: "w = (E, M, others)" by (cases w) auto
  have "int (length (rcv_result (receive_attempt E M T ern maxCount r))) \<le> max 0 maxCount"
    by (rule receive_attempt_bound) (rule Cons.prems(2))
  then show ?case using Cons by (auto simp: w Let_def settleCounters_def split: if_splits)
qed simp

lemma receive_ends:
  assumes "(E', M, others) \<in> set worlds" and "waitTime \<le> 0 \<or> steady_now E' \<ge> steady_now E + waitTime * 1000"
  shows "\<exists>result s'. receiveMessages E worlds ern maxCount waitTime s = Some (result, s')"
proof -
  have loop: "\<exists>r'. receive_loop worlds T ern maxCount waitTime deadline r = Some r'"
    if "(E', M, others) \<in> set worlds" "waitTime \<le> 0 \<or> steady_now E' \<ge> deadline" for T deadline r
    using that
  proof (induction worlds arbitrary: r)
    case (Cons w worlds)
    then show ?case by (cases w) (auto simp: Let_def)
  qed simp
  obtain config t where t: "queueConfig E ern s = (config, t)" by fastforce
  obtain r where "receive_loop worlds (termsOf config) ern maxCount waitTime (steady_now E + waitTime * 1000)
      (start_receiving (t\<lparr>receiveWaiters := Enroll ern (receiveWaiters t)\<rparr>)) = Some r"
    using loop [OF assms] by blast
  then show ?thesis by (simp add: receiveMessages_def t Let_def)
qed

text \<open>A receive never hands out more messages than it was asked for, whatever other receives do between its reads
  and its writes and whatever happens while it waits.\<close>

theorem receive_at_most_maxCount:
  assumes "receiveMessages E worlds ern maxCount waitTime s = Some (result, s')"
  shows "int (length result) \<le> max 0 maxCount"
proof -
  obtain config t where t: "queueConfig E ern s = (config, t)" by fastforce
  then obtain r where "receive_loop worlds (termsOf config) ern maxCount waitTime (steady_now E + waitTime * 1000)
      (start_receiving (t\<lparr>receiveWaiters := Enroll ern (receiveWaiters t)\<rparr>)) = Some r" "result = rcv_result r"
    using assms by (auto simp: receiveMessages_def Let_def)
  then show ?thesis by (auto dest!: receive_loop_bound simp: start_receiving_def)
qed

theorem receive_at_most_maxCount_witness:
  "\<exists>result s'. receiveMessages (sample_eqs_env 0) [(sample_eqs_env 0, alone, \<lambda>s. s)] ''q'' 1 0
     (sample_eqs [sample_message ''a'' ''q'' AVAILABLE, sample_message ''b'' ''q'' AVAILABLE] [sample_queue ''q'']) = Some (result, s')
   \<and> int (length result) \<le> 1"
proof -
  obtain result s' where r: "receiveMessages (sample_eqs_env 0) [(sample_eqs_env 0, alone, \<lambda>s. s)] ''q'' 1 0
     (sample_eqs [sample_message ''a'' ''q'' AVAILABLE, sample_message ''b'' ''q'' AVAILABLE] [sample_queue ''q'']) = Some (result, s')"
    using receive_ends [of "sample_eqs_env 0" alone "\<lambda>s. s" "[(sample_eqs_env 0, alone, \<lambda>s. s)]" 0 "sample_eqs_env 0"] by fastforce
  with receive_at_most_maxCount [OF r] show ?thesis by simp
qed

text \<open>(C31) A receive returns: it has an answer at the latest with its first look at or after the deadline, and at its first
  look when it was told not to wait.\<close>

theorem receive_returns:
  assumes "(E', M, others) \<in> set worlds" and "waitTime \<le> 0 \<or> steady_now E' \<ge> steady_now E + waitTime * 1000"
  shows "\<exists>result s'. receiveMessages E worlds ern maxCount waitTime s = Some (result, s')"
  using assms by (rule receive_ends)

theorem receive_returns_witness:
  "\<exists>result s'. receiveMessages (sample_eqs_env 0) [(sample_eqs_env 0, alone, \<lambda>s. s), (sample_eqs_env 3000, alone, \<lambda>s. s)] ''q'' 1 3
     (sample_eqs [] [sample_queue ''q'']) = Some (result, s')"
  by (rule receive_returns [of "sample_eqs_env 3000" alone "\<lambda>s. s"]) (simp_all add: sample_eqs_env_def)

subsection \<open>Exclusive claims\<close>

lemma set_wonOf:
  "set (map msg_oid (wonOf c hs ms)) = {msg_oid m | m. m \<in> set ms \<and> msg_oid m \<in> set c \<and> receiptHandle m \<in> set hs}"
proof (induction c)
  case (Cons k c)
  have "(case find (\<lambda>m. msg_oid m = k \<and> receiptHandle m \<in> set hs) ms of None \<Rightarrow> {} | Some m \<Rightarrow> {msg_oid m}) =
      {msg_oid m | m. m \<in> set ms \<and> msg_oid m = k \<and> receiptHandle m \<in> set hs}"
    by (auto simp: find_None_iff dest: find_SomeD split: option.split)
  with Cons show ?case by (auto simp: wonOf_def List.map_filter_simps split: option.splits)
qed (simp add: wonOf_def List.map_filter_simps)

text \<open>(C28) A message is delivered to one receive only. When the claims of two receives run into each other in any order,
  and each then reads back what its own handles won, no message is won by both, and every available message that either
  claimed is won by one of them.\<close>

theorem claims_exclusive:
  assumes "distinct (map msg_oid ms)" and "claims \<in> shuffles cl1 cl2" and "claim_each E claims (ms, 0) = (ms', n)"
    and "set (map snd cl1) \<inter> set (map snd cl2) = {}"
    and "\<forall>m \<in> set ms. receiptHandle m \<notin> set (map snd cl1) \<union> set (map snd cl2)"
  shows "set (map msg_oid (wonOf (map fst cl1) (map snd cl1) ms')) \<inter> set (map msg_oid (wonOf (map fst cl2) (map snd cl2) ms')) = {} \<and>
    set (map msg_oid (wonOf (map fst cl1) (map snd cl1) ms')) \<union> set (map msg_oid (wonOf (map fst cl2) (map snd cl2) ms')) =
      {msg_oid m | m. m \<in> set ms \<and> status m = AVAILABLE \<and> msg_oid m \<in> set (map fst cl1) \<union> set (map fst cl2)}"
proof -
  have set_claims: "set claims = set cl1 \<union> set cl2" using assms(2) by (rule set_shuffles)
  have ms': "ms' = map (claim_of E claims) ms" using assms(3) claim_each_map [OF assms(1), of E claims 0] by simp
  have won: "set (map msg_oid (wonOf (map fst cl) (map snd cl) ms')) =
      {msg_oid m | m. m \<in> set ms \<and> status m = AVAILABLE \<and> (\<exists>h. map_of claims (msg_oid m) = Some h \<and> (msg_oid m, h) \<in> set cl)}"
    if cl: "set claims = set cl \<union> set cl'" "set (map snd cl) \<inter> set (map snd cl') = {}"
      "\<forall>m \<in> set ms. receiptHandle m \<notin> set (map snd cl)" for cl cl'
  proof -
    have eq: "msg_oid m \<in> fst ` set cl \<and> receiptHandle (claim_of E claims m) \<in> snd ` set cl \<longleftrightarrow>
        status m = AVAILABLE \<and> (\<exists>h. map_of claims (msg_oid m) = Some h \<and> (msg_oid m, h) \<in> set cl)" if m: "m \<in> set ms" for m
    proof -
      have "(msg_oid m, h) \<in> set cl" if "map_of claims (msg_oid m) = Some h" "h \<in> snd ` set cl" for h
      proof -
        have "(msg_oid m, h) \<in> set cl \<or> (msg_oid m, h) \<in> set cl'" using map_of_SomeD [OF that(1)] cl(1) by simp
        moreover have "(msg_oid m, h) \<notin> set cl'" using that(2) cl(2) by (metis disjoint_iff image_eqI list.set_map snd_conv)
        ultimately show ?thesis by blast
      qed
      with m cl(3) show ?thesis by (force simp: claim_of_def split: option.splits if_splits)
    qed
    have "set (map msg_oid (wonOf (map fst cl) (map snd cl) ms')) =
        {msg_oid m | m. m \<in> set ms \<and> (msg_oid m \<in> fst ` set cl \<and> receiptHandle (claim_of E claims m) \<in> snd ` set cl)}"
    proof -
      have img: "{msg_oid m | m. m \<in> f ` A \<and> P m} = {msg_oid (f m) | m. m \<in> A \<and> P (f m)}" for f A and P :: "Message \<Rightarrow> bool" by blast
      show ?thesis unfolding set_wonOf ms' unfolding set_map img by simp
    qed
    also have "\<dots> = {msg_oid m | m. m \<in> set ms \<and>
        (status m = AVAILABLE \<and> (\<exists>h. map_of claims (msg_oid m) = Some h \<and> (msg_oid m, h) \<in> set cl))}"
      using eq by (intro Collect_cong) blast
    finally show ?thesis .
  qed
  have 1: "set (map msg_oid (wonOf (map fst cl1) (map snd cl1) ms')) =
      {msg_oid m | m. m \<in> set ms \<and> status m = AVAILABLE \<and> (\<exists>h. map_of claims (msg_oid m) = Some h \<and> (msg_oid m, h) \<in> set cl1)}"
    by (rule won [of _ cl2]) (use set_claims assms(4,5) in auto)
  have 2: "set (map msg_oid (wonOf (map fst cl2) (map snd cl2) ms')) =
      {msg_oid m | m. m \<in> set ms \<and> status m = AVAILABLE \<and> (\<exists>h. map_of claims (msg_oid m) = Some h \<and> (msg_oid m, h) \<in> set cl2)}"
    by (rule won [of _ cl1]) (use set_claims assms(4,5) in auto)
  have named: "(\<exists>h. map_of claims k = Some h \<and> (k, h) \<in> set cl1) \<or> (\<exists>h. map_of claims k = Some h \<and> (k, h) \<in> set cl2)
      \<longleftrightarrow> k \<in> fst ` set cl1 \<union> fst ` set cl2" for k
  proof (cases "map_of claims k")
    case None
    then have "k \<notin> fst ` set claims" by (simp add: map_of_eq_None_iff)
    with None show ?thesis by (simp add: set_claims image_Un)
  next
    case (Some h)
    have "(k, h) \<in> set cl1 \<or> (k, h) \<in> set cl2" using map_of_SomeD [OF Some] by (simp add: set_claims)
    with Some show ?thesis by (auto intro: rev_image_eqI)
  qed
  have "(k, h) \<notin> set cl1 \<or> (k', h) \<notin> set cl2" for k k' h using assms(4) by force
  then have "set (map msg_oid (wonOf (map fst cl1) (map snd cl1) ms')) \<inter> set (map msg_oid (wonOf (map fst cl2) (map snd cl2) ms')) = {}"
    unfolding 1 2 by force
  moreover have "{msg_oid m | m. m \<in> set ms \<and> status m = AVAILABLE \<and> (\<exists>h. map_of claims (msg_oid m) = Some h \<and> (msg_oid m, h) \<in> set cl1)} \<union>
      {msg_oid m | m. m \<in> set ms \<and> status m = AVAILABLE \<and> (\<exists>h. map_of claims (msg_oid m) = Some h \<and> (msg_oid m, h) \<in> set cl2)} =
      {msg_oid m | m. m \<in> set ms \<and> status m = AVAILABLE \<and> msg_oid m \<in> set (map fst cl1) \<union> set (map fst cl2)}"
    unfolding set_map named [symmetric] by blast
  ultimately show ?thesis unfolding 1 2 by simp
qed

theorem claims_exclusive_witness:
  "set (map msg_oid (wonOf [''a''] [''h1''] (fst (claim_each (sample_eqs_env 0) [(''a'', ''h2''), (''a'', ''h1'')] ([sample_message ''a'' ''q'' AVAILABLE], 0)))))
   \<inter> set (map msg_oid (wonOf [''a''] [''h2''] (fst (claim_each (sample_eqs_env 0) [(''a'', ''h2''), (''a'', ''h1'')] ([sample_message ''a'' ''q'' AVAILABLE], 0))))) = {}"
proof -
  define ms where "ms = [sample_message ''a'' ''q'' AVAILABLE]"
  obtain ms' n where c: "claim_each (sample_eqs_env 0) [(''a'', ''h2''), (''a'', ''h1'')] (ms, 0) = (ms', n)" by fastforce
  have "distinct (map msg_oid ms)" "\<forall>m \<in> set ms. receiptHandle m \<notin> {''h1'', ''h2''}"
    "[(''a'', ''h2''), (''a'', ''h1'')] \<in> shuffles [(''a'', ''h1'')] [(''a'', ''h2'')]"
    by (simp_all add: ms_def sample_message_def)
  with claims_exclusive [OF _ _ c, of "[(''a'', ''h1'')]" "[(''a'', ''h2'')]"] c show ?thesis by (simp add: ms_def)
qed

end
