(* ===== verification/Eqs_Runs.thy ===== *)
theory Eqs_Runs
  imports Eqs_Receive
begin

text \<open>
  Sequences of repository operations. The operations of one process are the steps of a transition system; the balance
  of the counters is its invariant, so the numbers a queue reports after a flush are those of its messages. The
  conditions a step must meet are where the code relies on its callers, or where it drifts: they are discussed, with
  the drift, at the end.
\<close>

datatype eqs_action =
    UpsertQueue Queue | RemoveQueueByName string string string | DeleteQueueByErn string | ClearQueues
  | SendMessage string MessageDraft | SendMessages string "MessageDraft list"
  | UpsertMessage Message | UpdateMessageBody string string
  | ReceiveMessages string int | DeleteMessage string | DeleteMessageById string
  | PurgeQueue string | PurgeAllQueues string string string | ClearMessages
  | RedriveMessages string string string | ResetExpiredMessages | RecountQueues | FlushQueueCounters

fun eqs_next :: "eqs_env \<Rightarrow> eqs_action \<Rightarrow> eqs \<Rightarrow> eqs" where
  "eqs_next E (UpsertQueue queue) s = (case upsertQueue E queue s of Inl _ \<Rightarrow> s | Inr (_, t) \<Rightarrow> t)"
| "eqs_next E (RemoveQueueByName account ns name) s = removeQueueByName account ns name s"
| "eqs_next E (DeleteQueueByErn ern) s = deleteQueueByErn ern s"
| "eqs_next E ClearQueues s = clearQueues s"
| "eqs_next E (SendMessage ern draft) s = snd (sendMessage E ern draft s)"
| "eqs_next E (SendMessages ern drafts) s = snd (sendMessages E ern drafts s)"
| "eqs_next E (UpsertMessage message) s = upsertMessage E message s"
| "eqs_next E (UpdateMessageBody mid newBody) s = snd (updateMessageBody E mid newBody s)"
| "eqs_next E (ReceiveMessages ern maxCount) s =
     (case receiveMessages E [(E, alone, \<lambda>s. s)] ern maxCount 0 s of None \<Rightarrow> s | Some (_, t) \<Rightarrow> t)"
| "eqs_next E (DeleteMessage handle) s = deleteMessage E handle s"
| "eqs_next E (DeleteMessageById mid) s = deleteMessageById E mid s"
| "eqs_next E (PurgeQueue ern) s = purgeQueue E ern s"
| "eqs_next E (PurgeAllQueues reg account ns) s = purgeAllQueues E reg account ns s"
| "eqs_next E ClearMessages s = clearMessages E s"
| "eqs_next E (RedriveMessages dlq target source) s = snd (redriveMessages E dlq target source s)"
| "eqs_next E ResetExpiredMessages s = snd (resetExpiredMessages E s)"
| "eqs_next E RecountQueues s = recountQueues s"
| "eqs_next E FlushQueueCounters s = flushQueueCounters E s"

definition new_handles :: "eqs_env \<Rightarrow> eqs \<Rightarrow> bool" where
  "new_handles E s \<longleftrightarrow> inj (next_handle E) \<and> (\<forall>i. next_handle E i \<noteq> '''' \<and> next_handle E i \<notin> receiptHandle ` set (messages s))"

text \<open>The conditions. Ids and handles are new; a queue is stored with its current counters; a message is rewritten without
  changing what is counted; a batch has no message twice; a queue is not its own dead letter queue; what is redriven is
  available; and a recount comes with nothing pending.\<close>

fun permitted :: "eqs_env \<Rightarrow> eqs_action \<Rightarrow> eqs \<Rightarrow> bool" where
  "permitted E (UpsertQueue queue) s \<longleftrightarrow> counters_current queue s"
| "permitted E (SendMessage ern draft) s \<longleftrightarrow> fresh_oids E s"
| "permitted E (SendMessages ern drafts) s \<longleftrightarrow> fresh_oids E s \<and> distinct (map draft_messageId drafts) \<and>
     (\<forall>d \<in> set drafts. \<forall>m \<in> set (messages s). messageId m \<noteq> draft_messageId d)"
| "permitted E (UpsertMessage message) s \<longleftrightarrow>
     (\<exists>m \<in> set (messages s). messageId m = messageId message \<and> queueErn m = queueErn message \<and> status m = status message
        \<and> msg_size m = msg_size message)"
| "permitted E (ReceiveMessages ern maxCount) s \<longleftrightarrow> new_handles E s \<and>
     terms_deadLetterQueueErn (termsOf (fst (queueConfig E ern s))) \<noteq> ern"
| "permitted E (RedriveMessages dlq target source) s \<longleftrightarrow>
     (\<forall>m \<in> set (messages s). queueErn m = dlq \<and> (source = '''' \<or> sourceQueueErn m = source) \<longrightarrow> status m = AVAILABLE)"
| "permitted E RecountQueues s \<longleftrightarrow> pendingCounters s = []"
| "permitted E _ s \<longleftrightarrow> True"

definition eqs_step :: "eqs \<Rightarrow> eqs \<Rightarrow> bool" where
  "eqs_step s t \<longleftrightarrow> (\<exists>E a. permitted E a s \<and> t = eqs_next E a s)"

lemma eqs_stepI: "permitted E a s \<Longrightarrow> eqs_step s (eqs_next E a s)"
  by (auto simp: eqs_step_def)

definition eqs_start :: eqs where
  "eqs_start = \<lparr>messages = [], queues = [], pendingCounters = [], queueConfigs = [], queueCache = new_cache 5000 4096 False,
     receiveWaiters = no_waiters\<rparr>"

lemma receive_now_balanced:
  assumes b: "balanced s" and h: "new_handles E' s"
    and ne: "terms_deadLetterQueueErn (termsOf (fst (queueConfig E ern s))) \<noteq> ern"
    and r: "receiveMessages E [(E', alone, others)] ern maxCount 0 s = Some (result, t)"
  shows "balanced t"
proof -
  obtain config u where u: "queueConfig E ern s = (config, u)" by fastforce
  then obtain cs where cs: "u = s\<lparr>queueConfigs := cs\<rparr>" using queueConfig_state [of E ern s] by auto
  define T where "T = termsOf config"
  define r0 where "r0 = start_receiving (u\<lparr>receiveWaiters := Enroll ern (receiveWaiters u)\<rparr>)"
  have zero: "debt T ern r0 c e = 0" for c e by (cases c) (simp_all add: debt_def r0_def start_receiving_def deltas_def)
  have "balanced (u\<lparr>receiveWaiters := Enroll ern (receiveWaiters u)\<rparr>)" using b by (simp add: cs)
  then have "owes (debt T ern r0) (rcv_state r0)"
    unfolding zero [abs_def] balanced_owes by (simp add: r0_def start_receiving_def)
  then have ok: "rcv_ok E' T ern r0"
    using h by (auto simp: rcv_ok_def fresh_handles_def new_handles_def r0_def start_receiving_def cs)
  have "rcv_ok E' T ern (receive_attempt E' alone T ern maxCount r0)"
    using receive_attempt_ok [OF ok, of maxCount] by (simp add: r0_def start_receiving_def)
  then have "balanced (rcv_state (settleCounters E' T ern (receive_attempt E' alone T ern maxCount r0)))"
    using settle_balanced ne by (simp add: T_def u)
  moreover have "t = (rcv_state (settleCounters E' T ern (receive_attempt E' alone T ern maxCount r0)))\<lparr>receiveWaiters :=
      destroy_waiter (length (waiters (receiveWaiters u))) (receiveWaiters (rcv_state (settleCounters E' T ern (receive_attempt E' alone T ern maxCount r0))))\<rparr>"
    using r by (auto simp: receiveMessages_def u T_def [symmetric] r0_def [symmetric] Let_def split: if_splits)
  ultimately show ?thesis by simp
qed

lemma upsertMessage_balanced:
  assumes b: "balanced s" and p: "permitted E (UpsertMessage message) s"
  shows "balanced (upsertMessage E message s)"
proof -
  let ?P = "\<lambda>m. messageId m = messageId message"
  let ?f = "\<lambda>old. message\<lparr>msg_oid := msg_oid old, msg_created := msg_created old, msg_modified := system_now E\<rparr>"
  obtain m where m: "m \<in> set (messages s)" "?P m" "queueErn m = queueErn message" "status m = status message"
      "msg_size m = msg_size message" using p by auto
  have d: "distinct (map messageId (messages s))" using balanced_good [OF b] by (simp add: good_messages_def)
  have found: "find ?P (messages s) = Some m" using d m(1,2) by (rule find_unique) (simp add: m(2))
  have g: "good_messages (update_first ?P ?f (messages s))"
    using balanced_good [OF b] m by (intro good_update_first) (auto simp: good_messages_def)
  have t: "tally c e (update_first ?P ?f (messages s)) = tally c e (messages s)" for c e
    using m by (cases c) (simp_all add: tally_update_first [OF found] weight_in_def)
  have "balanced (s\<lparr>messages := update_first ?P ?f (messages s)\<rparr>)"
    using messages_owe [OF b g] unfolding t balanced_owes by simp
  then show ?thesis using m(1,2) by (auto simp: upsertMessage_def Let_def)
qed

lemma recount_balanced:
  assumes b: "balanced s" and none: "pendingCounters s = []"
  shows "balanced (recountQueues s)"
proof -
  have wf: "well_formed s" using b by (simp add: balanced_def)
  then have qs: "queues (recountQueues s) = map (\<lambda>q. setCounts (countedOf (group_messages (messages s)) (queue_ern q)) q) (queues s)"
    by (intro recountQueues_queues) (simp add: well_formed_def good_queues_def)
  have same: "messages (recountQueues s) = messages s" "pendingCounters (recountQueues s) = []"
    by (simp_all add: recountQueues_def Let_def none)
  have key: "queue_key (setCounts k q) = queue_key q" for k q by (simp add: setCounts_def queue_key_def)
  have "good_queues (queues (recountQueues s))"
    using wf by (simp add: qs well_formed_def good_queues_def comp_def key)
  then show ?thesis
    using wf by (auto simp: balanced_def well_formed_def same qs pend_def stored_countedOf sum_group_messages)
qed

lemmas eqs_balanced = deleteQueueByErn_balanced removeQueueByName_balanced clearQueues_balanced sendMessage_balanced
  sendMessages_balanced upsertMessage_balanced updateMessageBody_balanced deleteFirst_balanced purgeQueue_balanced
  purgeAllQueues_balanced clearMessages_balanced redriveMessages_balanced resetExpired_balanced recount_balanced
  forced_flush(1)

lemma eqs_next_balanced: "balanced s \<Longrightarrow> permitted E a s \<Longrightarrow> balanced (eqs_next E a s)"
proof (cases a)
  case (UpsertQueue queue)
  assume "balanced s" "permitted E a s"
  with UpsertQueue show ?thesis
    by (cases "upsertQueue E queue s") (auto intro: upsertQueue_balanced)
next
  case (UpsertMessage message)
  assume "balanced s" "permitted E a s"
  with UpsertMessage show ?thesis by (simp only: eqs_next.simps upsertMessage_balanced)
next
  case (ReceiveMessages ern maxCount)
  assume "balanced s" "permitted E a s"
  with ReceiveMessages show ?thesis
    by (cases "receiveMessages E [(E, alone, \<lambda>s. s)] ern maxCount 0 s") (auto intro: receive_now_balanced)
qed (auto simp: deleteMessage_def deleteMessageById_def flushQueueCounters_def intro: eqs_balanced)

interpretation eqs_runs: inductive_invariant eqs_start eqs_step balanced
proof unfold_locales
  show "balanced eqs_start" by (simp add: eqs_start_def balanced_def well_formed_def good_queues_def good_messages_def)
qed (auto simp: eqs_step_def intro: eqs_next_balanced)

lemma flushed_exact:
  assumes b: "balanced s" and q: "q \<in> set (queues (flushQueueCounters E s))"
  shows "available q = count_if (\<lambda>m. queueErn m = queue_ern q \<and> status m = AVAILABLE) (messages s) \<and>
         delayed q = count_if (\<lambda>m. queueErn m = queue_ern q \<and> status m = DELAYED) (messages s) \<and>
         invisible q = count_if (\<lambda>m. queueErn m = queue_ern q \<and> status m = INVISIBLE) (messages s) \<and>
         queue_size q = sum_list (map msg_size (filter (\<lambda>m. queueErn m = queue_ern q) (messages s)))"
proof -
  have "stored c q = tally c (queue_ern q) (messages s)" for c
    using forced_flush [OF b] q b by (auto simp: balanced_def flushQueueCounters_def flush_simps)
  from this [of CAvailable] this [of CDelayed] this [of CInvisible] this [of CSize] show ?thesis by (simp add: tally_counts)
qed

text \<open>The counters are exact. From an empty service, after any sequence of operations that meet their conditions, the
  numbers a queue reports once the pending adjustments are flushed are those of its messages: how many are available,
  delayed and leased, and how many bytes they hold.\<close>

theorem counters_exact:
  assumes "reach eqs_start eqs_step s" and "q \<in> set (queues (flushQueueCounters E s))"
  shows "available q = count_if (\<lambda>m. queueErn m = queue_ern q \<and> status m = AVAILABLE) (messages s) \<and>
         delayed q = count_if (\<lambda>m. queueErn m = queue_ern q \<and> status m = DELAYED) (messages s) \<and>
         invisible q = count_if (\<lambda>m. queueErn m = queue_ern q \<and> status m = INVISIBLE) (messages s) \<and>
         queue_size q = sum_list (map msg_size (filter (\<lambda>m. queueErn m = queue_ern q) (messages s)))"
  using eqs_runs.reach_inv [OF assms(1)] assms(2) by (rule flushed_exact)

definition sample_draft :: "string \<Rightarrow> MessageDraft" where
  "sample_draft mid = \<lparr>draft_messageId = mid, draft_ern = mid, draft_body = ''hello'', draft_attributes = [],
     draft_systemAttributes = [], draft_priority = MEDIUM\<rparr>"

lemma sample_fresh:
  "fresh_oids (sample_eqs_env t) s \<longleftrightarrow> (\<forall>n. replicate (Suc n) CHR ''o'' \<notin> msg_oid ` set (messages s))"
  by (auto simp: fresh_oids_def sample_eqs_env_def inj_on_def)

definition sample_run :: eqs where
  "sample_run = eqs_next (sample_eqs_env 1000) (SendMessage ''q'' (sample_draft ''m''))
     (eqs_next (sample_eqs_env 0) (UpsertQueue (sample_queue ''q'')) eqs_start)"

lemma sample_run_reached: "reach eqs_start eqs_step sample_run"
proof -
  define s where "s = eqs_next (sample_eqs_env 0) (UpsertQueue (sample_queue ''q'')) eqs_start"
  have p: "permitted (sample_eqs_env 0) (UpsertQueue (sample_queue ''q'')) eqs_start"
    by (simp add: counters_current_def findQueueByName_def eqs_start_def eqs_samples)
  have r: "reach eqs_start eqs_step s" unfolding s_def by (rule reach.step [where step = eqs_step, OF reach.start eqs_stepI [OF p]])
  have "messages s = []" by (simp add: s_def upsertQueue_def eqs_start_def forgetQueueConfig_def Let_def)
  then have "permitted (sample_eqs_env 1000) (SendMessage ''q'' (sample_draft ''m'')) s" by (simp add: sample_fresh)
  from reach.step [where step = eqs_step, OF r eqs_stepI [OF this]] show ?thesis by (simp only: sample_run_def s_def)
qed

lemmas eqs_eval = eqs_samples sample_draft_def eqs_start_def upsertQueue_def named_def forgetQueueConfig_def Let_def sendMessage_def
  queueConfig_def configOf_def buildMessage_def new_Message_def insertMessage_def adjustQueueCounters_def addDeltas_def
  flushPendingCounters_def is_due_def kCounterFlushInterval_def wake_def flushQueueCounters_def writeCounters_def addPending_def

lemma sample_run_messages:
  "map queueErn (messages sample_run) = [''q''] \<and> map status (messages sample_run) = [AVAILABLE] \<and> map msg_size (messages sample_run) = [5]"
  by (simp add: sample_run_def eqs_eval)

lemma sample_run_queues: "map queue_ern (queues (flushQueueCounters (sample_eqs_env 9000) sample_run)) = [''q'']"
  by (simp add: sample_run_def eqs_eval)

theorem counters_exact_witness:
  "available (hd (queues (flushQueueCounters (sample_eqs_env 9000) sample_run))) = 1 \<and>
   queue_size (hd (queues (flushQueueCounters (sample_eqs_env 9000) sample_run))) = 5"
proof -
  define q where "q = hd (queues (flushQueueCounters (sample_eqs_env 9000) sample_run))"
  have q: "q \<in> set (queues (flushQueueCounters (sample_eqs_env 9000) sample_run))" "queue_ern q = ''q''"
    using sample_run_queues by (auto simp: q_def map_eq_Cons_conv)
  show ?thesis using counters_exact [OF sample_run_reached q(1)] sample_run_messages unfolding q_def [symmetric] q(2) by auto
qed

end
