(* ===== verification/Eqs_Delivery.thy ===== *)
theory Eqs_Delivery
  imports Eqs_Runs
begin

text \<open>
  What a receive promises its caller when nothing else claims messages meanwhile: it fills its slots, hands every
  message out under a lease, and the handle it hands out deletes that message. A batch of messages is stored and
  counted as the same messages sent one by one.
\<close>

subsection \<open>One pass, once more\<close>

lemma claim_pass_some:
  fixes r :: receiving
  assumes "good_messages (messages (rcv_state r))" and "fresh_handles E r"
    and "claim_pass E alone T ern p want r = Some (r', k)"
  defines "cs \<equiv> candidatesOf ern p want r"
  shows "messages (rcv_state r') = map (becomes E T ern (claimsOf E r cs)) (messages (rcv_state r))"
    and "handlesUsed r' = handlesUsed r + length cs"
    and "rcv_result r' = rcv_result r @ map (\<lambda>m. lease T (terms_visibility T) (claim_of E (claimsOf E r cs) m)) (filter (\<lambda>m. \<not> dies T m) cs)"
    and "k = count_if (\<lambda>m. \<not> dies T m) cs"
  using assms(3) unfolding claim_pass_alone [OF assms(1,2)] cs_def [symmetric] by (auto split: if_splits)

definition survivors :: "receive_terms \<Rightarrow> string \<Rightarrow> Message list \<Rightarrow> bool" where
  "survivors T ern ms \<longleftrightarrow> (\<forall>m \<in> set ms. queueErn m = ern \<and> status m = AVAILABLE \<longrightarrow> \<not> dies T m)"

definition receive_ready :: "eqs_env \<Rightarrow> receive_terms \<Rightarrow> string \<Rightarrow> receiving \<Rightarrow> bool" where
  "receive_ready E T ern r \<longleftrightarrow> good_messages (messages (rcv_state r)) \<and> fresh_handles E r \<and> survivors T ern (messages (rcv_state r))"

lemma candidate_becomes:
  assumes "m \<in> set (messages (rcv_state r))" and "good_messages (messages (rcv_state r))"
  shows "(m \<in> set (candidatesOf ern p want r) \<and> waiting ern p m \<and>
      (\<exists>h. map_of (claimsOf E r (candidatesOf ern p want r)) (msg_oid m) = Some h \<and>
        h \<in> next_handle E ` {handlesUsed r ..< handlesUsed r + length (candidatesOf ern p want r)} \<and>
        claim_of E (claimsOf E r (candidatesOf ern p want r)) m = claimed E h m)) \<or>
    (m \<notin> set (candidatesOf ern p want r) \<and> map_of (claimsOf E r (candidatesOf ern p want r)) (msg_oid m) = None)"
proof (cases "m \<in> set (candidatesOf ern p want r)")
  case True
  obtain h where h: "map_of (claimsOf E r (candidatesOf ern p want r)) (msg_oid m) = Some h"
      "claim_of E (claimsOf E r (candidatesOf ern p want r)) m = claimed E h m"
    by (rule candidate_claim [OF True]) (use candidates_mem [OF True] in \<open>auto simp: waiting_def\<close>)
  with True candidates_mem [OF True] claimsOf_handle [OF h(1)] show ?thesis by auto
next
  case False
  have "msg_oid m \<notin> msg_oid ` set (candidatesOf ern p want r)"
    using False assms candidates_mem unfolding good_messages_def distinct_map inj_on_def by blast
  with False show ?thesis by (simp add: map_of_eq_None_iff)
qed

lemma pass_ready:
  assumes ready: "receive_ready E T ern r" and pass: "claim_pass E alone T ern p want r = Some (r', k)" and "0 \<le> want"
  shows "receive_ready E T ern r'"
    and "k = min want (count_if (waiting ern p) (messages (rcv_state r)))"
    and "p' \<noteq> p \<Longrightarrow> count_if (waiting ern p') (messages (rcv_state r')) = count_if (waiting ern p') (messages (rcv_state r))"
proof -
  let ?cs = "candidatesOf ern p want r"
  have good: "good_messages (messages (rcv_state r))" and fresh: "fresh_handles E r"
    and surv: "survivors T ern (messages (rcv_state r))" using ready by (simp_all add: receive_ready_def)
  note some = claim_pass_some [OF good fresh pass]
  have alive: "\<not> dies T m" if "m \<in> set ?cs" for m
    using candidates_mem [OF that] surv by (auto simp: survivors_def waiting_def)
  have after: "status (becomes E T ern (claimsOf E r ?cs) m) = INVISIBLE \<and> waiting ern p m \<or>
      becomes E T ern (claimsOf E r ?cs) m = m" if m: "m \<in> set (messages (rcv_state r))" for m
    using candidate_becomes [OF m good, of ern p want E] alive [of m] by (auto simp: becomes_def lease_def)
  have "survivors T ern (messages (rcv_state r'))"
    using surv after unfolding some(1) survivors_def by (auto; metis MessageStatus.distinct)
  then show "receive_ready E T ern r'"
    using good_becomes [OF good] fresh_after_pass [OF fresh some(1,2)] by (simp add: receive_ready_def some(1))
  have "filter (\<lambda>m. \<not> dies T m) ?cs = ?cs" using alive by (simp add: filter_id_conv)
  then show "k = min want (count_if (waiting ern p) (messages (rcv_state r)))"
    using assms(3) unfolding some(4) by (simp add: count_if_def candidatesOf_def min_def nat_le_iff) linarith
  show "count_if (waiting ern p') (messages (rcv_state r')) = count_if (waiting ern p') (messages (rcv_state r))" if "p' \<noteq> p"
  proof -
    have "filter (waiting ern p') (map (becomes E T ern (claimsOf E r ?cs)) ms) = filter (waiting ern p') ms"
      if "set ms \<subseteq> set (messages (rcv_state r))" for ms
      using that
    proof (induction ms)
      case (Cons m ms)
      then show ?case using after [of m] \<open>p' \<noteq> p\<close> by (auto simp: waiting_def)
    qed simp
    then show ?thesis by (simp add: count_if_def some(1))
  qed
qed

lemma passes_stop: "target \<le> taken \<Longrightarrow> claim_passes n E M T ern maxCount p target taken r = r"
  by (cases n) simp_all

lemma tier_fills:
  fixes n :: nat
  assumes ready: "receive_ready E T ern r" and "0 \<le> target" and "target \<le> count_if (waiting ern p) (messages (rcv_state r))"
    and room: "int (length (rcv_result r)) + target \<le> maxCount"
  defines "r' \<equiv> claim_passes (Suc n) E alone T ern maxCount p target 0 r"
  shows "receive_ready E T ern r'" and "int (length (rcv_result r')) = int (length (rcv_result r)) + target"
    and "p' \<noteq> p \<Longrightarrow> count_if (waiting ern p') (messages (rcv_state r')) = count_if (waiting ern p') (messages (rcv_state r))"
proof -
  have *: "receive_ready E T ern r' \<and> int (length (rcv_result r')) = int (length (rcv_result r)) + target \<and>
      (p' \<noteq> p \<longrightarrow> count_if (waiting ern p') (messages (rcv_state r')) = count_if (waiting ern p') (messages (rcv_state r)))"
  proof (cases "target = 0")
    case True
    then show ?thesis using ready by (simp add: r'_def)
  next
    case False
    have want: "min (target - 0) (maxCount - int (length (rcv_result r))) = target" using room by simp
    show ?thesis
    proof (cases "claim_pass E alone T ern p target r")
      case None
      then have "candidatesOf ern p target r = []" using ready claim_pass_alone [of r E T ern p target]
        by (auto simp: receive_ready_def split: if_splits)
      with False assms(2,3) show ?thesis by (auto simp: candidatesOf_def count_if_def)
    next
      case (Some x)
      obtain u k where x: "x = (u, k)" by fastforce
      note pr = pass_ready [OF ready Some [unfolded x] assms(2)]
      have k: "k = target" using pr(2) assms(3) by simp
      have "r' = u" using False room assms(2) want Some x k by (simp add: r'_def passes_stop)
      with pr k show ?thesis
        using claim_pass_bound [OF Some [unfolded x] assms(2)] by simp
    qed
  qed
  then show "receive_ready E T ern r'" "int (length (rcv_result r')) = int (length (rcv_result r)) + target" by simp_all
  show "p' \<noteq> p \<Longrightarrow> count_if (waiting ern p') (messages (rcv_state r')) = count_if (waiting ern p') (messages (rcv_state r))"
    using * by simp
qed

subsection \<open>A receive fills its slots\<close>

lemma count_tiers:
  "count_if (\<lambda>m. queueErn m = ern \<and> status m = AVAILABLE) ms =
     count_if (waiting ern HIGH) ms + count_if (waiting ern MEDIUM) ms + count_if (waiting ern LOW) ms"
proof (induction ms)
  case (Cons m ms)
  then show ?case by (cases "priority m") (simp_all add: waiting_def)
qed simp

lemma attempt_fills:
  assumes ready: "receive_ready E T ern r" and empty: "rcv_result r = []" and pos: "0 < maxCount"
    and w: "0 \<le> weight_high (weights E)" "0 \<le> weight_medium (weights E)" "0 \<le> weight_low (weights E)"
      "0 < weight_high (weights E) + weight_medium (weights E) + weight_low (weights E)"
  shows "int (length (rcv_result (receive_attempt E alone T ern maxCount r))) =
    min maxCount (count_if (\<lambda>m. queueErn m = ern \<and> status m = AVAILABLE) (messages (rcv_state r)))"
proof -
  define A where "A = (\<lambda>p. availableCounts ern maxCount (messages (rcv_state r)) p)"
  define C where "C = (\<lambda>p. count_if (waiting ern p) (messages (rcv_state r)))"
  have A: "A p = min (C p) maxCount" for p using pos by (simp add: A_def C_def availableCounts_def)
  have nonneg: "0 \<le> C p" for p by (simp add: C_def)
  have avail: "tier_available (\<lambda>p. Some (f p)) p = f p" for f :: "MessagePriority \<Rightarrow> int" and p by (simp add: tier_available_def)
  have "\<forall>p. 0 \<le> tier_available (\<lambda>p. Some (A p)) p" unfolding avail using A nonneg pos by simp
  note counts = receive_counts [OF pos w this, unfolded avail]
  define counts where "counts = ComputeReceiveCounts maxCount (\<lambda>p. Some (A p)) (weights E)"
  have spec: "map fst counts = [HIGH, MEDIUM, LOW]"
      "sum_list (map snd counts) = min maxCount (A HIGH + A MEDIUM + A LOW)"
      "\<forall>(p, n) \<in> set counts. 0 \<le> n \<and> n \<le> A p"
    using counts unfolding counts_def by blast+
  then obtain a b c where abc: "counts = [(HIGH, a), (MEDIUM, b), (LOW, c)]" by (auto simp: map_eq_Cons_conv)
  have bounds: "0 \<le> a" "a \<le> C HIGH" "0 \<le> b" "b \<le> C MEDIUM" "0 \<le> c" "c \<le> C LOW" "a + b + c \<le> maxCount"
    using spec(2,3) by (auto simp: abc A)
  define r1 where "r1 = claim_passes (Suc 3) E alone T ern maxCount HIGH a 0 r"
  define r2 where "r2 = claim_passes (Suc 3) E alone T ern maxCount MEDIUM b 0 r1"
  define r3 where "r3 = claim_passes (Suc 3) E alone T ern maxCount LOW c 0 r2"
  have kp: "kClaimPasses = Suc 3" by (simp add: kClaimPasses_def)
  have attempt: "receive_attempt E alone T ern maxCount r = r3"
    unfolding receive_attempt_def Let_def A_def [symmetric] counts_def [symmetric] abc kp
    by (simp add: tier_order_def r1_def r2_def r3_def del: claim_passes.simps)
  note t1 = tier_fills [OF ready bounds(1), where n = 3 and p = HIGH and maxCount = maxCount, folded C_def r1_def]
  have 1: "receive_ready E T ern r1" "int (length (rcv_result r1)) = a"
      "count_if (waiting ern MEDIUM) (messages (rcv_state r1)) = C MEDIUM"
      "count_if (waiting ern LOW) (messages (rcv_state r1)) = C LOW"
    using t1 bounds empty by (simp_all add: C_def)
  note t2 = tier_fills [OF 1(1) bounds(3), where n = 3 and p = MEDIUM and maxCount = maxCount, folded r2_def]
  have 2: "receive_ready E T ern r2" "int (length (rcv_result r2)) = a + b"
      "count_if (waiting ern LOW) (messages (rcv_state r2)) = C LOW"
    using t2 bounds 1 by simp_all
  note t3 = tier_fills [OF 2(1) bounds(5), where n = 3 and p = LOW and maxCount = maxCount, folded r3_def]
  have "int (length (rcv_result r3)) = a + b + c" using t3 bounds 2 by simp
  also have "\<dots> = min maxCount (A HIGH + A MEDIUM + A LOW)" using spec(2) by (simp add: abc)
  also have "\<dots> = min maxCount (C HIGH + C MEDIUM + C LOW)"
    using nonneg [of HIGH] nonneg [of MEDIUM] nonneg [of LOW] pos by (simp add: A min_def)
  finally show ?thesis by (simp add: attempt count_tiers C_def)
qed

text \<open>The state a call starts from, and what it returns when it looks once.\<close>

lemma receive_once:
  assumes "queueConfig E ern s = (config, u)"
  defines "r0 \<equiv> start_receiving (u\<lparr>receiveWaiters := Enroll ern (receiveWaiters u)\<rparr>)"
  shows "receiveMessages E [(E', alone, others)] ern maxCount 0 s =
    (let r = settleCounters E' (termsOf config) ern (receive_attempt E' alone (termsOf config) ern maxCount r0) in
     Some (rcv_result r, (rcv_state r)\<lparr>receiveWaiters := destroy_waiter (length (waiters (receiveWaiters u))) (receiveWaiters (rcv_state r))\<rparr>))"
  by (simp add: receiveMessages_def assms(1) r0_def [symmetric] Let_def)

lemma settle_keeps [simp]:
  "rcv_result (settleCounters E T ern r) = rcv_result r"
  "messages (rcv_state (settleCounters E T ern r)) = messages (rcv_state r)"
  by (simp_all add: settleCounters_def Let_def wake_def)

lemma receive_takes:
  assumes "good_messages (messages s)" and "new_handles E' s" and "0 < maxCount"
    and "0 \<le> weight_high (weights E')" and "0 \<le> weight_medium (weights E')" and "0 \<le> weight_low (weights E')"
    and "0 < weight_high (weights E') + weight_medium (weights E') + weight_low (weights E')"
    and "survivors (termsOf (fst (queueConfig E ern s))) ern (messages s)"
  shows "\<exists>result s'. receiveMessages E [(E', alone, others)] ern maxCount 0 s = Some (result, s') \<and>
    int (length result) = min maxCount (count_if (\<lambda>m. queueErn m = ern \<and> status m = AVAILABLE) (messages s))"
proof -
  obtain config u where u: "queueConfig E ern s = (config, u)" by fastforce
  then obtain cs where cs: "u = s\<lparr>queueConfigs := cs\<rparr>" using queueConfig_state [of E ern s] by auto
  let ?r0 = "start_receiving (u\<lparr>receiveWaiters := Enroll ern (receiveWaiters u)\<rparr>)"
  have "receive_ready E' (termsOf config) ern ?r0"
    using assms(1,2,8) by (auto simp: receive_ready_def fresh_handles_def new_handles_def start_receiving_def cs u)
  then have "int (length (rcv_result (receive_attempt E' alone (termsOf config) ern maxCount ?r0))) =
      min maxCount (count_if (\<lambda>m. queueErn m = ern \<and> status m = AVAILABLE) (messages s))"
    using attempt_fills [OF _ _ assms(3-7), of "termsOf config" ern ?r0] by (simp add: start_receiving_def cs)
  then show ?thesis by (simp add: receive_once [OF u] Let_def)
qed

text \<open>(C26) A receive that nobody races fills its slots: when no message has used up its receives, it hands out as many as
  it was asked for, or every available message of the queue when there are fewer.\<close>

theorem receive_fills:
  assumes "good_messages (messages s)" and "new_handles E' s" and "0 < maxCount"
    and "0 \<le> weight_high (weights E')" and "0 \<le> weight_medium (weights E')" and "0 \<le> weight_low (weights E')"
    and "0 < weight_high (weights E') + weight_medium (weights E') + weight_low (weights E')"
    and "survivors (termsOf (fst (queueConfig E ern s))) ern (messages s)"
  shows "\<exists>result s'. receiveMessages E [(E', alone, others)] ern maxCount 0 s = Some (result, s') \<and>
    int (length result) = min maxCount (count_if (\<lambda>m. queueErn m = ern \<and> status m = AVAILABLE) (messages s))"
  using assms by (rule receive_takes)

lemma sample_handles: "new_handles (sample_eqs_env t) s \<longleftrightarrow> (\<forall>n. replicate (Suc n) CHR ''h'' \<notin> receiptHandle ` set (messages s))"
  by (auto simp: new_handles_def sample_eqs_env_def inj_on_def)

definition two_messages :: eqs where
  "two_messages = sample_eqs [sample_message ''a'' ''q'' AVAILABLE, sample_message ''b'' ''q'' AVAILABLE] [sample_queue ''q'']"

lemma two_messages_ok:
  "good_messages (messages two_messages)" "new_handles (sample_eqs_env t) two_messages"
  by (simp_all add: two_messages_def sample_handles good_messages_def) (simp_all add: eqs_samples)

lemma two_messages_survive:
  "survivors (termsOf (fst (queueConfig (sample_eqs_env 0) ''q'' two_messages))) ''q'' (messages two_messages)"
  "count_if (\<lambda>m. queueErn m = ''q'' \<and> status m = AVAILABLE) (messages two_messages) = 2"
  by (simp add: survivors_def termsOf_def dies_def two_messages_def queueConfig_def configOf_def Let_def eqs_samples)
    (simp add: two_messages_def eqs_samples)

lemma sample_weights:
  "0 \<le> weight_high (weights (sample_eqs_env t))" "0 \<le> weight_medium (weights (sample_eqs_env t))"
  "0 \<le> weight_low (weights (sample_eqs_env t))"
  "0 < weight_high (weights (sample_eqs_env t)) + weight_medium (weights (sample_eqs_env t)) + weight_low (weights (sample_eqs_env t))"
  by (simp_all add: sample_eqs_env_def default_weights_def)

lemmas two_messages_given = two_messages_ok(1) two_messages_ok(2) [of 0] zero_less_one sample_weights two_messages_survive(1)

theorem receive_fills_witness:
  "\<exists>result s'. receiveMessages (sample_eqs_env 0) [(sample_eqs_env 0, alone, \<lambda>s. s)] ''q'' 1 0 two_messages = Some (result, s')
   \<and> int (length result) = 1"
  using receive_fills [OF two_messages_given, of "\<lambda>s. s"] unfolding two_messages_survive(2) by simp

subsection \<open>Leases\<close>

definition leased :: "eqs_env \<Rightarrow> string \<Rightarrow> receiving \<Rightarrow> bool" where
  "leased E ern r \<longleftrightarrow> good_messages (messages (rcv_state r)) \<and> fresh_handles E r \<and>
     (\<forall>m \<in> set (rcv_result r). receiptHandle m \<in> next_handle E ` {..<handlesUsed r} \<and>
        (\<exists>m' \<in> set (messages (rcv_state r)). msg_oid m' = msg_oid m \<and> status m' = INVISIBLE \<and> queueErn m' = ern \<and>
           receiptHandle m' = receiptHandle m)) \<and>
     (\<forall>x \<in> set (messages (rcv_state r)). \<forall>y \<in> set (messages (rcv_state r)).
        receiptHandle x = receiptHandle y \<and> receiptHandle x \<in> next_handle E ` {..<handlesUsed r} \<longrightarrow> x = y)"

lemma claim_handles_distinct:
  assumes "inj (next_handle E)" and "map_of (claimsOf E r cs) k = Some h" and "map_of (claimsOf E r cs) k' = Some h"
  shows "k = k'"
proof -
  obtain i where i: "i < length cs" "k = msg_oid (cs ! i)" "h = next_handle E (handlesUsed r + i)"
    using map_of_SomeD [OF assms(2)] by (auto simp: claimsOf_def set_zip)
  obtain j where j: "j < length cs" "k' = msg_oid (cs ! j)" "h = next_handle E (handlesUsed r + j)"
    using map_of_SomeD [OF assms(3)] by (auto simp: claimsOf_def set_zip)
  have "i = j" using i(3) j(3) assms(1) by (auto dest: injD)
  with i j show ?thesis by simp
qed

lemma claim_pass_leased:
  assumes l: "leased E ern r" and pass: "claim_pass E alone T ern p want r = Some (r', k)"
  shows "leased E ern r'"
proof -
  let ?cs = "candidatesOf ern p want r" and ?ms = "messages (rcv_state r)"
  let ?cl = "claimsOf E r ?cs" and ?new = "{handlesUsed r ..< handlesUsed r + length (candidatesOf ern p want r)}"
  let ?f = "becomes E T ern ?cl"
  have good: "good_messages ?ms" and fresh: "fresh_handles E r" and inj: "inj (next_handle E)"
    and old: "\<And>m. m \<in> set ?ms \<Longrightarrow> receiptHandle m \<notin> next_handle E ` ?new"
    using l by (auto simp: leased_def fresh_handles_def) (metis image_eqI)
  note some = claim_pass_some [OF good fresh pass]
  have used: "{..<handlesUsed r'} = {..<handlesUsed r} \<union> ?new" by (auto simp: some(2))
  have cases: "(\<exists>h \<in> next_handle E ` ?new. map_of ?cl (msg_oid m) = Some h \<and> m \<in> set ?cs \<and> waiting ern p m \<and>
        claim_of E ?cl m = claimed E h m \<and> ?f m = (if dies T m then deadLetter E T ern (claimed E h m)
          else lease T (int32 (terms_visibility T)) (claimed E h m))) \<or> (m \<notin> set ?cs \<and> ?f m = m)"
    if m: "m \<in> set ?ms" for m
    using candidate_becomes [OF m good, of ern p want E] by (auto simp: becomes_def)
  have handle: "receiptHandle (?f m) = '''' \<or> (\<exists>h \<in> next_handle E ` ?new. map_of ?cl (msg_oid m) = Some h \<and> receiptHandle (?f m) = h)
      \<or> ?f m = m" if m: "m \<in> set ?ms" for m
    using cases [OF m]
  proof (elim disjE bexE conjE)
    fix h
    assume h: "h \<in> next_handle E ` ?new" "map_of ?cl (msg_oid m) = Some h"
      and f: "?f m = (if dies T m then deadLetter E T ern (claimed E h m) else lease T (int32 (terms_visibility T)) (claimed E h m))"
    have "receiptHandle (?f m) = '''' \<or> receiptHandle (?f m) = h" unfolding f by (simp add: lease_def deadLetter_def)
    with h show ?thesis by blast
  qed simp
  have fine: "receiptHandle m \<in> next_handle E ` {..<handlesUsed r'} \<and>
      (\<exists>m' \<in> set (messages (rcv_state r')). msg_oid m' = msg_oid m \<and> status m' = INVISIBLE \<and> queueErn m' = ern \<and>
         receiptHandle m' = receiptHandle m)" if m: "m \<in> set (rcv_result r')" for m
  proof (cases "m \<in> set (rcv_result r)")
    case True
    then obtain m' where m': "m' \<in> set ?ms" "msg_oid m' = msg_oid m" "status m' = INVISIBLE" "queueErn m' = ern"
        "receiptHandle m' = receiptHandle m" "receiptHandle m \<in> next_handle E ` {..<handlesUsed r}"
      using l by (auto simp: leased_def)
    have "?f m' = m'" using cases [OF m'(1)] m'(3) by (auto simp: waiting_def)
    with m' show ?thesis unfolding used some(1) by (auto intro: rev_image_eqI)
  next
    case False
    then obtain x where x: "x \<in> set ?cs" "\<not> dies T x" "m = lease T (terms_visibility T) (claim_of E ?cl x)"
      using m by (auto simp: some(3))
    have xm: "x \<in> set ?ms" using candidates_mem [OF x(1)] by simp
    obtain h where h: "h \<in> next_handle E ` ?new" "waiting ern p x" "claim_of E ?cl x = claimed E h x"
        "?f x = lease T (int32 (terms_visibility T)) (claimed E h x)"
      using cases [OF xm] x(1,2) by auto
    have "msg_oid (?f x) = msg_oid m \<and> status (?f x) = INVISIBLE \<and> queueErn (?f x) = ern \<and> receiptHandle (?f x) = receiptHandle m
        \<and> receiptHandle m = h"
      using h x(3) by (simp add: lease_def waiting_def)
    with h(1) xm show ?thesis unfolding used some(1) by auto
  qed
  have unique: "?f x = ?f y"
    if xy: "x \<in> set ?ms" "y \<in> set ?ms" "receiptHandle (?f x) = receiptHandle (?f y)" "receiptHandle (?f x) \<in> next_handle E ` {..<handlesUsed r'}"
    for x y
  proof -
    have ne: "receiptHandle (?f x) \<noteq> ''''" using xy(4) fresh unfolding fresh_handles_def by (metis imageE)
    have xx: "(\<exists>h \<in> next_handle E ` ?new. map_of ?cl (msg_oid x) = Some h \<and> receiptHandle (?f x) = h) \<or> ?f x = x"
      using handle [OF xy(1)] ne by blast
    have yy: "(\<exists>h \<in> next_handle E ` ?new. map_of ?cl (msg_oid y) = Some h \<and> receiptHandle (?f y) = h) \<or> ?f y = y"
      using handle [OF xy(2)] ne xy(3) by metis
    have same: "x = y" if "msg_oid x = msg_oid y"
      using that xy(1,2) good unfolding good_messages_def distinct_map inj_on_def by blast
    from xx yy show ?thesis
    proof (elim disjE bexE)
      fix h h'
      assume "map_of ?cl (msg_oid x) = Some h \<and> receiptHandle (?f x) = h" "map_of ?cl (msg_oid y) = Some h' \<and> receiptHandle (?f y) = h'"
      then have "msg_oid x = msg_oid y" using claim_handles_distinct [OF inj] xy(3) by metis
      then show ?thesis using same by simp
    next
      assume o: "?f x = x" "?f y = y"
      have "receiptHandle x \<in> next_handle E ` {..<handlesUsed r}"
        using xy(4) old [OF xy(1)] unfolding used image_Un o(1) by blast
      with o xy l show ?thesis by (auto simp: leased_def)
    next
      fix h assume "h \<in> next_handle E ` ?new" "map_of ?cl (msg_oid x) = Some h \<and> receiptHandle (?f x) = h" "?f y = y"
      then show ?thesis using old [OF xy(2)] xy(3) by metis
    next
      fix h assume "h \<in> next_handle E ` ?new" "?f x = x" "map_of ?cl (msg_oid y) = Some h \<and> receiptHandle (?f y) = h"
      then show ?thesis using old [OF xy(1)] xy(3) by metis
    qed
  qed
  have "good_messages (messages (rcv_state r'))" unfolding some(1) by (rule good_becomes [OF good])
  moreover have "fresh_handles E r'" by (rule fresh_after_pass [OF fresh some(1,2)])
  moreover have "\<forall>x \<in> set (messages (rcv_state r')). \<forall>y \<in> set (messages (rcv_state r')).
      receiptHandle x = receiptHandle y \<and> receiptHandle x \<in> next_handle E ` {..<handlesUsed r'} \<longrightarrow> x = y"
    using unique unfolding some(1) set_map by blast
  ultimately show ?thesis using fine by (simp add: leased_def)
qed

lemma claim_passes_leased: "leased E ern r \<Longrightarrow> leased E ern (claim_passes n E alone T ern maxCount p target taken r)"
proof (induction n arbitrary: taken r)
  case (Suc n)
  then show ?case by (auto simp: claim_pass_leased split: option.split)
qed simp

lemma receive_attempt_leased:
  assumes "leased E ern r" shows "leased E ern (receive_attempt E alone T ern maxCount r)"
proof -
  have "leased E ern (fold (\<lambda>p r. case f p of None \<Rightarrow> r
      | Some target \<Rightarrow> claim_passes kClaimPasses E alone T ern maxCount p target 0 r) ps r)" for f ps
    using assms by (induction ps arbitrary: r) (auto simp: claim_passes_leased split: option.split)
  then show ?thesis by (simp add: receive_attempt_def Let_def)
qed

lemma delete_first_unique:
  "distinct (map k xs) \<Longrightarrow> x \<in> set xs \<Longrightarrow> P x \<Longrightarrow> \<forall>y \<in> set xs. P y \<longrightarrow> y = x \<Longrightarrow>
   delete_first P xs = filter (\<lambda>y. k y \<noteq> k x) xs"
proof (induction xs)
  case (Cons y ys)
  show ?case
  proof (cases "P y")
    case True
    then have y: "y = x" using Cons.prems(4) by simp
    have "k z \<noteq> k x" if "z \<in> set ys" for z
      using Cons.prems(1) that unfolding y by (metis distinct.simps(2) image_eqI list.set_map list.simps(9))
    then have "filter (\<lambda>y. k y \<noteq> k x) ys = ys" by (simp add: filter_id_conv)
    with True y show ?thesis by simp
  next
    case False
    then have "x \<in> set ys" using Cons.prems(2,3) by auto
    then have "k y \<noteq> k x" using Cons.prems(1) by auto
    moreover have "delete_first P ys = filter (\<lambda>y. k y \<noteq> k x) ys"
    proof (rule Cons.IH)
      show "distinct (map k ys)" using Cons.prems(1) by simp
      show "\<forall>z \<in> set ys. P z \<longrightarrow> z = x" using Cons.prems(4) by (meson list.set_intros(2))
    qed fact+
    ultimately show ?thesis using False by simp
  qed
qed simp



subsection \<open>A batch\<close>

text \<open>The same drafts sent one by one, each with the next of the ids the batch would use.\<close>

definition later :: "nat \<Rightarrow> eqs_env \<Rightarrow> eqs_env" where
  "later n E = E\<lparr>next_oid := \<lambda>k. next_oid E (n + k)\<rparr>"

fun send_each :: "eqs_env \<Rightarrow> nat \<Rightarrow> string \<Rightarrow> MessageDraft list \<Rightarrow> eqs \<Rightarrow> Message list \<times> eqs" where
  "send_each E n ern [] s = ([], s)"
| "send_each E n ern (d # ds) s =
     (case sendMessage (later n E) ern d s of (m, s) \<Rightarrow>
      case send_each E (Suc n) ern ds s of (ms, s) \<Rightarrow> (m # ms, s))"

lemma find_by_ern: "find (\<lambda>q. queue_ern q = ern) qs = None \<longleftrightarrow> ern \<notin> set (map queue_ern qs)"
  by (auto simp: find_None_iff)

lemma queueConfig_stable:
  assumes "queueConfig E ern s = (config, t)" and "queueConfigs t' = queueConfigs t" and "map queue_ern (queues t') = map queue_ern (queues t)"
  shows "queueConfig (later n E) ern t' = (config, t')"
proof -
  have none: "find (\<lambda>q. queue_ern q = ern) (queues t') = None \<longleftrightarrow> find (\<lambda>q. queue_ern q = ern) (queues t) = None"
    unfolding find_by_ern assms(3) ..
  show ?thesis
    using assms(1,2) none
    by (auto simp: queueConfig_def Let_def later_def configOf_def kQueueConfigTtl_def split: option.splits if_splits) metis
qed

lemma adjust_erns [simp]: "map queue_ern (queues (adjustQueueCounters E ern a i dl sz s)) = map queue_ern (queues s)"
proof -
  have w: "map queue_ern (writeCounters E e p qs) = map queue_ern qs" for e p qs
    by (simp add: writeCounters_def map_update_first)
  have "map queue_ern (fold (\<lambda>(ern, pending). writeCounters E ern pending) due qs) = map queue_ern qs" for due qs
    by (induction due arbitrary: qs) (auto simp: w)
  then show ?thesis by (simp add: adjustQueueCounters_def flushPendingCounters_def Let_def)
qed

lemma sendMessage_new:
  assumes q: "queueConfig E ern s = (config, t)" and new: "\<forall>m \<in> set (messages s). messageId m \<noteq> draft_messageId d"
  shows "fst (sendMessage E ern d s) = buildMessage E config ern d"
    and "messages (snd (sendMessage E ern d s)) = messages s @ [(buildMessage E config ern d)\<lparr>msg_oid := next_oid E 0\<rparr>]"
    and "queueConfigs (snd (sendMessage E ern d s)) = queueConfigs t"
    and "map queue_ern (queues (snd (sendMessage E ern d s))) = map queue_ern (queues t)"
proof -
  obtain cs where "t = s\<lparr>queueConfigs := cs\<rparr>" using queueConfig_state [of E ern s] q by auto
  with new show "fst (sendMessage E ern d s) = buildMessage E config ern d"
    "messages (snd (sendMessage E ern d s)) = messages s @ [(buildMessage E config ern d)\<lparr>msg_oid := next_oid E 0\<rparr>]"
    "queueConfigs (snd (sendMessage E ern d s)) = queueConfigs t"
    "map queue_ern (queues (snd (sendMessage E ern d s))) = map queue_ern (queues t)"
    by (auto simp: sendMessage_def q insertMessage_def Let_def wake_def)
qed

lemma buildMessage_later [simp]: "buildMessage (later n E) config ern d = buildMessage E config ern d"
  by (simp add: buildMessage_def later_def Let_def defaultRetentionPeriod_def split: option.split)

lemma send_each_messages:
  assumes "queueConfig (later n E) ern s = (config, t)" and "distinct (map draft_messageId ds)"
    and "\<forall>d \<in> set ds. \<forall>m \<in> set (messages s). messageId m \<noteq> draft_messageId d"
  shows "fst (send_each E n ern ds s) = map (buildMessage E config ern) ds \<and>
    messages (snd (send_each E n ern ds s)) = messages s @ stamp (\<lambda>k. next_oid E (n + k)) (map (buildMessage E config ern) ds) \<and>
    map queue_ern (queues (snd (send_each E n ern ds s))) = map queue_ern (queues s)"
  using assms
proof (induction ds arbitrary: n s t)
  case Nil
  show ?case by (simp add: stamp_def)
next
  case (Cons d ds)
  obtain m u where u: "sendMessage (later n E) ern d s = (m, u)" by fastforce
  have new: "\<forall>m \<in> set (messages s). messageId m \<noteq> draft_messageId d" using Cons.prems(3) by simp
  note sent = sendMessage_new [OF Cons.prems(1) new, unfolded u, simplified]
  obtain cs where t: "t = s\<lparr>queueConfigs := cs\<rparr>" using queueConfig_state [of "later n E" ern s] Cons.prems(1) by auto
  have same: "next_oid (later n E) 0 = next_oid E n" "later k (later n E) = later (n + k) E" for k
    by (simp_all add: later_def add.assoc)
  have q: "queueConfig (later (Suc n) E) ern u = (config, u)"
    using queueConfig_stable [OF Cons.prems(1) sent(3,4), of 1] by (simp add: same)
  have "\<forall>d' \<in> set ds. \<forall>m \<in> set (messages u). messageId m \<noteq> draft_messageId d'"
    using Cons.prems(2,3) by (auto simp: sent(2))
  then have "fst (send_each E (Suc n) ern ds u) = map (buildMessage E config ern) ds \<and>
      messages (snd (send_each E (Suc n) ern ds u)) = messages u @ stamp (\<lambda>k. next_oid E (Suc n + k)) (map (buildMessage E config ern) ds) \<and>
      map queue_ern (queues (snd (send_each E (Suc n) ern ds u))) = map queue_ern (queues u)"
    using Cons.prems(2) by (intro Cons.IH [OF q]) simp_all
  then show ?case using sent by (auto simp: u t same split: prod.split)
qed

definition reported :: "eqs_env \<Rightarrow> eqs \<Rightarrow> (string \<times> int \<times> int \<times> int \<times> int) list" where
  "reported E s = map (\<lambda>q. (queue_ern q, available q, invisible q, delayed q, queue_size q)) (queues (flushQueueCounters E s))"

lemma reported_balanced:
  assumes b: "balanced s"
  shows "reported E s = map (\<lambda>e. (e, tally CAvailable e (messages s), tally CInvisible e (messages s), tally CDelayed e (messages s),
    tally CSize e (messages s))) (map queue_ern (queues s))"
proof -
  have wf: "well_formed s" using b by (simp add: balanced_def)
  let ?t = "flushPendingCounters E True s"
  have erns: "map queue_ern (queues ?t) = map queue_ern (queues s)" by (simp add: flush_simps [OF wf])
  have "stored c q = tally c (queue_ern q) (messages s)" if "q \<in> set (queues ?t)" for c q
    using forced_flush [OF b] that by (simp add: balanced_def flush_simps(3) [OF wf])
  from this [of _ CAvailable] this [of _ CInvisible] this [of _ CDelayed] this [of _ CSize]
  show ?thesis unfolding reported_def erns [symmetric] flushQueueCounters_def by simp
qed

lemma sendMessages_messages:
  assumes q: "queueConfig E ern s = (config, t)" and "distinct (map draft_messageId ds)"
    and "\<forall>d \<in> set ds. \<forall>m \<in> set (messages s). messageId m \<noteq> draft_messageId d"
  shows "fst (sendMessages E ern ds s) = map (buildMessage E config ern) ds \<and>
    messages (snd (sendMessages E ern ds s)) = messages s @ stamp (next_oid E) (map (buildMessage E config ern) ds) \<and>
    map queue_ern (queues (snd (sendMessages E ern ds s))) = map queue_ern (queues s)"
proof (cases "ds = []")
  case False
  obtain cs where t: "t = s\<lparr>queueConfigs := cs\<rparr>" using queueConfig_state [of E ern s] q by auto
  obtain u where u: "insertMessages (next_oid E) (map (buildMessage E config ern) ds) t = (True, u)"
    using insertMessages_succeeds [of "map (buildMessage E config ern) ds" t "next_oid E"] assms(2,3) by (auto simp: t comp_def)
  have "messages u = messages s @ stamp (next_oid E) (map (buildMessage E config ern) ds)" "queues u = queues s"
    using insertMessages_messages [OF u] by (simp_all add: t)
  with False show ?thesis by (simp add: sendMessages_def q u Let_def wake_def)
qed (simp add: sendMessages_def stamp_def)

lemma send_each_balanced:
  assumes "balanced s" and "inj (next_oid E)" and "\<forall>k \<ge> n. next_oid E k \<notin> msg_oid ` set (messages s)"
    and "distinct (map draft_messageId ds)" and "\<forall>d \<in> set ds. \<forall>m \<in> set (messages s). messageId m \<noteq> draft_messageId d"
  shows "balanced (snd (send_each E n ern ds s))"
  using assms(1,3-5)
proof (induction ds arbitrary: n s)
  case (Cons d ds)
  obtain m u where u: "sendMessage (later n E) ern d s = (m, u)" by fastforce
  obtain config t where q: "queueConfig (later n E) ern s = (config, t)" by fastforce
  have "\<forall>m \<in> set (messages s). messageId m \<noteq> draft_messageId d" using Cons.prems(4) by simp
  then have msgs: "messages u = messages s @ [(buildMessage E config ern d)\<lparr>msg_oid := next_oid E n\<rparr>]"
    using sendMessage_new(2) [OF q, of d] by (simp add: u) (simp add: later_def)
  have "fresh_oids (later n E) s"
    using assms(2) Cons.prems(2) by (auto simp: fresh_oids_def later_def intro!: injI dest: injD)
  then have "balanced u" using sendMessage_balanced [OF Cons.prems(1), of "later n E" ern d] by (simp add: u)
  moreover have "\<forall>k \<ge> Suc n. next_oid E k \<notin> msg_oid ` set (messages u)"
    using assms(2) Cons.prems(2) by (auto simp: msgs dest: injD)
  moreover have "\<forall>d' \<in> set ds. \<forall>m \<in> set (messages u). messageId m \<noteq> draft_messageId d'"
    using Cons.prems(3,4) by (auto simp: msgs)
  ultimately have "balanced (snd (send_each E (Suc n) ern ds u))" using Cons.prems(3) by (intro Cons.IH) simp_all
  then show ?case by (auto simp: u split: prod.split)
qed simp

text \<open>(C30) A batch is the same as its messages sent one by one: it returns the same messages, stores the same messages in
  the same order, and leaves every queue reporting the same numbers. The batch writes the collection once.\<close>

theorem sendMessages_as_singles:
  assumes "balanced s" and "fresh_oids E s" and "distinct (map draft_messageId drafts)"
    and "\<forall>d \<in> set drafts. \<forall>m \<in> set (messages s). messageId m \<noteq> draft_messageId d"
  shows "fst (sendMessages E ern drafts s) = fst (send_each E 0 ern drafts s) \<and>
    messages (snd (sendMessages E ern drafts s)) = messages (snd (send_each E 0 ern drafts s)) \<and>
    reported E' (snd (sendMessages E ern drafts s)) = reported E' (snd (send_each E 0 ern drafts s))"
proof -
  obtain config t where q: "queueConfig E ern s = (config, t)" by fastforce
  have l: "later 0 E = E" by (simp add: later_def)
  note one = send_each_messages [of 0 E ern s config t drafts, unfolded l, OF q assms(3,4)]
  note batch = sendMessages_messages [OF q assms(3,4)]
  have "balanced (snd (sendMessages E ern drafts s))" using assms by (rule sendMessages_balanced)
  moreover have "balanced (snd (send_each E 0 ern drafts s))" using assms by (intro send_each_balanced) (simp_all add: fresh_oids_def)
  ultimately show ?thesis using one batch by (simp add: reported_balanced)
qed

lemma empty_balanced: "balanced (sample_eqs [] [sample_queue e])"
  by (simp add: balanced_def well_formed_def good_queues_def good_messages_def pend_def sample_eqs_def)
    (auto simp: sample_queue_def intro: counter.induct)

theorem sendMessages_as_singles_witness:
  "reported (sample_eqs_env 9) (snd (sendMessages (sample_eqs_env 0) ''q'' [sample_draft ''c'', sample_draft ''d'']
     (sample_eqs [] [sample_queue ''q'']))) =
   reported (sample_eqs_env 9) (snd (send_each (sample_eqs_env 0) 0 ''q'' [sample_draft ''c'', sample_draft ''d'']
     (sample_eqs [] [sample_queue ''q''])))"
proof -
  have "fresh_oids (sample_eqs_env 0) (sample_eqs [] [sample_queue ''q''])" by (simp add: sample_fresh sample_eqs_def)
  then show ?thesis
    using sendMessages_as_singles [OF empty_balanced, of "sample_eqs_env 0" "''q''" "[sample_draft ''c'', sample_draft ''d'']"]
    by (simp add: sample_draft_def sample_eqs_def)
qed

subsection \<open>Waking\<close>

lemma Wake_ready: "entry_of w ern = Some e \<Longrightarrow> Wait_ready (ern, e) (Generation (ern, e) w) (Wake ern w)"
  by (simp add: Wait_ready_def Wake_def Generation_def)

lemma redrive_wakes:
  assumes "dlq \<noteq> ''''" and "target \<noteq> ''''" and "fst (redriveMessages E dlq target source s) > 0"
  shows "receiveWaiters (snd (redriveMessages E dlq target source s)) = Wake target (receiveWaiters s)"
proof -
  have "count_if (\<lambda>m. queueErn m = dlq \<and> (source = '''' \<or> sourceQueueErn m = source)) (messages s) > 0"
    using assms by (simp add: redriveMessages_def Let_def)
  with assms(1,2) show ?thesis unfolding redriveMessages_def Let_def by (simp add: wake_def)
qed

text \<open>A send ends the wait of every receive of its queue: whoever is enrolled under the queue and read the generation
  before the send finds it changed afterwards, unless the message is delayed. So does a redrive that moves something.\<close>

theorem send_and_redrive_wake:
  assumes "entry_of (receiveWaiters s) ern = Some e"
    and "\<forall>m \<in> set (messages s). messageId m \<noteq> draft_messageId d"
    and "status (buildMessage E (fst (queueConfig E ern s)) ern d) \<noteq> DELAYED"
    and "dlq \<noteq> ''''" and "ern \<noteq> ''''" and "fst (redriveMessages E dlq ern source s) > 0"
  shows "Wait_ready (ern, e) (Generation (ern, e) (receiveWaiters s)) (receiveWaiters (snd (sendMessage E ern d s))) \<and>
    Wait_ready (ern, e) (Generation (ern, e) (receiveWaiters s)) (receiveWaiters (snd (redriveMessages E dlq ern source s)))"
proof -
  obtain config t where t: "queueConfig E ern s = (config, t)" by fastforce
  then obtain cs where cs: "t = s\<lparr>queueConfigs := cs\<rparr>" using queueConfig_state [of E ern s] by auto
  have "receiveWaiters (snd (sendMessage E ern d s)) = Wake ern (receiveWaiters s)"
    using assms(2,3) by (auto simp: sendMessage_def t insertMessage_def Let_def wake_def cs)
  moreover have "receiveWaiters (snd (redriveMessages E dlq ern source s)) = Wake ern (receiveWaiters s)"
    by (rule redrive_wakes) (rule assms)+
  ultimately show ?thesis using Wake_ready [OF assms(1)] by simp
qed

theorem send_and_redrive_wake_witness:
  "Wait_ready (''q'', 0) 0 (receiveWaiters (snd (sendMessage (sample_eqs_env 0) ''q'' (sample_draft ''c'')
     ((sample_eqs [sample_message ''a'' ''d'' AVAILABLE] [sample_queue ''q''])\<lparr>receiveWaiters := Enroll ''q'' no_waiters\<rparr>))))"
proof -
  define s where "s = (sample_eqs [sample_message ''a'' ''d'' AVAILABLE] [sample_queue ''q''])\<lparr>receiveWaiters := Enroll ''q'' no_waiters\<rparr>"
  have e: "entry_of (receiveWaiters s) ''q'' = Some 0" "Generation (''q'', 0) (receiveWaiters s) = 0"
    by (simp_all add: s_def Enroll_def no_waiters_def Let_def Generation_def)
  have n: "\<forall>m \<in> set (messages s). messageId m \<noteq> draft_messageId (sample_draft ''c'')"
    "status (buildMessage (sample_eqs_env 0) (fst (queueConfig (sample_eqs_env 0) ''q'' s)) ''q'' (sample_draft ''c'')) \<noteq> DELAYED"
    by (simp_all add: s_def eqs_eval)
  have r: "fst (redriveMessages (sample_eqs_env 0) ''d'' ''q'' '''' s) > 0"
    by (simp add: s_def redriveMessages_def Let_def eqs_samples)
  have "''d'' \<noteq> ''''" "''q'' \<noteq> ''''" by simp_all
  from send_and_redrive_wake [OF e(1) n this r]
  have "Wait_ready (''q'', 0) 0 (receiveWaiters (snd (sendMessage (sample_eqs_env 0) ''q'' (sample_draft ''c'') s)))"
    unfolding e(2) by (rule conjunct1)
  then show ?thesis unfolding s_def .
qed

end
