(* ===== verification/Eqs_Drift.thy ===== *)
theory Eqs_Drift
  imports Eqs_Delivery
begin

text \<open>
  Where the counters of a queue drift from its messages: the conditions of \<^const>\<open>permitted\<close> one by one, and what other
  processes can do. Every lemma is a short run on samples, started in a balanced state.
\<close>

definition pending_sent :: "(string \<times> PendingCounters) list" where
  "pending_sent = [(''q'', \<lparr>pending_available = 1, pending_invisible = 0, pending_delayed = 0, pending_size = 5, since = 0\<rparr>)]"

definition just_sent :: eqs where
  "just_sent = (sample_eqs [sample_message ''a'' ''q'' AVAILABLE] [sample_queue ''q''])\<lparr>pendingCounters := pending_sent\<rparr>"

lemma just_sent_balanced: "balanced just_sent"
proof -
  have "stored c (sample_queue ''q'') + pend c ''q'' just_sent = tally c ''q'' (messages just_sent)" for c
    by (cases c) (simp_all add: just_sent_def pending_sent_def pend_def weight_in_def eqs_samples)
  then show ?thesis
    by (simp add: balanced_def well_formed_def good_queues_def good_messages_def just_sent_def pending_sent_def sample_eqs_def)
      (simp add: eqs_samples)
qed

text \<open>A recount leaves what is pending in place, so a message sent shortly before it is counted twice after the flush.\<close>

lemma recount_counts_pending_twice:
  "available (hd (queues (flushQueueCounters (sample_eqs_env 9) (recountQueues just_sent)))) = 2"
  by (simp add: just_sent_def pending_sent_def recountQueues_def group_messages_def groupMessage_def countedOf_def addGroup_def
      no_counts_def setCounts_def eqs_eval clamp_def)

text \<open>Two processes hold an adjustment each: one sent a message, the other received it. Whether the counters come out right
  depends on which of them is written first, because the clamp makes the receiver's a no-op on an empty queue.\<close>

definition receiver_pending :: PendingCounters where
  "receiver_pending = \<lparr>pending_available = -1, pending_invisible = 1, pending_delayed = 0, pending_size = 0, since = 0\<rparr>"

definition sender_pending :: PendingCounters where
  "sender_pending = \<lparr>pending_available = 1, pending_invisible = 0, pending_delayed = 0, pending_size = 5, since = 0\<rparr>"

lemma clamp_depends_on_order:
  "available (hd (writeCounters E ''q'' receiver_pending (writeCounters E ''q'' sender_pending [sample_queue ''q'']))) = 0"
  "available (hd (writeCounters E ''q'' sender_pending (writeCounters E ''q'' receiver_pending [sample_queue ''q'']))) = 1"
  by (simp_all add: writeCounters_def addPending_def clamp_def receiver_pending_def sender_pending_def eqs_samples)

text \<open>A leased message of a dead letter queue is redriven too, but taken out of the available counter.\<close>

lemma redrive_leased_drifts:
  "map (\<lambda>q. (queue_ern q, available q, invisible q)) (queues (flushQueueCounters (sample_eqs_env 9) (snd (redriveMessages (sample_eqs_env 9) ''d'' ''q'' ''''
     (sample_eqs [sample_message ''a'' ''d'' INVISIBLE] [sample_queue ''q'', (sample_queue ''d'')\<lparr>invisible := 1, queue_size := 5\<rparr>])))))
   = [(''q'', 1, 0), (''d'', 0, 1)]"
  by (simp add: redriveMessages_def redriven_def eqs_eval clamp_def)

text \<open>A queue that is deleted with an adjustment pending and created again reports a message it does not have.\<close>

lemma recreated_queue_drifts:
  "map available (queues (flushQueueCounters (sample_eqs_env 9)
     (eqs_next (sample_eqs_env 9) (UpsertQueue (sample_queue ''q'')) (deleteQueueByErn ''q'' just_sent)))) = [1]"
  "messages (deleteQueueByErn ''q'' just_sent) = []"
  by (simp_all add: deleteQueueByErn_def just_sent_def pending_sent_def eqs_eval clamp_def)

text \<open>Storing a queue from a copy read earlier puts its counters back to what they were then.\<close>

lemma stale_copy_reverts_counters:
  "map available (queues (eqs_next (sample_eqs_env 9) (UpsertQueue (sample_queue ''q'')) (flushQueueCounters (sample_eqs_env 9) just_sent))) = [0]"
  "map available (queues (flushQueueCounters (sample_eqs_env 9) just_sent)) = [1]"
  by (simp_all add: just_sent_def pending_sent_def eqs_eval clamp_def)

text \<open>A batch that holds a message twice stores it, reports nothing, and counts nothing.\<close>

lemma batch_with_duplicate_uncounted:
  "map messageId (messages (snd (sendMessages (sample_eqs_env 9) ''q'' [sample_draft ''a'', sample_draft ''a''] (sample_eqs [] [sample_queue ''q''])))) = [''a'']"
  "fst (sendMessages (sample_eqs_env 9) ''q'' [sample_draft ''a'', sample_draft ''a''] (sample_eqs [] [sample_queue ''q''])) = []"
  "map available (queues (flushQueueCounters (sample_eqs_env 9)
     (snd (sendMessages (sample_eqs_env 9) ''q'' [sample_draft ''a'', sample_draft ''a''] (sample_eqs [] [sample_queue ''q'']))))) = [0]"
  by (simp_all add: sendMessages_def eqs_eval clamp_def)

text \<open>A claim asks for the message and its status, not for its queue. Another receive can dead-letter the candidate first; the
  claim then takes it out of the dead letter queue and hands it to a consumer of the queue it left.\<close>

definition sibling_dead_letters :: siblings where
  "sibling_dead_letters n ms = map (\<lambda>m. m\<lparr>queueErn := ''d'', sourceQueueErn := ''q'', status := AVAILABLE, receivedCount := 0\<rparr>) ms"

lemma claim_takes_dead_letter:
  "map_option (\<lambda>(r, k). (map queueErn (rcv_result r), claimedCount r, movedToDlq r))
     (claim_pass (sample_eqs_env 9) sibling_dead_letters
        \<lparr>terms_maxReceiveCount = 3, terms_visibility = 30, terms_deadLetterQueueErn = ''d''\<rparr> ''q'' MEDIUM 1
        (start_receiving (sample_eqs [sample_message ''a'' ''q'' AVAILABLE] [sample_queue ''q'', sample_queue ''d''])))
   = Some ([''d''], 1, 0)"
  by (simp add: claim_pass_def finish_pass_def wonOf_def List.map_filter_simps isDead_def isStale_def claimed_def waiting_def
      sibling_dead_letters_def start_receiving_def Let_def eqs_samples)

end
