(* ===== verification/Long_Poll_Slots.thy ===== *)
theory Long_Poll_Slots
  imports Euclid_Prelude
begin

text \<open>
  \<^verbatim>\<open>core/include/euclid/core/LongPollSlots.h\<close>: how many of a module's threads may be spent waiting. The two
  atomics are the shared state, and each thread is at one of the points between two atomic accesses of
  \<^verbatim>\<open>acquire\<close>, so that an interleaving of any number of threads is a list of single atomic steps. The
  compare-exchange is the weak one and may fail although the value is the expected one.
\<close>

datatype slot_pc =
    Outside                    \<comment> \<open>not in \<^verbatim>\<open>acquire\<close>, no slot\<close>
  | LimitRead int              \<comment> \<open>in \<^verbatim>\<open>acquire\<close>, with the \<^verbatim>\<open>limit\<close> read\<close>
  | Loaded int int             \<comment> \<open>in the loop, with the \<^verbatim>\<open>limit\<close> read and the \<^verbatim>\<open>current\<close> expected\<close>
  | SlotReturned bool          \<comment> \<open>a \<^verbatim>\<open>Slot\<close> lives, with its \<^verbatim>\<open>held()\<close>\<close>

record slots =
  slot_limit :: int
  inUse :: int
  slot_pcs :: "slot_pc list"

datatype slot_action =
    Limit int                  \<comment> \<open>\<^verbatim>\<open>limit(n)\<close>\<close>
  | LoadLimit nat              \<comment> \<open>a thread enters \<^verbatim>\<open>acquire\<close> and reads the first atomic\<close>
  | LoadInUse nat              \<comment> \<open>it reads the second\<close>
  | CompareExchange nat bool   \<comment> \<open>one turn of the loop; the flag is a spurious failure\<close>
  | DestroySlot nat            \<comment> \<open>the destructor\<close>

definition slots_init :: "nat \<Rightarrow> slots" where
  "slots_init threads = \<lparr>slot_limit = 1, inUse = 0, slot_pcs = replicate threads Outside\<rparr>"

definition set_limit :: "int \<Rightarrow> slots \<Rightarrow> slots" where
  "set_limit n s = s\<lparr>slot_limit := max 1 n\<rparr>"

definition set_pc :: "nat \<Rightarrow> slot_pc \<Rightarrow> slots \<Rightarrow> slots" where
  "set_pc t pc s = s\<lparr>slot_pcs := (slot_pcs s)[t := pc]\<rparr>"

definition acquire_limit :: "nat \<Rightarrow> slots \<Rightarrow> slots" where
  "acquire_limit t s = set_pc t (LimitRead (slot_limit s)) s"

definition acquire_load :: "nat \<Rightarrow> int \<Rightarrow> slots \<Rightarrow> slots" where
  "acquire_load t limit s = set_pc t (Loaded limit (inUse s)) s"

text \<open>One turn of \<^verbatim>\<open>while (current < limit)\<close>: leave without a slot, take one, or reload what was there.\<close>

definition acquire_turn :: "nat \<Rightarrow> bool \<Rightarrow> int \<Rightarrow> int \<Rightarrow> slots \<Rightarrow> slots" where
  "acquire_turn t spurious limit current s =
     (if \<not> current < limit then set_pc t (SlotReturned False) s
      else if inUse s = current \<and> \<not> spurious then
        set_pc t (SlotReturned True) (s\<lparr>inUse := current + 1\<rparr>)
      else set_pc t (Loaded limit (inUse s)) s)"

definition destroy_slot :: "nat \<Rightarrow> bool \<Rightarrow> slots \<Rightarrow> slots" where
  "destroy_slot t held s =
     set_pc t Outside (if held then s\<lparr>inUse := inUse s - 1\<rparr> else s)"

text \<open>A step of one thread; an action its thread cannot take now changes nothing.\<close>

fun slot_step :: "slots \<Rightarrow> slot_action \<Rightarrow> slots" where
  "slot_step s (Limit n) = set_limit n s"
| "slot_step s (LoadLimit t) =
     (if t < length (slot_pcs s) \<and> slot_pcs s ! t = Outside then acquire_limit t s else s)"
| "slot_step s (LoadInUse t) =
     (if t < length (slot_pcs s) then
        (case slot_pcs s ! t of LimitRead limit \<Rightarrow> acquire_load t limit s | _ \<Rightarrow> s)
      else s)"
| "slot_step s (CompareExchange t spurious) =
     (if t < length (slot_pcs s) then
        (case slot_pcs s ! t of
           Loaded limit current \<Rightarrow> acquire_turn t spurious limit current s
         | _ \<Rightarrow> s)
      else s)"
| "slot_step s (DestroySlot t) =
     (if t < length (slot_pcs s) then
        (case slot_pcs s ! t of SlotReturned held \<Rightarrow> destroy_slot t held s | _ \<Rightarrow> s)
      else s)"

definition slot_run :: "slots \<Rightarrow> slot_action list \<Rightarrow> slots" where
  "slot_run = foldl slot_step"

definition held_slots :: "slots \<Rightarrow> int" where
  "held_slots s = count_if (\<lambda>pc. pc = SlotReturned True) (slot_pcs s)"

subsection \<open>The bound\<close>

text \<open>Everything in flight was decided against a limit of at most \<open>b\<close>.\<close>

fun pc_below :: "int \<Rightarrow> slot_pc \<Rightarrow> bool" where
  "pc_below b (LimitRead limit) = (limit \<le> b)"
| "pc_below b (Loaded limit current) = (limit \<le> b)"
| "pc_below b _ = True"

definition slots_inv :: "int \<Rightarrow> slots \<Rightarrow> bool" where
  "slots_inv b s \<longleftrightarrow>
     inUse s = held_slots s \<and> inUse s \<le> b \<and> slot_limit s \<le> b \<and> list_all (pc_below b) (slot_pcs s)"

fun limit_below :: "int \<Rightarrow> slot_action \<Rightarrow> bool" where
  "limit_below b (Limit n) = (n \<le> b)"
| "limit_below b _ = True"

lemma list_all_update: "list_all P xs \<Longrightarrow> P x \<Longrightarrow> list_all P (xs[i := x])"
  by (auto simp: list_all_iff dest!: set_update_subset_insert [THEN subsetD])

lemma slots_inv_init: "1 \<le> b \<Longrightarrow> slots_inv b (slots_init threads)"
  by (auto simp: slots_inv_def slots_init_def held_slots_def list_all_iff)

lemma slots_inv_set_limit: "1 \<le> b \<Longrightarrow> n \<le> b \<Longrightarrow> slots_inv b s \<Longrightarrow> slots_inv b (set_limit n s)"
  by (simp add: slots_inv_def set_limit_def held_slots_def)

lemma slots_inv_limit:
  "slots_inv b s \<Longrightarrow> t < length (slot_pcs s) \<Longrightarrow> slot_pcs s ! t = Outside \<Longrightarrow> slots_inv b (acquire_limit t s)"
  by (simp add: slots_inv_def acquire_limit_def set_pc_def held_slots_def count_if_update list_all_update)

lemma slots_inv_load:
  assumes "slots_inv b s" and "t < length (slot_pcs s)" and "slot_pcs s ! t = LimitRead limit"
  shows "slots_inv b (acquire_load t limit s)"
proof -
  from assms have "limit \<le> b" by (auto simp: slots_inv_def list_all_length)
  with assms show ?thesis
    by (simp add: slots_inv_def acquire_load_def set_pc_def held_slots_def count_if_update list_all_update)
qed

lemma slots_inv_turn:
  assumes "slots_inv b s" and "t < length (slot_pcs s)" and "slot_pcs s ! t = Loaded limit current"
  shows "slots_inv b (acquire_turn t spurious limit current s)"
proof -
  from assms have "limit \<le> b" by (auto simp: slots_inv_def list_all_length)
  with assms show ?thesis
    by (simp add: slots_inv_def acquire_turn_def set_pc_def held_slots_def count_if_update list_all_update)
qed

lemma slots_inv_destroy:
  "slots_inv b s \<Longrightarrow> t < length (slot_pcs s) \<Longrightarrow> slot_pcs s ! t = SlotReturned held \<Longrightarrow>
   slots_inv b (destroy_slot t held s)"
  by (simp add: slots_inv_def destroy_slot_def set_pc_def held_slots_def count_if_update list_all_update)

lemma slots_inv_step:
  "1 \<le> b \<Longrightarrow> limit_below b a \<Longrightarrow> slots_inv b s \<Longrightarrow> slots_inv b (slot_step s a)"
  by (cases a)
    (auto simp: slots_inv_set_limit slots_inv_limit slots_inv_load slots_inv_turn slots_inv_destroy split: slot_pc.split)

lemma slots_inv_run:
  "1 \<le> b \<Longrightarrow> list_all (limit_below b) as \<Longrightarrow> slots_inv b s \<Longrightarrow> slots_inv b (slot_run s as)"
  by (induction as arbitrary: s) (auto simp: slot_run_def slots_inv_step)

text \<open>(C40) However the threads of a module interleave inside \<^verbatim>\<open>acquire\<close> and however often the weak
  compare-exchange fails, no more slots are held at once than the largest limit that was ever set (one
  before any), and the counter is exactly the number of slots held, so none leaks and none is counted
  twice.\<close>

theorem long_poll_slots_bounded:
  assumes "1 \<le> b" and "list_all (limit_below b) as"
  shows "held_slots (slot_run (slots_init threads) as) \<le> b \<and>
         inUse (slot_run (slots_init threads) as) = held_slots (slot_run (slots_init threads) as)"
  using slots_inv_run [OF assms slots_inv_init [OF assms(1), of threads]] by (simp add: slots_inv_def)

theorem long_poll_slots_bounded_witness:
  "held_slots (slot_run (slots_init 3)
     [Limit 2, LoadLimit 0, LoadLimit 1, LoadLimit 2, LoadInUse 0, LoadInUse 1, LoadInUse 2,
      CompareExchange 0 False, CompareExchange 1 False,
      CompareExchange 1 False, CompareExchange 2 False, CompareExchange 2 False]) \<le> 2"
  by (rule long_poll_slots_bounded [THEN conjunct1]) simp_all

text \<open>A thread that asks while fewer slots are held than the limit allows, and is not disturbed between
  its reads and its exchange, is given one; one that asks at the limit is sent away without waiting. In both
  cases \<^verbatim>\<open>acquire\<close> is over after one turn of its loop.\<close>

theorem long_poll_acquire_decides:
  assumes "t < length (slot_pcs s)" and "slot_pcs s ! t = Outside"
  shows "slot_pcs (slot_run s [LoadLimit t, LoadInUse t, CompareExchange t False]) ! t =
           SlotReturned (inUse s < slot_limit s)"
  using assms
  by (simp add: slot_run_def acquire_limit_def acquire_load_def acquire_turn_def set_pc_def)

theorem long_poll_acquire_decides_witness:
  "slot_pcs (slot_run (slots_init 1) [LoadLimit 0, LoadInUse 0, CompareExchange 0 False]) ! 0 = SlotReturned True"
  using long_poll_acquire_decides [of 0 "slots_init 1"] by (simp add: slots_init_def)

end
