(* ===== verification/Event_Bus.thy ===== *)
theory Event_Bus
  imports Json_Values Change_Waiters "HOL-Library.AList"
begin

text \<open>
  The event bus, \<^verbatim>\<open>database/src/EventBus.cpp\<close>: subscriptions, publishing, and the operations of external subscribers
  and of whoever holds events back. \<^verbatim>\<open>Event_Polling\<close> has the delivery to modules.

  The three collections are lists of documents in order; a document of the events is a record whose fields that may be
  missing are empty strings or \<open>None\<close>. A payload and a filter are stored as text and parsed when they are read; they are
  kept as the values here. What the process keeps is beside the collections: the cache of subscribers, the notices that
  wait for their flush, the waiters of receives, and \<open>pushed\<close>, the pushes handed to \<^verbatim>\<open>EventPusher\<close> so far.

  A method is one step of its process, except where the code itself provides for others in between: the claim of
  \<^verbatim>\<open>ClaimEvents\<close> is conditional because siblings run between finding candidates and claiming them. The database is
  available, and the counter that keeps a lookup of subscribers from storing what another thread has invalidated has
  nothing to do when a lookup is one step.
\<close>

subsection \<open>State\<close>

datatype event_status = PENDING | CLAIMED | HELD

record event =
  ev_oid :: string
  eventId :: string
  eventType :: string
  sourceModule :: string
  targetModule :: string
  targetErn :: string
  sourceErn :: string
  ev_messageId :: string
  payload :: json
  ev_status :: event_status
  heldBy :: string
  claimedBy :: string
  claimToken :: string
  attempts :: int
  visibleAt :: millis
  createdAt :: millis
  expiresAt :: "millis option"

datatype DeliveryMode = Durable | Live

record subscription =
  sub_moduleType :: string
  sub_eventType :: string
  sub_filter :: "(string \<times> json) list"
  sub_accountId :: string
  sub_mode :: DeliveryMode
  ephemeral :: bool
  sub_createdAt :: millis
  lastSeenAt :: millis

record SubscriberRecord =
  rec_target :: string
  external :: bool
  rec_filter :: "(string \<times> json) list"
  rec_accountId :: string
  rec_mode :: DeliveryMode

record Delivery =
  del_targetErn :: string
  del_sourceErn :: string
  del_messageId :: string
  del_heldBy :: string

definition no_delivery :: Delivery where
  "no_delivery = \<lparr>del_targetErn = '''', del_sourceErn = '''', del_messageId = '''', del_heldBy = ''''\<rparr>"

record PendingNotify =
  ntf_subscriber :: string
  ntf_eventType :: string
  ntf_accountId :: string
  ntf_region :: string

text \<open>A push: the subscriber, the event type, the account and the region, and the body.\<close>

type_synonym push = "string \<times> string \<times> string \<times> string \<times> json"

record bus =
  subscriptions :: "subscription list"
  events :: "event list"
  dead_letters :: "(event \<times> string) list"
  subscriberCache :: "(string \<times> millis \<times> SubscriberRecord list) list"
  pendingNotifications :: "(string \<times> PendingNotify) list"
  lastNotifiedAt :: "(string \<times> millis) list"
  busWaiters :: change_waiters
  pushed :: "push list"

record bus_env =
  bus_now :: millis
  bus_steady :: millis
  fresh_id :: "nat \<Rightarrow> string"
  fresh_oid :: "nat \<Rightarrow> string"
  cache_seconds :: int
  notify_interval :: millis

definition kExternalPrefix :: string where
  "kExternalPrefix = ''client:''"

definition kExternalRetentionSeconds :: int where
  "kExternalRetentionSeconds = 7 * 24 * 3600"

definition kModuleRetentionSeconds :: int where
  "kModuleRetentionSeconds = 30 * 24 * 3600"

definition kMaxAttempts :: int where
  "kMaxAttempts = 5"

definition kBatchSize :: nat where
  "kBatchSize = 200"

definition kVisibilityTimeout :: millis where
  "kVisibilityTimeout = 30 * 1000"

definition externalTarget :: "string \<Rightarrow> string" where
  "externalTarget subscriber = kExternalPrefix @ subscriber"

subsection \<open>Subscriptions\<close>

fun DeliveryModeToString :: "DeliveryMode \<Rightarrow> string" where
  "DeliveryModeToString Live = ''live''"
| "DeliveryModeToString Durable = ''durable''"

definition DeliveryModeFromString :: "string \<Rightarrow> DeliveryMode" where
  "DeliveryModeFromString mode = (if mode = ''live'' then Live else Durable)"

definition invalidateSubscribers :: "string \<Rightarrow> bus \<Rightarrow> bus" where
  "invalidateSubscribers et s =
     (if et = '''' then s\<lparr>subscriberCache := []\<rparr>
      else s\<lparr>subscriberCache := filter (\<lambda>e. fst e \<noteq> et) (subscriberCache s)\<rparr>)"

text \<open>A module's subscription: an upsert that only inserts.\<close>

definition Subscribe :: "string \<Rightarrow> string \<Rightarrow> bus \<Rightarrow> bus" where
  "Subscribe moduleType et s =
     (let here = (\<exists>x \<in> set (subscriptions s). sub_moduleType x = moduleType \<and> sub_eventType x = et);
          new = \<lparr>sub_moduleType = moduleType, sub_eventType = et, sub_filter = [], sub_accountId = '''', sub_mode = Durable,
                 ephemeral = False, sub_createdAt = 0, lastSeenAt = 0\<rparr> in
      invalidateSubscribers et (if here then s else s\<lparr>subscriptions := subscriptions s @ [new]\<rparr>))"

definition SubscribeExternal ::
  "bus_env \<Rightarrow> string \<Rightarrow> string \<Rightarrow> (string \<times> json) list \<Rightarrow> string \<Rightarrow> DeliveryMode \<Rightarrow> bool \<Rightarrow> bus \<Rightarrow> bus" where
  "SubscribeExternal E subscriber et flt account mode eph s =
     (let target = externalTarget subscriber;
          mine = (\<lambda>x. sub_moduleType x = target \<and> sub_eventType x = et);
          renew = (\<lambda>x. x\<lparr>sub_filter := flt, sub_accountId := account, sub_mode := mode, ephemeral := eph,
                        lastSeenAt := bus_now E\<rparr>);
          new = \<lparr>sub_moduleType = target, sub_eventType = et, sub_filter = [], sub_accountId = '''', sub_mode = Durable,
                 ephemeral = False, sub_createdAt = bus_now E, lastSeenAt = 0\<rparr> in
      invalidateSubscribers et
        (if \<exists>x \<in> set (subscriptions s). mine x
         then s\<lparr>subscriptions := map (\<lambda>x. if mine x then renew x else x) (subscriptions s)\<rparr>
         else s\<lparr>subscriptions := subscriptions s @ [renew new]\<rparr>))"

definition UnsubscribeExternal :: "string \<Rightarrow> string \<Rightarrow> bus \<Rightarrow> nat \<times> bus" where
  "UnsubscribeExternal subscriber et s =
     (let target = externalTarget subscriber;
          gone = (\<lambda>x. sub_moduleType x = target \<and> (et = '''' \<or> sub_eventType x = et)) in
      (length (filter gone (subscriptions s)),
       invalidateSubscribers et
         (s\<lparr>subscriptions := filter (\<lambda>x. \<not> gone x) (subscriptions s),
            events := filter (\<lambda>e. \<not> (targetModule e = target \<and> (et = '''' \<or> eventType e = et))) (events s)\<rparr>)))"

definition PurgeEphemeralSubscriptions :: "bus \<Rightarrow> nat \<times> bus" where
  "PurgeEphemeralSubscriptions s =
     (let targets = map sub_moduleType (filter ephemeral (subscriptions s)) in
      if targets = [] then (0, s)
      else (length targets,
            invalidateSubscribers ''''
              (s\<lparr>subscriptions := filter (\<lambda>x. \<not> ephemeral x) (subscriptions s),
                 events := filter (\<lambda>e. targetModule e \<notin> set targets) (events s)\<rparr>)))"

definition ListSubscriptions :: "string \<Rightarrow> bus \<Rightarrow> subscription list" where
  "ListSubscriptions subscriber s = filter (\<lambda>x. sub_moduleType x = externalTarget subscriber) (subscriptions s)"

definition pruneStaleSubscriptions :: "string list \<Rightarrow> string \<Rightarrow> bus \<Rightarrow> bus" where
  "pruneStaleSubscriptions handled moduleType s =
     (let stale = (\<lambda>x. sub_moduleType x = moduleType \<and> sub_eventType x \<notin> set handled) in
      if handled = [] then s
      else if filter stale (subscriptions s) = [] then s
      else invalidateSubscribers '''' (s\<lparr>subscriptions := filter (\<lambda>x. \<not> stale x) (subscriptions s)\<rparr>))"

definition recordOf :: "subscription \<Rightarrow> SubscriberRecord" where
  "recordOf x =
     (let ext = starts_with (sub_moduleType x) kExternalPrefix in
      if \<not> ext then \<lparr>rec_target = sub_moduleType x, external = False, rec_filter = [], rec_accountId = '''', rec_mode = Durable\<rparr>
      else \<lparr>rec_target = sub_moduleType x, external = True, rec_filter = sub_filter x, rec_accountId = sub_accountId x,
            rec_mode = sub_mode x\<rparr>)"

definition subscribersOf :: "bus_env \<Rightarrow> string \<Rightarrow> bus \<Rightarrow> SubscriberRecord list \<times> bus" where
  "subscribersOf E et s =
     (let ttl = cache_seconds E * 1000;
          subscribers = map recordOf (filter (\<lambda>x. sub_eventType x = et) (subscriptions s));
          fetched = (subscribers,
                     if ttl > 0
                     then s\<lparr>subscriberCache := (et, bus_steady E, subscribers) # filter (\<lambda>e. fst e \<noteq> et) (subscriberCache s)\<rparr>
                     else s) in
      case map_of (subscriberCache s) et of
        Some (refreshedAt, cached) \<Rightarrow> if bus_steady E - refreshedAt < ttl then (cached, s) else fetched
      | None \<Rightarrow> fetched)"

subsection \<open>Publishing\<close>

text \<open>\<^verbatim>\<open>std::set::insert\<close>: a set is the list of its elements in order.\<close>

definition std_insert :: "'a::linorder \<Rightarrow> 'a list \<Rightarrow> 'a list" where
  "std_insert x xs = List.insort_insert x xs"

definition std_set :: "'a::linorder list \<Rightarrow> 'a list" where
  "std_set xs = fold std_insert xs []"

text \<open>\<^verbatim>\<open>appendStatus\<close>: a held envelope has no expiry.\<close>

definition appendStatus :: "string \<Rightarrow> millis \<Rightarrow> event \<Rightarrow> event" where
  "appendStatus held expires e =
     (if held = '''' then e\<lparr>ev_status := PENDING, expiresAt := Some expires\<rparr>
      else e\<lparr>ev_status := HELD, heldBy := held\<rparr>)"

definition envelope :: "bus_env \<Rightarrow> nat \<Rightarrow> string \<Rightarrow> json \<Rightarrow> string \<Rightarrow> string \<Rightarrow> event" where
  "envelope E n et content source target =
     \<lparr>ev_oid = fresh_oid E n, eventId = fresh_id E n, eventType = et, sourceModule = source, targetModule = target,
      targetErn = '''', sourceErn = '''', ev_messageId = '''', payload = content, ev_status = PENDING, heldBy = '''',
      claimedBy = '''', claimToken = '''', attempts = 0, visibleAt = bus_now E, createdAt = bus_now E, expiresAt = None\<rparr>"

definition module_envelope :: "bus_env \<Rightarrow> nat \<Rightarrow> string \<Rightarrow> json \<Rightarrow> string \<Rightarrow> Delivery \<Rightarrow> string \<Rightarrow> event" where
  "module_envelope E n et content source d target =
     appendStatus (del_heldBy d) (bus_now E + kModuleRetentionSeconds * 1000)
       ((envelope E n et content source target)
          \<lparr>targetErn := del_targetErn d, sourceErn := del_sourceErn d, ev_messageId := del_messageId d\<rparr>)"

definition external_envelope :: "bus_env \<Rightarrow> nat \<Rightarrow> string \<Rightarrow> json \<Rightarrow> string \<Rightarrow> Delivery \<Rightarrow> string \<Rightarrow> event" where
  "external_envelope E n et content source d target =
     appendStatus (del_heldBy d) (bus_now E + kExternalRetentionSeconds * 1000) (envelope E n et content source target)"

fun payloadObject :: "json \<Rightarrow> (string \<times> json) list" where
  "payloadObject (JObject fs) = fs"
| "payloadObject _ = []"

definition matchesFilter :: "(string \<times> json) list \<Rightarrow> SubscriberRecord \<Rightarrow> bool" where
  "matchesFilter content r \<longleftrightarrow>
     list_all (\<lambda>(key, expected). case map_of content key of None \<Rightarrow> False | Some actual \<Rightarrow> json_eq actual expected)
       (rec_filter r)"

definition matchesAccount :: "(string \<times> json) list \<Rightarrow> SubscriberRecord \<Rightarrow> bool" where
  "matchesAccount content r =
     (case map_of content ''accountId'' of
        Some (JString account) \<Rightarrow> rec_accountId r = '''' \<or> rec_accountId r = c_string account
      | _ \<Rightarrow> True)"

record publish_targets =
  modules :: "string list"
  externals :: "string list"
  lives :: "string list"

definition addTarget :: "(string \<times> json) list \<Rightarrow> SubscriberRecord \<Rightarrow> publish_targets \<Rightarrow> publish_targets" where
  "addTarget content r t =
     (if \<not> external r then t\<lparr>modules := std_insert (rec_target r) (modules t)\<rparr>
      else if \<not> matchesFilter content r \<or> \<not> matchesAccount content r then t
      else if rec_mode r = Live then t\<lparr>lives := std_insert (rec_target r) (lives t)\<rparr>
      else t\<lparr>externals := std_insert (rec_target r) (externals t)\<rparr>)"

definition targetsOf :: "(string \<times> json) list \<Rightarrow> SubscriberRecord list \<Rightarrow> publish_targets" where
  "targetsOf content records = fold (addTarget content) records \<lparr>modules = [], externals = [], lives = []\<rparr>"

text \<open>The notices of durable subscribers: at most one per interval and key, the rest wait for the flush.\<close>

definition notify_body :: "string \<Rightarrow> json" where
  "notify_body et = JObject [(''delivery'', JString ''notify''), (''eventType'', JString et)]"

definition push_notice :: "PendingNotify \<Rightarrow> bus \<Rightarrow> bus" where
  "push_notice p s =
     s\<lparr>pushed := pushed s @ [(ntf_subscriber p, ntf_eventType p, ntf_accountId p, ntf_region p, notify_body (ntf_eventType p))]\<rparr>"

definition notifySubscriber :: "bus_env \<Rightarrow> PendingNotify \<Rightarrow> bus \<Rightarrow> bus" where
  "notifySubscriber E p s =
     (let key = ntf_subscriber p @ ''|'' @ ntf_eventType p;
          tell = push_notice p (s\<lparr>lastNotifiedAt := map_put key (bus_steady E) (lastNotifiedAt s)\<rparr>) in
      case map_of (lastNotifiedAt s) key of
        Some t \<Rightarrow> if bus_steady E - t < notify_interval E
                  then s\<lparr>pendingNotifications := map_put key p (pendingNotifications s)\<rparr> else tell
      | None \<Rightarrow> tell)"

definition flushNotifications :: "bus_env \<Rightarrow> bus \<Rightarrow> bus" where
  "flushNotifications E s =
     (let pending = pendingNotifications s;
          told = fold (\<lambda>(key, _). map_put key (bus_steady E)) pending (lastNotifiedAt s);
          s = s\<lparr>pendingNotifications := [],
                lastNotifiedAt := filter (\<lambda>e. \<not> bus_steady E - snd e > 5 * 60 * 1000) told\<rparr> in
      fold (\<lambda>(_, p). push_notice p) pending s)"

definition stringField :: "(string \<times> json) list \<Rightarrow> string \<Rightarrow> string" where
  "stringField content key = (case map_of content key of Some (JString s) \<Rightarrow> c_string s | _ \<Rightarrow> '''')"

definition nameOf :: "string \<Rightarrow> string" where
  "nameOf target = drop (length kExternalPrefix) target"

definition pushLive :: "string \<Rightarrow> (string \<times> json) list \<Rightarrow> string \<Rightarrow> bus \<Rightarrow> bus" where
  "pushLive et content target s =
     s\<lparr>pushed := pushed s @ [(nameOf target, et, stringField content ''accountId'', stringField content ''region'',
        JObject (AList.update ''delivery'' (JString ''live'') content))]\<rparr>"

definition pushToSessions :: "bus_env \<Rightarrow> string \<Rightarrow> (string \<times> json) list \<Rightarrow> string list \<Rightarrow> string list \<Rightarrow> bus \<Rightarrow> bus" where
  "pushToSessions E et content durable live s =
     (if durable = [] \<and> live = [] then s
      else fold (\<lambda>target. notifySubscriber E
                   \<lparr>ntf_subscriber = nameOf target, ntf_eventType = et, ntf_accountId = stringField content ''accountId'',
                    ntf_region = stringField content ''region''\<rparr>) durable
             (fold (pushLive et content) live s))"

definition wake_bus :: "string \<Rightarrow> bus \<Rightarrow> bus" where
  "wake_bus key s = s\<lparr>busWaiters := Wake key (busWaiters s)\<rparr>"

text \<open>One \<^verbatim>\<open>insert_one\<close> per envelope; the number counts the ids drawn.\<close>

definition insert_event :: "event \<Rightarrow> bus \<Rightarrow> bus" where
  "insert_event e s = s\<lparr>events := events s @ [e]\<rparr>"

fun insert_modules :: "bus_env \<Rightarrow> nat \<Rightarrow> string \<Rightarrow> json \<Rightarrow> string \<Rightarrow> Delivery \<Rightarrow> string list \<Rightarrow> bus \<Rightarrow> bus" where
  "insert_modules E n et content source d [] s = s"
| "insert_modules E n et content source d (target # targets) s =
     insert_modules E (Suc n) et content source d targets (insert_event (module_envelope E n et content source d target) s)"

fun insert_externals :: "bus_env \<Rightarrow> nat \<Rightarrow> string \<Rightarrow> json \<Rightarrow> string \<Rightarrow> Delivery \<Rightarrow> string list \<Rightarrow> bus \<Rightarrow> bus" where
  "insert_externals E n et content source d [] s = s"
| "insert_externals E n et content source d (target # targets) s =
     (let s = insert_event (external_envelope E n et content source d target) s;
          s = (if del_heldBy d = '''' then wake_bus target s else s) in
      insert_externals E (Suc n) et content source d targets s)"

definition Publish :: "bus_env \<Rightarrow> string \<Rightarrow> json \<Rightarrow> string \<Rightarrow> Delivery \<Rightarrow> bus \<Rightarrow> bus" where
  "Publish E et content source d s =
     (case subscribersOf E et s of (subscribers, s) \<Rightarrow>
        let object = payloadObject content; t = targetsOf object subscribers in
        if modules t = [] \<and> externals t = [] \<and> lives t = [] then s
        else let s = insert_modules E 0 et content source d (modules t) s;
                 s = insert_externals E (length (modules t)) et content source d (externals t) s in
             if del_heldBy d = '''' then pushToSessions E et object (externals t) (lives t) s else s)"

text \<open>The batch: the targets of its type once, the envelopes of every content in one \<^verbatim>\<open>insert_many\<close>, and a wake of every
  external subscriber.\<close>

definition wants :: "json \<Rightarrow> SubscriberRecord \<Rightarrow> bool" where
  "wants content r \<longleftrightarrow> external r \<and> rec_mode r \<noteq> Live \<and> matchesFilter (payloadObject content) r \<and>
     matchesAccount (payloadObject content) r"

fun batch_envelopes ::
  "bus_env \<Rightarrow> nat \<Rightarrow> string \<Rightarrow> string \<Rightarrow> string list \<Rightarrow> SubscriberRecord list \<Rightarrow> (json \<times> Delivery) list \<Rightarrow> event list" where
  "batch_envelopes E n et source targets subscribers [] = []"
| "batch_envelopes E n et source targets subscribers ((content, d) # batch) =
     (let wanting = filter (wants content) subscribers;
          own = map (\<lambda>(i, target). module_envelope E (n + i) et content source d target) (enumerate 0 targets);
          theirs = map (\<lambda>(i, r). external_envelope E (n + length targets + i) et content source d (rec_target r))
                     (enumerate 0 wanting) in
      own @ theirs @ batch_envelopes E (n + length targets + length wanting) et source targets subscribers batch)"

definition PublishBatch :: "bus_env \<Rightarrow> string \<Rightarrow> (json \<times> Delivery) list \<Rightarrow> string \<Rightarrow> bus \<Rightarrow> bus" where
  "PublishBatch E et batch source s =
     (if batch = [] then s
      else case subscribersOf E et s of (subscribers, s) \<Rightarrow>
        let targets = std_set (map rec_target (filter (\<lambda>r. \<not> external r) subscribers));
            externalTargets = std_set (map rec_target (filter external subscribers)) in
        if targets = [] \<and> externalTargets = [] then s
        else case subscribersOf E et s of (subscribers, s) \<Rightarrow>
          fold wake_bus externalTargets
            (s\<lparr>events := events s @ batch_envelopes E 0 et source targets subscribers batch\<rparr>))"

subsection \<open>Claiming and acknowledging\<close>

text \<open>Pending, or claimed by somebody whose lease has run out.\<close>

definition claimable :: "millis \<Rightarrow> event \<Rightarrow> bool" where
  "claimable now e \<longleftrightarrow> ev_status e = PENDING \<or> (ev_status e = CLAIMED \<and> visibleAt e \<le> now)"

definition oldest_first :: "event list \<Rightarrow> event list" where
  "oldest_first es = stable_sort (\<lambda>a b. createdAt a < createdAt b) es"

interpretation by_age: weak_order_on UNIV "\<lambda>a b. createdAt a < createdAt (b :: event)"
  by unfold_locales auto

lemma oldest_first [simp]:
  "set (oldest_first es) = set es" "mset (oldest_first es) = mset es" "sorted_wrt (\<lambda>a b. createdAt a \<le> createdAt b) (oldest_first es)"
  using by_age.set_stable_sort [of es] by_age.mset_stable_sort [of es] by_age.sorted_stable_sort [of es]
  by (simp_all add: oldest_first_def not_less)

definition claim_event :: "string \<Rightarrow> string \<Rightarrow> millis \<Rightarrow> event \<Rightarrow> event" where
  "claim_event who token till e =
     e\<lparr>ev_status := CLAIMED, claimedBy := who, claimToken := token, visibleAt := till, attempts := attempts e + 1\<rparr>"

text \<open>\<^verbatim>\<open>update_many\<close>: every document that matches, and how many did.\<close>

definition update_events :: "(event \<Rightarrow> bool) \<Rightarrow> (event \<Rightarrow> event) \<Rightarrow> bus \<Rightarrow> nat \<times> bus" where
  "update_events P f s = (length (filter P (events s)), s\<lparr>events := map (\<lambda>e. if P e then f e else e) (events s)\<rparr>)"

definition clamp_batch :: "int \<Rightarrow> nat" where
  "clamp_batch maxEvents = nat (min (max maxEvents 1) (int kBatchSize))"

text \<open>\<open>M 0\<close> and \<open>M 1\<close> are what siblings do before the claim and before what was won is read back.\<close>

definition ClaimEvents :: "bus_env \<Rightarrow> (nat \<Rightarrow> bus \<Rightarrow> bus) \<Rightarrow> string \<Rightarrow> int \<Rightarrow> millis \<Rightarrow> bus \<Rightarrow> event list \<times> bus" where
  "ClaimEvents E M subscriber maxEvents lease s =
     (let target = externalTarget subscriber; now = bus_now E;
          candidateIds = map ev_oid (take (clamp_batch maxEvents)
            (oldest_first (filter (\<lambda>e. targetModule e = target \<and> claimable now e) (events s)))) in
      if candidateIds = [] then ([], s)
      else let claimToken' = fresh_id E 0 in
        case update_events (\<lambda>e. ev_oid e \<in> set candidateIds \<and> claimable now e)
               (claim_event subscriber claimToken' (now + lease)) (M 0 s) of (modified, s) \<Rightarrow>
          if modified = 0 then ([], s)
          else let s = M 1 s;
                   claimed = oldest_first
                     (filter (\<lambda>e. ev_oid e \<in> set candidateIds \<and> claimToken e = claimToken') (events s)) in
               (claimed,
                if claimed = [] then s
                else s\<lparr>subscriptions := map (\<lambda>x. if sub_moduleType x = target then x\<lparr>lastSeenAt := now\<rparr> else x) (subscriptions s)\<rparr>))"

definition AckEvent :: "string \<Rightarrow> string \<Rightarrow> bus \<Rightarrow> bool \<times> bus" where
  "AckEvent subscriber eid s =
     (let P = (\<lambda>e. targetModule e = externalTarget subscriber \<and> eventId e = eid) in
      (list_ex P (events s),
       s\<lparr>events := takeWhile (\<lambda>e. \<not> P e) (events s) @ drop 1 (dropWhile (\<lambda>e. \<not> P e) (events s))\<rparr>))"

definition AckEvents :: "string \<Rightarrow> string list \<Rightarrow> bus \<Rightarrow> nat \<times> bus" where
  "AckEvents subscriber eids s =
     (if eids = [] then (0, s)
      else let P = (\<lambda>e. targetModule e = externalTarget subscriber \<and> eventId e \<in> set eids) in
        (length (filter P (events s)), s\<lparr>events := filter (\<lambda>e. \<not> P e) (events s)\<rparr>))"

definition CountEvents :: "string \<Rightarrow> bus \<Rightarrow> nat" where
  "CountEvents subscriber s =
     length (filter (\<lambda>e. targetModule e = externalTarget subscriber \<and> (ev_status e = PENDING \<or> ev_status e = CLAIMED)) (events s))"

text \<open>The long poll: one look per world, as in \<^verbatim>\<open>Eqs_Receive\<close>.\<close>

type_synonym bus_world = "bus_env \<times> (nat \<Rightarrow> bus \<Rightarrow> bus) \<times> (bus \<Rightarrow> bus)"

fun receive_events_loop :: "bus_world list \<Rightarrow> string \<Rightarrow> int \<Rightarrow> millis \<Rightarrow> millis \<Rightarrow> bus \<Rightarrow> (event list \<times> bus) option" where
  "receive_events_loop [] subscriber maxEvents lease deadline s = None"
| "receive_events_loop ((E, M, others) # worlds) subscriber maxEvents lease deadline s =
     (case ClaimEvents E M subscriber maxEvents lease s of (claimed, s) \<Rightarrow>
        if claimed \<noteq> [] \<or> bus_steady E \<ge> deadline then Some (claimed, s)
        else receive_events_loop worlds subscriber maxEvents lease deadline (others s))"

definition ReceiveEvents :: "bus_world list \<Rightarrow> string \<Rightarrow> int \<Rightarrow> millis \<Rightarrow> millis \<Rightarrow> bus \<Rightarrow> (event list \<times> bus) option" where
  "ReceiveEvents worlds subscriber maxEvents lease deadline s =
     (let me = length (waiters (busWaiters s)) in
      map_option (\<lambda>(claimed, t). (claimed, t\<lparr>busWaiters := destroy_waiter me (busWaiters t)\<rparr>))
        (receive_events_loop worlds subscriber maxEvents lease deadline
           (s\<lparr>busWaiters := Enroll (externalTarget subscriber) (busWaiters s)\<rparr>)))"

subsection \<open>Deliveries of a target, and holding a source\<close>

definition PendingDeliveries :: "string \<Rightarrow> bus \<Rightarrow> int" where
  "PendingDeliveries ern s = (if ern = '''' then 0 else count_if (\<lambda>e. targetErn e = ern) (events s))"

definition DiscardDeliveries :: "string \<Rightarrow> bus \<Rightarrow> int \<times> bus" where
  "DiscardDeliveries ern s =
     (if ern = '''' then (0, s)
      else (count_if (\<lambda>e. targetErn e = ern) (events s), s\<lparr>events := filter (\<lambda>e. targetErn e \<noteq> ern) (events s)\<rparr>))"

definition HoldDeliveries :: "string \<Rightarrow> bus \<Rightarrow> nat \<times> bus" where
  "HoldDeliveries source s =
     (if source = '''' then (0, s)
      else update_events (\<lambda>e. sourceErn e = source \<and> ev_status e = PENDING)
             (\<lambda>e. e\<lparr>ev_status := HELD, heldBy := source, expiresAt := None\<rparr>) s)"

definition kPage :: nat where
  "kPage = 1000"

definition is_held :: "string \<Rightarrow> event \<Rightarrow> bool" where
  "is_held holder e \<longleftrightarrow> heldBy e = holder \<and> ev_status e = HELD"

definition release_event :: "bus_env \<Rightarrow> event \<Rightarrow> event" where
  "release_event E e =
     (let retention = (if starts_with (targetModule e) kExternalPrefix then kExternalRetentionSeconds else kModuleRetentionSeconds) in
      e\<lparr>ev_status := PENDING, visibleAt := bus_now E, expiresAt := Some (bus_now E + retention * 1000), heldBy := ''''\<rparr>)"

text \<open>\<^verbatim>\<open>update_each\<close> over a page, each document found again by its id.\<close>

definition release_page :: "bus_env \<Rightarrow> string \<Rightarrow> event list \<Rightarrow> event list" where
  "release_page E holder es =
     (let ids = map ev_oid (take kPage (filter (is_held holder) es)) in
      map (\<lambda>e. if ev_oid e \<in> set ids then release_event E e else e) es)"

function release_pages :: "bus_env \<Rightarrow> string \<Rightarrow> event list \<Rightarrow> nat \<times> string list \<Rightarrow> event list \<times> nat \<times> string list" where
  "release_pages E holder es (released, woken) =
     (let page = take kPage (filter (is_held holder) es);
          woken = fold std_insert (filter (\<lambda>t. starts_with t kExternalPrefix) (map targetModule page)) woken in
      if page = [] then (es, released, woken)
      else let es = release_page E holder es; released = released + length page in
        if length page < kPage then (es, released, woken)
        else release_pages E holder es (released, woken))"
  by pat_completeness auto

lemma release_event_not_held: "\<not> is_held holder (release_event E e)"
  by (simp add: is_held_def release_event_def Let_def)

lemma filter_map_if:
  "(\<And>e. Q e \<Longrightarrow> \<not> P (f e)) \<Longrightarrow> filter P (map (\<lambda>e. if Q e then f e else e) es) = filter (\<lambda>e. P e \<and> \<not> Q e) es"
  by (induction es) auto

lemma release_page_held:
  "filter (is_held holder) (release_page E holder es) =
     filter (\<lambda>e. is_held holder e \<and> ev_oid e \<notin> ev_oid ` set (take kPage (filter (is_held holder) es))) es"
  unfolding release_page_def Let_def by (subst filter_map_if) (simp_all add: release_event_not_held)

lemma release_page_less:
  assumes "take kPage (filter (is_held holder) es) \<noteq> []"
  shows "length (filter (is_held holder) (release_page E holder es)) < length (filter (is_held holder) es)"
proof -
  let ?page = "take kPage (filter (is_held holder) es)"
  obtain e where e: "e \<in> set ?page" using assms by (cases ?page) auto
  then have h: "is_held holder e" "e \<in> set es" by (auto dest: in_set_takeD)
  have "length (filter (\<lambda>e. ev_oid e \<notin> ev_oid ` set ?page) (filter (is_held holder) es)) < length (filter (is_held holder) es)"
    using h e by (intro length_filter_less [of e]) auto
  then show ?thesis unfolding release_page_held by (simp add: conj_commute)
qed

termination release_pages
  by (relation "measure (\<lambda>(E, holder, es, _). length (filter (is_held holder) es))") (use release_page_less in force)+

definition ReleaseHeld :: "bus_env \<Rightarrow> string \<Rightarrow> bus \<Rightarrow> nat \<times> bus" where
  "ReleaseHeld E holder s =
     (if holder = '''' then (0, s)
      else case release_pages E holder (events s) (0, []) of
        (es, released, woken) \<Rightarrow> (released, fold wake_bus woken (s\<lparr>events := es\<rparr>)))"

definition CountHeld :: "string \<Rightarrow> bus \<Rightarrow> nat" where
  "CountHeld holder s = (if holder = '''' then 0 else length (filter (is_held holder) (events s)))"

text \<open>The index that expires documents.\<close>

definition expire :: "millis \<Rightarrow> bus \<Rightarrow> bus" where
  "expire now s = s\<lparr>events := filter (\<lambda>e. case expiresAt e of None \<Rightarrow> True | Some t \<Rightarrow> now < t) (events s)\<rparr>"

subsection \<open>What an operation leaves alone\<close>

lemma invalidate_kept [simp]:
  "events (invalidateSubscribers et s) = events s" "dead_letters (invalidateSubscribers et s) = dead_letters s"
  "subscriptions (invalidateSubscribers et s) = subscriptions s"
  by (simp_all add: invalidateSubscribers_def)

lemma subscribersOf_kept [simp]:
  "events (snd (subscribersOf E et s)) = events s" "dead_letters (snd (subscribersOf E et s)) = dead_letters s"
  "subscriptions (snd (subscribersOf E et s)) = subscriptions s"
  by (simp_all add: subscribersOf_def Let_def split: option.splits prod.splits)

lemma subscribersOf_eqD:
  "subscribersOf E et s = (subs, t) \<Longrightarrow> events t = events s \<and> dead_letters t = dead_letters s \<and> subscriptions t = subscriptions s"
  using subscribersOf_kept [of E et s] by simp

lemma notify_kept [simp]:
  "events (push_notice p s) = events s" "dead_letters (push_notice p s) = dead_letters s"
  "events (notifySubscriber E p s) = events s" "dead_letters (notifySubscriber E p s) = dead_letters s"
  "events (pushLive et content target s) = events s" "dead_letters (pushLive et content target s) = dead_letters s"
  "events (wake_bus key s) = events s" "dead_letters (wake_bus key s) = dead_letters s"
  by (simp_all add: push_notice_def notifySubscriber_def pushLive_def wake_bus_def Let_def split: option.splits)

text \<open>A fold of operations that leave a part alone leaves it alone.\<close>

lemma fold_kept: "(\<And>x s. f (g x s) = f s) \<Longrightarrow> f (fold g xs s) = f s"
  by (induction xs arbitrary: s) simp_all

lemma sessions_kept [simp]:
  "events (pushToSessions E et content durable live s) = events s"
  "dead_letters (pushToSessions E et content durable live s) = dead_letters s"
  "events (fold wake_bus keys s) = events s" "dead_letters (fold wake_bus keys s) = dead_letters s"
  "events (flushNotifications E s) = events s" "dead_letters (flushNotifications E s) = dead_letters s"
  by (simp_all add: pushToSessions_def flushNotifications_def Let_def fold_kept case_prod_beta)

lemma insert_modules_events:
  "events (insert_modules E n et content source d targets s) =
     events s @ map (\<lambda>(i, target). module_envelope E i et content source d target) (enumerate n targets)"
  "dead_letters (insert_modules E n et content source d targets s) = dead_letters s"
  "subscriptions (insert_modules E n et content source d targets s) = subscriptions s"
  by (induction targets arbitrary: n s) (simp_all add: insert_event_def)

lemma insert_externals_events:
  "events (insert_externals E n et content source d targets s) =
     events s @ map (\<lambda>(i, target). external_envelope E i et content source d target) (enumerate n targets)"
  "dead_letters (insert_externals E n et content source d targets s) = dead_letters s"
  by (induction targets arbitrary: n s) (simp_all add: insert_event_def Let_def)

subsection \<open>Publishing reaches who asked\<close>

text \<open>What one publication stores, as a function of the subscribers.\<close>

definition published_events :: "bus_env \<Rightarrow> string \<Rightarrow> json \<Rightarrow> string \<Rightarrow> Delivery \<Rightarrow> SubscriberRecord list \<Rightarrow> event list" where
  "published_events E et content source d subscribers =
     (let t = targetsOf (payloadObject content) subscribers in
      map (\<lambda>(i, target). module_envelope E i et content source d target) (enumerate 0 (modules t)) @
      map (\<lambda>(i, target). external_envelope E i et content source d target) (enumerate (length (modules t)) (externals t)))"

lemma Publish_events:
  "events (Publish E et content source d s) = events s @ published_events E et content source d (fst (subscribersOf E et s))"
  "dead_letters (Publish E et content source d s) = dead_letters s"
  by (auto simp: Publish_def published_events_def Let_def insert_modules_events insert_externals_events split: prod.splits
      dest: subscribersOf_eqD)

lemma PublishBatch_events:
  "\<exists>es. events (PublishBatch E et batch source s) = events s @ es" "dead_letters (PublishBatch E et batch source s) = dead_letters s"
  by (auto simp: PublishBatch_def Let_def split: prod.splits dest!: subscribersOf_eqD)

subsection \<open>Claims\<close>

definition claim_candidates :: "bus_env \<Rightarrow> string \<Rightarrow> int \<Rightarrow> bus \<Rightarrow> string list" where
  "claim_candidates E subscriber maxEvents s =
     map ev_oid (take (clamp_batch maxEvents)
       (oldest_first (filter (\<lambda>e. targetModule e = externalTarget subscriber \<and> claimable (bus_now E) e) (events s))))"

text \<open>A claim that nobody interferes with.\<close>

lemma ClaimEvents_alone:
  "events (snd (ClaimEvents E (\<lambda>_ s. s) subscriber maxEvents lease s)) =
     map (\<lambda>e. if ev_oid e \<in> set (claim_candidates E subscriber maxEvents s) \<and> claimable (bus_now E) e
              then claim_event subscriber (fresh_id E 0) (bus_now E + lease) e else e) (events s)"
  "dead_letters (snd (ClaimEvents E (\<lambda>_ s. s) subscriber maxEvents lease s)) = dead_letters s"
  unfolding ClaimEvents_def Let_def claim_candidates_def [symmetric] update_events_def by simp_all

lemma claim_event_simps [simp]:
  "ev_oid (claim_event who token till e) = ev_oid e" "ev_status (claim_event who token till e) = CLAIMED"
  "claimToken (claim_event who token till e) = token" "visibleAt (claim_event who token till e) = till"
  "attempts (claim_event who token till e) = attempts e + 1" "eventType (claim_event who token till e) = eventType e"
  "targetModule (claim_event who token till e) = targetModule e"
  by (simp_all add: claim_event_def)

end
