(* ===== verification/Event_Polling.thy ===== *)
theory Event_Polling
  imports Event_Bus
begin

text \<open>
  Delivery to modules: \<^verbatim>\<open>EventBus::pollOnce\<close>, \<^verbatim>\<open>reap\<close> and \<^verbatim>\<open>moveToDlq\<close>. A poll looks for pending events, claims them,
  reads back what it won, hands each to the handler of its type and settles the batch. Each of these is one round trip
  and a definition of its own; \<^verbatim>\<open>pollOnce\<close> runs them in order with whatever siblings do in between, and the transition
  system at the end runs the same steps of any number of instances, crashes included, in any order.
\<close>

subsection \<open>The steps of a poll\<close>

definition poll_look :: "string \<Rightarrow> bus \<Rightarrow> string list" where
  "poll_look moduleType s =
     map ev_oid (take kBatchSize (oldest_first (filter (\<lambda>e. targetModule e = moduleType \<and> ev_status e = PENDING) (events s))))"

definition poll_claim :: "bus_env \<Rightarrow> string \<Rightarrow> string \<Rightarrow> string list \<Rightarrow> bus \<Rightarrow> nat \<times> bus" where
  "poll_claim E instanceId token candidateIds s =
     update_events (\<lambda>e. ev_oid e \<in> set candidateIds \<and> ev_status e = PENDING)
       (claim_event instanceId token (bus_now E + kVisibilityTimeout)) s"

definition poll_won :: "string \<Rightarrow> string list \<Rightarrow> bus \<Rightarrow> event list" where
  "poll_won token candidateIds s = filter (\<lambda>e. ev_oid e \<in> set candidateIds \<and> claimToken e = token) (events s)"

definition moveToDlq :: "event \<Rightarrow> string \<Rightarrow> bus \<Rightarrow> bus" where
  "moveToDlq e reason s =
     s\<lparr>dead_letters := dead_letters s @ [(e, reason)], events := filter (\<lambda>x. ev_oid x \<noteq> ev_oid e) (events s)\<rparr>"

record settling =
  acked :: "string list"
  requeue :: "string list"

definition max_attempts_exceeded :: string where
  "max_attempts_exceeded = ''max attempts exceeded''"

text \<open>What becomes of one event once its handler has answered.\<close>

definition settle_one :: "event \<Rightarrow> bool \<Rightarrow> settling \<times> bus \<Rightarrow> settling \<times> bus" where
  "settle_one e ok acc =
     (case acc of (st, s) \<Rightarrow>
        if ok then (st\<lparr>acked := acked st @ [ev_oid e]\<rparr>, s)
        else if attempts e \<ge> kMaxAttempts then (st, moveToDlq e max_attempts_exceeded s)
        else (st\<lparr>requeue := requeue st @ [ev_oid e]\<rparr>, s))"

definition poll_settle :: "bus_env \<Rightarrow> settling \<Rightarrow> bus \<Rightarrow> bus" where
  "poll_settle E st s =
     (let s = (if acked st \<noteq> [] then s\<lparr>events := filter (\<lambda>e. ev_oid e \<notin> set (acked st)) (events s)\<rparr> else s) in
      if requeue st \<noteq> []
      then snd (update_events (\<lambda>e. ev_oid e \<in> set (requeue st)) (\<lambda>e. e\<lparr>ev_status := PENDING, visibleAt := bus_now E\<rparr>) s)
      else s)"

text \<open>A handler works on the state of its module and on the bus; it answers, or throws. An event without a handler is
  acknowledged.\<close>

type_synonym 'w handler = "event \<Rightarrow> 'w \<times> bus \<Rightarrow> bool option \<times> ('w \<times> bus)"

fun handle_batch :: "(string \<Rightarrow> 'w handler option) \<Rightarrow> event list \<Rightarrow> settling \<Rightarrow> 'w \<times> bus \<Rightarrow> settling \<times> ('w \<times> bus)" where
  "handle_batch handlers [] st ws = (st, ws)"
| "handle_batch handlers (e # es) st ws =
     (let (ok, w, s) = (case handlers (eventType e) of
                          None \<Rightarrow> (True, ws)
                        | Some handler \<Rightarrow> (case handler e ws of (answer, ws) \<Rightarrow> (answer = Some True, ws)));
          (st, s) = settle_one e ok (st, s) in
      handle_batch handlers es st (w, s))"

definition pollOnce ::
  "bus_env \<Rightarrow> bus_env \<Rightarrow> (nat \<Rightarrow> 'w \<times> bus \<Rightarrow> 'w \<times> bus) \<Rightarrow> (string \<Rightarrow> 'w handler option) \<Rightarrow> string \<Rightarrow> string \<Rightarrow> 'w \<times> bus \<Rightarrow> 'w \<times> bus" where
  "pollOnce E E' M handlers instanceId moduleType ws =
     (let candidateIds = poll_look moduleType (snd ws) in
      if candidateIds = [] then ws
      else let token = fresh_id E 0 in
        case M 0 ws of (w, s) \<Rightarrow>
        case poll_claim E instanceId token candidateIds s of (modified, s) \<Rightarrow>
          if modified = 0 then (w, s)
          else case M 1 (w, s) of (w, s) \<Rightarrow>
            case handle_batch handlers (poll_won token candidateIds s) \<lparr>acked = [], requeue = []\<rparr> (w, s) of
              (st, w, s) \<Rightarrow> (w, poll_settle E' st s))"

definition reap :: "bus_env \<Rightarrow> bus \<Rightarrow> bus" where
  "reap E s = snd (update_events (\<lambda>e. ev_status e = CLAIMED \<and> visibleAt e \<le> bus_now E) (\<lambda>e. e\<lparr>ev_status := PENDING\<rparr>) s)"

subsection \<open>A poll that nobody interferes with\<close>

text \<open>The handlers' answers as a predicate, and a handler that only answers.\<close>

definition pure_handlers :: "(string \<Rightarrow> (event \<Rightarrow> bool) option) \<Rightarrow> string \<Rightarrow> 'w handler option" where
  "pure_handlers hs et = map_option (\<lambda>h e ws. (Some (h e), ws)) (hs et)"

definition accepts :: "(string \<Rightarrow> (event \<Rightarrow> bool) option) \<Rightarrow> event \<Rightarrow> bool" where
  "accepts hs e = (case hs (eventType e) of None \<Rightarrow> True | Some h \<Rightarrow> h e)"

definition exhausted :: "event \<Rightarrow> bool" where
  "exhausted e \<longleftrightarrow> attempts e \<ge> kMaxAttempts"

lemma handle_pure:
  "handle_batch (pure_handlers hs) es st (w, s) =
     (st\<lparr>acked := acked st @ map ev_oid (filter (accepts hs) es),
         requeue := requeue st @ map ev_oid (filter (\<lambda>e. \<not> accepts hs e \<and> \<not> exhausted e) es)\<rparr>,
      w, s\<lparr>dead_letters := dead_letters s @ map (\<lambda>e. (e, max_attempts_exceeded)) (filter (\<lambda>e. \<not> accepts hs e \<and> exhausted e) es),
           events := filter (\<lambda>x. ev_oid x \<notin> ev_oid ` set (filter (\<lambda>e. \<not> accepts hs e \<and> exhausted e) es)) (events s)\<rparr>)"
proof (induction es arbitrary: st s)
  case (Cons e es)
  have a: "(case pure_handlers hs (eventType e) of None \<Rightarrow> (True, w, s)
      | Some handler \<Rightarrow> (case handler e (w, s) of (answer, ws) \<Rightarrow> (answer = Some True, ws))) = (accepts hs e, w, s)"
    by (simp add: pure_handlers_def accepts_def split: option.split)
  show ?case
    unfolding handle_batch.simps a
    by (auto simp: settle_one_def Cons exhausted_def moveToDlq_def conj_commute intro!: filter_cong)
qed simp

definition taken_by :: "bus_env \<Rightarrow> string \<Rightarrow> event \<Rightarrow> event" where
  "taken_by E instanceId e = claim_event instanceId (fresh_id E 0) (bus_now E + kVisibilityTimeout) e"

definition in_batch :: "string \<Rightarrow> bus \<Rightarrow> event \<Rightarrow> bool" where
  "in_batch moduleType s e \<longleftrightarrow> ev_oid e \<in> set (poll_look moduleType s)"

lemma poll_look_oids: "x \<in> set (poll_look moduleType s) \<Longrightarrow> \<exists>e \<in> set (events s). ev_oid e = x"
  by (auto simp: poll_look_def dest!: in_set_takeD)

lemma poll_settle_eq:
  "poll_settle E st s = s\<lparr>events := map (\<lambda>e. if ev_oid e \<in> set (requeue st) then e\<lparr>ev_status := PENDING, visibleAt := bus_now E\<rparr> else e)
     (filter (\<lambda>e. ev_oid e \<notin> set (acked st)) (events s))\<rparr>"
  by (auto simp: poll_settle_def update_events_def)

text \<open>Changing, dropping and changing again is one pass when the decisions are about the single element.\<close>

lemma pointwise_passes:
  assumes "\<And>e. e \<in> set es \<Longrightarrow> h e = (if q (f e) \<and> p (f e) then [g (f e)] else [])"
  shows "map g (filter p (filter q (map f es))) = concat (map h es)"
  using assms by (induction es) auto

lemma in_batchD:
  assumes "distinct (map ev_oid (events s))" and "e \<in> set (events s)" and "in_batch moduleType s e"
  shows "ev_status e = PENDING \<and> targetModule e = moduleType"
proof -
  obtain e' where e': "e' \<in> set (events s)" "ev_oid e' = ev_oid e" "ev_status e' = PENDING" "targetModule e' = moduleType"
    using assms(3) by (auto simp: in_batch_def poll_look_def dest!: in_set_takeD)
  then have "e' = e" using assms(1,2) by (auto dest: inj_onD simp: distinct_map)
  with e' show ?thesis by simp
qed

lemma taken_simps [simp]:
  "ev_oid (taken_by E i e) = ev_oid e" "eventType (taken_by E i e) = eventType e" "claimToken (taken_by E i e) = fresh_id E 0"
  "attempts (taken_by E i e) = attempts e + 1" "ev_status (taken_by E i e) = CLAIMED"
  by (simp_all add: taken_by_def claim_event_def)

text \<open>What a poll makes of an event.\<close>

definition poll_outcome ::
  "bus_env \<Rightarrow> bus_env \<Rightarrow> (string \<Rightarrow> (event \<Rightarrow> bool) option) \<Rightarrow> string \<Rightarrow> event \<Rightarrow> event list" where
  "poll_outcome E E' hs instanceId e =
     (let c = taken_by E instanceId e in
      if accepts hs c \<or> exhausted c then [] else [c\<lparr>ev_status := PENDING, visibleAt := bus_now E'\<rparr>])"

text \<open>(C19) What one poll does, exactly, when nobody interferes: of the first two hundred pending events of the module, oldest
  first, those whose handler accepts them, and those nobody handles, are gone; those refused for the fifth time are in the
  dead letters as they were claimed, with the reason; the others are pending again with one attempt more. Every other event
  is untouched.\<close>

theorem poll_exact:
  fixes w :: 'w
  assumes d: "distinct (map ev_oid (events s))" and fr: "\<forall>e \<in> set (events s). claimToken e \<noteq> fresh_id E 0"
  shows "pollOnce E E' (\<lambda>_ ws. ws) (pure_handlers hs) instanceId moduleType (w, s) =
    (w, s\<lparr>dead_letters := dead_letters s @ map (\<lambda>e. (taken_by E instanceId e, max_attempts_exceeded))
            (filter (\<lambda>e. in_batch moduleType s e \<and> \<not> accepts hs (taken_by E instanceId e) \<and> exhausted (taken_by E instanceId e)) (events s)),
          events := concat (map (\<lambda>e. if in_batch moduleType s e then poll_outcome E E' hs instanceId e else [e]) (events s))\<rparr>)"
proof (cases "poll_look moduleType s = []")
  case True
  then show ?thesis by (simp add: pollOnce_def in_batch_def)
next
  case False
  let ?t = "taken_by E instanceId" and ?B = "in_batch moduleType s"
  let ?es = "map (\<lambda>e. if ?B e then ?t e else e) (events s)"
  have claim: "poll_claim E instanceId (fresh_id E 0) (poll_look moduleType s) s =
      (length (filter ?B (events s)), s\<lparr>events := ?es\<rparr>)"
  proof -
    have "(ev_oid e \<in> set (poll_look moduleType s) \<and> ev_status e = PENDING) = ?B e" if "e \<in> set (events s)" for e
      using in_batchD [OF d that] by (auto simp: in_batch_def)
    then show ?thesis
      by (auto simp: poll_claim_def update_events_def taken_by_def intro!: arg_cong [where f = length] filter_cong)
  qed
  have some: "filter ?B (events s) \<noteq> []"
  proof -
    obtain x where "x \<in> set (poll_look moduleType s)" using False by (cases "poll_look moduleType s") auto
    then obtain e where "e \<in> set (events s)" "ev_oid e \<in> set (poll_look moduleType s)" using poll_look_oids by blast
    then show ?thesis by (auto simp: filter_empty_conv in_batch_def)
  qed
  define W where "W = map ?t (filter ?B (events s))"
  have won: "poll_won (fresh_id E 0) (poll_look moduleType s) (s\<lparr>events := ?es\<rparr>) = W"
  proof -
    have "filter (\<lambda>e. ev_oid e \<in> set (poll_look moduleType s) \<and> claimToken e = fresh_id E 0) (map (\<lambda>e. if ?B e then ?t e else e) es) =
        map ?t (filter ?B es)" if "set es \<subseteq> set (events s)" for es
      using that fr by (induction es) (auto simp: in_batch_def)
    then show ?thesis by (simp add: poll_won_def W_def)
  qed
  have ids: "ev_oid e \<in> ev_oid ` set (filter Q W) \<longleftrightarrow> ?B e \<and> Q (?t e)" if "e \<in> set (events s)" for e Q
  proof
    assume "?B e \<and> Q (?t e)"
    then have "?t e \<in> set (filter Q W)" using that by (auto simp: W_def)
    then show "ev_oid e \<in> ev_oid ` set (filter Q W)" by (metis imageI taken_simps(1))
  qed (use d that in \<open>auto simp: distinct_map in_batch_def W_def dest: inj_onD\<close>)
  let ?X = "\<lambda>e. \<not> accepts hs e \<and> exhausted e" and ?R = "\<lambda>e. \<not> accepts hs e \<and> \<not> exhausted e"
  let ?put = "\<lambda>e. if ev_oid e \<in> ev_oid ` set (filter ?R W) then e\<lparr>ev_status := PENDING, visibleAt := bus_now E'\<rparr> else e"
  have settled: "map ?put (filter (\<lambda>e. ev_oid e \<notin> ev_oid ` set (filter (accepts hs) W))
      (filter (\<lambda>e. ev_oid e \<notin> ev_oid ` set (filter ?X W)) ?es)) =
    concat (map (\<lambda>e. if ?B e then poll_outcome E E' hs instanceId e else [e]) (events s))"
  proof (rule pointwise_passes)
    fix e assume e: "e \<in> set (events s)"
    let ?f = "if ?B e then ?t e else e"
    have o: "ev_oid ?f = ev_oid e" by simp
    show "(if ?B e then poll_outcome E E' hs instanceId e else [e]) =
        (if ev_oid ?f \<notin> ev_oid ` set (filter ?X W) \<and> ev_oid ?f \<notin> ev_oid ` set (filter (accepts hs) W)
         then [?put ?f] else [])"
      unfolding o ids [OF e] by (auto simp: poll_outcome_def Let_def)
  qed
  have dead: "map (\<lambda>e. (e, max_attempts_exceeded)) (filter ?X W) = map (\<lambda>e. (?t e, max_attempts_exceeded))
      (filter (\<lambda>e. ?B e \<and> ?X (?t e)) (events s))"
    by (simp add: W_def filter_map comp_def conj_commute)
  have "pollOnce E E' (\<lambda>_ ws. ws) (pure_handlers hs) instanceId moduleType (w, s) =
      (w, poll_settle E' \<lparr>acked = map ev_oid (filter (accepts hs) W), requeue = map ev_oid (filter ?R W)\<rparr>
        (s\<lparr>dead_letters := dead_letters s @ map (\<lambda>e. (e, max_attempts_exceeded)) (filter ?X W),
           events := filter (\<lambda>e. ev_oid e \<notin> ev_oid ` set (filter ?X W)) ?es\<rparr>))"
    using False some by (simp add: pollOnce_def claim won handle_pure)
  also have "\<dots> = (w, s\<lparr>dead_letters := dead_letters s @ map (\<lambda>e. (e, max_attempts_exceeded)) (filter ?X W),
      events := concat (map (\<lambda>e. if ?B e then poll_outcome E E' hs instanceId e else [e]) (events s))\<rparr>)"
    unfolding poll_settle_eq settled [symmetric] by simp
  finally show ?thesis unfolding dead .
qed

definition waiting_event :: event where
  "waiting_event = \<lparr>ev_oid = ''o'', eventId = ''e'', eventType = ''t'', sourceModule = ''ens'', targetModule = ''eqs'', targetErn = '''',
     sourceErn = '''', ev_messageId = '''', payload = JNull, ev_status = PENDING, heldBy = '''', claimedBy = '''',
     claimToken = '''', attempts = 4, visibleAt = 0, createdAt = 0, expiresAt = None\<rparr>"

definition waiting_bus :: bus where
  "waiting_bus = \<lparr>subscriptions = [], events = [waiting_event], dead_letters = [], subscriberCache = [],
     pendingNotifications = [], lastNotifiedAt = [], busWaiters = no_waiters, pushed = []\<rparr>"

definition poll_env :: bus_env where
  "poll_env = \<lparr>bus_now = 7, bus_steady = 7, fresh_id = (\<lambda>_. ''tok''), fresh_oid = (\<lambda>_. ''new''), cache_seconds = 0,
     notify_interval = 100\<rparr>"

theorem poll_exact_witness:
  "dead_letters (snd (pollOnce poll_env poll_env (\<lambda>_ ws. ws) (pure_handlers (\<lambda>_. Some (\<lambda>_. False))) ''me'' ''eqs'' ((), waiting_bus))) =
     [(taken_by poll_env ''me'' waiting_event, max_attempts_exceeded)]"
proof -
  have "in_batch ''eqs'' waiting_bus waiting_event"
    by (simp add: in_batch_def poll_look_def waiting_bus_def waiting_event_def oldest_first_def stable_sort_def kBatchSize_def)
  then show ?thesis
    by (subst poll_exact) (simp_all add: waiting_bus_def poll_env_def waiting_event_def accepts_def exhausted_def kMaxAttempts_def)
qed

end
