(* ===== verification/Event_Runs.thy ===== *)
theory Event_Runs
  imports Event_Polling
begin

text \<open>
  The bus as a whole: any number of instances polling, each a step at a time and free to die between two steps, and
  around them everything else that works on the collections. The run keeps account of every envelope stored, accepted by
  a handler, and withdrawn by an operation that exists to remove events.
\<close>

datatype bus_action =
    SubscribeA string string
  | SubscribeExternalA string string "(string \<times> json) list" string DeliveryMode bool
  | UnsubscribeExternalA string string
  | PurgeEphemeralA
  | PruneA "string list" string
  | PublishA string json string Delivery
  | PublishBatchA string "(json \<times> Delivery) list" string
  | FlushNotificationsA
  | ClaimEventsA string int millis
  | AckEventA string string
  | AckEventsA string "string list"
  | DiscardA string
  | HoldA string
  | ReleaseA string
  | ReapA
  | ExpireA

fun bus_do :: "bus_env \<Rightarrow> bus_action \<Rightarrow> bus \<Rightarrow> bus" where
  "bus_do E (SubscribeA moduleType et) s = Subscribe moduleType et s"
| "bus_do E (SubscribeExternalA subscriber et flt account mode eph) s = SubscribeExternal E subscriber et flt account mode eph s"
| "bus_do E (UnsubscribeExternalA subscriber et) s = snd (UnsubscribeExternal subscriber et s)"
| "bus_do E PurgeEphemeralA s = snd (PurgeEphemeralSubscriptions s)"
| "bus_do E (PruneA handled moduleType) s = pruneStaleSubscriptions handled moduleType s"
| "bus_do E (PublishA et content source d) s = Publish E et content source d s"
| "bus_do E (PublishBatchA et batch source) s = PublishBatch E et batch source s"
| "bus_do E FlushNotificationsA s = flushNotifications E s"
| "bus_do E (ClaimEventsA subscriber n lease) s = snd (ClaimEvents E (\<lambda>_ s. s) subscriber n lease s)"
| "bus_do E (AckEventA subscriber eid) s = snd (AckEvent subscriber eid s)"
| "bus_do E (AckEventsA subscriber eids) s = snd (AckEvents subscriber eids s)"
| "bus_do E (DiscardA ern) s = snd (DiscardDeliveries ern s)"
| "bus_do E (HoldA source) s = snd (HoldDeliveries source s)"
| "bus_do E (ReleaseA holder) s = snd (ReleaseHeld E holder s)"
| "bus_do E ReapA s = reap E s"
| "bus_do E ExpireA s = expire (bus_now E) s"

text \<open>The operations that take events out of the bus: an acknowledgement by the subscriber, the removal of a
  subscription or of a delivery target, and the expiry.\<close>

fun withdraws :: "bus_action \<Rightarrow> bool" where
  "withdraws (UnsubscribeExternalA _ _) = True"
| "withdraws PurgeEphemeralA = True"
| "withdraws (AckEventA _ _) = True"
| "withdraws (AckEventsA _ _) = True"
| "withdraws (DiscardA _) = True"
| "withdraws ExpireA = True"
| "withdraws _ = False"

text \<open>Where an instance is in its poll.\<close>

datatype poll = Looked "string list" | Claiming string "string list" | Handling "event list" settling

record bus_system =
  sys_bus :: bus
  polls :: "poll option list"
  was_stored :: "string set"
  was_accepted :: "string set"
  was_withdrawn :: "string set"

definition event_ids :: "bus \<Rightarrow> string set" where
  "event_ids s = ev_oid ` set (events s)"

definition dead_ids :: "bus \<Rightarrow> string set" where
  "dead_ids s = (\<lambda>(e, _). ev_oid e) ` set (dead_letters s)"

text \<open>A handler's verdict on the next event of the batch comes from outside.\<close>

inductive sys_step :: "bus_system \<Rightarrow> bus_system \<Rightarrow> bool" where
  begins: "sys_step w (w\<lparr>polls := polls w @ [None]\<rparr>)"
| looks: "i < length (polls w) \<Longrightarrow> polls w ! i = None \<Longrightarrow>
    sys_step w (w\<lparr>polls := (polls w)[i := Some (Looked (poll_look moduleType (sys_bus w)))]\<rparr>)"
| claims: "i < length (polls w) \<Longrightarrow> polls w ! i = Some (Looked ids) \<Longrightarrow>
    sys_step w (w\<lparr>sys_bus := snd (poll_claim E instanceId token ids (sys_bus w)), polls := (polls w)[i := Some (Claiming token ids)]\<rparr>)"
| reads: "i < length (polls w) \<Longrightarrow> polls w ! i = Some (Claiming token ids) \<Longrightarrow>
    sys_step w (w\<lparr>polls := (polls w)[i := Some (Handling (poll_won token ids (sys_bus w)) \<lparr>acked = [], requeue = []\<rparr>)]\<rparr>)"
| handles: "i < length (polls w) \<Longrightarrow> polls w ! i = Some (Handling (e # es) st) \<Longrightarrow> settle_one e ok (st, sys_bus w) = (st', s) \<Longrightarrow>
    sys_step w (w\<lparr>sys_bus := s, polls := (polls w)[i := Some (Handling es st')],
      was_accepted := (if ok then insert (ev_oid e) (was_accepted w) else was_accepted w)\<rparr>)"
| settles: "i < length (polls w) \<Longrightarrow> polls w ! i = Some (Handling [] st) \<Longrightarrow>
    sys_step w (w\<lparr>sys_bus := poll_settle E st (sys_bus w), polls := (polls w)[i := None]\<rparr>)"
| dies: "i < length (polls w) \<Longrightarrow> sys_step w (w\<lparr>polls := (polls w)[i := None]\<rparr>)"
| acts: "s = bus_do E a (sys_bus w) \<Longrightarrow>
    sys_step w (w\<lparr>sys_bus := s, was_stored := was_stored w \<union> event_ids s,
      was_withdrawn := (if withdraws a then was_withdrawn w \<union> (event_ids (sys_bus w) - event_ids s) else was_withdrawn w)\<rparr>)"

definition empty_bus :: bus where
  "empty_bus = \<lparr>subscriptions = [], events = [], dead_letters = [], subscriberCache = [], pendingNotifications = [],
     lastNotifiedAt = [], busWaiters = no_waiters, pushed = []\<rparr>"

definition sys_start :: bus_system where
  "sys_start = \<lparr>sys_bus = empty_bus, polls = [], was_stored = {}, was_accepted = {}, was_withdrawn = {}\<rparr>"

fun poll_accounted :: "bus_system \<Rightarrow> poll option \<Rightarrow> bool" where
  "poll_accounted w (Some (Handling es st)) \<longleftrightarrow> set (acked st) \<subseteq> was_accepted w"
| "poll_accounted w _ \<longleftrightarrow> True"

definition accounted :: "bus_system \<Rightarrow> bool" where
  "accounted w \<longleftrightarrow>
     was_stored w \<subseteq> event_ids (sys_bus w) \<union> dead_ids (sys_bus w) \<union> was_accepted w \<union> was_withdrawn w \<and>
     (\<forall>p \<in> set (polls w). poll_accounted w p) \<and> (\<forall>(e, _) \<in> set (dead_letters (sys_bus w)). kMaxAttempts \<le> attempts e)"

subsection \<open>What the operations keep\<close>

text \<open>The rest of the state does not matter to the account.\<close>

lemma event_ids_simps [simp]:
  "event_ids (s\<lparr>subscriptions := x1\<rparr>) = event_ids s" "event_ids (s\<lparr>dead_letters := x2\<rparr>) = event_ids s"
  "event_ids (s\<lparr>subscriberCache := x3\<rparr>) = event_ids s" "event_ids (s\<lparr>pendingNotifications := x4\<rparr>) = event_ids s"
  "event_ids (s\<lparr>lastNotifiedAt := x5\<rparr>) = event_ids s" "event_ids (s\<lparr>busWaiters := x6\<rparr>) = event_ids s"
  "event_ids (s\<lparr>pushed := x7\<rparr>) = event_ids s"
  by (simp_all add: event_ids_def)

lemma event_ids_map: "event_ids s = set (map ev_oid (events s))"
  by (simp add: event_ids_def)

lemma map_oids: "(\<And>e. ev_oid (f e) = ev_oid e) \<Longrightarrow> map ev_oid (map (\<lambda>e. if P e then f e else e) es) = map ev_oid es"
  by simp

lemma update_events_kept:
  assumes "\<And>e. ev_oid (f e) = ev_oid e"
  shows "event_ids (snd (update_events P f s)) = event_ids s" "dead_letters (snd (update_events P f s)) = dead_letters s"
  by (simp_all add: event_ids_map update_events_def map_oids assms del: set_map map_map)

lemma release_event_oid [simp]: "ev_oid (release_event E e) = ev_oid e"
  by (simp add: release_event_def Let_def)

lemma release_pages_oids: "map ev_oid (fst (release_pages E holder es acc)) = map ev_oid es"
proof (induction E holder es acc rule: release_pages.induct)
  case (1 E holder es released woken)
  have "map ev_oid (release_page E holder es) = map ev_oid es"
    by (simp add: release_page_def Let_def)
  with 1 show ?case by (subst release_pages.simps) (auto simp: Let_def simp del: release_pages.simps)
qed

lemma bus_do_dead: "dead_letters (bus_do E a s) = dead_letters s"
proof (cases a)
  case (ReleaseA holder)
  then show ?thesis by (simp add: ReleaseHeld_def split: prod.splits)
next
  case (ClaimEventsA subscriber n lease)
  then show ?thesis by (simp add: ClaimEvents_alone)
qed (simp_all add: Subscribe_def SubscribeExternal_def UnsubscribeExternal_def PurgeEphemeralSubscriptions_def
      pruneStaleSubscriptions_def Publish_events PublishBatch_events AckEvent_def AckEvents_def DiscardDeliveries_def
      HoldDeliveries_def update_events_def reap_def expire_def Let_def)

lemma bus_do_keeps:
  assumes "\<not> withdraws a" shows "event_ids s \<subseteq> event_ids (bus_do E a s)"
proof (cases a)
  case (PublishBatchA et batch source)
  then show ?thesis using PublishBatch_events(1) [of E et batch source s] by (auto simp: event_ids_def)
next
  case (ReleaseA holder)
  have "set (map ev_oid (fst (release_pages E holder (events s) (0, [])))) = set (map ev_oid (events s))"
    by (simp only: release_pages_oids)
  with ReleaseA show ?thesis by (auto simp: ReleaseHeld_def event_ids_def split: prod.splits)
next
  case (ClaimEventsA subscriber n lease)
  then show ?thesis by (simp add: event_ids_map ClaimEvents_alone map_oids del: set_map map_map)
next
  case (HoldA source)
  then show ?thesis by (simp add: HoldDeliveries_def update_events_kept)
next
  case ReapA
  then show ?thesis by (simp add: reap_def update_events_kept)
qed (use assms in \<open>auto simp: event_ids_def Subscribe_def SubscribeExternal_def pruneStaleSubscriptions_def Publish_events Let_def\<close>)

subsection \<open>Nothing is lost\<close>

lemma settle_one_accounts:
  assumes "settle_one e ok (st, s) = (st', t)"
  shows "event_ids s \<union> dead_ids s \<subseteq> event_ids t \<union> dead_ids t"
    and "set (acked st') \<subseteq> (if ok then insert (ev_oid e) (set (acked st)) else set (acked st))"
    and "x \<in> set (dead_letters t) \<Longrightarrow> x \<in> set (dead_letters s) \<or> (fst x = e \<and> kMaxAttempts \<le> attempts e)"
  using assms by (auto simp: settle_one_def event_ids_def dead_ids_def moveToDlq_def split: if_splits)

lemma poll_accounted_mono:
  "poll_accounted w p \<Longrightarrow> was_accepted w \<subseteq> was_accepted w' \<Longrightarrow> poll_accounted w' p"
  by (cases "(w, p)" rule: poll_accounted.cases) auto

text \<open>The account holds on if it does for what an instance is given instead of its old poll.\<close>

lemma accountedI:
  assumes "accounted w"
    and "was_stored w' \<subseteq> was_stored w \<union> event_ids (sys_bus w')"
    and "event_ids (sys_bus w) \<union> dead_ids (sys_bus w) \<subseteq>
      event_ids (sys_bus w') \<union> dead_ids (sys_bus w') \<union> was_accepted w' \<union> was_withdrawn w'"
    and "was_accepted w \<subseteq> was_accepted w'" and "was_withdrawn w \<subseteq> was_withdrawn w'"
    and "\<And>p. p \<in> set (polls w') \<Longrightarrow> p \<in> set (polls w) \<or> poll_accounted w' p"
    and "\<And>x. x \<in> set (dead_letters (sys_bus w')) \<Longrightarrow> x \<in> set (dead_letters (sys_bus w)) \<or> kMaxAttempts \<le> attempts (fst x)"
  shows "accounted w'"
proof -
  have "was_stored w \<subseteq> event_ids (sys_bus w) \<union> dead_ids (sys_bus w) \<union> was_accepted w \<union> was_withdrawn w"
    and p: "\<forall>p \<in> set (polls w). poll_accounted w p" and d: "\<forall>x \<in> set (dead_letters (sys_bus w)). kMaxAttempts \<le> attempts (fst x)"
    using assms(1) by (auto simp: accounted_def)
  then have "was_stored w' \<subseteq> event_ids (sys_bus w') \<union> dead_ids (sys_bus w') \<union> was_accepted w' \<union> was_withdrawn w'"
    using assms(2-5) by blast
  moreover have "\<forall>p \<in> set (polls w'). poll_accounted w' p" using p assms(4,6) poll_accounted_mono by blast
  moreover have "\<forall>x \<in> set (dead_letters (sys_bus w')). kMaxAttempts \<le> attempts (fst x)" using d assms(7) by blast
  ultimately show ?thesis by (auto simp: accounted_def)
qed

lemma accounted_step:
  assumes "sys_step w w'" and a: "accounted w"
  shows "accounted w'"
  using assms(1)
proof (cases rule: sys_step.cases)
  case (handles i e es st ok st' s)
  note settled = settle_one_accounts [OF handles(4)]
  have "polls w ! i \<in> set (polls w)" using handles(2) by simp
  then have "poll_accounted w (polls w ! i)" using a by (simp add: accounted_def)
  then have old: "set (acked st) \<subseteq> was_accepted w" using handles(3) by simp
  have new: "set (acked st') \<subseteq> was_accepted w'" unfolding handles(1) using settled(2) old by (cases ok; simp; blast)
  show ?thesis
  proof (rule accountedI [OF a])
    fix p assume "p \<in> set (polls w')"
    then have "p \<in> set (polls w) \<or> p = Some (Handling es st')"
      using set_update_subset_insert handles(1) by fastforce
    then show "p \<in> set (polls w) \<or> poll_accounted w' p" using new by auto
  qed (use settled handles(1) in \<open>fastforce split: if_splits\<close>)+
next
  case (settles i st E)
  have "polls w ! i \<in> set (polls w)" using settles(2) by simp
  then have "poll_accounted w (polls w ! i)" using a by (simp add: accounted_def)
  then have old: "set (acked st) \<subseteq> was_accepted w" using settles(3) by simp
  have "event_ids (sys_bus w) \<subseteq> event_ids (poll_settle E st (sys_bus w)) \<union> was_accepted w"
  proof -
    have "event_ids (poll_settle E st (sys_bus w)) = set (map ev_oid (filter (\<lambda>e. ev_oid e \<notin> set (acked st)) (events (sys_bus w))))"
      by (simp add: event_ids_map poll_settle_eq map_oids del: set_map map_map)
    then show ?thesis using old by (auto simp: event_ids_def)
  qed
  then show ?thesis
    by (intro accountedI [OF a]) (auto simp: settles(1) dead_ids_def poll_settle_eq dest!: set_update_subset_insert [THEN subsetD])
next
  case (acts s E a')
  then show ?thesis
    using bus_do_keeps [of a' "sys_bus w" E]
    by (intro accountedI [OF a]) (auto simp: dead_ids_def bus_do_dead)
qed (rule accountedI [OF a]; auto simp: poll_claim_def update_events_kept dead_ids_def dest!: set_update_subset_insert [THEN subsetD])+


interpretation bus_runs: inductive_invariant sys_start sys_step accounted
proof unfold_locales
  show "accounted sys_start" by (simp add: accounted_def sys_start_def empty_bus_def)
qed (auto intro: accounted_step)

text \<open>(C18) Nothing is lost, however many instances poll, in whatever order their steps and everybody else's happen, and
  however many of them die half way: an envelope that was ever stored is still on the bus, or a handler accepted it, or
  it is in the dead letters after at least five attempts, or it was taken out by an acknowledgement, the end of its
  subscription or of its target, or its expiry.\<close>

theorem bus_loses_nothing:
  assumes "reach sys_start sys_step w" and "x \<in> was_stored w"
  shows "x \<in> ev_oid ` set (events (sys_bus w)) \<or> x \<in> was_accepted w \<or> x \<in> was_withdrawn w \<or>
    (\<exists>e reason. (e, reason) \<in> set (dead_letters (sys_bus w)) \<and> ev_oid e = x \<and> kMaxAttempts \<le> attempts e)"
proof -
  have a: "accounted w" using assms(1) by (rule bus_runs.reach_inv)
  then consider "x \<in> event_ids (sys_bus w)" | "x \<in> dead_ids (sys_bus w)" | "x \<in> was_accepted w" | "x \<in> was_withdrawn w"
    using assms(2) by (auto simp: accounted_def)
  then show ?thesis
  proof cases
    case 2
    then obtain e reason where "(e, reason) \<in> set (dead_letters (sys_bus w))" "ev_oid e = x" by (auto simp: dead_ids_def)
    then show ?thesis using a by (auto simp: accounted_def)
  qed (simp_all add: event_ids_def)
qed

definition sample_bus_env :: "millis \<Rightarrow> bus_env" where
  "sample_bus_env t = \<lparr>bus_now = t, bus_steady = t, fresh_id = (\<lambda>n. replicate (Suc n) CHR ''i''),
     fresh_oid = (\<lambda>n. replicate (Suc n) CHR ''o''), cache_seconds = 0, notify_interval = 100\<rparr>"

definition sample_system :: bus_system where
  "sample_system =
     (let s = bus_do (sample_bus_env 0) (SubscribeA ''eqs'' ''t'') empty_bus;
          s' = bus_do (sample_bus_env 1) (PublishA ''t'' JNull ''esm'' no_delivery) s in
      sys_start\<lparr>sys_bus := s', was_stored := {} \<union> event_ids s \<union> event_ids s'\<rparr>)"

lemmas bus_eval = sample_bus_env_def empty_bus_def Subscribe_def invalidateSubscribers_def Publish_def subscribersOf_def
  recordOf_def targetsOf_def addTarget_def std_insert_def List.insort_insert_key_def module_envelope_def envelope_def appendStatus_def
  no_delivery_def insert_event_def pushToSessions_def kExternalPrefix_def event_ids_def Let_def

lemma sample_events: "map ev_oid (events (sys_bus sample_system)) = [''o''] \<and> was_stored sample_system = {''o''} \<and>
    was_accepted sample_system = {} \<and> was_withdrawn sample_system = {} \<and> dead_letters (sys_bus sample_system) = []"
  by (simp add: sample_system_def sys_start_def bus_eval)

lemma sample_system_reached: "reach sys_start sys_step sample_system"
proof -
  let ?s = "bus_do (sample_bus_env 0) (SubscribeA ''eqs'' ''t'') empty_bus"
  let ?w = "sys_start\<lparr>sys_bus := ?s, was_stored := was_stored sys_start \<union> event_ids ?s\<rparr>"
  have b: "empty_bus = sys_bus sys_start" by (simp add: sys_start_def)
  have "reach sys_start sys_step ?w"
    using reach.step [where step = sys_step, OF reach.start acts [where w = sys_start and E = "sample_bus_env 0" and a = "SubscribeA ''eqs'' ''t''", OF refl]]
    by (simp add: sys_start_def)
  from reach.step [where step = sys_step, OF this acts [where w = ?w and E = "sample_bus_env 1" and a = "PublishA ''t'' JNull ''esm'' no_delivery", OF refl]]
  show ?thesis by (simp add: sample_system_def sys_start_def Let_def del: bus_do.simps)
qed

theorem bus_loses_nothing_witness:
  "''o'' \<in> ev_oid ` set (events (sys_bus sample_system))"
  using bus_loses_nothing [OF sample_system_reached, of "''o''"] sample_events by auto

end
