(* ===== verification/Event_Promises.thy ===== *)
theory Event_Promises
  imports Event_Runs
begin

text \<open>
  What the bus promises its users: whom a publication reaches, that a batch stores what its events would one by one,
  what a poll makes of its batch, that what is held waits and is released whole, and that a claim keeps others away while
  its lease lasts. At the end, where it does not keep what its comments promise.
\<close>

subsection \<open>Sets of targets\<close>

lemma std_insert_simps [simp]:
  "set (std_insert x xs) = insert x (set xs)" "distinct (std_insert x xs) = distinct xs"
  by (simp add: std_insert_def set_insort_insert) (simp add: std_insert_def List.insort_insert_key_def distinct_insort)

lemma targetsOf_sets:
  "set (modules (fold (addTarget p) rs t)) = set (modules t) \<union> rec_target ` {r \<in> set rs. \<not> external r}"
  "set (externals (fold (addTarget p) rs t)) = set (externals t) \<union>
     rec_target ` {r \<in> set rs. external r \<and> matchesFilter p r \<and> matchesAccount p r \<and> rec_mode r \<noteq> Live}"
  "distinct (modules t) \<Longrightarrow> distinct (modules (fold (addTarget p) rs t))"
  "distinct (externals t) \<Longrightarrow> distinct (externals (fold (addTarget p) rs t))"
  by (induction rs arbitrary: t) (auto simp: addTarget_def)

definition durable_for :: "json \<Rightarrow> string \<Rightarrow> subscription \<Rightarrow> bool" where
  "durable_for content et x \<longleftrightarrow> sub_eventType x = et \<and>
     (starts_with (sub_moduleType x) kExternalPrefix \<longrightarrow>
        sub_mode x = Durable \<and> matchesFilter (payloadObject content) (recordOf x) \<and> matchesAccount (payloadObject content) (recordOf x))"

lemma recordOf_simps [simp]:
  "rec_target (recordOf x) = sub_moduleType x" "external (recordOf x) = starts_with (sub_moduleType x) kExternalPrefix"
  "rec_mode (recordOf x) = (if starts_with (sub_moduleType x) kExternalPrefix then sub_mode x else Durable)"
  by (simp_all add: recordOf_def Let_def)

lemma record_targets: "rec_target ` {r \<in> recordOf ` S. Q r} = sub_moduleType ` {x \<in> S. Q (recordOf x)}"
  by (force simp: image_iff)

lemma not_Live: "m \<noteq> Live \<longleftrightarrow> m = Durable"
  by (cases m) simp_all

lemma subscribersOf_fresh:
  "map_of (subscriberCache s) et = None \<Longrightarrow>
   fst (subscribersOf E et s) = map recordOf (filter (\<lambda>x. sub_eventType x = et) (subscriptions s))"
  by (simp add: subscribersOf_def Let_def)

lemma module_envelope_simps [simp]:
  "targetModule (module_envelope E i et content source d target) = target"
  "eventType (module_envelope E i et content source d target) = et"
  "payload (module_envelope E i et content source d target) = content"
  "ev_status (module_envelope E i et content source d target) = (if del_heldBy d = '''' then PENDING else HELD)"
  by (simp_all add: module_envelope_def envelope_def appendStatus_def)

lemma external_envelope_simps [simp]:
  "targetModule (external_envelope E i et content source d target) = target"
  "eventType (external_envelope E i et content source d target) = et"
  "payload (external_envelope E i et content source d target) = content"
  "ev_status (external_envelope E i et content source d target) = (if del_heldBy d = '''' then PENDING else HELD)"
  by (simp_all add: external_envelope_def envelope_def appendStatus_def)

lemma map_enumerate_const: "(\<And>i x. f (i, x) = g x) \<Longrightarrow> map f (enumerate n xs) = map g xs"
  by (induction xs arbitrary: n) simp_all



subsection \<open>Releasing what was held\<close>

lemma release_page_distinct:
  assumes "distinct (map ev_oid es)"
  shows "release_page E holder es =
    map (\<lambda>e. if e \<in> set (take kPage (filter (is_held holder) es)) then release_event E e else e) es"
proof -
  have "ev_oid e \<in> ev_oid ` set (take kPage (filter (is_held holder) es)) \<longleftrightarrow> e \<in> set (take kPage (filter (is_held holder) es))"
    if "e \<in> set es" for e
    by (rule inj_on_image_mem_iff [of _ "set es"]) (use assms that in \<open>auto simp: distinct_map dest: in_set_takeD\<close>)
  then show ?thesis by (simp add: release_page_def)
qed

lemma release_event_simps [simp]: "ev_oid (release_event E e) = ev_oid e" "ev_status (release_event E e) = PENDING"
  by (simp_all add: release_event_def Let_def)

lemma filter_not_taken: "distinct xs \<Longrightarrow> filter (\<lambda>e. e \<notin> set (take n xs)) xs = drop n xs"
proof -
  assume "distinct xs"
  then have "distinct (take n xs @ drop n xs)" by simp
  then have "filter (\<lambda>e. e \<notin> set (take n xs)) (take n xs @ drop n xs) = drop n xs"
    unfolding distinct_append by (subst filter_append) (auto simp: filter_empty_conv intro!: filter_True)
  then show ?thesis by simp
qed

lemma held_after_page:
  assumes "distinct (map ev_oid es)"
  shows "filter (is_held holder) (release_page E holder es) = drop kPage (filter (is_held holder) es)"
proof -
  let ?h = "filter (is_held holder) es"
  have "filter (is_held holder) (release_page E holder es) = filter (\<lambda>e. e \<notin> set (take kPage ?h)) ?h"
    unfolding release_page_distinct [OF assms] by (subst filter_map_if) (simp_all add: release_event_not_held conj_commute)
  also have "\<dots> = drop kPage ?h" using assms by (intro filter_not_taken) (simp add: distinct_map)
  finally show ?thesis .
qed

lemma release_pages_exact:
  assumes "distinct (map ev_oid es)"
  shows "fst (release_pages E holder es (n, woken)) = map (\<lambda>e. if is_held holder e then release_event E e else e) es \<and>
    fst (snd (release_pages E holder es (n, woken))) = n + length (filter (is_held holder) es)"
  using assms
proof (induction E holder es "(n, woken)" arbitrary: n woken rule: release_pages.induct)
  case (1 E holder es n woken)
  let ?h = "filter (is_held holder) es" and ?rel = "\<lambda>e. if is_held holder e then release_event E e else e"
  let ?w = "fold std_insert (filter (\<lambda>t. starts_with t kExternalPrefix) (map targetModule (take kPage ?h))) woken"
  have page: "release_page E holder es = map (\<lambda>e. if e \<in> set (take kPage ?h) then release_event E e else e) es"
    using 1(2) by (rule release_page_distinct)
  consider (none) "?h = []" | (last) "?h \<noteq> []" "length ?h < kPage" | (full) "kPage \<le> length ?h" "take kPage ?h \<noteq> []"
    using not_less by (cases "?h = []") (auto simp: kPage_def)
  then show ?case
  proof cases
    case none
    then have "map ?rel es = es" by (auto simp: filter_empty_conv intro: map_idI)
    with none show ?thesis by (simp add: release_pages.simps [of E holder es])
  next
    case last
    then have "release_page E holder es = map ?rel es" unfolding page by (auto intro!: map_cong)
    with last show ?thesis by (simp add: release_pages.simps [of E holder es] Let_def kPage_def)
  next
    case full
    have d: "distinct (map ev_oid (release_page E holder es))"
    proof -
      have "map ev_oid (release_page E holder es) = map ev_oid es" unfolding page by simp
      then show ?thesis using 1(2) by metis
    qed
    have again: "map ?rel (release_page E holder es) = map ?rel es"
      unfolding page by (auto simp: release_event_not_held dest!: in_set_takeD)
    have l: "length (take kPage ?h) = kPage" using full(1) by simp
    have step: "release_pages E holder es (n, woken) = release_pages E holder (release_page E holder es) (n + kPage, ?w)"
      using full by (simp add: release_pages.simps [of E holder es] Let_def)
    show ?thesis
      unfolding step using 1(1) [OF refl refl _ refl refl _ d] full by (simp add: l again held_after_page [OF 1(2)])
  qed
qed

text \<open>Starting a source again releases every event held for it, in pages until none is left, and says how many: each
  is pending from now on and expires as any other, and no other event is touched.\<close>

theorem ReleaseHeld_exact:
  assumes "distinct (map ev_oid (events s))"
  shows "events (snd (ReleaseHeld E holder s)) =
      map (\<lambda>e. if holder \<noteq> '''' \<and> is_held holder e then release_event E e else e) (events s) \<and>
    fst (ReleaseHeld E holder s) = CountHeld holder s \<and> CountHeld holder (snd (ReleaseHeld E holder s)) = 0"
proof (cases "holder = ''''")
  case False
  obtain es n w where r: "release_pages E holder (events s) (0, []) = (es, n, w)"
    by (metis prod_cases3)
  have "es = map (\<lambda>e. if is_held holder e then release_event E e else e) (events s)" "n = length (filter (is_held holder) (events s))"
    using release_pages_exact [OF assms, of E holder 0 "[]"] r by simp_all
  then show ?thesis
    using False r by (simp add: ReleaseHeld_def CountHeld_def filter_empty_conv release_event_not_held)
qed (simp add: ReleaseHeld_def CountHeld_def)

theorem ReleaseHeld_exact_witness:
  "events (snd (ReleaseHeld poll_env ''app'' (waiting_bus\<lparr>events := [waiting_event\<lparr>ev_status := HELD, heldBy := ''app''\<rparr>]\<rparr>))) =
    [waiting_event\<lparr>visibleAt := 7, expiresAt := Some (7 + kModuleRetentionSeconds * 1000)\<rparr>]"
proof -
  have "distinct (map ev_oid (events (waiting_bus\<lparr>events := [waiting_event\<lparr>ev_status := HELD, heldBy := ''app''\<rparr>]\<rparr>)))" by simp
  from ReleaseHeld_exact [OF this, of poll_env "''app''"] show ?thesis
    by (simp add: is_held_def release_event_def waiting_event_def poll_env_def kExternalPrefix_def Let_def)
qed

subsection \<open>A batch is its single publications\<close>

text \<open>An envelope without the two ids drawn for it.\<close>

definition letter :: "event \<Rightarrow> event" where
  "letter e = e\<lparr>ev_oid := '''', eventId := ''''\<rparr>"

definition letters :: "bus_env \<Rightarrow> string \<Rightarrow> string \<Rightarrow> SubscriberRecord list \<Rightarrow> json \<times> Delivery \<Rightarrow> event multiset" where
  "letters E et source rs cd =
     image_mset (\<lambda>target. letter (module_envelope E 0 et (fst cd) source (snd cd) target)) (mset (modules (targetsOf (payloadObject (fst cd)) rs))) +
     image_mset (\<lambda>target. letter (external_envelope E 0 et (fst cd) source (snd cd) target)) (mset (externals (targetsOf (payloadObject (fst cd)) rs)))"

lemma letter_envelope [simp]:
  "letter (module_envelope E (Suc i) et content source d target) = letter (module_envelope E 0 et content source d target)"
  "letter (external_envelope E (Suc i) et content source d target) = letter (external_envelope E 0 et content source d target)"
  by (simp_all add: letter_def module_envelope_def external_envelope_def envelope_def appendStatus_def)

lemma letter_number:
  "letter (module_envelope E i et content source d target) = letter (module_envelope E 0 et content source d target)"
  "letter (external_envelope E i et content source d target) = letter (external_envelope E 0 et content source d target)"
  by (cases i; simp)+

lemma letters_enumerate:
  "(\<And>i x. letter (f i x) = letter (g x)) \<Longrightarrow>
   image_mset letter (mset (map (\<lambda>(i, x). f i x) (enumerate n xs))) = image_mset (\<lambda>x. letter (g x)) (mset xs)"
  by (induction xs arbitrary: n) simp_all

lemma published_letters:
  "image_mset letter (mset (published_events E et content source d rs)) = letters E et source rs (content, d)"
  unfolding published_events_def letters_def Let_def mset_append image_mset_union fst_conv snd_conv
  by (intro arg_cong2 [where f = "(+)"] letters_enumerate letter_number)

lemma externals_wanted:
  assumes "distinct (map rec_target rs)"
  shows "mset (externals (targetsOf (payloadObject content) rs)) = mset (map rec_target (filter (wants content) rs))"
proof (rule set_eq_iff_mset_eq_distinct [THEN iffD1])
  show "distinct (map rec_target (filter (wants content) rs))" using assms by (auto simp: distinct_map intro: inj_on_subset)
qed (auto simp: targetsOf_def targetsOf_sets wants_def)

lemma std_set_simps [simp]: "set (std_set xs) = set xs" "distinct (std_set xs)"
proof -
  have "set (fold std_insert xs ys) = set ys \<union> set xs" "distinct ys \<Longrightarrow> distinct (fold std_insert xs ys)" for ys :: "'a list"
    by (induction xs arbitrary: ys) auto
  then show "set (std_set xs) = set xs" "distinct (std_set xs)" by (simp_all add: std_set_def)
qed

lemma modules_targets:
  "mset (modules (targetsOf p rs)) = mset (std_set (map rec_target (filter (\<lambda>r. \<not> external r) rs)))"
  by (rule set_eq_iff_mset_eq_distinct [THEN iffD1]) (auto simp: targetsOf_def targetsOf_sets)

lemma batch_letters:
  assumes "distinct (map rec_target rs)"
  shows "image_mset letter (mset (batch_envelopes E n et source (std_set (map rec_target (filter (\<lambda>r. \<not> external r) rs))) rs batch)) =
    sum_list (map (letters E et source rs) batch)"
proof (induction batch arbitrary: n)
  case (Cons cd batch)
  obtain content d where cd: "cd = (content, d)" by force
  let ?T = "std_set (map rec_target (filter (\<lambda>r. \<not> external r) rs))"
  have own: "image_mset letter (mset (map (\<lambda>(i, target). module_envelope E (n + i) et content source d target) (enumerate 0 ?T))) =
      image_mset (\<lambda>target. letter (module_envelope E 0 et content source d target)) (mset (modules (targetsOf (payloadObject content) rs)))"
    unfolding modules_targets by (intro letters_enumerate letter_number)
  have theirs: "image_mset letter (mset (map (\<lambda>(i, r). external_envelope E (m + i) et content source d (rec_target r))
        (enumerate 0 (filter (wants content) rs)))) =
      image_mset (\<lambda>target. letter (external_envelope E 0 et content source d target)) (mset (externals (targetsOf (payloadObject content) rs)))" for m
    unfolding externals_wanted [OF assms] mset_map multiset.map_comp comp_def
    by (subst letters_enumerate [where g = "\<lambda>r. external_envelope E 0 et content source d (rec_target r)", simplified mset_map multiset.map_comp comp_def];
      intro letter_number refl)
  show ?case using own theirs Cons by (simp add: cd letters_def Let_def)
qed simp

text \<open>What a lookup of subscribers depends on, and that neither a lookup nor a publication changes it.\<close>

lemma subscribersOf_same:
  "subscriberCache s = subscriberCache t \<Longrightarrow> subscriptions s = subscriptions t \<Longrightarrow> fst (subscribersOf E et s) = fst (subscribersOf E et t)"
  by (simp add: subscribersOf_def Let_def split: option.splits)

lemma subscribersOf_again: "fst (subscribersOf E et (snd (subscribersOf E et s))) = fst (subscribersOf E et s)"
  by (auto simp: subscribersOf_def Let_def split: option.splits)

lemma lookup_parts_kept [simp]:
  "subscriberCache (push_notice p s) = subscriberCache s" "subscriptions (push_notice p s) = subscriptions s"
  "subscriberCache (notifySubscriber E p s) = subscriberCache s" "subscriptions (notifySubscriber E p s) = subscriptions s"
  "subscriberCache (pushLive et object target s) = subscriberCache s" "subscriptions (pushLive et object target s) = subscriptions s"
  "subscriberCache (wake_bus key s) = subscriberCache s" "subscriptions (wake_bus key s) = subscriptions s"
  by (simp_all add: push_notice_def notifySubscriber_def pushLive_def wake_bus_def Let_def split: option.splits)

lemma pushToSessions_lookup [simp]:
  "subscriberCache (pushToSessions E et object durable live s) = subscriberCache s"
  "subscriptions (pushToSessions E et object durable live s) = subscriptions s"
  by (simp_all add: pushToSessions_def fold_kept)

lemma insert_lookup [simp]:
  "subscriberCache (insert_modules E n et content source d targets s) = subscriberCache s"
  "subscriptions (insert_modules E n et content source d targets s) = subscriptions s"
  "subscriberCache (insert_externals E n et content source d targets s) = subscriberCache s"
  "subscriptions (insert_externals E n et content source d targets s) = subscriptions s"
  by (induction targets arbitrary: n s) (simp_all add: insert_event_def Let_def)

lemma Publish_lookup:
  "fst (subscribersOf E et (Publish E et content source d s)) = fst (subscribersOf E et s)"
proof -
  have "fst (subscribersOf E et (Publish E et content source d s)) = fst (subscribersOf E et (snd (subscribersOf E et s)))"
    by (rule subscribersOf_same) (auto simp: Publish_def Let_def split: prod.splits dest: subscribersOf_eqD)
  then show ?thesis by (simp add: subscribersOf_again)
qed

lemma singles_letters:
  "\<exists>es. events (fold (\<lambda>(content, d). Publish E et content source d) batch s) = events s @ es \<and>
     image_mset letter (mset es) = sum_list (map (letters E et source (fst (subscribersOf E et s))) batch)"
proof (induction batch arbitrary: s)
  case (Cons cd batch)
  obtain content d where cd: "cd = (content, d)" by force
  obtain es where es: "events (fold (\<lambda>(content, d). Publish E et content source d) batch (Publish E et content source d s)) =
        events (Publish E et content source d s) @ es"
      "image_mset letter (mset es) = sum_list (map (letters E et source (fst (subscribersOf E et s))) batch)"
    using Cons.IH [of "Publish E et content source d s"] unfolding Publish_lookup by blast
  then show ?case
    by (intro exI [of _ "published_events E et content source d (fst (subscribersOf E et s)) @ es"])
      (simp add: cd Publish_events published_letters)
qed simp

text \<open>A batch stores what publishing its events one after the other would: the same envelopes, as many of each, but
  for the ids drawn for them.\<close>

theorem batch_as_singles:
  assumes "distinct (map rec_target (fst (subscribersOf E et s)))"
  shows "\<exists>es es'. events (PublishBatch E et batch source s) = events s @ es \<and>
    events (fold (\<lambda>(content, d). Publish E et content source d) batch s) = events s @ es' \<and>
    image_mset letter (mset es) = image_mset letter (mset es')"
proof -
  let ?rs = "fst (subscribersOf E et s)"
  obtain es' where singles: "events (fold (\<lambda>(content, d). Publish E et content source d) batch s) = events s @ es'"
      "image_mset letter (mset es') = sum_list (map (letters E et source ?rs) batch)"
    using singles_letters by blast
  have "\<exists>es. events (PublishBatch E et batch source s) = events s @ es \<and>
      image_mset letter (mset es) = sum_list (map (letters E et source ?rs) batch)"
  proof (cases "batch = [] \<or> ?rs = []")
    case True
    then have "sum_list (map (letters E et source ?rs) batch) = {#}"
      by (induction batch) (auto simp: letters_def targetsOf_def)
    with True show ?thesis
      by (auto simp: PublishBatch_def Let_def std_set_def split: prod.splits dest: subscribersOf_eqD)
  next
    case False
    then have "\<not> (std_set (map rec_target (filter (\<lambda>r. \<not> external r) ?rs)) = [] \<and> std_set (map rec_target (filter external ?rs)) = [])"
      by (metis (mono_tags, lifting) empty_filter_conv empty_set last_in_set map_is_Nil_conv set_empty std_set_simps(1))
    moreover obtain rs t where l: "subscribersOf E et s = (rs, t)" by force
    moreover from this obtain t' where l': "subscribersOf E et t = (rs, t')"
      using subscribersOf_again [of E et s] by (cases "subscribersOf E et t") simp
    moreover from l l' have "events t' = events s" by (simp add: subscribersOf_eqD)
    ultimately have "events (PublishBatch E et batch source s) = events s @
        batch_envelopes E 0 et source (std_set (map rec_target (filter (\<lambda>r. \<not> external r) ?rs))) ?rs batch"
      using False by (auto simp: PublishBatch_def)
    then show ?thesis using batch_letters [OF assms] by blast
  qed
  with singles show ?thesis by metis
qed

theorem batch_as_singles_witness:
  "\<exists>es es'. events (PublishBatch (sample_bus_env 1) ''t'' [(JNull, no_delivery)] ''esm'' (Subscribe ''eqs'' ''t'' empty_bus)) =
      events (Subscribe ''eqs'' ''t'' empty_bus) @ es \<and>
    events (fold (\<lambda>(content, d). Publish (sample_bus_env 1) ''t'' content ''esm'' d) [(JNull, no_delivery)]
        (Subscribe ''eqs'' ''t'' empty_bus)) = events (Subscribe ''eqs'' ''t'' empty_bus) @ es' \<and>
    image_mset letter (mset es) = image_mset letter (mset es')"
  by (rule batch_as_singles) (simp add: bus_eval)

subsection \<open>Claims exclude\<close>

lemma claim_candidates_claimable:
  assumes "distinct (map ev_oid (events s))" and "e \<in> set (events s)" and "ev_oid e \<in> set (claim_candidates E subscriber maxEvents s)"
  shows "claimable (bus_now E) e \<and> targetModule e = externalTarget subscriber"
proof -
  obtain e' where "e' \<in> set (events s)" "ev_oid e' = ev_oid e" "claimable (bus_now E) e'" "targetModule e' = externalTarget subscriber"
    using assms(3) by (auto simp: claim_candidates_def dest!: in_set_takeD)
  with assms(1,2) show ?thesis by (auto simp: distinct_map dest: inj_onD)
qed

lemma ClaimEvents_won:
  "fst (ClaimEvents E (\<lambda>_ s. s) subscriber maxEvents lease s) \<noteq> [] \<Longrightarrow>
   set (fst (ClaimEvents E (\<lambda>_ s. s) subscriber maxEvents lease s)) =
     {e \<in> set (events (snd (ClaimEvents E (\<lambda>_ s. s) subscriber maxEvents lease s))).
        ev_oid e \<in> set (claim_candidates E subscriber maxEvents s) \<and> claimToken e = fresh_id E 0}"
  unfolding ClaimEvents_def Let_def claim_candidates_def [symmetric] update_events_def by (auto split: if_splits)

text \<open>(C29) What one session has claimed, no other gets while the lease lasts: a second claim of the same subscriber,
  anywhere before the lease is over, hands out none of it. What is held is handed to nobody.\<close>

theorem claims_exclude:
  assumes "distinct (map ev_oid (events s))" and "bus_now E' < bus_now E + lease"
    and "ClaimEvents E (\<lambda>_ s. s) subscriber n lease s = (won, s')"
    and "ClaimEvents E' (\<lambda>_ s. s) subscriber n' lease' s' = (won', s'')"
  shows "ev_oid ` set won \<inter> ev_oid ` set won' = {} \<and>
    (\<forall>e \<in> set (events s). ev_status e = HELD \<longrightarrow> ev_oid e \<notin> ev_oid ` set won \<union> ev_oid ` set won' \<and> e \<in> set (events s''))"
proof -
  let ?C = "set (claim_candidates E subscriber n s)" and ?C' = "set (claim_candidates E' subscriber n' s')"
  let ?f = "\<lambda>e. if ev_oid e \<in> ?C \<and> claimable (bus_now E) e then claim_event subscriber (fresh_id E 0) (bus_now E + lease) e else e"
  let ?g = "\<lambda>e. if ev_oid e \<in> ?C' \<and> claimable (bus_now E') e then claim_event subscriber (fresh_id E' 0) (bus_now E' + lease') e else e"
  have s': "events s' = map ?f (events s)" and s'': "events s'' = map ?g (events s')"
    using ClaimEvents_alone(1) [of E subscriber n lease s] ClaimEvents_alone(1) [of E' subscriber n' lease' s'] assms(3,4) by simp_all
  have "map ev_oid (events s') = map ev_oid (events s)" unfolding s' by simp
  then have d': "distinct (map ev_oid (events s'))" using assms(1) by metis
  have won: "ev_oid e \<in> ?C" if "e \<in> set won" for e
    using ClaimEvents_won [of E subscriber n lease s, unfolded assms(3)] that by (cases "won = []") auto
  have won': "ev_oid e \<in> ?C'" if "e \<in> set won'" for e
    using ClaimEvents_won [of E' subscriber n' lease' s', unfolded assms(4)] that by (cases "won' = []") auto
  have first: "ev_oid e \<notin> ?C'" if "e \<in> set (events s)" "ev_oid e \<in> ?C" for e
  proof
    assume c: "ev_oid e \<in> ?C'"
    have "claimable (bus_now E) e" using claim_candidates_claimable [OF assms(1) that] by simp
    then have f: "?f e = claim_event subscriber (fresh_id E 0) (bus_now E + lease) e" using that by simp
    have "?f e \<in> set (events s')" unfolding s' set_map using that(1) by (rule imageI)
    then have "claim_event subscriber (fresh_id E 0) (bus_now E + lease) e \<in> set (events s')" unfolding f .
    from claim_candidates_claimable [OF d' this, of E' subscriber n'] c have "bus_now E + lease \<le> bus_now E'"
      by (simp add: claimable_def)
    then show False using assms(2) by simp
  qed
  have "\<exists>e \<in> set (events s). ev_oid e = x" if "x \<in> ?C" for x
    using that by (auto simp: claim_candidates_def dest!: in_set_takeD)
  then have "ev_oid ` set won \<inter> ev_oid ` set won' = {}" using won won' first by fastforce
  moreover have "ev_oid e \<notin> ev_oid ` set won \<union> ev_oid ` set won' \<and> e \<in> set (events s'')"
    if e: "e \<in> set (events s)" "ev_status e = HELD" for e
  proof -
    have n: "\<not> claimable t e" for t using e(2) by (simp add: claimable_def)
    then have "?f e = e" by simp
    then have e': "e \<in> set (events s')" using e(1) unfolding s' by force
    have "?g e = e" using n by simp
    then have "e \<in> set (events s'')" using e' unfolding s'' by force
    moreover have "ev_oid e \<notin> ?C" "ev_oid e \<notin> ?C'"
      using claim_candidates_claimable [OF assms(1) e(1)] claim_candidates_claimable [OF d' e'] n by blast+
    ultimately show ?thesis by (auto dest: won won')
  qed
  ultimately show ?thesis by blast
qed

theorem claims_exclude_witness:
  "let s = waiting_bus\<lparr>events := [waiting_event\<lparr>targetModule := ''client:a''\<rparr>]\<rparr>;
       s' = snd (ClaimEvents poll_env (\<lambda>_ s. s) ''a'' 10 100 s);
       E' = poll_env\<lparr>bus_now := 50\<rparr> in
   map ev_oid (fst (ClaimEvents poll_env (\<lambda>_ s. s) ''a'' 10 100 s)) = [''o''] \<and>
   ''o'' \<notin> ev_oid ` set (fst (ClaimEvents E' (\<lambda>_ s. s) ''a'' 10 100 s'))"
proof -
  let ?s = "waiting_bus\<lparr>events := [waiting_event\<lparr>targetModule := ''client:a''\<rparr>]\<rparr>"
  let ?s' = "snd (ClaimEvents poll_env (\<lambda>_ s. s) ''a'' 10 100 ?s)" and ?E' = "poll_env\<lparr>bus_now := 50\<rparr>"
  have won: "map ev_oid (fst (ClaimEvents poll_env (\<lambda>_ s. s) ''a'' 10 100 ?s)) = [''o'']"
    by (simp add: ClaimEvents_def waiting_bus_def waiting_event_def poll_env_def externalTarget_def kExternalPrefix_def claimable_def
        oldest_first_def stable_sort_def update_events_def claim_event_def clamp_batch_def kBatchSize_def Let_def)
  have "ev_oid ` set (fst (ClaimEvents poll_env (\<lambda>_ s. s) ''a'' 10 100 ?s)) \<inter>
      ev_oid ` set (fst (ClaimEvents ?E' (\<lambda>_ s. s) ''a'' 10 100 ?s')) = {}"
    by (rule claims_exclude [OF _ _ prod.collapse [symmetric, of "ClaimEvents poll_env (\<lambda>_ s. s) ''a'' 10 100 ?s"]
          prod.collapse [symmetric, of "ClaimEvents ?E' (\<lambda>_ s. s) ''a'' 10 100 ?s'"], THEN conjunct1])
      (simp_all add: waiting_bus_def poll_env_def)
  moreover have "''o'' \<in> ev_oid ` set (fst (ClaimEvents poll_env (\<lambda>_ s. s) ''a'' 10 100 ?s))"
    using won by (metis list.set_intros(1) set_map)
  ultimately show ?thesis using won by (auto simp: Let_def)
qed

subsection \<open>Where the bus does not keep what it says\<close>

text \<open>Giving a refused event back asks only for its id. An event whose claim has lapsed and which was held since is taken
  out of the hold: it is pending again, keeps the mark of its holder, and never expires.\<close>

lemma requeue_breaks_hold:
  "e \<in> set (events s) \<Longrightarrow> ev_oid e \<in> set (requeue st) \<Longrightarrow> ev_oid e \<notin> set (acked st) \<Longrightarrow>
   e\<lparr>ev_status := PENDING, visibleAt := bus_now E\<rparr> \<in> set (events (poll_settle E st s))"
  by (force simp: poll_settle_eq)

lemma held_then_requeued:
  assumes "e \<in> set (events s)" and "sourceErn e = source" and "source \<noteq> ''''" and "ev_status e = PENDING"
  shows "\<exists>x \<in> set (events (poll_settle E \<lparr>acked = [], requeue = [ev_oid e]\<rparr> (snd (HoldDeliveries source s)))).
    ev_oid x = ev_oid e \<and> ev_status x = PENDING \<and> heldBy x = source \<and> expiresAt x = None"
proof -
  let ?h = "e\<lparr>ev_status := HELD, heldBy := source, expiresAt := None\<rparr>"
  have "?h \<in> set (events (snd (HoldDeliveries source s)))"
    using assms by (force simp: HoldDeliveries_def update_events_def)
  from requeue_breaks_hold [OF this, of "\<lparr>acked = [], requeue = [ev_oid e]\<rparr>" E]
  have "?h\<lparr>ev_status := PENDING, visibleAt := bus_now E\<rparr> \<in>
      set (events (poll_settle E \<lparr>acked = [], requeue = [ev_oid e]\<rparr> (snd (HoldDeliveries source s))))" by simp
  then show ?thesis by (rule rev_bexI) simp
qed

text \<open>The reaper gives an event back however often it was tried: one whose handler never returns is never given up.\<close>

lemma reap_never_gives_up:
  "dead_letters (reap E s) = dead_letters s"
  "e \<in> set (events s) \<Longrightarrow> ev_status e = CLAIMED \<Longrightarrow> visibleAt e \<le> bus_now E \<Longrightarrow> e\<lparr>ev_status := PENDING\<rparr> \<in> set (events (reap E s))"
  by (force simp: reap_def update_events_def)+

text \<open>A batch pushes nothing to live subscribers.\<close>

lemma batch_pushes_nothing: "pushed (PublishBatch E et batch source s) = pushed s"
proof -
  have "pushed (fold wake_bus keys t) = pushed t" for keys t by (rule fold_kept) (simp add: wake_bus_def)
  moreover have "pushed t = pushed u" if "subscribersOf E et u = (subs, t)" for subs t u
    using that by (auto simp: subscribersOf_def Let_def split: option.splits if_splits)
  ultimately show ?thesis by (auto simp: PublishBatch_def Let_def split: prod.splits)
qed

end
