(* ===== verification/Name_Match.thy ===== *)
theory Name_Match
  imports Bson
begin

text \<open>
  How a list request selects names, \<^verbatim>\<open>database/src/MatchType.cpp\<close>: the pattern given to the database, and the same test in
  process. The expression engine is the parameter of the document store, \<^const>\<open>regex_search\<close>; \<open>what\<close> is the message of
  the exception its constructor throws.
\<close>

datatype MatchType = Prefix | EndsWith | Contains | Regex

definition ParseMatchType :: "string \<Rightarrow> MatchType option" where
  "ParseMatchType name =
     (if name = '''' \<or> name = ''prefix'' then Some Prefix
      else if name = ''endsWith'' then Some EndsWith
      else if name = ''contains'' then Some Contains
      else if name = ''regex'' then Some Regex
      else None)"

definition backslash :: char where
  "backslash = CHR 0x5C"

definition kMetacharacters :: string where
  "kMetacharacters = [CHR 0x5C] @ ''^$.|?*+()[]{}''"

fun QuoteRegex :: "string \<Rightarrow> string" where
  "QuoteRegex [] = []"
| "QuoteRegex (c # text) = (if c \<in> set kMetacharacters then [backslash, c] else [c]) @ QuoteRegex text"

fun MatchPattern :: "string \<Rightarrow> MatchType \<Rightarrow> string" where
  "MatchPattern text EndsWith = QuoteRegex text @ ''$''"
| "MatchPattern text Contains = QuoteRegex text"
| "MatchPattern text Regex = text"
| "MatchPattern text Prefix = ''^'' @ QuoteRegex text"

definition Matches_name :: "store_env \<Rightarrow> string \<Rightarrow> string \<Rightarrow> MatchType \<Rightarrow> bool" where
  "Matches_name E val text type =
     (if text = '''' then True
      else case type of
             EndsWith \<Rightarrow> ends_with val text
           | Contains \<Rightarrow> sublist text val
           | Regex \<Rightarrow> (case regex_search E text of None \<Rightarrow> False | Some search \<Rightarrow> search val)
           | Prefix \<Rightarrow> starts_with val text)"

definition ParseMatch :: "store_env \<Rightarrow> (string \<Rightarrow> string) \<Rightarrow> string \<Rightarrow> string \<Rightarrow> string + MatchType" where
  "ParseMatch E what text name =
     (case ParseMatchType name of
        None \<Rightarrow> Inl ''matchType must be prefix, endsWith, contains or regex''
      | Some type \<Rightarrow>
          if type = Regex \<and> text \<noteq> '''' \<and> regex_search E text = None
          then Inl (''Invalid regular expression: '' @ what text)
          else Inr type)"

subsection \<open>Quoting\<close>

text \<open>What a quoted text stands for: a backslash takes the character after it literally.\<close>

fun unquoted :: "string \<Rightarrow> string" where
  "unquoted (c # d # rest) = (if c = backslash then d # unquoted rest else c # unquoted (d # rest))"
| "unquoted cs = cs"

lemma unquoted_QuoteRegex: "unquoted (QuoteRegex t) = t"
proof (induction t)
  case (Cons c t)
  have "backslash \<in> set kMetacharacters" by (simp add: backslash_def kMetacharacters_def)
  then have "c \<notin> set kMetacharacters \<Longrightarrow> c \<noteq> backslash" by auto
  with Cons show ?case by (cases "QuoteRegex t") auto
qed simp

text \<open>What ECMAScript says of a quoted text: anchored or not, it finds that text and nothing else.\<close>

definition regex_documented :: "store_env \<Rightarrow> string \<Rightarrow> bool" where
  "regex_documented E text \<longleftrightarrow>
     regex_search E (QuoteRegex text) = Some (\<lambda>v. sublist text v) \<and>
     regex_search E (''^'' @ QuoteRegex text) = Some (\<lambda>v. starts_with v text) \<and>
     regex_search E (QuoteRegex text @ ''$'') = Some (\<lambda>v. ends_with v text)"

text \<open>The database and the process select the same names: a request that is accepted is given a pattern the engine
  takes, and searching with it is the test made in process, for every way of matching.\<close>

theorem pattern_is_match:
  assumes "ParseMatch E what text name = Inr type" and "text \<noteq> ''''" and "regex_documented E text"
  shows "\<exists>search. regex_search E (MatchPattern text type) = Some search \<and> (\<forall>v. search v = Matches_name E v text type)"
  using assms by (cases type) (auto simp: ParseMatch_def Matches_name_def regex_documented_def split: option.splits if_splits)

definition literal_engine :: store_env where
  "literal_engine = \<lparr>regex_search = (\<lambda>pattern.
     if pattern = ''a[.]b'' then None
     else if starts_with pattern ''^'' then Some (\<lambda>v. starts_with v (unquoted (drop 1 pattern)))
     else if ends_with pattern ''$'' then Some (\<lambda>v. ends_with v (unquoted (take (length pattern - 1) pattern)))
     else Some (\<lambda>v. sublist (unquoted pattern) v)), clock = 0, new_oid = ''''\<rparr>"

theorem pattern_is_match_witness:
  "\<exists>search. regex_search literal_engine (MatchPattern ''a.b'' EndsWith) = Some search \<and>
     (\<forall>v. search v = Matches_name literal_engine v ''a.b'' EndsWith)"
proof (rule pattern_is_match)
  show "ParseMatch literal_engine (\<lambda>_. ''bad'') ''a.b'' ''endsWith'' = Inr EndsWith"
    by (simp add: ParseMatch_def ParseMatchType_def)
  show "regex_documented literal_engine ''a.b''"
    by (simp add: regex_documented_def literal_engine_def kMetacharacters_def backslash_def ends_with_def)
qed simp

end
