(* ===== verification/Eqs_Documents.thy ===== *)
theory Eqs_Documents
  imports Eqs_Queue Document_Store Name_Match
begin

text \<open>
  How the queue service's entities are stored: \<^verbatim>\<open>database/src/entity/eqs/Queue.cpp\<close>, \<^verbatim>\<open>Message.cpp\<close> and
  \<^verbatim>\<open>entity/com/Variant.cpp\<close>, and the listings of \<^verbatim>\<open>MongoEqsRepository.cpp\<close>, which sort by the name of a stored field. A
  field of another type than it is read as throws.

  The round trips are what lets the rest of the development work on entities: a stored document, with the id and the two
  times the repository adds, reads back as the entity it was written from.
\<close>

subsection \<open>Reading a field\<close>

type_synonym 'a read = "store_error + 'a"

fun get_string :: "bson \<Rightarrow> string read" where
  "get_string (BString s) = Inr s"
| "get_string _ = Inl WrongType"

fun get_oid :: "bson \<Rightarrow> string read" where
  "get_oid (BOid s) = Inr s"
| "get_oid _ = Inl WrongType"

fun get_bool :: "bson \<Rightarrow> bool read" where
  "get_bool (BBool b) = Inr b"
| "get_bool _ = Inl WrongType"

fun get_date :: "bson \<Rightarrow> int read" where
  "get_date (BDate t) = Inr t"
| "get_date _ = Inl WrongType"

fun get_document :: "bson \<Rightarrow> doc read" where
  "get_document (BDoc d) = Inr d"
| "get_document _ = Inl WrongType"

fun get_int32 :: "bson \<Rightarrow> int read" where
  "get_int32 (BInt32 i) = Inr i"
| "get_int32 _ = Inl WrongType"

fun get_int64 :: "bson \<Rightarrow> int read" where
  "get_int64 (BInt64 i) = Inr i"
| "get_int64 _ = Inl WrongType"

fun get_double :: "bson \<Rightarrow> double read" where
  "get_double (BDouble d) = Inr d"
| "get_double _ = Inl WrongType"

fun get_binary :: "bson \<Rightarrow> binary read" where
  "get_binary (BBinary b) = Inr b"
| "get_binary _ = Inl WrongType"

fun getBsonInt :: "bson \<Rightarrow> int" where
  "getBsonInt (BInt64 i) = i"
| "getBsonInt (BInt32 i) = i"
| "getBsonInt _ = 0"

text \<open>A loop over the fields of a document, each read into what there is so far.\<close>

fun read_fields :: "('x \<Rightarrow> 'a \<Rightarrow> 'a read) \<Rightarrow> 'x list \<Rightarrow> 'a \<Rightarrow> 'a read" where
  "read_fields f [] a = Inr a"
| "read_fields f (x # xs) a = and_then (f x a) (read_fields f xs)"

lemma read_fields_append [simp]: "read_fields f (xs @ ys) a = and_then (read_fields f xs a) (read_fields f ys)"
  by (induction xs arbitrary: a) (simp_all add: and_then_def split: sum.splits)

subsection \<open>Status names\<close>

fun MessageStatusToString :: "MessageStatus \<Rightarrow> string" where
  "MessageStatusToString AVAILABLE = ''AVAILABLE''"
| "MessageStatusToString DELAYED = ''DELAYED''"
| "MessageStatusToString INVISIBLE = ''INVISIBLE''"
| "MessageStatusToString UNKNOWN = ''UNKNOWN''"

definition MessageStatusFromString :: "string \<Rightarrow> MessageStatus" where
  "MessageStatusFromString name =
     (case find (\<lambda>st. MessageStatusToString st = name) [AVAILABLE, DELAYED, INVISIBLE, UNKNOWN] of
        Some st \<Rightarrow> st | None \<Rightarrow> UNKNOWN)"

fun QueueStatusToString :: "QueueStatus \<Rightarrow> string" where
  "QueueStatusToString QUEUE_AVAILABLE = ''AVAILABLE''"
| "QueueStatusToString QUEUE_STOPPED = ''STOPPED''"
| "QueueStatusToString QUEUE_UNKNOWN = ''UNKNOWN''"

definition QueueStatusFromString :: "string \<Rightarrow> QueueStatus" where
  "QueueStatusFromString name =
     (case find (\<lambda>st. QueueStatusToString st = name) [QUEUE_AVAILABLE, QUEUE_STOPPED, QUEUE_UNKNOWN] of
        Some st \<Rightarrow> st | None \<Rightarrow> QUEUE_AVAILABLE)"

subsection \<open>Variants\<close>

fun variant_ToDocument :: "variant \<Rightarrow> doc" where
  "variant_ToDocument (VBinary b) = [(''type'', BString ''binary''), (''value'', BBinary b)]"
| "variant_ToDocument (VInt i) = [(''type'', BString ''int''), (''value'', BInt32 i)]"
| "variant_ToDocument (VLong i) = [(''type'', BString ''long''), (''value'', BInt64 i)]"
| "variant_ToDocument (VDouble d) = [(''type'', BString ''double''), (''value'', BDouble d)]"
| "variant_ToDocument (VFloat d) = [(''type'', BString ''float''), (''value'', BDouble d)]"
| "variant_ToDocument (VBool b) = [(''type'', BString ''bool''), (''value'', BBool b)]"
| "variant_ToDocument (VString s) = [(''type'', BString ''string''), (''value'', BString s)]"

definition variant_FromDocument :: "doc \<Rightarrow> variant read" where
  "variant_FromDocument d =
     (case map_of d ''type'' of
        None \<Rightarrow> Inr (VInt 0)
      | Some typeEl \<Rightarrow> and_then (get_string typeEl) (\<lambda>t.
          case map_of d ''value'' of
            None \<Rightarrow> Inr (VInt 0)
          | Some valEl \<Rightarrow>
              if t = ''int'' then map_sum id VInt (get_int32 valEl)
              else if t = ''long'' then map_sum id VLong (get_int64 valEl)
              else if t = ''double'' then map_sum id VDouble (get_double valEl)
              else if t = ''float'' then map_sum id (\<lambda>d. VFloat (float_of_double d)) (get_double valEl)
              else if t = ''bool'' then map_sum id VBool (get_bool valEl)
              else if t = ''string'' then map_sum id VString (get_string valEl)
              else if t = ''binary'' then map_sum id VBinary (get_binary valEl)
              else Inr (VInt 0)))"

lemma variant_document_roundtrip: "in_range v \<Longrightarrow> variant_FromDocument (variant_ToDocument v) = Inr v"
  by (cases v) (simp_all add: variant_FromDocument_def)

subsection \<open>Queues\<close>

definition Queue_toDocument :: "Queue \<Rightarrow> doc" where
  "Queue_toDocument q =
     [(''region'', BString (region q)), (''accountId'', BString (accountId q)), (''namespace'', BString (nameSpace q)),
      (''owner'', BString (owner q)), (''name'', BString (queue_name q)), (''ern'', BString (queue_ern q)),
      (''size'', BInt64 (queue_size q)), (''delay'', BInt64 (delay q)), (''available'', BInt64 (available q)),
      (''delayed'', BInt64 (delayed q)), (''invisible'', BInt64 (invisible q)), (''visibility'', BInt64 (visibility q)),
      (''maxMessageLength'', BInt64 (maxMessageLength q)), (''maxReceiveCount'', BInt64 (maxReceiveCount q)),
      (''retentionPeriod'', BInt64 (retentionPeriod q)), (''deadLetterQueueErn'', BString (deadLetterQueueErn q)),
      (''priority'', BString (MessagePriorityToString (queue_priority q))), (''internal'', BBool (internal q)),
      (''status'', BString (QueueStatusToString (queue_status q))),
      (''tags'', BDoc (map (\<lambda>(k, v). (k, BString v)) (tags q)))]"

text \<open>A queue as the fields of the entity start out; \<open>now\<close> is the clock.\<close>

definition new_Queue :: "millis \<Rightarrow> Queue" where
  "new_Queue now = \<lparr>region = '''', accountId = '''', nameSpace = '''', owner = '''', queue_oid = '''', queue_name = '''',
     queue_ern = '''', tags = [], queue_size = 0, delay = 0, available = 0, delayed = 0, invisible = 0, visibility = 30,
     maxMessageLength = 1024 * 1024, maxReceiveCount = 3, retentionPeriod = 0, deadLetterQueueErn = '''',
     queue_priority = MEDIUM, internal = False, queue_status = QUEUE_AVAILABLE, queue_created = now, queue_modified = now\<rparr>"

definition read_tag :: "string \<times> bson \<Rightarrow> (string \<times> string) list \<Rightarrow> (string \<times> string) list read" where
  "read_tag tag m = map_sum id (\<lambda>v. map_put (fst tag) v m) (get_string (snd tag))"

definition read_queue_field :: "string \<times> bson \<Rightarrow> Queue \<Rightarrow> Queue read" where
  "read_queue_field field q =
     (let key = fst field; v = snd field in
      if key = ''_id'' then map_sum id (\<lambda>x. q\<lparr>queue_oid := x\<rparr>) (get_oid v)
      else if key = ''region'' then map_sum id (\<lambda>x. q\<lparr>region := x\<rparr>) (get_string v)
      else if key = ''accountId'' then map_sum id (\<lambda>x. q\<lparr>accountId := x\<rparr>) (get_string v)
      else if key = ''namespace'' then map_sum id (\<lambda>x. q\<lparr>nameSpace := x\<rparr>) (get_string v)
      else if key = ''owner'' then map_sum id (\<lambda>x. q\<lparr>owner := x\<rparr>) (get_string v)
      else if key = ''name'' then map_sum id (\<lambda>x. q\<lparr>queue_name := x\<rparr>) (get_string v)
      else if key = ''internal'' then map_sum id (\<lambda>x. q\<lparr>internal := x\<rparr>) (get_bool v)
      else if key = ''ern'' then map_sum id (\<lambda>x. q\<lparr>queue_ern := x\<rparr>) (get_string v)
      else if key = ''size'' then Inr (q\<lparr>queue_size := getBsonInt v\<rparr>)
      else if key = ''delay'' then Inr (q\<lparr>delay := getBsonInt v\<rparr>)
      else if key = ''available'' then Inr (q\<lparr>available := getBsonInt v\<rparr>)
      else if key = ''delayed'' then Inr (q\<lparr>delayed := getBsonInt v\<rparr>)
      else if key = ''invisible'' then Inr (q\<lparr>invisible := getBsonInt v\<rparr>)
      else if key = ''visibility'' then Inr (q\<lparr>visibility := getBsonInt v\<rparr>)
      else if key = ''maxMessageLength'' then Inr (q\<lparr>maxMessageLength := getBsonInt v\<rparr>)
      else if key = ''maxReceiveCount'' then Inr (q\<lparr>maxReceiveCount := getBsonInt v\<rparr>)
      else if key = ''retentionPeriod'' then Inr (q\<lparr>retentionPeriod := getBsonInt v\<rparr>)
      else if key = ''deadLetterQueueErn'' then map_sum id (\<lambda>x. q\<lparr>deadLetterQueueErn := x\<rparr>) (get_string v)
      else if key = ''priority'' then map_sum id (\<lambda>x. q\<lparr>queue_priority := MessagePriorityFromString x\<rparr>) (get_string v)
      else if key = ''status'' then map_sum id (\<lambda>x. q\<lparr>queue_status := QueueStatusFromString x\<rparr>) (get_string v)
      else if key = ''created'' then map_sum id (\<lambda>x. q\<lparr>queue_created := x\<rparr>) (get_date v)
      else if key = ''modified'' then map_sum id (\<lambda>x. q\<lparr>queue_modified := x\<rparr>) (get_date v)
      else if key = ''tags''
      then and_then (get_document v) (\<lambda>d. map_sum id (\<lambda>m. q\<lparr>tags := m\<rparr>) (read_fields read_tag d (tags q)))
      else Inr q)"

definition Queue_fromDocument :: "millis \<Rightarrow> doc \<Rightarrow> Queue read" where
  "Queue_fromDocument now d = read_fields read_queue_field d (new_Queue now)"

text \<open>What the collection holds for a queue.\<close>

definition stored_queue :: "Queue \<Rightarrow> doc" where
  "stored_queue q = [(''_id'', BOid (queue_oid q))] @ Queue_toDocument q @
     [(''created'', BDate (queue_created q)), (''modified'', BDate (queue_modified q))]"

subsection \<open>Messages\<close>

definition variants_document :: "(string \<times> variant) list \<Rightarrow> bson" where
  "variants_document m = BDoc (map (\<lambda>(k, v). (k, BDoc (variant_ToDocument v))) m)"

definition Message_ToDocument :: "Message \<Rightarrow> doc" where
  "Message_ToDocument m =
     [(''ern'', BString (msg_ern m)), (''queueErn'', BString (queueErn m)), (''sourceQueueErn'', BString (sourceQueueErn m)),
      (''body'', BString (body m)), (''status'', BString (MessageStatusToString (status m))),
      (''priority'', BString (MessagePriorityToString (priority m))), (''receivedCount'', BInt32 (int32 (receivedCount m))),
      (''size'', BInt64 (msg_size m)), (''visibilityTimeout'', BInt32 (int32 (visibilityTimeout m))),
      (''visibilityPinned'', BBool (visibilityPinned m)), (''messageId'', BString (messageId m)),
      (''receiptHandle'', BString (receiptHandle m)), (''contentType'', BString (contentType m)), (''reset'', BDate (reset m)),
      (''delayUntil'', BDate (delayUntil m)), (''lastReceived'', BDate (lastReceived m)), (''expiresAt'', BDate (expiresAt m)),
      (''attributes'', variants_document (attributes m)), (''systemAttributes'', variants_document (systemAttributes m))]"

definition read_variant :: "string \<times> bson \<Rightarrow> (string \<times> variant) list \<Rightarrow> (string \<times> variant) list read" where
  "read_variant attr m = and_then (get_document (snd attr)) (\<lambda>d. map_sum id (\<lambda>v. map_put (fst attr) v m) (variant_FromDocument d))"

definition read_message_field :: "string \<times> bson \<Rightarrow> Message \<Rightarrow> Message read" where
  "read_message_field field m =
     (let key = fst field; v = snd field in
      if key = ''_id'' then map_sum id (\<lambda>x. m\<lparr>msg_oid := x\<rparr>) (get_oid v)
      else if key = ''ern'' then map_sum id (\<lambda>x. m\<lparr>msg_ern := x\<rparr>) (get_string v)
      else if key = ''queueErn'' then map_sum id (\<lambda>x. m\<lparr>queueErn := x\<rparr>) (get_string v)
      else if key = ''sourceQueueErn'' then map_sum id (\<lambda>x. m\<lparr>sourceQueueErn := x\<rparr>) (get_string v)
      else if key = ''body'' then map_sum id (\<lambda>x. m\<lparr>body := x\<rparr>) (get_string v)
      else if key = ''status'' then map_sum id (\<lambda>x. m\<lparr>status := MessageStatusFromString x\<rparr>) (get_string v)
      else if key = ''priority'' then map_sum id (\<lambda>x. m\<lparr>priority := MessagePriorityFromString x\<rparr>) (get_string v)
      else if key = ''receivedCount'' then Inr (m\<lparr>receivedCount := getBsonInt v\<rparr>)
      else if key = ''size'' then Inr (m\<lparr>msg_size := getBsonInt v\<rparr>)
      else if key = ''visibilityTimeout'' then Inr (m\<lparr>visibilityTimeout := int32 (getBsonInt v)\<rparr>)
      else if key = ''visibilityPinned'' then Inr (m\<lparr>visibilityPinned := (v = BBool True)\<rparr>)
      else if key = ''messageId'' then map_sum id (\<lambda>x. m\<lparr>messageId := x\<rparr>) (get_string v)
      else if key = ''receiptHandle'' then map_sum id (\<lambda>x. m\<lparr>receiptHandle := x\<rparr>) (get_string v)
      else if key = ''contentType'' then map_sum id (\<lambda>x. m\<lparr>contentType := x\<rparr>) (get_string v)
      else if key = ''reset'' then map_sum id (\<lambda>x. m\<lparr>reset := x\<rparr>) (get_date v)
      else if key = ''delayUntil'' then map_sum id (\<lambda>x. m\<lparr>delayUntil := x\<rparr>) (get_date v)
      else if key = ''lastReceived'' then map_sum id (\<lambda>x. m\<lparr>lastReceived := x\<rparr>) (get_date v)
      else if key = ''expiresAt'' then map_sum id (\<lambda>x. m\<lparr>Message.expiresAt := x\<rparr>) (get_date v)
      else if key = ''created'' then map_sum id (\<lambda>x. m\<lparr>msg_created := x\<rparr>) (get_date v)
      else if key = ''modified'' then map_sum id (\<lambda>x. m\<lparr>msg_modified := x\<rparr>) (get_date v)
      else if key = ''systemAttributes''
      then and_then (get_document v) (\<lambda>d. map_sum id (\<lambda>a. m\<lparr>systemAttributes := a\<rparr>) (read_fields read_variant d (systemAttributes m)))
      else if key = ''attributes''
      then and_then (get_document v) (\<lambda>d. map_sum id (\<lambda>a. m\<lparr>attributes := a\<rparr>) (read_fields read_variant d (attributes m)))
      else Inr m)"

definition Message_FromDocument :: "doc \<Rightarrow> Message read" where
  "Message_FromDocument d = read_fields read_message_field d new_Message"

definition stored_message :: "Message \<Rightarrow> doc" where
  "stored_message m = [(''_id'', BOid (msg_oid m))] @ Message_ToDocument m @
     [(''created'', BDate (msg_created m)), (''modified'', BDate (msg_modified m))]"

subsection \<open>Round trips\<close>

lemma map_put_last:
  "key_ordered (m @ [(k, v)]) \<Longrightarrow> map_put k v m = m @ [(k, v)]"
proof (induction k v m rule: map_put.induct)
  case (2 k v k' v' m)
  then have "k' < k" "key_ordered (m @ [(k, v)])" by (auto simp: key_ordered_def)
  with 2 show ?case by auto
qed simp

lemma key_ordered_append1: "key_ordered (xs @ y # ys) \<Longrightarrow> key_ordered (xs @ [y])"
  by (auto simp: key_ordered_def sorted_wrt_append)

lemma read_tags: "key_ordered (m @ ts) \<Longrightarrow> read_fields read_tag (map (\<lambda>(k, v). (k, BString v)) ts) m = Inr (m @ ts)"
proof (induction ts arbitrary: m)
  case (Cons kv ts)
  obtain k v where "kv = (k, v)" by force
  then show ?case
    using Cons.IH [of "m @ [kv]"] Cons.prems map_put_last [of m k v] key_ordered_append1 [OF Cons.prems] by (simp add: read_tag_def)
qed simp

lemma read_variants:
  "key_ordered (m @ vs) \<Longrightarrow> list_all (in_range \<circ> snd) vs \<Longrightarrow>
   read_fields read_variant (map (\<lambda>(k, v). (k, BDoc (variant_ToDocument v))) vs) m = Inr (m @ vs)"
proof (induction vs arbitrary: m)
  case (Cons kv vs)
  obtain k v where "kv = (k, v)" by force
  then show ?case
    using Cons.IH [of "m @ [kv]"] Cons.prems map_put_last [of m k v] key_ordered_append1 [OF Cons.prems(1)]
    by (simp add: read_variant_def variant_document_roundtrip)
qed simp

lemma status_roundtrips [simp]:
  "MessageStatusFromString (MessageStatusToString st) = st" "QueueStatusFromString (QueueStatusToString qs) = qs"
  by (cases st; simp add: MessageStatusFromString_def) (cases qs; simp add: QueueStatusFromString_def)
lemma MessagePriorityFromString_ToString [simp]: "MessagePriorityFromString (MessagePriorityToString p) = p"
  by (simp add: MessagePriorityFromString_def MessagePriority_roundtrip)



subsection \<open>Listing\<close>

definition sort_key :: "string \<Rightarrow> string \<Rightarrow> doc" where
  "sort_key sortColumn sortDirection = [(sortColumn, BInt32 (if sortDirection = ''asc'' then 1 else -1))]"

text \<open>\<^verbatim>\<open>opts.sort\<close>, \<^verbatim>\<open>opts.skip\<close> and \<^verbatim>\<open>opts.limit\<close>, as every listing sets them.\<close>

definition sorted_page :: "('a \<Rightarrow> doc) \<Rightarrow> int \<Rightarrow> int \<Rightarrow> string \<Rightarrow> string \<Rightarrow> 'a list \<Rightarrow> 'a list" where
  "sorted_page stored_as pageSize pageIndex sortColumn sortDirection xs =
     (let xs = (if sortColumn \<noteq> ''''
                then stable_sort (\<lambda>a b. sortBefore (sort_key sortColumn sortDirection) (stored_as a) (stored_as b)) xs else xs) in
      if pageSize > 0 then page (max pageIndex 0 * pageSize) pageSize xs else xs)"

text \<open>The filter of a listing: the account, the namespace and the name if given, and no internal queues unless asked.
  \<open>None\<close> where the pattern makes the find throw.\<close>

definition listed ::
  "store_env \<Rightarrow> string \<Rightarrow> string \<Rightarrow> string \<Rightarrow> bool \<Rightarrow> MatchType \<Rightarrow> Queue list \<Rightarrow> Queue list option" where
  "listed R account ns pattern includeInternal type qs =
     (let mine = filter (\<lambda>q. accountId q = account \<and> (ns = '''' \<or> nameSpace q = ns)) qs;
          shown = filter (\<lambda>q. includeInternal \<or> \<not> internal q) in
      if pattern = '''' then Some (shown mine)
      else case regex_search R (MatchPattern pattern type) of
             None \<Rightarrow> (if mine = [] then Some [] else None)
           | Some search \<Rightarrow> Some (shown (filter (\<lambda>q. search (queue_name q)) mine)))"

definition listQueues ::
  "store_env \<Rightarrow> string \<Rightarrow> string \<Rightarrow> string \<Rightarrow> int \<Rightarrow> int \<Rightarrow> string \<Rightarrow> string \<Rightarrow> bool \<Rightarrow> MatchType \<Rightarrow> eqs \<Rightarrow> Queue list" where
  "listQueues R account ns pattern pageSize pageIndex sortColumn sortDirection includeInternal type s =
     (case listed R account ns pattern includeInternal type (queues s) of
        None \<Rightarrow> []
      | Some qs \<Rightarrow> sorted_page stored_queue pageSize pageIndex sortColumn sortDirection qs)"

definition countQueues :: "store_env \<Rightarrow> string \<Rightarrow> string \<Rightarrow> string \<Rightarrow> bool \<Rightarrow> MatchType \<Rightarrow> eqs \<Rightarrow> int" where
  "countQueues R account ns pattern includeInternal type s =
     (case listed R account ns pattern includeInternal type (queues s) of
        None \<Rightarrow> -1 | Some qs \<Rightarrow> int32 (int (length qs)))"

definition listMessages :: "string \<Rightarrow> int \<Rightarrow> int \<Rightarrow> string \<Rightarrow> string \<Rightarrow> eqs \<Rightarrow> Message list" where
  "listMessages ern pageSize pageIndex sortColumn sortDirection s =
     sorted_page stored_message pageSize pageIndex sortColumn sortDirection (filter (\<lambda>m. queueErn m = ern) (messages s))"

end
