(* ===== verification/Ern.thy ===== *)
theory Ern
  imports Euclid_Prelude
begin

text \<open>
  Resource names, \<^verbatim>\<open>core/include/euclid/core/ErnUtils.h\<close>: an ERN is built from a service, the configured region, an
  account, for some kinds of resource a namespace, and a resource; what is read back from one is read by position. A bare
  name in a request is resolved in the caller's own account and namespace.
\<close>

definition colon :: char where
  "colon = CHR '':''"

text \<open>\<open>reg\<close> is the configured \<^verbatim>\<open>euclid.region\<close>.\<close>

definition createErn :: "string \<Rightarrow> string \<Rightarrow> string \<Rightarrow> string \<Rightarrow> ern" where
  "createErn reg service account resourceId = ''ern:'' @ service @ '':'' @ reg @ '':'' @ account @ '':'' @ resourceId"

definition createErnIn :: "string \<Rightarrow> string \<Rightarrow> string \<Rightarrow> string \<Rightarrow> string \<Rightarrow> ern" where
  "createErnIn reg service account ns resourceId =
     ''ern:'' @ service @ '':'' @ reg @ '':'' @ account @ '':'' @ ns @ '':'' @ resourceId"

definition resolveErn :: "string \<Rightarrow> string \<Rightarrow> string \<Rightarrow> string \<Rightarrow> string \<Rightarrow> string \<Rightarrow> ern" where
  "resolveErn reg service resourceType account ns val =
     (if val = '''' \<or> starts_with val ''ern:'' then val
      else createErnIn reg service account ns (resourceType @ '':'' @ val))"

subsection \<open>The kinds of resource\<close>

definition createEamUserErn :: "string \<Rightarrow> string \<Rightarrow> string \<Rightarrow> ern" where
  "createEamUserErn reg account name = createErn reg ''eam'' account (''user:'' @ name)"

definition createEamUserGroupErn :: "string \<Rightarrow> string \<Rightarrow> string \<Rightarrow> ern" where
  "createEamUserGroupErn reg account name = createErn reg ''eam'' account (''userGroup:'' @ name)"

definition createEamRoleErn :: "string \<Rightarrow> string \<Rightarrow> string \<Rightarrow> ern" where
  "createEamRoleErn reg account name = createErn reg ''eam'' account (''role:'' @ name)"

definition createEamAccountErn :: "string \<Rightarrow> string \<Rightarrow> ern" where
  "createEamAccountErn reg account = createErn reg ''eam'' account (''account:'' @ account)"

definition createEamNamespaceErn :: "string \<Rightarrow> string \<Rightarrow> string \<Rightarrow> ern" where
  "createEamNamespaceErn reg account name = createErn reg ''eam'' account (''namespace:'' @ name)"

definition createEqsQueueErn :: "string \<Rightarrow> string \<Rightarrow> string \<Rightarrow> string \<Rightarrow> ern" where
  "createEqsQueueErn reg account ns name = createErnIn reg ''eqs'' account ns (''queue:'' @ name)"

definition createEqsMessageErn :: "string \<Rightarrow> string \<Rightarrow> string \<Rightarrow> ern" where
  "createEqsMessageErn reg account mid = createErn reg ''eqs'' account (''message:'' @ mid)"

definition createEnsTopicErn :: "string \<Rightarrow> string \<Rightarrow> string \<Rightarrow> string \<Rightarrow> ern" where
  "createEnsTopicErn reg account ns name = createErnIn reg ''ens'' account ns (''topic:'' @ name)"

definition createEnsSubscriptionErn :: "string \<Rightarrow> string \<Rightarrow> string \<Rightarrow> ern" where
  "createEnsSubscriptionErn reg account sid = createErn reg ''ens'' account (''subscription:'' @ sid)"

definition createEnsMessageErn :: "string \<Rightarrow> string \<Rightarrow> string \<Rightarrow> ern" where
  "createEnsMessageErn reg account mid = createErn reg ''ens'' account (''message:'' @ mid)"

definition createEkmKeyErn :: "string \<Rightarrow> string \<Rightarrow> string \<Rightarrow> ern" where
  "createEkmKeyErn reg account keyId = createErn reg ''ekm'' account (''key:'' @ keyId)"

definition createEkmCertificateErn :: "string \<Rightarrow> string \<Rightarrow> string \<Rightarrow> string \<Rightarrow> ern" where
  "createEkmCertificateErn reg account ns name = createErnIn reg ''ekm'' account ns (''certificate:'' @ name)"

definition createEssSecretErn :: "string \<Rightarrow> string \<Rightarrow> string \<Rightarrow> string \<Rightarrow> ern" where
  "createEssSecretErn reg account ns name = createErnIn reg ''ess'' account ns (''secret:'' @ name)"

definition createEkvTableErn :: "string \<Rightarrow> string \<Rightarrow> string \<Rightarrow> string \<Rightarrow> ern" where
  "createEkvTableErn reg account ns name = createErnIn reg ''ekv'' account ns (''table:'' @ name)"

definition createEsmBucketErn :: "string \<Rightarrow> string \<Rightarrow> string \<Rightarrow> string \<Rightarrow> ern" where
  "createEsmBucketErn reg account ns name = createErnIn reg ''esm'' account ns (''bucket:'' @ name)"

definition createEsmObjectErn :: "string \<Rightarrow> string \<Rightarrow> string \<Rightarrow> string \<Rightarrow> ern" where
  "createEsmObjectErn reg account ns name = createErnIn reg ''esm'' account ns (''object:'' @ name)"

definition createEapApplicationErn :: "string \<Rightarrow> string \<Rightarrow> string \<Rightarrow> string \<Rightarrow> ern" where
  "createEapApplicationErn reg account ns name = createErnIn reg ''eap'' account ns (''application:'' @ name)"

definition createEtsServerErn :: "string \<Rightarrow> string \<Rightarrow> string \<Rightarrow> string \<Rightarrow> ern" where
  "createEtsServerErn reg account ns name = createErnIn reg ''ets'' account ns (''transferServer:'' @ name)"

subsection \<open>Reading an ERN\<close>

definition serviceFromErn :: "ern \<Rightarrow> string" where
  "serviceFromErn e =
     (case find_char colon e of
        None \<Rightarrow> ''''
      | Some start \<Rightarrow>
          (case find_char colon (drop (start + 1) e) of
             None \<Rightarrow> ''''
           | Some offset \<Rightarrow> take offset (drop (start + 1) e)))"

definition resourceNameFromErn :: "ern \<Rightarrow> string" where
  "resourceNameFromErn e = (case rfind_char colon e of None \<Rightarrow> '''' | Some pos \<Rightarrow> drop (pos + 1) e)"

text \<open>What is left after so many fields.\<close>

fun after_fields :: "nat \<Rightarrow> string \<Rightarrow> string option" where
  "after_fields 0 e = Some e"
| "after_fields (Suc n) e =
     (case find_char colon e of None \<Rightarrow> None | Some pos \<Rightarrow> after_fields n (drop (pos + 1) e))"

definition accountIdFromErn :: "ern \<Rightarrow> string" where
  "accountIdFromErn e =
     (case after_fields 3 e of
        None \<Rightarrow> ''''
      | Some rest \<Rightarrow> (case find_char colon rest of None \<Rightarrow> rest | Some pos \<Rightarrow> take pos rest))"

subsection \<open>What is read back is what was put in\<close>

lemma find_colon: "colon \<notin> set xs \<Longrightarrow> find_char colon (xs @ CHR '':'' # ys) = Some (length xs)"
  using find_char_append [of colon xs ys] by (simp add: colon_def)

lemma no_colon: "colon \<notin> set ''ern''"
  by (simp add: colon_def)

lemma after_field: "colon \<notin> set xs \<Longrightarrow> after_fields (Suc n) (xs @ CHR '':'' # ys) = after_fields n ys"
  by (simp add: find_colon)

lemma account_of_fields:
  assumes "colon \<notin> set service" and "colon \<notin> set reg" and "colon \<notin> set account"
  shows "accountIdFromErn (''ern:'' @ service @ '':'' @ reg @ '':'' @ account @ '':'' @ rest) = account"
proof -
  have "after_fields 3 (''ern'' @ CHR '':'' # service @ CHR '':'' # reg @ CHR '':'' # account @ '':'' @ rest) =
      Some (account @ CHR '':'' # rest)"
    unfolding numeral_3_eq_3 after_field [OF no_colon] after_field [OF assms(1)] after_field [OF assms(2)] by simp
  then show ?thesis using assms(3) by (simp add: accountIdFromErn_def find_colon)
qed

lemma service_of_fields:
  assumes "colon \<notin> set service"
  shows "serviceFromErn (''ern:'' @ service @ '':'' @ rest) = service"
  using assms find_colon [OF no_colon, of "service @ CHR '':'' # rest"] by (simp add: serviceFromErn_def find_colon)

lemma last_field:
  assumes "colon \<notin> set name"
  shows "resourceNameFromErn (xs @ CHR '':'' # name) = name"
proof -
  have "rfind_char colon (xs @ CHR '':'' # name) = Some (length xs)"
    using assms find_colon [of "rev name" "rev xs"] by (simp add: rfind_char_def)
  then show ?thesis by (simp add: resourceNameFromErn_def)
qed

text \<open>An ERN gives back what it was made of: its service, its account, with a namespace and without, and the
  resource's own name, so long as none of these has a colon in it.\<close>

theorem ern_roundtrip:
  assumes "colon \<notin> set service" and "colon \<notin> set reg" and "colon \<notin> set account" and "colon \<notin> set name"
  shows "accountIdFromErn (createErn reg service account (kind @ '':'' @ name)) = account \<and>
    accountIdFromErn (createErnIn reg service account ns (kind @ '':'' @ name)) = account \<and>
    serviceFromErn (createErn reg service account (kind @ '':'' @ name)) = service \<and>
    serviceFromErn (createErnIn reg service account ns (kind @ '':'' @ name)) = service \<and>
    resourceNameFromErn (createErn reg service account (kind @ '':'' @ name)) = name \<and>
    resourceNameFromErn (createErnIn reg service account ns (kind @ '':'' @ name)) = name"
proof -
  note account = account_of_fields [OF assms(1,2,3)] and service = service_of_fields [OF assms(1)]
  have "resourceNameFromErn (createErn reg service account (kind @ '':'' @ name)) = name"
    using last_field [OF assms(4), of "''ern:'' @ service @ '':'' @ reg @ '':'' @ account @ '':'' @ kind"]
    by (simp add: createErn_def)
  moreover have "resourceNameFromErn (createErnIn reg service account ns (kind @ '':'' @ name)) = name"
    using last_field [OF assms(4), of "''ern:'' @ service @ '':'' @ reg @ '':'' @ account @ '':'' @ ns @ '':'' @ kind"]
    by (simp add: createErnIn_def)
  ultimately show ?thesis unfolding createErn_def createErnIn_def account service by simp
qed

theorem ern_roundtrip_witness:
  "accountIdFromErn (createErnIn ''eu'' ''eqs'' ''0001'' ''dev'' ''queue:orders'') = ''0001'' \<and>
   serviceFromErn (createErnIn ''eu'' ''eqs'' ''0001'' ''dev'' ''queue:orders'') = ''eqs'' \<and>
   resourceNameFromErn (createErnIn ''eu'' ''eqs'' ''0001'' ''dev'' ''queue:orders'') = ''orders''"
  using ern_roundtrip [of "''eqs''" "''eu''" "''0001''" "''orders''" "''queue''" "''dev''"] by (simp add: colon_def)

subsection \<open>Resolving\<close>

lemma createErnIn_prefix: "starts_with (createErnIn reg service account ns r) ''ern:''"
  by (simp add: createErnIn_def)

text \<open>Resolving a second time changes nothing.\<close>

lemma resolveErn_idem:
  "resolveErn reg service kind account ns (resolveErn reg service kind account ns val) = resolveErn reg service kind account ns val"
  by (simp add: resolveErn_def createErnIn_prefix)

lemma field_inject:
  "colon \<notin> set xs \<Longrightarrow> colon \<notin> set xs' \<Longrightarrow> xs @ CHR '':'' # ys = xs' @ CHR '':'' # ys' \<Longrightarrow> xs = xs' \<and> ys = ys'"
  by (metis append_eq_conv_conj find_colon option.inject list.inject)

text \<open>A bare name reaches the caller's own queue and nothing else: what two callers' names resolve to is the same ERN
  exactly when account, namespace and name are the same, and the name alone decides within one namespace.\<close>

theorem bare_names_separate:
  assumes "colon \<notin> set account" and "colon \<notin> set account'" and "colon \<notin> set ns" and "colon \<notin> set ns'"
    and "val \<noteq> ''''" and "val' \<noteq> ''''" and "\<not> starts_with val ''ern:''" and "\<not> starts_with val' ''ern:''"
  shows "resolveErn reg ''eqs'' ''queue'' account ns val = resolveErn reg ''eqs'' ''queue'' account' ns' val' \<longleftrightarrow>
    account = account' \<and> ns = ns' \<and> val = val'"
proof
  assume "resolveErn reg ''eqs'' ''queue'' account ns val = resolveErn reg ''eqs'' ''queue'' account' ns' val'"
  then have e: "account @ CHR '':'' # ns @ CHR '':'' # ''queue:'' @ val = account' @ CHR '':'' # ns' @ CHR '':'' # ''queue:'' @ val'"
    using assms(5-8) by (simp add: resolveErn_def createErnIn_def)
  then have "account = account'" "ns @ CHR '':'' # ''queue:'' @ val = ns' @ CHR '':'' # ''queue:'' @ val'"
    using field_inject [OF assms(1,2) e] by simp_all
  then show "account = account' \<and> ns = ns' \<and> val = val'"
    using field_inject [OF assms(3,4), of "''queue:'' @ val" "''queue:'' @ val'"] by simp
qed simp

theorem bare_names_separate_witness:
  "resolveErn ''eu'' ''eqs'' ''queue'' ''1'' ''dev'' ''orders'' \<noteq> resolveErn ''eu'' ''eqs'' ''queue'' ''1'' ''prod'' ''orders''"
  using bare_names_separate [of "''1''" "''1''" "''dev''" "''prod''" "''orders''" "''orders''" "''eu''"]
  by (simp add: colon_def)

end
