(* ===== verification/Http_Gate.thy ===== *)
theory Http_Gate
  imports Authorization Ern Json_Values
begin

text \<open>
  What every module's server does with a request before and after its own handler, \<^verbatim>\<open>core/src/HttpActionServer.cpp\<close>:
  authentication, the deployment scope, the role gate in its two layers, parsing the body, and the audit trail. The
  lookups it consults are those of \<^verbatim>\<open>database/include/euclid/database/RepositoryFactory.h\<close>, over the users, groups,
  grants, roles, accounts and namespaces of EAM; each is read through a cache of a few seconds, and what the caches
  answer with is the \<open>eam\<close> here.

  Parameters: the verifiers of signatures and tokens (they return the key or the subject they verified, and look up the
  secret of that key), and Boost's JSON parser. A header is looked up by its lower-case name. Of a response the status
  and the JSON of its body are kept; the version, the keep-alive flag and the fresh request id are not.
\<close>

subsection \<open>Requests, responses, identities\<close>

record http_request =
  headers :: "(string \<times> string) list"
  http_body :: string

definition header :: "http_request \<Rightarrow> string \<Rightarrow> string" where
  "header req name = (case map_of (headers req) name of None \<Rightarrow> '''' | Some v \<Rightarrow> v)"

datatype http_status = Ok | Accepted | Bad_request | Unauthorized | Forbidden | Not_found | Conflict | Internal_server_error

fun status_code :: "http_status \<Rightarrow> int" where
  "status_code Ok = 200"
| "status_code Accepted = 202"
| "status_code Bad_request = 400"
| "status_code Unauthorized = 401"
| "status_code Forbidden = 403"
| "status_code Not_found = 404"
| "status_code Conflict = 409"
| "status_code Internal_server_error = 500"

record http_response =
  resp_status :: http_status
  resp_body :: "json option"

definition JsonResponse :: "http_status \<Rightarrow> json option \<Rightarrow> http_response" where
  "JsonResponse st content = \<lparr>resp_status = st, resp_body = content\<rparr>"

definition ErrorResponse :: "http_status \<Rightarrow> string \<Rightarrow> http_response" where
  "ErrorResponse st message = JsonResponse st (Some (JObject [(''error'', JString message)]))"

record access_key =
  accessKeyId :: string
  secretAccessKey :: string
  key_active :: bool

record User =
  userId :: string
  user_ern :: ern
  user_accountId :: string
  user_region :: string
  accessKeys :: "access_key list"

record UserGroup =
  group_name :: string
  group_ern :: ern
  userIds :: "string list"

record stored_role =
  role_accountId :: string
  role_name :: string
  role_permissions :: "string list"

record eam =
  users :: "User list"
  groups :: "UserGroup list"
  grants :: "Grant list"
  stored_roles :: "stored_role list"
  accounts :: "string list"
  account_namespaces :: "(string \<times> string) list"

record Configuration =
  cfg_region :: "string option"
  cfg_account_ids :: "string list option"
  cfg_namespaces :: "string list option"
  cfg_jwt_secret :: "string option"
  cfg_audit_reads :: bool
  cfg_max_batch_size :: "int option"

record verifiers =
  signature_present :: "http_request \<Rightarrow> bool"
  signature_key :: "http_request \<Rightarrow> (string \<Rightarrow> string option) \<Rightarrow> string option"
  sigv4_key :: "http_request \<Rightarrow> (string \<Rightarrow> string option) \<Rightarrow> string option"
  VerifyToken :: "string \<Rightarrow> string \<Rightarrow> string option"
  IsTokenExpired :: "string \<Rightarrow> string \<Rightarrow> bool"

record http_env =
  cfg :: Configuration
  eam_of :: eam
  vrf :: verifiers
  wired_scope :: bool
  wired_gate :: bool
  wired_audit :: bool
  parse_json :: "string \<Rightarrow> json option"

text \<open>\<open>wired_scope\<close>, \<open>wired_gate\<close> and \<open>wired_audit\<close> are whether the process has registered those lookups, as every module's
  \<^verbatim>\<open>main\<close> does.\<close>

definition configured_list :: "string list option \<Rightarrow> string list" where
  "configured_list setting = (case setting of None \<Rightarrow> [] | Some xs \<Rightarrow> xs)"

subsection \<open>The lookups\<close>

definition findUserByUserId :: "eam \<Rightarrow> string \<Rightarrow> User option" where
  "findUserByUserId A uid = find (\<lambda>u. userId u = uid) (users A)"

definition findUserByAccessKeyId :: "eam \<Rightarrow> string \<Rightarrow> User option" where
  "findUserByAccessKeyId A key = find (\<lambda>u. \<exists>k \<in> set (accessKeys u). accessKeyId k = key) (users A)"

text \<open>\<^verbatim>\<open>WireAccessKeyLookup\<close>: the secret of an active key, and whose it is.\<close>

definition accessKeyLookup :: "eam \<Rightarrow> string \<Rightarrow> (string \<times> string) option" where
  "accessKeyLookup A key =
     (case findUserByAccessKeyId A key of
        None \<Rightarrow> None
      | Some user \<Rightarrow>
          (case find (\<lambda>k. accessKeyId k = key \<and> key_active k) (accessKeys user) of
             None \<Rightarrow> None
           | Some k \<Rightarrow> Some (secretAccessKey k, userId user)))"

text \<open>\<^verbatim>\<open>WireScopeLookup\<close>.\<close>

definition scopeLookup :: "eam \<Rightarrow> string \<Rightarrow> string \<Rightarrow> bool" where
  "scopeLookup A account ns =
     (if account \<notin> set (accounts A) then False else ns = '''' \<or> (account, ns) \<in> set (account_namespaces A))"

definition kEamAdministratorGroupName :: string where
  "kEamAdministratorGroupName = ''administrator''"

definition IsEamAdmin :: "eam \<Rightarrow> string \<Rightarrow> bool" where
  "IsEamAdmin A uid =
     (case find (\<lambda>g. group_name g = kEamAdministratorGroupName) (groups A) of
        None \<Rightarrow> False
      | Some g \<Rightarrow> uid \<in> set (userIds g))"

definition IsCachedEamAdmin :: "eam \<Rightarrow> string \<Rightarrow> bool" where
  "IsCachedEamAdmin A uid = IsEamAdmin A uid"

definition PrincipalsOf :: "eam \<Rightarrow> User \<Rightarrow> ern list" where
  "PrincipalsOf A user = user_ern user # map group_ern (filter (\<lambda>g. userId user \<in> set (userIds g)) (groups A))"

definition CachedGrantsOf :: "eam \<Rightarrow> User \<Rightarrow> Grant list" where
  "CachedGrantsOf A user = filter (\<lambda>g. principal g \<in> set (PrincipalsOf A user)) (grants A)"

definition CachedRolePermissions :: "eam \<Rightarrow> RoleLookup" where
  "CachedRolePermissions A account role =
     (case find (\<lambda>r. role_accountId r = account \<and> role_name r = role) (stored_roles A) of
        Some r \<Rightarrow> Some (role_permissions r)
      | None \<Rightarrow> if Exists_role role then Some (PermissionsOf role) else None)"

definition kSystemPrincipal :: string where
  "kSystemPrincipal = ''system''"

definition ResolveCaller :: "http_env \<Rightarrow> string \<Rightarrow> http_request \<Rightarrow> User option" where
  "ResolveCaller H subject req =
     (if subject \<noteq> kSystemPrincipal then findUserByUserId (eam_of H) subject
      else let account = header req ''x-euclid-account-id'';
               account = (if account = '''' then (case cfg_account_ids (cfg H) of Some [only] \<Rightarrow> only | _ \<Rightarrow> account) else account);
               reg = header req ''x-euclid-region'';
               reg = (if reg = '''' then (case cfg_region (cfg H) of None \<Rightarrow> '''' | Some r \<Rightarrow> r) else reg) in
           Some \<lparr>userId = kSystemPrincipal, user_ern = '''', user_accountId = account, user_region = reg, accessKeys = []\<rparr>)"

subsection \<open>Starting up\<close>

text \<open>\<open>None\<close> where the constructor would throw.\<close>

definition RequireEnforcingAuthorization :: "string option \<Rightarrow> unit option" where
  "RequireEnforcingAuthorization mode =
     (let configured = (case mode of None \<Rightarrow> ''enforce'' | Some m \<Rightarrow> m) in if configured = ''enforce'' then Some () else None)"

definition kInsecureDefaultJwtSecret :: string where
  "kInsecureDefaultJwtSecret = ''change-me-insecure-default-secret''"

definition kMinJwtSecretLength :: nat where
  "kMinJwtSecretLength = 32"

definition JwtSecret :: "string option \<Rightarrow> string" where
  "JwtSecret setting = (case setting of None \<Rightarrow> kInsecureDefaultJwtSecret | Some s \<Rightarrow> s)"

definition ValidateJwtSecret :: "string option \<Rightarrow> bool" where
  "ValidateJwtSecret setting =
     (let secret = JwtSecret setting in
      if secret = kInsecureDefaultJwtSecret then False
      else if length secret < kMinJwtSecretLength then False
      else True)"

text \<open>\<^verbatim>\<open>std::clamp\<close> between 1 and 256.\<close>

definition ClampWorkerThreads :: "int \<Rightarrow> int" where
  "ClampWorkerThreads requested = (if requested < 1 then 1 else if 256 < requested then 256 else requested)"

text \<open>\<open>asked\<close> is what the lookup answers, \<open>None\<close> where none is registered or it throws.\<close>

definition ConfiguredWorkerThreads :: "int option \<Rightarrow> int option \<Rightarrow> int \<Rightarrow> int" where
  "ConfiguredWorkerThreads asked setting fallback =
     (let configured = (case asked of None \<Rightarrow> -1 | Some n \<Rightarrow> n);
          configured = (if configured < 0 then (case setting of None \<Rightarrow> fallback | Some n \<Rightarrow> n) else configured) in
      ClampWorkerThreads configured)"

subsection \<open>Authentication\<close>

record AuthResult =
  subject :: "string option"
  tokenExpired :: bool
  denialReason :: string
  unknownSubject :: bool

definition no_auth :: AuthResult where
  "no_auth = \<lparr>subject = None, tokenExpired = False, denialReason = '''', unknownSubject = False\<rparr>"

definition CheckScope :: "http_env \<Rightarrow> http_request \<Rightarrow> string" where
  "CheckScope H req =
     (let region = header req ''x-euclid-region'';
          configuredRegion = (case cfg_region (cfg H) of None \<Rightarrow> '''' | Some r \<Rightarrow> r);
          account = header req ''x-euclid-account-id'';
          ns = header req ''x-euclid-namespace'' in
      if configuredRegion \<noteq> '''' \<and> configuredRegion \<noteq> region then ''Region is not permitted''
      else if account = '''' then ''''
      else if wired_scope H then
        (if \<not> scopeLookup (eam_of H) account ns
         then (if ns = '''' then ''Account is not permitted'' else ''Namespace is not permitted'') else '''')
      else
        (let allowedAccountIds = configured_list (cfg_account_ids (cfg H));
             allowedNamespaces = configured_list (cfg_namespaces (cfg H)) in
         if allowedAccountIds \<noteq> [] \<and> account \<notin> set allowedAccountIds then ''Account is not permitted''
         else if ns \<noteq> '''' \<and> allowedNamespaces \<noteq> [] \<and> ns \<notin> set allowedNamespaces then ''Namespace is not permitted''
         else ''''))"

text \<open>The branches for the two signature schemes are the same but for the verifier.\<close>

definition signed_subject :: "http_env \<Rightarrow> (http_request \<Rightarrow> (string \<Rightarrow> string option) \<Rightarrow> string option) \<Rightarrow> http_request \<Rightarrow> string option" where
  "signed_subject H verify req =
     (case verify req (\<lambda>key. map_option fst (accessKeyLookup (eam_of H) key)) of
        None \<Rightarrow> None
      | Some key \<Rightarrow> Some (case accessKeyLookup (eam_of H) key of None \<Rightarrow> '''' | Some record \<Rightarrow> snd record))"

definition in_scope :: "http_env \<Rightarrow> http_request \<Rightarrow> string \<Rightarrow> AuthResult" where
  "in_scope H req sub =
     (if CheckScope H req \<noteq> '''' then no_auth\<lparr>denialReason := CheckScope H req\<rparr> else no_auth\<lparr>subject := Some sub\<rparr>)"

definition Authenticate :: "http_env \<Rightarrow> http_request \<Rightarrow> AuthResult" where
  "Authenticate H req =
     (let authorization = header req ''authorization'' in
      if signature_present (vrf H) req then
        (case signed_subject H (signature_key (vrf H)) req of
           None \<Rightarrow> no_auth\<lparr>denialReason := ''Signature does not match''\<rparr>
         | Some sub \<Rightarrow> in_scope H req sub)
      else if starts_with authorization ''Bearer '' then
        (let token = drop (length ''Bearer '') authorization; secret = JwtSecret (cfg_jwt_secret (cfg H)) in
         case VerifyToken (vrf H) token secret of
           None \<Rightarrow> no_auth\<lparr>tokenExpired := IsTokenExpired (vrf H) token secret\<rparr>
         | Some sub \<Rightarrow> in_scope H req sub)
      else if starts_with authorization ''AWS4-HMAC-SHA256 '' then
        (case signed_subject H (sigv4_key (vrf H)) req of
           None \<Rightarrow> no_auth\<lparr>denialReason := ''Signature does not match''\<rparr>
         | Some sub \<Rightarrow> in_scope H req sub)
      else no_auth)"

definition Unauthorized_response :: "AuthResult \<Rightarrow> http_response" where
  "Unauthorized_response auth =
     (if denialReason auth \<noteq> '''' then ErrorResponse Forbidden (denialReason auth)
      else if unknownSubject auth then ErrorResponse Unauthorized ''No such principal''
      else ErrorResponse Unauthorized (if tokenExpired auth then ''Bearer token expired'' else ''Missing or invalid bearer token''))"

subsection \<open>The role gate\<close>

text \<open>\<^verbatim>\<open>WireAuthorizationLookup\<close> registers two lookups that differ in the resource alone.\<close>

definition authorizationLookup :: "http_env \<Rightarrow> http_request \<Rightarrow> string \<Rightarrow> string \<Rightarrow> string \<Rightarrow> bool \<times> string" where
  "authorizationLookup H req target action resource =
     (case subject (Authenticate H req) of
        None \<Rightarrow> (True, ''not authenticated; left to the handler'')
      | Some sub \<Rightarrow>
          if sub = kSystemPrincipal then (True, ''euclid'' @ [CHR 0x27] @ ''s own inter-module traffic'')
          else case findUserByUserId (eam_of H) sub of
                 None \<Rightarrow> (True, ''unknown subject; left to the handler'')
               | Some user \<Rightarrow>
                   if IsCachedEamAdmin (eam_of H) (userId user) then (True, ''member of the administrator user group'')
                   else let result = Allows \<lparr>req_target = target, req_action = action,
                                     req_accountId = header req ''x-euclid-account-id'',
                                     req_nameSpace = header req ''x-euclid-namespace'', req_resourceErn = resource\<rparr>
                                   (CachedGrantsOf (eam_of H) user) (CachedRolePermissions (eam_of H)) in
                        (allowed result, reason result))"

definition Authorize :: "http_env \<Rightarrow> http_request \<Rightarrow> http_response option" where
  "Authorize H req =
     (let target = header req ''x-euclid-target''; action = header req ''x-euclid-action'' in
      if \<not> wired_gate H then None
      else if target \<in> set UnbindableModules then None
      else if Of_permission target action \<in> set UngatedActions then None
      else case authorizationLookup H req target action '''' of
             (True, _) \<Rightarrow> None
           | (False, why) \<Rightarrow> Some (ErrorResponse Forbidden why))"

definition AuthorizeResource :: "http_env \<Rightarrow> http_request \<Rightarrow> ern \<Rightarrow> http_response option" where
  "AuthorizeResource H req resource =
     (if \<not> wired_gate H then None
      else case authorizationLookup H req (header req ''x-euclid-target'') (header req ''x-euclid-action'') resource of
        (True, _) \<Rightarrow> None
      | (False, why) \<Rightarrow> Some (ErrorResponse Forbidden why))"

definition IsResourceAuthorized :: "http_env \<Rightarrow> http_request \<Rightarrow> ern \<Rightarrow> bool" where
  "IsResourceAuthorized H req resource =
     (\<not> wired_gate H \<or>
      fst (authorizationLookup H req (header req ''x-euclid-target'') (header req ''x-euclid-action'') resource))"

text \<open>The body, after the rewriter the module has installed.\<close>

definition ParseJsonBody :: "http_env \<Rightarrow> (http_request \<Rightarrow> json \<Rightarrow> json) \<Rightarrow> http_request \<Rightarrow> http_response + json" where
  "ParseJsonBody H rewriter req =
     (case parse_json H (http_body req) of
        None \<Rightarrow> Inl (ErrorResponse Bad_request ''Invalid JSON body'')
      | Some v \<Rightarrow> Inr (rewriter req v))"

subsection \<open>The audit trail\<close>

record AuditRecord =
  aud_accountId :: string
  aud_nameSpace :: string
  aud_userId :: string
  aud_moduleName :: string
  aud_command :: string
  aud_parameters :: string
  aud_status :: int

definition kMachineryModules :: "string list" where
  "kMachineryModules = [''emo'', ''emd'']"

definition kMachineryActions :: "string list" where
  "kMachineryActions = [''report-load'', ''acquire-egress-permit'', ''release-egress-permit'']"

definition ShouldAudit :: "http_env \<Rightarrow> string \<Rightarrow> string \<Rightarrow> int \<Rightarrow> bool" where
  "ShouldAudit H target action code =
     (let succeeded = (code \<ge> 200 \<and> code < 300) in
      if target \<in> set kMachineryModules then False
      else if action \<in> set kMachineryActions then False
      else if succeeded \<and> IsSecondLevel action then False
      else if \<not> succeeded then True
      else if \<not> IsRead action then True
      else cfg_audit_reads (cfg H))"

definition RecordAudit :: "http_env \<Rightarrow> http_request \<Rightarrow> int \<Rightarrow> AuditRecord list \<Rightarrow> AuditRecord list" where
  "RecordAudit H req code trail =
     (let target = header req ''x-euclid-target''; action = header req ''x-euclid-action'' in
      if \<not> wired_audit H then trail
      else if \<not> ShouldAudit H target action code then trail
      else trail @ [\<lparr>aud_accountId = header req ''x-euclid-account-id'', aud_nameSpace = header req ''x-euclid-namespace'',
                     aud_userId = header req ''x-euclid-user-id'', aud_moduleName = target, aud_command = action,
                     aud_parameters = http_body req, aud_status = code\<rparr>])"

subsection \<open>One request\<close>

text \<open>A handler answers, or throws, or is still waiting when what is known of the world ends. A throw leaves \<^verbatim>\<open>Dispatch\<close>
  without a record and becomes a 500 in the session (\<^verbatim>\<open>core/src/UnixSocketServer.cpp\<close>).\<close>

datatype 'e outcome = Answer http_response | Threw 'e | Waiting

definition Dispatch ::
  "http_env \<Rightarrow> (http_request \<Rightarrow> 's \<Rightarrow> 'e outcome \<times> 's) \<Rightarrow> http_request \<Rightarrow> 's \<times> AuditRecord list \<Rightarrow> 'e outcome \<times> 's \<times> AuditRecord list" where
  "Dispatch H dispatchAction req st =
     (case st of (s, trail) \<Rightarrow>
        (case Authorize H req of
           Some refusal \<Rightarrow> (Answer refusal, s, RecordAudit H req (status_code (resp_status refusal)) trail)
         | None \<Rightarrow>
             (case dispatchAction req s of
                (Answer r, s) \<Rightarrow> (Answer r, s, RecordAudit H req (status_code (resp_status r)) trail)
              | (other, s) \<Rightarrow> (other, s, trail))))"

definition session_response :: "'e outcome \<Rightarrow> http_response option" where
  "session_response out =
     (case out of
        Answer r \<Rightarrow> Some r
      | Threw _ \<Rightarrow> Some (ErrorResponse Internal_server_error ''internal server error'')
      | Waiting \<Rightarrow> None)"

subsection \<open>What the gate lets through\<close>

text \<open>Whether a caller is entitled to an action, on a resource if one is named: euclid itself, an administrator, or
  somebody with a grant that covers it.\<close>

definition entitled :: "http_env \<Rightarrow> http_request \<Rightarrow> ern \<Rightarrow> string \<Rightarrow> bool" where
  "entitled H req resource who \<longleftrightarrow>
     who = kSystemPrincipal \<or>
     (\<exists>user. findUserByUserId (eam_of H) who = Some user \<and>
        (IsEamAdmin (eam_of H) (userId user) \<or>
         (\<exists>grant \<in> set (CachedGrantsOf (eam_of H) user).
            grant_covers (CachedRolePermissions (eam_of H))
              \<lparr>req_target = header req ''x-euclid-target'', req_action = header req ''x-euclid-action'',
               req_accountId = header req ''x-euclid-account-id'', req_nameSpace = header req ''x-euclid-namespace'',
               req_resourceErn = resource\<rparr> grant)))"

lemma lookup_entitled:
  assumes "subject (Authenticate H req) = Some who" and "ResolveCaller H who req = Some user"
  shows "fst (authorizationLookup H req (header req ''x-euclid-target'') (header req ''x-euclid-action'') resource) \<longleftrightarrow>
    entitled H req resource who"
  using assms
  by (auto simp: authorizationLookup_def entitled_def IsCachedEamAdmin_def Allows_allowed ResolveCaller_def Let_def split: if_splits)

lemma Authorize_entitled:
  assumes "wired_gate H" and "header req ''x-euclid-target'' = ''eqs''"
    and "subject (Authenticate H req) = Some who" and "ResolveCaller H who req = Some user"
  shows "Authorize H req = None \<longleftrightarrow> entitled H req '''' who"
proof -
  have "''eqs'' \<notin> set UnbindableModules" "Of_permission ''eqs'' action \<notin> set UngatedActions" for action
    by (simp_all add: UnbindableModules_def UngatedActions_def Of_permission_def)
  then show ?thesis
    using lookup_entitled [OF assms(3,4), of "''''"] assms(1,2) by (auto simp: Authorize_def Let_def split: prod.splits bool.splits)
qed

lemma AuthorizeResource_entitled:
  assumes "wired_gate H" and "subject (Authenticate H req) = Some who" and "ResolveCaller H who req = Some user"
  shows "AuthorizeResource H req resource = None \<longleftrightarrow> entitled H req resource who"
  using lookup_entitled [OF assms(2,3), of resource] assms(1) by (auto simp: AuthorizeResource_def split: prod.splits bool.splits)

lemma refusals_forbidden:
  "Authorize H req = Some r \<Longrightarrow> resp_status r = Forbidden" "AuthorizeResource H req resource = Some r \<Longrightarrow> resp_status r = Forbidden"
  by (auto simp: Authorize_def AuthorizeResource_def ErrorResponse_def JsonResponse_def Let_def split: if_splits prod.splits bool.splits)

end
