(* ===== verification/Eqs_Requests.thy ===== *)
theory Eqs_Requests
  imports Eqs_Documents Http_Gate
begin

text \<open>
  The bodies of EQS requests and responses, \<^verbatim>\<open>dto/include/euclid/dto/eqs\<close> with \<^verbatim>\<open>dto/src/EqsMapper.cpp\<close>, the checks of
  \<^verbatim>\<open>database/include/euclid/database/entity/eqs/MessageBatch.h\<close>, and the formats a response uses. A request is what its
  \<^verbatim>\<open>tag_invoke\<close> reads; reading one that has a field of another kind throws.
\<close>

subsection \<open>Formats\<close>

text \<open>\<^verbatim>\<open>std::to_string\<close> of a \<^verbatim>\<open>long\<close>.\<close>

definition digit :: "nat \<Rightarrow> char" where
  "digit d = ''0123456789'' ! d"

fun decimal :: "nat \<Rightarrow> string" where
  "decimal n = (if n < 10 then [digit n] else decimal (n div 10) @ [digit (n mod 10)])"

declare decimal.simps [simp del]

lemma decimal_rules:
  "n < 10 \<Longrightarrow> decimal n = [digit n]" "\<not> n < 10 \<Longrightarrow> decimal n = decimal (n div 10) @ [digit (n mod 10)]"
  by (simp_all add: decimal.simps [of n])

definition to_string :: "int \<Rightarrow> string" where
  "to_string i = (if i < 0 then ''-'' @ decimal (nat (- i)) else decimal (nat i))"

text \<open>\<^verbatim>\<open>ToISO8601\<close>, \<^verbatim>\<open>std::format("{:%FT%TZ}")\<close> of a time in milliseconds: the civil date of the day, and the time of day
  to the nanosecond, the resolution of the clock.\<close>

definition padded :: "nat \<Rightarrow> nat \<Rightarrow> string" where
  "padded width n = (let s = decimal n in replicate (width - length s) CHR ''0'' @ s)"

text \<open>A day of an era of 400 years that starts on the first of March: its year, its day in that year, and the month and day
  of that.\<close>

definition year_of_era :: "int \<Rightarrow> int" where
  "year_of_era doe = (doe - doe div 1460 + doe div 36524 - doe div 146096) div 365"

definition day_of_year :: "int \<Rightarrow> int \<Rightarrow> int" where
  "day_of_year doe yoe = doe - (365 * yoe + yoe div 4 - yoe div 100)"

definition month_and_day :: "int \<Rightarrow> int \<Rightarrow> int \<times> int" where
  "month_and_day mp doy = (if mp < 10 then mp + 3 else mp - 9, doy - (153 * mp + 2) div 5 + 1)"

definition civil_of_era :: "int \<Rightarrow> int \<Rightarrow> int \<times> int \<Rightarrow> int \<times> int \<times> int" where
  "civil_of_era era yoe md = (yoe + era * 400 + (if fst md \<le> 2 then 1 else 0), md)"

definition civil_from_march :: "int \<Rightarrow> int \<Rightarrow> int \<Rightarrow> int \<times> int \<times> int" where
  "civil_from_march era yoe doy = civil_of_era era yoe (month_and_day ((5 * doy + 2) div 153) doy)"

definition civil_in_era :: "int \<Rightarrow> int \<Rightarrow> int \<Rightarrow> int \<times> int \<times> int" where
  "civil_in_era era doe yoe = civil_from_march era yoe (day_of_year doe yoe)"

definition civil_from_days :: "int \<Rightarrow> int \<times> int \<times> int" where
  "civil_from_days z =
     civil_in_era ((z + 719468) div 146097) ((z + 719468) mod 146097) (year_of_era ((z + 719468) mod 146097))"

lemmas civil_defs = civil_from_days_def civil_in_era_def civil_from_march_def civil_of_era_def month_and_day_def day_of_year_def
  year_of_era_def

definition ToISO8601 :: "millis \<Rightarrow> string" where
  "ToISO8601 t =
     (let ms = t mod 86400000;
          (y, m, d) = civil_from_days (t div 86400000) in
      (if y < 0 then ''-'' @ padded 4 (nat (- y)) else padded 4 (nat y)) @ ''-'' @ padded 2 (nat m) @ ''-'' @ padded 2 (nat d) @
      ''T'' @ padded 2 (nat (ms div 3600000)) @ '':'' @ padded 2 (nat (ms div 60000 mod 60)) @ '':'' @
      padded 2 (nat (ms div 1000 mod 60)) @ ''.'' @ padded 9 (nat (ms mod 1000 * 1000000)) @ ''Z'')"

lemma replicate_8: "replicate 8 c = [c, c, c, c, c, c, c, c]"
  by (simp add: numeral_eq_Suc)

lemma ISO8601_examples:
  "ToISO8601 0 = ''1970-01-01T00:00:00.000000000Z''" "ToISO8601 1709210096789 = ''2024-02-29T12:34:56.789000000Z''"
  "ToISO8601 (-1) = ''1969-12-31T23:59:59.999000000Z''"
  by (simp_all add: ToISO8601_def civil_defs padded_def decimal_rules digit_def replicate_8)

subsection \<open>Requests\<close>

record CreateQueueRequest =
  cq_name :: string
  cq_visibility :: int
  cq_maxRetries :: int
  cq_maxMessageLength :: int
  cq_dlqName :: string
  cq_delay :: int
  cq_priority :: string
  cq_internal :: bool

definition read_CreateQueueRequest :: "json \<Rightarrow> CreateQueueRequest parsed" where
  "read_CreateQueueRequest v =
     and_then (GetStringValue v ''name'') (\<lambda>name.
     and_then (GetLongValueOr v ''visibility'' 30) (\<lambda>vis.
     and_then (GetLongValueOr v ''maxRetries'' 3) (\<lambda>retries.
     and_then (GetLongValueOr v ''maxMessageLength'' (1024 * 1024)) (\<lambda>len.
     and_then (GetStringValue v ''dlqName'') (\<lambda>dlq.
     and_then (GetLongValue v ''delay'') (\<lambda>del.
     and_then (GetStringValueOr v ''priority'' ''MEDIUM'') (\<lambda>prio.
     and_then (GetBoolValue v ''internal'') (\<lambda>int.
       Inr \<lparr>cq_name = name, cq_visibility = vis, cq_maxRetries = retries, cq_maxMessageLength = len, cq_dlqName = dlq,
            cq_delay = del, cq_priority = prio, cq_internal = int\<rparr>))))))))"

definition read_DeleteQueueRequest :: "json \<Rightarrow> (string \<times> bool) parsed" where
  "read_DeleteQueueRequest v =
     and_then (GetStringValue v ''ern'') (\<lambda>e. and_then (GetBoolValue v ''ifEmpty'') (\<lambda>ifEmpty. Inr (e, ifEmpty)))"

definition read_GetQueueErnRequest :: "json \<Rightarrow> string parsed" where
  "read_GetQueueErnRequest v = GetStringValue v ''name''"

definition read_GetQueueRequest :: "json \<Rightarrow> (string \<times> string) parsed" where
  "read_GetQueueRequest v = and_then (GetStringValue v ''ern'') (\<lambda>e. and_then (GetStringValue v ''name'') (\<lambda>n. Inr (e, n)))"

definition read_GetMessageRequest :: "json \<Rightarrow> string parsed" where
  "read_GetMessageRequest v = GetStringValue v ''messageId''"

record ListQueueRequest =
  lq_prefix :: string
  lq_matchType :: string
  lq_pageSize :: int
  lq_pageIndex :: int
  lq_sortColumn :: string
  lq_sortDirection :: string
  lq_includeInternal :: bool

definition read_ListQueueRequest :: "json \<Rightarrow> ListQueueRequest parsed" where
  "read_ListQueueRequest v =
     and_then (GetStringValue v ''prefix'') (\<lambda>pre.
     and_then (GetStringValue v ''matchType'') (\<lambda>mt.
     and_then (GetLongValue v ''pageSize'') (\<lambda>ps.
     and_then (GetLongValue v ''pageIndex'') (\<lambda>pi.
     and_then (GetStringValue v ''sortColumn'') (\<lambda>sc.
     and_then (GetStringValue v ''sortDirection'') (\<lambda>sd.
     and_then (GetBoolValue v ''includeInternal'') (\<lambda>ii.
       Inr \<lparr>lq_prefix = pre, lq_matchType = mt, lq_pageSize = ps, lq_pageIndex = pi, lq_sortColumn = sc,
            lq_sortDirection = sd, lq_includeInternal = ii\<rparr>)))))))"

record ListMessagesRequest =
  lm_queueErn :: string
  lm_pageSize :: int
  lm_pageIndex :: int
  lm_sortColumn :: string
  lm_sortDirection :: string

definition read_ListMessagesRequest :: "json \<Rightarrow> ListMessagesRequest parsed" where
  "read_ListMessagesRequest v =
     and_then (GetStringValue v ''queueErn'') (\<lambda>e.
     and_then (GetLongValue v ''pageSize'') (\<lambda>ps.
     and_then (GetLongValue v ''pageIndex'') (\<lambda>pi.
     and_then (GetStringValue v ''sortColumn'') (\<lambda>sc.
     and_then (GetStringValue v ''sortDirection'') (\<lambda>sd.
       Inr \<lparr>lm_queueErn = e, lm_pageSize = ps, lm_pageIndex = pi, lm_sortColumn = sc, lm_sortDirection = sd\<rparr>)))))"

record SendMessageRequest =
  sm_ern :: string
  sm_body :: string
  sm_attributes :: "(string \<times> variant) list"
  sm_systemAttributes :: "(string \<times> variant) list"
  sm_priority :: string

definition read_SendMessageRequest :: "json \<Rightarrow> SendMessageRequest parsed" where
  "read_SendMessageRequest v =
     and_then (GetStringValue v ''ern'') (\<lambda>e.
     and_then (GetStringValue v ''body'') (\<lambda>b.
     and_then (GetMapFromObject variant_value_to v ''attributes'') (\<lambda>as.
     and_then (GetMapFromObject variant_value_to v ''systemAttributes'') (\<lambda>sas.
     and_then (GetStringValue v ''priority'') (\<lambda>p.
       Inr \<lparr>sm_ern = e, sm_body = b, sm_attributes = as, sm_systemAttributes = sas,
            sm_priority = (if p = '''' then ''MEDIUM'' else p)\<rparr>)))))"

record SendMessageBatchEntry =
  be_body :: string
  be_attributes :: "(string \<times> variant) list"
  be_systemAttributes :: "(string \<times> variant) list"
  be_priority :: string

definition empty_entry :: SendMessageBatchEntry where
  "empty_entry = \<lparr>be_body = '''', be_attributes = [], be_systemAttributes = [], be_priority = ''''\<rparr>"

definition read_SendMessageBatchEntry :: "json \<Rightarrow> SendMessageBatchEntry parsed" where
  "read_SendMessageBatchEntry v =
     and_then (GetStringValue v ''body'') (\<lambda>b.
     and_then (GetMapFromObject variant_value_to v ''attributes'') (\<lambda>as.
     and_then (GetMapFromObject variant_value_to v ''systemAttributes'') (\<lambda>sas.
     and_then (GetStringValue v ''priority'') (\<lambda>p.
       Inr \<lparr>be_body = b, be_attributes = as, be_systemAttributes = sas, be_priority = p\<rparr>))))"

fun read_entries :: "json list \<Rightarrow> SendMessageBatchEntry list parsed" where
  "read_entries [] = Inr []"
| "read_entries (v # vs) =
     and_then (case v of JObject _ \<Rightarrow> read_SendMessageBatchEntry v | _ \<Rightarrow> Inr empty_entry) (\<lambda>e.
     and_then (read_entries vs) (\<lambda>es. Inr (e # es)))"

definition read_SendMessageBatchRequest :: "json \<Rightarrow> (string \<times> SendMessageBatchEntry list) parsed" where
  "read_SendMessageBatchRequest v =
     and_then (GetStringValue v ''ern'') (\<lambda>e.
       case v of
         JObject fs \<Rightarrow>
           (case map_of fs ''messages'' of
              Some (JArray vs) \<Rightarrow> and_then (read_entries vs) (\<lambda>es. Inr (e, es))
            | _ \<Rightarrow> Inr (e, []))
       | _ \<Rightarrow> Inr (e, []))"

definition read_ReceiveMessagesRequest :: "json \<Rightarrow> (string \<times> int \<times> int) parsed" where
  "read_ReceiveMessagesRequest v =
     and_then (GetStringValue v ''ern'') (\<lambda>e.
     and_then (GetLongValue v ''maxCount'') (\<lambda>n.
     and_then (GetLongValue v ''waitTime'') (\<lambda>w. Inr (e, n, w))))"

definition read_SetMessageVisibilityRequest :: "json \<Rightarrow> (string \<times> int) parsed" where
  "read_SetMessageVisibilityRequest v =
     and_then (GetStringValue v ''messageId'') (\<lambda>m. and_then (GetLongValue v ''visibility'') (\<lambda>n. Inr (m, n)))"

definition read_DeleteMessageRequest :: "json \<Rightarrow> (string \<times> string) parsed" where
  "read_DeleteMessageRequest v =
     and_then (GetStringValue v ''receiptHandle'') (\<lambda>h. and_then (GetStringValue v ''messageId'') (\<lambda>m. Inr (h, m)))"

definition read_PurgeQueueRequest :: "json \<Rightarrow> (string \<times> bool) parsed" where
  "read_PurgeQueueRequest v =
     and_then (GetStringValue v ''ern'') (\<lambda>e. and_then (GetBoolValue v ''async'') (\<lambda>a. Inr (e, a)))"

definition read_PurgeAllQueuesRequest :: "json \<Rightarrow> (string \<times> string \<times> string) parsed" where
  "read_PurgeAllQueuesRequest v =
     and_then (GetStringValue v ''region'') (\<lambda>r.
     and_then (GetStringValue v ''accountId'') (\<lambda>a.
     and_then (GetStringValue v ''nameSpace'') (\<lambda>n. Inr (r, a, n))))"

definition read_GetMessageCountRequest :: "json \<Rightarrow> string parsed" where
  "read_GetMessageCountRequest v = GetStringValue v ''ern''"

definition read_GetQueueMetadataRequest :: "json \<Rightarrow> string parsed" where
  "read_GetQueueMetadataRequest v = GetStringValue v ''ern''"

definition read_GetMessageMetadataRequest :: "json \<Rightarrow> string parsed" where
  "read_GetMessageMetadataRequest v = GetStringValue v ''messageId''"

definition read_GetMessageAttributeRequest :: "json \<Rightarrow> (string \<times> string) parsed" where
  "read_GetMessageAttributeRequest v =
     and_then (GetStringValue v ''messageId'') (\<lambda>m. and_then (GetStringValue v ''name'') (\<lambda>n. Inr (m, n)))"

definition read_SetMessageAttributeRequest :: "json \<Rightarrow> (string \<times> string \<times> variant) parsed" where
  "read_SetMessageAttributeRequest v =
     and_then (GetStringValue v ''messageId'') (\<lambda>m.
     and_then (GetStringValue v ''key'') (\<lambda>k.
     and_then (json_at v ''value'') (\<lambda>w. and_then (variant_value_to w) (\<lambda>x. Inr (m, k, x)))))"

definition read_UpdateMessageBodyRequest :: "json \<Rightarrow> (string \<times> string) parsed" where
  "read_UpdateMessageBodyRequest v =
     and_then (GetStringValue v ''messageId'') (\<lambda>m. and_then (GetStringValue v ''body'') (\<lambda>b. Inr (m, b)))"

definition read_AddQueueTagRequest :: "json \<Rightarrow> (string \<times> string \<times> string) parsed" where
  "read_AddQueueTagRequest v =
     and_then (GetStringValue v ''ern'') (\<lambda>e.
     and_then (GetStringValue v ''key'') (\<lambda>k.
     and_then (GetStringValue v ''value'') (\<lambda>w. Inr (e, k, w))))"

definition read_DeleteQueueTagRequest :: "json \<Rightarrow> (string \<times> string) parsed" where
  "read_DeleteQueueTagRequest v =
     and_then (GetStringValue v ''ern'') (\<lambda>e. and_then (GetStringValue v ''key'') (\<lambda>k. Inr (e, k)))"

definition read_SetQueueVisibilityRequest :: "json \<Rightarrow> (string \<times> int) parsed" where
  "read_SetQueueVisibilityRequest v =
     and_then (GetStringValue v ''ern'') (\<lambda>e. and_then (GetLongValue v ''visibility'') (\<lambda>n. Inr (e, n)))"

definition read_SetQueueDelayRequest :: "json \<Rightarrow> (string \<times> int) parsed" where
  "read_SetQueueDelayRequest v =
     and_then (GetStringValue v ''ern'') (\<lambda>e. and_then (GetLongValue v ''delay'') (\<lambda>n. Inr (e, n)))"

definition read_SetQueueMaxMessageLengthRequest :: "json \<Rightarrow> (string \<times> int) parsed" where
  "read_SetQueueMaxMessageLengthRequest v =
     and_then (GetStringValue v ''ern'') (\<lambda>e. and_then (GetLongValue v ''maxMessageLength'') (\<lambda>n. Inr (e, n)))"

definition read_SetQueueMaxRetriesRequest :: "json \<Rightarrow> (string \<times> int) parsed" where
  "read_SetQueueMaxRetriesRequest v =
     and_then (GetStringValue v ''ern'') (\<lambda>e. and_then (GetLongValue v ''maxRetries'') (\<lambda>n. Inr (e, n)))"

subsection \<open>Checks\<close>

definition kDefaultMaxMessageLength :: int where
  "kDefaultMaxMessageLength = 1024 * 1024"

definition EffectiveMaxMessageLength :: "int \<Rightarrow> int" where
  "EffectiveMaxMessageLength configured = (if configured > 0 then configured else kDefaultMaxMessageLength)"

definition isInternalPlumbingOf :: "Queue \<Rightarrow> string \<Rightarrow> bool" where
  "isInternalPlumbingOf q who \<longleftrightarrow> internal q \<and> who \<noteq> '''' \<and> owner q = who"

definition quoted :: "string \<Rightarrow> string" where
  "quoted s = [CHR 0x22] @ s @ [CHR 0x22]"

definition priority_refusal :: "string \<Rightarrow> string" where
  "priority_refusal p =
     ''priority must be '' @ quoted ''LOW'' @ '', '' @ quoted ''MEDIUM'' @ '' or '' @ quoted ''HIGH'' @ '', not '' @ quoted p"

definition length_refusal :: "int \<Rightarrow> int \<Rightarrow> string" where
  "length_refusal len most = ''message is '' @ to_string len @ '' bytes, and this queue accepts '' @ to_string most"

definition MaxBatchSize :: "int option \<Rightarrow> int" where
  "MaxBatchSize setting = max 1 (case setting of None \<Rightarrow> 100 | Some n \<Rightarrow> n)"

definition BatchRefusal :: "int \<Rightarrow> int \<Rightarrow> string" where
  "BatchRefusal asked most =
     (if asked \<le> 0 then ''messages is empty - a batch has to carry at least one message''
      else if asked > most
      then ''batch carries '' @ to_string asked @ '' messages, and this installation accepts '' @ to_string most @
           '' at a time - see euclid.modules.eqs.max-batch-size''
      else '''')"

definition BatchEntryRefusal :: "int \<Rightarrow> int \<Rightarrow> string \<Rightarrow> string" where
  "BatchEntryRefusal bodySize most p =
     (if bodySize > most then length_refusal bodySize most
      else if p \<noteq> '''' \<and> TryMessagePriorityFromString p = None then priority_refusal p
      else '''')"

subsection \<open>Responses\<close>

definition base_dto :: "User \<Rightarrow> json" where
  "base_dto user = JObject [(''region'', JString (user_region user)), (''user'', JString (userId user)),
     (''accountId'', JString (user_accountId user))]"

definition with_metadata :: "User \<Rightarrow> (string \<times> json) list \<Rightarrow> json option" where
  "with_metadata user fs = Some (JObject ((''metadata'', base_dto user) # fs))"

definition queue_dto :: "Queue \<Rightarrow> json" where
  "queue_dto q = JObject
     [(''name'', JString (queue_name q)), (''owner'', JString (owner q)), (''ern'', JString (queue_ern q)),
      (''tags'', JObject (map (\<lambda>(k, v). (k, JString v)) (tags q))), (''size'', JInt (queue_size q)), (''delay'', JInt (delay q)),
      (''available'', JInt (available q)), (''delayed'', JInt (delayed q)), (''invisible'', JInt (invisible q)),
      (''visibility'', JInt (visibility q)), (''maxMessageLength'', JInt (maxMessageLength q)),
      (''maxReceiveCount'', JInt (maxReceiveCount q)), (''deadLetterQueueArn'', JString (deadLetterQueueErn q)),
      (''priority'', JString (MessagePriorityToString (queue_priority q))),
      (''status'', JString (QueueStatusToString (queue_status q))), (''internal'', JBool (internal q)),
      (''created'', JString (ToISO8601 (queue_created q))), (''modified'', JString (ToISO8601 (queue_modified q)))]"

definition variants_dto :: "(string \<times> variant) list \<Rightarrow> json" where
  "variants_dto m = JObject (map (\<lambda>(k, v). (k, variant_value_from v)) m)"

definition message_dto :: "Message \<Rightarrow> json" where
  "message_dto m = JObject
     [(''ern'', JString (msg_ern m)), (''queueErn'', JString (queueErn m)), (''messageId'', JString (messageId m)),
      (''status'', JString (MessageStatusToString (status m))), (''priority'', JString (MessagePriorityToString (priority m))),
      (''body'', JString (body m)), (''receiptHandle'', JString (receiptHandle m)), (''size'', JInt (msg_size m)),
      (''receivedCount'', JInt (receivedCount m)), (''contentType'', JString (contentType m)),
      (''attributes'', variants_dto (attributes m)), (''systemAttributes'', variants_dto (systemAttributes m)),
      (''lastReceived'', JString (ToISO8601 (lastReceived m))), (''created'', JString (ToISO8601 (msg_created m))),
      (''modified'', JString (ToISO8601 (msg_modified m)))]"

definition message_metadata_dto :: "Message \<Rightarrow> (string \<times> json) list" where
  "message_metadata_dto m =
     [(''messageId'', JString (messageId m)), (''queueErn'', JString (queueErn m)), (''receiptHandle'', JString (receiptHandle m)),
      (''status'', JString (MessageStatusToString (status m))), (''priority'', JString (MessagePriorityToString (priority m))),
      (''size'', JInt (msg_size m)), (''receivedCount'', JInt (receivedCount m)),
      (''visibilityTimeout'', JInt (visibilityTimeout m)), (''contentType'', JString (contentType m)),
      (''created'', JString (ToISO8601 (msg_created m))), (''modified'', JString (ToISO8601 (msg_modified m)))]"
end
