(* ===== verification/Eqs_Handlers.thy ===== *)
theory Eqs_Handlers
  imports Eqs_Requests Eqs_Receive Event_Polling
begin

text \<open>
  The action handlers of \<^verbatim>\<open>modules/eqs/src/EqsServer.cpp\<close>, each from authentication to its response. They run on the
  queue repository (\<^verbatim>\<open>Eqs_Queue\<close>, \<^verbatim>\<open>Eqs_Receive\<close>), publish on the event bus (\<^verbatim>\<open>Event_Bus\<close>) and are guarded by the
  resource half of the role gate (\<^verbatim>\<open>Http_Gate\<close>).

  A handler answers, throws, or, for a long poll, is still waiting after the looks it is given. \<open>repo_env S i\<close> is what its
  \<open>i\<close>-th call of the repository reads of the world, so that every write has ids of its own. Whether a wait got a slot is
  \<open>slot_held S\<close> (\<^verbatim>\<open>Long_Poll_Slots\<close> has what decides it); what is written to the log is left out, except that an
  argument of a log line can throw when the line is logged.
\<close>

subsection \<open>State and environment\<close>

record bucket_subscription =
  bs_ern :: ern
  bs_sourceErn :: ern
  bs_targetErn :: ern

record server =
  eqs_repo :: eqs
  event_bus :: bus
  bucket_subscriptions :: "bucket_subscription list"
  background_purges :: "ern list"
  metrics :: "(string \<times> ern \<times> int) list"

record server_env =
  http :: http_env
  repo_env :: "nat \<Rightarrow> eqs_env"
  poll_worlds :: "world list"
  ev_env :: bus_env
  regex_env :: store_env
  regex_what :: "string \<Rightarrow> string"
  random_uuid :: "nat \<Rightarrow> string"
  slot_held :: bool
  info_logged :: bool
  metric_items :: "json list"

datatype server_error = BadJson json_error | BadWrite eqs_error

type_synonym 's handled = "server_error outcome \<times> 's"

type_synonym result = "server handled"

definition ern_region :: "http_env \<Rightarrow> string" where
  "ern_region H = (case cfg_region (cfg H) of None \<Rightarrow> ''eu-central-1'' | Some r \<Rightarrow> r)"

subsection \<open>What every handler does first\<close>

definition refuse :: "http_status \<Rightarrow> string \<Rightarrow> 's \<Rightarrow> 's handled" where
  "refuse st message s = (Answer (ErrorResponse st message), s)"

definition answer :: "http_status \<Rightarrow> json option \<Rightarrow> 's \<Rightarrow> 's handled" where
  "answer st content s = (Answer (JsonResponse st content), s)"

definition authenticate :: "server_env \<Rightarrow> http_request \<Rightarrow> AuthResult \<times> User option" where
  "authenticate S req =
     (let auth = Authenticate (http S) req in
      case subject auth of
        None \<Rightarrow> (auth, None)
      | Some who \<Rightarrow> (let user = ResolveCaller (http S) who req in (auth\<lparr>unknownSubject := (user = None)\<rparr>, user)))"

definition authenticated :: "server_env \<Rightarrow> http_request \<Rightarrow> (User \<Rightarrow> 's \<Rightarrow> 's handled) \<Rightarrow> 's \<Rightarrow> 's handled" where
  "authenticated S req k s =
     (case authenticate S req of
        (auth, None) \<Rightarrow> (Answer (Unauthorized_response auth), s)
      | (auth, Some user) \<Rightarrow> k user s)"

text \<open>\<^verbatim>\<open>installErnResolver\<close>: bare names in three fields of a body become ERNs in the caller's account and namespace.\<close>

definition resolve_field :: "http_env \<Rightarrow> string \<Rightarrow> string \<Rightarrow> string \<Rightarrow> (string \<times> json) list \<Rightarrow> (string \<times> json) list" where
  "resolve_field H account ns field fs =
     (case map_of fs field of
        Some (JString v) \<Rightarrow> AList.update field (JString (resolveErn (ern_region H) ''eqs'' ''queue'' account ns v)) fs
      | _ \<Rightarrow> fs)"

definition installErnResolver :: "http_env \<Rightarrow> http_request \<Rightarrow> json \<Rightarrow> json" where
  "installErnResolver H req v =
     (case v of
        JObject fs \<Rightarrow>
          (let account = header req ''x-euclid-account-id'';
               account = (if account = '''' then (case cfg_account_ids (cfg H) of Some [only] \<Rightarrow> only | _ \<Rightarrow> account) else account);
               ns = header req ''x-euclid-namespace'' in
           JObject (resolve_field H account ns ''ern'' (resolve_field H account ns ''targetErn''
             (resolve_field H account ns ''queueErn'' fs))))
      | _ \<Rightarrow> v)"

definition with_json :: "server_env \<Rightarrow> http_request \<Rightarrow> (json \<Rightarrow> server \<Rightarrow> result) \<Rightarrow> server \<Rightarrow> result" where
  "with_json S req k s =
     (case ParseJsonBody (http S) (installErnResolver (http S)) req of
        Inl err \<Rightarrow> (Answer err, s)
      | Inr v \<Rightarrow> k v s)"

text \<open>What is read of a body, or the exception.\<close>

definition reading :: "'a parsed \<Rightarrow> ('a \<Rightarrow> 's \<Rightarrow> 's handled) \<Rightarrow> 's \<Rightarrow> 's handled" where
  "reading r k s = (case r of Inl e \<Rightarrow> (Threw (BadJson e), s) | Inr x \<Rightarrow> k x s)"

text \<open>A line of the log that reads the body as it is written.\<close>

definition logging :: "server_env \<Rightarrow> 'a parsed \<Rightarrow> ('s \<Rightarrow> 's handled) \<Rightarrow> 's \<Rightarrow> 's handled" where
  "logging S r k s = (if info_logged S then reading r (\<lambda>_. k) s else k s)"

definition denyUngrantedQueue :: "server_env \<Rightarrow> http_request \<Rightarrow> User option \<Rightarrow> ern \<Rightarrow> http_response option" where
  "denyUngrantedQueue S req user queue =
     (case user of None \<Rightarrow> None | Some _ \<Rightarrow> AuthorizeResource (http S) req queue)"

definition granted :: "server_env \<Rightarrow> http_request \<Rightarrow> User \<Rightarrow> ern \<Rightarrow> ('s \<Rightarrow> 's handled) \<Rightarrow> 's \<Rightarrow> 's handled" where
  "granted S req user queue k s =
     (case denyUngrantedQueue S req (Some user) queue of Some refusal \<Rightarrow> (Answer refusal, s) | None \<Rightarrow> k s)"

definition isOwnInternalQueue :: "Queue option \<Rightarrow> User option \<Rightarrow> bool" where
  "isOwnInternalQueue queue user =
     (case (queue, user) of (Some q, Some u) \<Rightarrow> isInternalPlumbingOf q (userId u) | _ \<Rightarrow> False)"

text \<open>The check of the operations an application does to its own plumbing.\<close>

definition own_or_granted :: "server_env \<Rightarrow> http_request \<Rightarrow> User \<Rightarrow> Queue option \<Rightarrow> ern \<Rightarrow> (server \<Rightarrow> result) \<Rightarrow> server \<Rightarrow> result" where
  "own_or_granted S req user queue e k s =
     (if \<not> isOwnInternalQueue queue (Some user) then granted S req user e k s else k s)"

definition kMessagesSent :: string where
  "kMessagesSent = ''eqs-messages-sent''"

definition kMessagesReceived :: string where
  "kMessagesReceived = ''eqs-messages-received''"

definition kBytesSent :: string where
  "kBytesSent = ''eqs-bytes-sent''"

definition kBytesReceived :: string where
  "kBytesReceived = ''eqs-bytes-received''"

definition recordMessagesSent :: "ern \<Rightarrow> int \<Rightarrow> int \<Rightarrow> server \<Rightarrow> server" where
  "recordMessagesSent e n bytes s =
     (if n \<le> 0 then s
      else s\<lparr>metrics := metrics s @ [(kMessagesSent, e, n)] @ (if bytes > 0 then [(kBytesSent, e, bytes)] else [])\<rparr>)"

definition recordMessagesReceived :: "ern \<Rightarrow> int \<Rightarrow> int \<Rightarrow> server \<Rightarrow> server" where
  "recordMessagesReceived e n bytes s =
     (if n \<le> 0 then s
      else s\<lparr>metrics := metrics s @ [(kMessagesReceived, e, n)] @ (if bytes > 0 then [(kBytesReceived, e, bytes)] else [])\<rparr>)"

text \<open>A call of the repository, and one of the bus.\<close>

definition on_repo :: "(eqs \<Rightarrow> 'a \<times> eqs) \<Rightarrow> ('a \<Rightarrow> server \<Rightarrow> result) \<Rightarrow> server \<Rightarrow> result" where
  "on_repo f k s = (case f (eqs_repo s) of (x, r) \<Rightarrow> k x (s\<lparr>eqs_repo := r\<rparr>))"

definition storing :: "eqs_env \<Rightarrow> Queue \<Rightarrow> (Queue \<Rightarrow> server \<Rightarrow> result) \<Rightarrow> server \<Rightarrow> result" where
  "storing E q k s =
     (case upsertQueue E q (eqs_repo s) of
        Inl e \<Rightarrow> (Threw (BadWrite e), s)
      | Inr (q, r) \<Rightarrow> k q (s\<lparr>eqs_repo := r\<rparr>))"

definition on_bus :: "(bus \<Rightarrow> bus) \<Rightarrow> server \<Rightarrow> server" where
  "on_bus f s = s\<lparr>event_bus := f (event_bus s)\<rparr>"

definition queue_not_found :: "ern \<Rightarrow> server \<Rightarrow> result" where
  "queue_not_found e = refuse Not_found (''Queue not found, ern: '' @ e)"

definition message_not_found :: "string \<Rightarrow> server \<Rightarrow> result" where
  "message_not_found mid = refuse Not_found (''Message not found, messageId: '' @ mid)"

definition finding_queue :: "ern \<Rightarrow> (Queue \<Rightarrow> server \<Rightarrow> result) \<Rightarrow> server \<Rightarrow> result" where
  "finding_queue e k s = (case findQueueByErn e (eqs_repo s) of None \<Rightarrow> queue_not_found e s | Some q \<Rightarrow> k q s)"

definition finding_message :: "string \<Rightarrow> (Message \<Rightarrow> server \<Rightarrow> result) \<Rightarrow> server \<Rightarrow> result" where
  "finding_message mid k s = (case findMessageByName mid (eqs_repo s) of None \<Rightarrow> message_not_found mid s | Some m \<Rightarrow> k m s)"

subsection \<open>Queues: create, delete, read\<close>

definition asked_queue :: "server_env \<Rightarrow> http_request \<Rightarrow> User \<Rightarrow> CreateQueueRequest \<Rightarrow> MessagePriority \<Rightarrow> string \<Rightarrow> Queue" where
  "asked_queue S req user r prio name =
     (new_Queue (system_now (repo_env S 0)))
       \<lparr>accountId := user_accountId user, nameSpace := header req ''x-euclid-namespace'', queue_name := name,
        queue_ern := createEqsQueueErn (ern_region (http S)) (user_accountId user) (header req ''x-euclid-namespace'') name,
        visibility := cq_visibility r, maxMessageLength := cq_maxMessageLength r, maxReceiveCount := cq_maxRetries r,
        region := user_region user, owner := userId user, delay := cq_delay r, queue_priority := prio,
        internal := cq_internal r\<rparr>"

definition handleCreateQueue :: "server_env \<Rightarrow> http_request \<Rightarrow> server \<Rightarrow> result" where
  "handleCreateQueue S req =
     authenticated S req (\<lambda>user. with_json S req (\<lambda>v. reading (read_CreateQueueRequest v) (\<lambda>r.
       case (if cq_priority r = '''' then Some MEDIUM else TryMessagePriorityFromString (cq_priority r)) of
         None \<Rightarrow> refuse Bad_request (priority_refusal (cq_priority r))
       | Some prio \<Rightarrow>
           (let create = (\<lambda>dlq. storing (repo_env S 1)
                      ((asked_queue S req user r prio (cq_name r))\<lparr>deadLetterQueueErn := dlq\<rparr>)
                      (\<lambda>saved. answer Ok (with_metadata user
                         [(''name'', JString (queue_name saved)), (''ern'', JString (queue_ern saved))]))) in
            if cq_dlqName r \<noteq> ''''
            then storing (repo_env S 0) (asked_queue S req user r prio (cq_dlqName r)) (\<lambda>dlq. create (queue_ern dlq))
            else create ''''))))"

definition not_empty_refusal :: "int \<Rightarrow> string" where
  "not_empty_refusal remaining = ''Queue is not empty: '' @ to_string remaining @
     '' message(s) remain. Purge it first, or delete the queue without ifEmpty.''"

definition delivering_refusal :: "int \<Rightarrow> string" where
  "delivering_refusal pending =
     (if pending > 0 then ''Queue is not empty: '' @ to_string pending @ '' event(s) are still being delivered into it.''
      else ''Could not establish whether events are still being delivered into this queue; refusing to delete it.'')"

definition handleDeleteQueue :: "server_env \<Rightarrow> http_request \<Rightarrow> server \<Rightarrow> result" where
  "handleDeleteQueue S req =
     authenticated S req (\<lambda>user. with_json S req (\<lambda>v. reading (read_DeleteQueueRequest v) (\<lambda>(e, ifEmpty) s.
       let existing = findQueueByErn e (eqs_repo s);
           delete = (\<lambda>s. answer Ok None (on_bus (\<lambda>b. snd (DiscardDeliveries e b)) (s\<lparr>eqs_repo := deleteQueueByErn e (eqs_repo s)\<rparr>))) in
       own_or_granted S req user existing e (\<lambda>s.
         if ifEmpty then
           (if existing = None then queue_not_found e s
            else let remaining = countMessagesOf e (eqs_repo s) in
              if remaining > 0 then refuse Conflict (not_empty_refusal remaining) s
              else let pending = PendingDeliveries e (event_bus s) in
                if pending \<noteq> 0 then refuse Conflict (delivering_refusal pending) s else delete s)
         else delete s) s)))"

definition handleGetQueueErn :: "server_env \<Rightarrow> http_request \<Rightarrow> server \<Rightarrow> result" where
  "handleGetQueueErn S req =
     authenticated S req (\<lambda>user. with_json S req (\<lambda>v. reading (read_GetQueueErnRequest v) (\<lambda>name s.
       case findQueueByName (user_accountId user) (header req ''x-euclid-namespace'') name (eqs_repo s) of
         None \<Rightarrow> refuse Not_found (''Queue not found, name: '' @ name) s
       | Some q \<Rightarrow> answer Ok (with_metadata user [(''name'', JString ''''), (''ern'', JString (queue_ern q))]) s)))"

definition handleGetQueue :: "server_env \<Rightarrow> http_request \<Rightarrow> server \<Rightarrow> result" where
  "handleGetQueue S req =
     authenticated S req (\<lambda>user. with_json S req (\<lambda>v. reading (read_GetQueueRequest v) (\<lambda>(e, name) s.
       if e = '''' \<and> name = '''' then refuse Bad_request ''Either ern or name is required'' s
       else case (if e = '''' then findQueueByName (user_accountId user) (header req ''x-euclid-namespace'') name (eqs_repo s)
                  else findQueueByErn e (eqs_repo s)) of
              None \<Rightarrow> refuse Not_found (if e = '''' then ''Queue not found, name: '' @ name else ''Queue not found, ern: '' @ e) s
            | Some q \<Rightarrow> granted S req user (queue_ern q) (answer Ok (with_metadata user [(''queue'', queue_dto q)])) s)))"

definition handleListQueues :: "server_env \<Rightarrow> http_request \<Rightarrow> server \<Rightarrow> result" where
  "handleListQueues S req =
     authenticated S req (\<lambda>user. with_json S req (\<lambda>v. reading (read_ListQueueRequest v) (\<lambda>r s.
       case ParseMatch (regex_env S) (regex_what S) (lq_prefix r) (lq_matchType r) of
         Inl error \<Rightarrow> refuse Bad_request error s
       | Inr type \<Rightarrow>
           (let account = user_accountId user; ns = header req ''x-euclid-namespace'';
                includeInternal = (lq_includeInternal r \<and> IsEamAdmin (eam_of (http S)) (userId user)) in
            answer Ok (with_metadata user
              [(''queues'', JArray (map queue_dto (listQueues (regex_env S) account ns (lq_prefix r) (lq_pageSize r) (lq_pageIndex r)
                  (lq_sortColumn r) (lq_sortDirection r) includeInternal type (eqs_repo s)))),
               (''total'', JInt (countQueues (regex_env S) account ns (lq_prefix r) includeInternal type (eqs_repo s)))]) s))))"

definition handleGetMessageCount :: "server_env \<Rightarrow> http_request \<Rightarrow> server \<Rightarrow> result" where
  "handleGetMessageCount S req =
     authenticated S req (\<lambda>user. with_json S req (\<lambda>v. reading (read_GetMessageCountRequest v) (\<lambda>e. finding_queue e (\<lambda>q.
       answer Ok (with_metadata user
         [(''ern'', JString e), (''available'', JInt (available q)), (''delayed'', JInt (delayed q)),
          (''invisible'', JInt (invisible q)), (''total'', JInt (available q + delayed q + invisible q))])))))"

definition handleGetQueueMetadata :: "server_env \<Rightarrow> http_request \<Rightarrow> server \<Rightarrow> result" where
  "handleGetQueueMetadata S req =
     authenticated S req (\<lambda>user. with_json S req (\<lambda>v. reading (read_GetQueueMetadataRequest v) (\<lambda>e. finding_queue e (\<lambda>q.
       answer Ok (Some (JObject
         [(''region'', JString (region q)), (''accountId'', JString (accountIdFromErn (queue_ern q))), (''owner'', JString (owner q)),
          (''nameSpace'', JString ''''), (''name'', JString (queue_name q)), (''ern'', JString (queue_ern q)),
          (''size'', JInt (queue_size q)), (''messages'', JInt (available q + delayed q + invisible q))]))))))"

definition handleGetQueueAttributes :: "server_env \<Rightarrow> http_request \<Rightarrow> server \<Rightarrow> result" where
  "handleGetQueueAttributes S req =
     authenticated S req (\<lambda>user. with_json S req (\<lambda>v. logging S (GetStringValue v ''QueueUrl'')
       (answer Ok (Some (JObject [(''Attributes'', JObject []),
          (''ResponseMetadata'', JObject [(''RequestId'', JString (random_uuid S 0))])])))))"

definition handleSetQueueAttributes :: "server_env \<Rightarrow> http_request \<Rightarrow> server \<Rightarrow> result" where
  "handleSetQueueAttributes S req =
     authenticated S req (\<lambda>user. with_json S req (\<lambda>v. logging S (GetStringValue v ''QueueUrl'')
       (answer Ok (Some (JObject [(''ResponseMetadata'', JObject [(''RequestId'', JString (random_uuid S 0))])])))))"
subsection \<open>Queues: settings and tags\<close>

text \<open>The settings handlers share their shape: the ERN is there, the value in its bounds, the queue found, stored with the
  value, and the value answered.\<close>

definition setting_queue ::
  "server_env \<Rightarrow> ern \<Rightarrow> bool \<Rightarrow> string \<Rightarrow> (Queue \<Rightarrow> Queue) \<Rightarrow> (Queue \<Rightarrow> (string \<times> json) list) \<Rightarrow> server \<Rightarrow> result" where
  "setting_queue S e allowed_value message change shown =
     (if e = '''' then refuse Bad_request ''Queue ERN missing''
      else if \<not> allowed_value then refuse Bad_request message
      else finding_queue e (\<lambda>q. storing (repo_env S 0) (change q) (\<lambda>q. answer Ok (Some (JObject ((''ern'', JString e) # shown q))))))"

definition handleSetQueueVisibility :: "server_env \<Rightarrow> http_request \<Rightarrow> server \<Rightarrow> result" where
  "handleSetQueueVisibility S req =
     authenticated S req (\<lambda>user. with_json S req (\<lambda>v. reading (read_SetQueueVisibilityRequest v) (\<lambda>(e, vis).
       setting_queue S e (\<not> (vis < 0 \<or> vis > 43200)) ''Visibility must be between 0 and 43200 seconds''
         (\<lambda>q. q\<lparr>visibility := vis\<rparr>) (\<lambda>q. [(''visibility'', JInt (visibility q))]))))"

definition handleSetQueueDelay :: "server_env \<Rightarrow> http_request \<Rightarrow> server \<Rightarrow> result" where
  "handleSetQueueDelay S req =
     authenticated S req (\<lambda>user. with_json S req (\<lambda>v. reading (read_SetQueueDelayRequest v) (\<lambda>(e, del).
       setting_queue S e (\<not> (del < 0 \<or> del > 900)) ''Delay must be between 0 and 900 seconds''
         (\<lambda>q. q\<lparr>delay := del\<rparr>) (\<lambda>q. [(''delay'', JInt (delay q))]))))"

definition handleSetQueueMaxMessageLength :: "server_env \<Rightarrow> http_request \<Rightarrow> server \<Rightarrow> result" where
  "handleSetQueueMaxMessageLength S req =
     authenticated S req (\<lambda>user. with_json S req (\<lambda>v. reading (read_SetQueueMaxMessageLengthRequest v) (\<lambda>(e, len).
       setting_queue S e (\<not> len < 0)
         (''maxMessageLength cannot be negative; zero follows the default of '' @ to_string kDefaultMaxMessageLength @ '' bytes'')
         (\<lambda>q. q\<lparr>maxMessageLength := len\<rparr>)
         (\<lambda>q. [(''maxMessageLength'', JInt (maxMessageLength q)),
               (''effectiveMaxMessageLength'', JInt (EffectiveMaxMessageLength (maxMessageLength q)))]))))"

definition handleSetQueueMaxRetries :: "server_env \<Rightarrow> http_request \<Rightarrow> server \<Rightarrow> result" where
  "handleSetQueueMaxRetries S req =
     authenticated S req (\<lambda>user. with_json S req (\<lambda>v. reading (read_SetQueueMaxRetriesRequest v) (\<lambda>(e, n).
       setting_queue S e (\<not> (n < 1 \<or> n > 1000)) ''maxRetries must be between 1 and 1000''
         (\<lambda>q. q\<lparr>maxReceiveCount := n\<rparr>) (\<lambda>q. [(''maxRetries'', JInt (maxReceiveCount q))]))))"

definition handleSetQueueStopped :: "server_env \<Rightarrow> http_request \<Rightarrow> bool \<Rightarrow> server \<Rightarrow> result" where
  "handleSetQueueStopped S req stopped =
     authenticated S req (\<lambda>user. with_json S req (\<lambda>v. reading (GetStringValue v ''ern'') (\<lambda>e.
       if e = '''' then refuse Bad_request ''Queue ERN missing''
       else granted S req user e (finding_queue e (\<lambda>q.
         storing (repo_env S 0) (q\<lparr>queue_status := (if stopped then QUEUE_STOPPED else QUEUE_AVAILABLE)\<rparr>) (\<lambda>q.
           answer Ok (Some (JObject [(''ern'', JString e), (''status'', JString (QueueStatusToString (queue_status q))),
             (''available'', JInt (available q))]))))))))"

definition handleStopQueue :: "server_env \<Rightarrow> http_request \<Rightarrow> server \<Rightarrow> result" where
  "handleStopQueue S req = handleSetQueueStopped S req True"

definition handleStartQueue :: "server_env \<Rightarrow> http_request \<Rightarrow> server \<Rightarrow> result" where
  "handleStartQueue S req = handleSetQueueStopped S req False"

definition kOwnerTag :: string where
  "kOwnerTag = ''euclid:application''"

definition owner_tag_refusal :: string where
  "owner_tag_refusal = ''The tag '' @ kOwnerTag @ '' records which application owns this, and is written by '' @ quoted ''eap apply''"

definition refuseOwnerTag :: "server_env \<Rightarrow> http_request \<Rightarrow> string \<Rightarrow> string \<Rightarrow> http_response option" where
  "refuseOwnerTag S req who key =
     (if key \<noteq> kOwnerTag then None
      else if IsEamAdmin (eam_of (http S)) who then None
      else Some (ErrorResponse Forbidden owner_tag_refusal))"

definition tag_allowed :: "server_env \<Rightarrow> http_request \<Rightarrow> User \<Rightarrow> string \<Rightarrow> ('s \<Rightarrow> 's handled) \<Rightarrow> 's \<Rightarrow> 's handled" where
  "tag_allowed S req user key k s =
     (case refuseOwnerTag S req (userId user) key of Some refusal \<Rightarrow> (Answer refusal, s) | None \<Rightarrow> k s)"

definition handleAddQueueTag :: "server_env \<Rightarrow> http_request \<Rightarrow> server \<Rightarrow> result" where
  "handleAddQueueTag S req =
     authenticated S req (\<lambda>user. with_json S req (\<lambda>v. reading (read_AddQueueTagRequest v) (\<lambda>(e, key, val).
       tag_allowed S req user key (finding_queue e (\<lambda>q. own_or_granted S req user (Some q) e (
         storing (repo_env S 0) (q\<lparr>tags := map_put key val (tags q)\<rparr>) (\<lambda>_. answer Ok None)))))))"

definition handleSetQueueTag :: "server_env \<Rightarrow> http_request \<Rightarrow> server \<Rightarrow> result" where
  "handleSetQueueTag S req =
     authenticated S req (\<lambda>user. with_json S req (\<lambda>v. reading (read_AddQueueTagRequest v) (\<lambda>(e, key, val).
       tag_allowed S req user key (finding_queue e (\<lambda>q. own_or_granted S req user (Some q) e (
         if map_of (tags q) key = None then refuse Not_found (''Tag not found, key: '' @ key)
         else storing (repo_env S 0) (q\<lparr>tags := map_put key val (tags q)\<rparr>) (\<lambda>_. answer Ok None)))))))"

definition handleDeleteQueueTag :: "server_env \<Rightarrow> http_request \<Rightarrow> server \<Rightarrow> result" where
  "handleDeleteQueueTag S req =
     authenticated S req (\<lambda>user. with_json S req (\<lambda>v. reading (read_DeleteQueueTagRequest v) (\<lambda>(e, key).
       tag_allowed S req user key (finding_queue e (\<lambda>q. own_or_granted S req user (Some q) e (
         storing (repo_env S 0) (q\<lparr>tags := map_erase key (tags q)\<rparr>) (\<lambda>_. answer Ok None)))))))"

subsection \<open>Purging and redriving\<close>

text \<open>A purge in the background is a thread of its own: it is recorded here and runs as a step of its own.\<close>

definition handlePurgeQueue :: "server_env \<Rightarrow> http_request \<Rightarrow> server \<Rightarrow> result" where
  "handlePurgeQueue S req =
     authenticated S req (\<lambda>user. with_json S req (\<lambda>v. reading (read_PurgeQueueRequest v) (\<lambda>(e, async) s.
       let existing = findQueueByErn e (eqs_repo s) in
       own_or_granted S req user existing e (\<lambda>s.
         if async
         then answer Accepted (Some (JObject [(''ern'', JString e), (''async'', JBool True),
                (''messages'', JInt (case existing of None \<Rightarrow> 0 | Some q \<Rightarrow> available q))]))
                (s\<lparr>background_purges := background_purges s @ [e]\<rparr>)
         else answer Ok (Some (JObject [(''ern'', JString e), (''async'', JBool False)]))
                (s\<lparr>eqs_repo := purgeQueue (repo_env S 0) e (eqs_repo s)\<rparr>)) s)))"

definition handlePurgeAllQueues :: "server_env \<Rightarrow> http_request \<Rightarrow> server \<Rightarrow> result" where
  "handlePurgeAllQueues S req =
     authenticated S req (\<lambda>user. with_json S req (\<lambda>v. reading (read_PurgeAllQueuesRequest v) (\<lambda>(reg, account, ns) s.
       answer Ok None (s\<lparr>eqs_repo := purgeAllQueues (repo_env S 0) reg account ns (eqs_repo s)\<rparr>))))"

text \<open>Back to each queue that shares the dead letter queue what came from it; what was moved, and where to.\<close>

fun redrive_each :: "server_env \<Rightarrow> nat \<Rightarrow> ern \<Rightarrow> Queue list \<Rightarrow> int \<times> json list \<Rightarrow> eqs \<Rightarrow> (int \<times> json list) \<times> eqs" where
  "redrive_each S i e [] acc r = (acc, r)"
| "redrive_each S i e (source # sources) (moved, targets) r =
     (case redriveMessages (repo_env S i) e (queue_ern source) (queue_ern source) r of
        (n, r) \<Rightarrow> redrive_each S (Suc i) e sources
          (if n > 0 then (moved + n, targets @ [JObject [(''queueErn'', JString (queue_ern source)), (''messages'', JInt n)]])
           else (moved, targets)) r)"

definition redrive_note :: string where
  "redrive_note = ''Messages remain in the dead letter queue because no source queue is recorded for them. '' @
     ''Name one with a target queue to move them.''"

definition redrive_answer :: "ern \<Rightarrow> int \<times> json list \<Rightarrow> server \<Rightarrow> result" where
  "redrive_answer e done s =
     (let remaining = countMessagesOf e (eqs_repo s) in
      answer Ok (Some (JObject ([(''ern'', JString e), (''messages'', JInt (fst done)), (''remaining'', JInt remaining),
        (''targets'', JArray (snd done))] @ (if remaining > 0 then [(''note'', JString redrive_note)] else [])))) s)"

definition redrive_to :: "server_env \<Rightarrow> ern \<Rightarrow> ern \<Rightarrow> server \<Rightarrow> result" where
  "redrive_to S e dest =
     on_repo (redriveMessages (repo_env S 0) e dest '''') (\<lambda>n.
       redrive_answer e (n, [JObject [(''queueErn'', JString dest), (''messages'', JInt n)]]))"

definition handleRedriveDlq :: "server_env \<Rightarrow> http_request \<Rightarrow> server \<Rightarrow> result" where
  "handleRedriveDlq S req =
     authenticated S req (\<lambda>user. with_json S req (\<lambda>v.
       case v of
         JObject _ \<Rightarrow> reading (GetStringValue v ''ern'') (\<lambda>e. reading (GetStringValue v ''targetErn'') (\<lambda>targetErn.
           if e = '''' then refuse Bad_request ''ern is required''
           else finding_queue e (\<lambda>_ s.
             let sourceQueues = listSourceQueues e (eqs_repo s) in
             if sourceQueues = []
             then refuse Bad_request (''Queue is not a dead letter queue, ern: '' @ e @
                    '' - no queue names it as its dead letter queue'') s
             else if targetErn \<noteq> '''' then
               (if \<exists>q \<in> set sourceQueues. queue_ern q = targetErn then redrive_to S e targetErn s
                else refuse Bad_request (''Target queue does not use this dead letter queue, targetErn: '' @ targetErn) s)
             else if length sourceQueues = 1 then redrive_to S e (queue_ern (hd sourceQueues)) s
             else on_repo (redrive_each S 0 e sourceQueues (0, [])) (redrive_answer e) s)))
       | _ \<Rightarrow> refuse Bad_request ''Expected a JSON object body''))"

subsection \<open>Messages\<close>

definition handleGetMessage :: "server_env \<Rightarrow> http_request \<Rightarrow> server \<Rightarrow> result" where
  "handleGetMessage S req =
     authenticated S req (\<lambda>user. with_json S req (\<lambda>v. reading (read_GetMessageRequest v) (\<lambda>mid.
       if mid = '''' then refuse Bad_request ''messageId is required''
       else finding_message mid (\<lambda>m. granted S req user (queueErn m)
              (answer Ok (with_metadata user [(''message'', message_dto m)]))))))"

definition handleListMessages :: "server_env \<Rightarrow> http_request \<Rightarrow> server \<Rightarrow> result" where
  "handleListMessages S req =
     authenticated S req (\<lambda>user. with_json S req (\<lambda>v. reading (read_ListMessagesRequest v) (\<lambda>r s.
       answer Ok (with_metadata user
         [(''messages'', JArray (map message_dto (listMessages (lm_queueErn r) (lm_pageSize r) (lm_pageIndex r) (lm_sortColumn r)
             (lm_sortDirection r) (eqs_repo s)))),
          (''total'', JInt (countMessagesOf (lm_queueErn r) (eqs_repo s)))]) s)))"

text \<open>The event a stored message is announced with.\<close>

definition sent_event :: "Queue \<Rightarrow> Message \<Rightarrow> json" where
  "sent_event q m = JObject
     [(''ern'', JString (msg_ern m)), (''queueErn'', JString (queueErn m)), (''queueName'', JString (queue_name q)),
      (''messageId'', JString (messageId m)), (''size'', JInt (msg_size m)), (''accountId'', JString (accountId q)),
      (''region'', JString (region q))]"

definition message_sent :: string where
  "message_sent = ''eqs.message.sent''"

definition eqs_module :: string where
  "eqs_module = ''eqs''"

definition handleSendMessage :: "server_env \<Rightarrow> http_request \<Rightarrow> server \<Rightarrow> result" where
  "handleSendMessage S req =
     authenticated S req (\<lambda>user. with_json S req (\<lambda>v. reading (read_SendMessageRequest v) (\<lambda>r.
       on_repo (findQueueByErnCached (repo_env S 0) (sm_ern r)) (\<lambda>found.
         case found of
           None \<Rightarrow> refuse Bad_request ''Queue does not exist''
         | Some q \<Rightarrow> granted S req user (sm_ern r)
             (let most = EffectiveMaxMessageLength (maxMessageLength q); len = int (length (sm_body r)) in
              if len > most then refuse Bad_request (length_refusal len most)
              else case (if sm_priority r \<noteq> '''' then TryMessagePriorityFromString (sm_priority r) else Some (queue_priority q)) of
                     None \<Rightarrow> refuse Bad_request (priority_refusal (sm_priority r))
                   | Some prio \<Rightarrow>
                       (let mid = random_uuid S 0 in
                        on_repo (sendMessage (repo_env S 0) (sm_ern r)
                            \<lparr>draft_messageId = mid,
                             draft_ern = createEqsMessageErn (ern_region (http S)) (user_accountId user) mid,
                             draft_body = sm_body r, draft_attributes = sm_attributes r,
                             draft_systemAttributes = sm_systemAttributes r, draft_priority = prio\<rparr>)
                          (\<lambda>m s. answer Ok (with_metadata user [(''messageId'', JString (messageId m))])
                             (on_bus (Publish (ev_env S) message_sent (sent_event q m) eqs_module no_delivery)
                               (recordMessagesSent (sm_ern r) 1 (msg_size m) s)))))))))"

text \<open>The entries of a batch that are accepted, as drafts, and those that are not, with their position and the reason.\<close>

fun batch_drafts ::
  "server_env \<Rightarrow> User \<Rightarrow> Queue \<Rightarrow> nat \<Rightarrow> SendMessageBatchEntry list \<Rightarrow> MessageDraft list \<times> (int \<times> string) list" where
  "batch_drafts S user q i [] = ([], [])"
| "batch_drafts S user q i (e # es) =
     (let refusal = BatchEntryRefusal (int (length (be_body e))) (EffectiveMaxMessageLength (maxMessageLength q)) (be_priority e);
          (drafts, failed) = batch_drafts S user q (Suc i) es; mid = random_uuid S i in
      if refusal \<noteq> '''' then (drafts, (int i, refusal) # failed)
      else (\<lparr>draft_messageId = mid, draft_ern = createEqsMessageErn (ern_region (http S)) (user_accountId user) mid,
             draft_body = be_body e, draft_attributes = be_attributes e, draft_systemAttributes = be_systemAttributes e,
             draft_priority = (if be_priority e \<noteq> '''' then the (TryMessagePriorityFromString (be_priority e))
                               else queue_priority q)\<rparr> # drafts, failed))"

definition batch_answer :: "User \<Rightarrow> ern \<Rightarrow> int \<Rightarrow> Message list \<Rightarrow> (int \<times> string) list \<Rightarrow> server \<Rightarrow> result" where
  "batch_answer user e asked sent failed =
     answer Ok (with_metadata user
       [(''ern'', JString e), (''asked'', JInt asked), (''sent'', JInt (int (length sent))),
        (''messageIds'', JArray (map (\<lambda>m. JString (messageId m)) sent)),
        (''failed'', JArray (map (\<lambda>(i, why). JObject [(''index'', JInt i), (''reason'', JString why)]) failed))])"

definition send_drafts ::
  "server_env \<Rightarrow> User \<Rightarrow> Queue \<Rightarrow> ern \<Rightarrow> int \<Rightarrow> MessageDraft list \<times> (int \<times> string) list \<Rightarrow> server \<Rightarrow> result" where
  "send_drafts S user q e asked df =
     (if fst df = [] then batch_answer user e asked [] (snd df)
      else on_repo (sendMessages (repo_env S 0) e (fst df)) (\<lambda>sent s.
        if sent = [] then refuse Internal_server_error ''Could not send the batch'' s
        else batch_answer user e asked sent (snd df)
          (on_bus (PublishBatch (ev_env S) message_sent (map (\<lambda>m. (sent_event q m, no_delivery)) sent) eqs_module)
            (recordMessagesSent e (int (length sent)) (sum_list (map msg_size sent)) s))))"

definition handleSendMessageBatch :: "server_env \<Rightarrow> http_request \<Rightarrow> server \<Rightarrow> result" where
  "handleSendMessageBatch S req =
     authenticated S req (\<lambda>user. with_json S req (\<lambda>v.
       case v of
         JObject fs \<Rightarrow>
           (case map_of fs ''messages'' of
              Some (JArray _) \<Rightarrow> reading (read_SendMessageBatchRequest v) (\<lambda>(e, entries).
                let asked = int (length entries); refusal = BatchRefusal asked (MaxBatchSize (cfg_max_batch_size (cfg (http S)))) in
                if refusal \<noteq> '''' then refuse Bad_request refusal
                else on_repo (findQueueByErnCached (repo_env S 0) e) (\<lambda>found.
                  case found of
                    None \<Rightarrow> refuse Bad_request ''Queue does not exist''
                  | Some q \<Rightarrow> granted S req user e (send_drafts S user q e asked (batch_drafts S user q 0 entries))))
            | _ \<Rightarrow> refuse Bad_request ''messages must be an array of objects'')
       | _ \<Rightarrow> refuse Bad_request ''Expected a JSON object body''))"

definition handleReceiveMessage :: "server_env \<Rightarrow> http_request \<Rightarrow> server \<Rightarrow> result" where
  "handleReceiveMessage S req =
     authenticated S req (\<lambda>user. with_json S req (\<lambda>v. reading (read_ReceiveMessagesRequest v) (\<lambda>(e, maxCount, waitTime).
       granted S req user e (on_repo (findQueueByErnCached (repo_env S 0) e) (\<lambda>found s.
         if (case found of None \<Rightarrow> False | Some q \<Rightarrow> queue_status q = QUEUE_STOPPED)
         then refuse Conflict (''Queue is stopped, ern: '' @ e) s
         else case receiveMessages (repo_env S 0) (poll_worlds S) e maxCount (if slot_held S then waitTime else 0) (eqs_repo s) of
                None \<Rightarrow> (Waiting, s)
              | Some (ms, r) \<Rightarrow>
                  answer Ok (with_metadata user [(''messages'', JArray (map message_dto ms))])
                    (recordMessagesReceived e (int (length ms)) (sum_list (map msg_size ms)) (s\<lparr>eqs_repo := r\<rparr>)))))))"

definition set_visibility :: "eqs_env \<Rightarrow> int \<Rightarrow> Message \<Rightarrow> Message" where
  "set_visibility E vis m =
     (if status m = INVISIBLE then m\<lparr>visibilityTimeout := vis, lastReceived := system_now E\<rparr>
      else m\<lparr>visibilityTimeout := vis, visibilityPinned := True\<rparr>)"

definition handleSetVisibility :: "server_env \<Rightarrow> http_request \<Rightarrow> server \<Rightarrow> result" where
  "handleSetVisibility S req =
     authenticated S req (\<lambda>user. with_json S req (\<lambda>v. reading (read_SetMessageVisibilityRequest v) (\<lambda>(mid, vis).
       if mid = '''' then refuse Bad_request ''Message ID missing''
       else if vis < 0 \<or> vis > 43200 then refuse Bad_request ''Visibility must be between 0 and 43200 seconds''
       else finding_message mid (\<lambda>m s.
         answer Ok None (s\<lparr>eqs_repo := upsertMessage (repo_env S 0) (set_visibility (repo_env S 0) vis m) (eqs_repo s)\<rparr>)))))"

definition handleDeleteMessage :: "server_env \<Rightarrow> http_request \<Rightarrow> server \<Rightarrow> result" where
  "handleDeleteMessage S req =
     authenticated S req (\<lambda>user. with_json S req (\<lambda>v. reading (read_DeleteMessageRequest v) (\<lambda>(handle, mid) s.
       if handle \<noteq> '''' then answer Ok None (s\<lparr>eqs_repo := deleteMessage (repo_env S 0) handle (eqs_repo s)\<rparr>)
       else if mid \<noteq> '''' then answer Ok None (s\<lparr>eqs_repo := deleteMessageById (repo_env S 0) mid (eqs_repo s)\<rparr>)
       else refuse Bad_request ''Receipt handle or message ID missing'' s)))"

definition attribute_answer :: "User \<Rightarrow> string \<Rightarrow> string \<Rightarrow> variant \<Rightarrow> server \<Rightarrow> result" where
  "attribute_answer user mid name val =
     answer Ok (with_metadata user [(''messageId'', JString mid), (''name'', JString name), (''value'', variant_value_from val)])"

definition handleGetMessageAttribute :: "server_env \<Rightarrow> http_request \<Rightarrow> server \<Rightarrow> result" where
  "handleGetMessageAttribute S req =
     authenticated S req (\<lambda>user. with_json S req (\<lambda>v. reading (read_GetMessageAttributeRequest v) (\<lambda>(mid, name).
       finding_message mid (\<lambda>m.
         case map_of (attributes m) name of
           None \<Rightarrow> refuse Not_found (''Attribute not found, name: '' @ name)
         | Some val \<Rightarrow> attribute_answer user mid name val))))"

definition handleSetMessageAttribute :: "server_env \<Rightarrow> http_request \<Rightarrow> server \<Rightarrow> result" where
  "handleSetMessageAttribute S req =
     authenticated S req (\<lambda>user. with_json S req (\<lambda>v. reading (read_SetMessageAttributeRequest v) (\<lambda>(mid, key, val).
       finding_message mid (\<lambda>m s.
         attribute_answer user mid key val
           (s\<lparr>eqs_repo := upsertMessage (repo_env S 0) (m\<lparr>attributes := map_put key val (attributes m)\<rparr>) (eqs_repo s)\<rparr>)))))"

definition handleUpdateMessageBody :: "server_env \<Rightarrow> http_request \<Rightarrow> server \<Rightarrow> result" where
  "handleUpdateMessageBody S req =
     authenticated S req (\<lambda>user. with_json S req (\<lambda>v. reading (read_UpdateMessageBodyRequest v) (\<lambda>(mid, newBody).
       if mid = '''' then refuse Bad_request ''messageId is required''
       else finding_message mid (\<lambda>m. granted S req user (queueErn m) (\<lambda>s.
         let most = EffectiveMaxMessageLength
               (case findQueueByErn (queueErn m) (eqs_repo s) of None \<Rightarrow> 0 | Some q \<Rightarrow> maxMessageLength q);
             len = int (length newBody) in
         if len > most then refuse Bad_request (length_refusal len most) s
         else on_repo (updateMessageBody (repo_env S 0) mid newBody) (\<lambda>updated.
           case updated of
             None \<Rightarrow> message_not_found mid
           | Some u \<Rightarrow> answer Ok (Some (JObject [(''messageId'', JString (messageId u)), (''queueErn'', JString (queueErn u)),
                 (''size'', JInt (msg_size u)), (''previousSize'', JInt (msg_size m)),
                 (''contentType'', JString (contentType u))]))) s)))))"

definition handleGetMessageMetadata :: "server_env \<Rightarrow> http_request \<Rightarrow> server \<Rightarrow> result" where
  "handleGetMessageMetadata S req =
     authenticated S req (\<lambda>user. with_json S req (\<lambda>v. reading (read_GetMessageMetadataRequest v) (\<lambda>mid.
       finding_message mid (\<lambda>m. answer Ok (with_metadata user (message_metadata_dto m))))))"

definition MetricsResponse :: "server_env \<Rightarrow> server \<Rightarrow> result" where
  "MetricsResponse S = answer Ok (Some (JObject [(''items'', JArray (metric_items S))]))"

end
