(* ===== verification/Eqs_Server.thy ===== *)
theory Eqs_Server
  imports Eqs_Handlers Event_Runs
begin

text \<open>
  The EQS module: the dispatcher of \<^verbatim>\<open>modules/eqs/src/EqsServer.cpp\<close>, the consumer of the events that carry messages into
  queues, and what the server starts and runs on its timers. \<open>serve\<close> is one request, from the gate to the audit trail;
  \<open>consume\<close> one poll of the bus by this module.
\<close>

subsection \<open>Commands\<close>

datatype Command =
    UnknownCommand | CreateQueue | DeleteQueue | GetQueue | GetMessage | GetQueueErn | GetMessageCount | GetQueueMetadata
  | GetMessageAttribute | SetMessageAttribute | UpdateMessageBodyCommand | GetMessageMetadata | ListQueues | ListMessages
  | SendMessageCommand | SendMessageBatch | ReceiveMessagesCommand | SetVisibility | SetQueueVisibility | SetQueueDelay
  | SetQueueMaxMessageLength | SetQueueMaxRetries | StopQueue | StartQueue | DeleteMessageCommand | PurgeQueueCommand
  | PurgeAllQueuesCommand | RedriveDlq | GetMetadata | AddMetadata | AddQueueTag | SetQueueTag | DeleteQueueTag | GetMetrics

definition command_names :: "(string \<times> Command) list" where
  "command_names =
    [(''create-queue'', CreateQueue), (''delete-queue'', DeleteQueue), (''get-queue'', GetQueue), (''get-message'', GetMessage),
     (''get-queue-ern'', GetQueueErn), (''list-queues'', ListQueues), (''list-messages'', ListMessages),
     (''send-message'', SendMessageCommand), (''send-message-batch'', SendMessageBatch),
     (''receive-messages'', ReceiveMessagesCommand), (''set-visibility'', SetVisibility),
     (''set-message-visibility'', SetVisibility), (''set-queue-visibility'', SetQueueVisibility),
     (''set-queue-delay'', SetQueueDelay), (''set-queue-max-message-length'', SetQueueMaxMessageLength),
     (''set-queue-max-retries'', SetQueueMaxRetries), (''stop-queue'', StopQueue), (''start-queue'', StartQueue),
     (''delete-message'', DeleteMessageCommand), (''purge-queue'', PurgeQueueCommand),
     (''purge-all-queues'', PurgeAllQueuesCommand), (''redrive-dlq'', RedriveDlq), (''get-message-count'', GetMessageCount),
     (''get-queue-metadata'', GetQueueMetadata), (''get-message-attribute'', GetMessageAttribute),
     (''set-message-attribute'', SetMessageAttribute), (''update-message-body'', UpdateMessageBodyCommand),
     (''get-message-metadata'', GetMessageMetadata), (''get-metadata'', GetMetadata), (''add-metadata'', AddMetadata),
     (''add-queue-tag'', AddQueueTag), (''set-queue-tag'', SetQueueTag), (''delete-queue-tag'', DeleteQueueTag),
     (''get-metrics'', GetMetrics)]"

definition commandFromString :: "string \<Rightarrow> Command" where
  "commandFromString action = (case map_of command_names action of None \<Rightarrow> UnknownCommand | Some c \<Rightarrow> c)"

fun handler_of :: "Command \<Rightarrow> server_env \<Rightarrow> http_request \<Rightarrow> server \<Rightarrow> result" where
  "handler_of CreateQueue = handleCreateQueue"
| "handler_of DeleteQueue = handleDeleteQueue"
| "handler_of GetQueue = handleGetQueue"
| "handler_of GetMessage = handleGetMessage"
| "handler_of GetQueueErn = handleGetQueueErn"
| "handler_of ListQueues = handleListQueues"
| "handler_of ListMessages = handleListMessages"
| "handler_of SendMessageCommand = handleSendMessage"
| "handler_of SendMessageBatch = handleSendMessageBatch"
| "handler_of ReceiveMessagesCommand = handleReceiveMessage"
| "handler_of SetVisibility = handleSetVisibility"
| "handler_of SetQueueVisibility = handleSetQueueVisibility"
| "handler_of SetQueueDelay = handleSetQueueDelay"
| "handler_of SetQueueMaxMessageLength = handleSetQueueMaxMessageLength"
| "handler_of SetQueueMaxRetries = handleSetQueueMaxRetries"
| "handler_of StopQueue = handleStopQueue"
| "handler_of StartQueue = handleStartQueue"
| "handler_of DeleteMessageCommand = handleDeleteMessage"
| "handler_of PurgeQueueCommand = handlePurgeQueue"
| "handler_of PurgeAllQueuesCommand = handlePurgeAllQueues"
| "handler_of RedriveDlq = handleRedriveDlq"
| "handler_of GetMetadata = handleGetQueueAttributes"
| "handler_of AddMetadata = handleSetQueueAttributes"
| "handler_of GetMessageCount = handleGetMessageCount"
| "handler_of GetQueueMetadata = handleGetQueueMetadata"
| "handler_of GetMessageAttribute = handleGetMessageAttribute"
| "handler_of SetMessageAttribute = handleSetMessageAttribute"
| "handler_of UpdateMessageBodyCommand = handleUpdateMessageBody"
| "handler_of GetMessageMetadata = handleGetMessageMetadata"
| "handler_of AddQueueTag = handleAddQueueTag"
| "handler_of SetQueueTag = handleSetQueueTag"
| "handler_of DeleteQueueTag = handleDeleteQueueTag"
| "handler_of GetMetrics = (\<lambda>S _. MetricsResponse S)"
| "handler_of UnknownCommand = (\<lambda>_ req. refuse Not_found (''Action not implemented: '' @ header req ''x-euclid-action''))"

definition dispatch :: "server_env \<Rightarrow> http_request \<Rightarrow> server \<Rightarrow> result" where
  "dispatch S req s =
     (let action = header req ''x-euclid-action'' in
      if action = '''' then refuse Bad_request ''Missing x-euclid-action header'' s
      else handler_of (commandFromString action) S req s)"

definition serve :: "server_env \<Rightarrow> http_request \<Rightarrow> server \<times> AuditRecord list \<Rightarrow> server_error outcome \<times> server \<times> AuditRecord list" where
  "serve S req st = Dispatch (http S) (dispatch S) req st"

subsection \<open>Messages that arrive as events\<close>

definition readAttributes :: "event \<Rightarrow> string \<Rightarrow> (string \<times> variant) list" where
  "readAttributes e field =
     (case payload e of
        JObject fs \<Rightarrow>
          (case map_of fs field of
             Some (JObject attrs) \<Rightarrow>
               fold (\<lambda>(key, v) out. case variant_value_to v of Inl _ \<Rightarrow> out | Inr x \<Rightarrow> map_put key x out) attrs []
           | _ \<Rightarrow> [])
      | _ \<Rightarrow> [])"

definition kPriorityAttribute :: string where
  "kPriorityAttribute = ''priority''"

text \<open>Four sources of the priority, each overriding the one before.\<close>

definition delivery_priority :: "Queue \<Rightarrow> string \<Rightarrow> (string \<times> variant) list \<Rightarrow> string \<Rightarrow> MessagePriority" where
  "delivery_priority q bucketDefault systemAttrs carried =
     (let prio = queue_priority q;
          prio = (if bucketDefault \<noteq> '''' then MessagePriorityFromString bucketDefault else prio);
          prio = (case map_of systemAttrs kPriorityAttribute of Some (VString p) \<Rightarrow> MessagePriorityFromString p | _ \<Rightarrow> prio);
          prio = (if carried \<noteq> '''' then MessagePriorityFromString carried else prio) in
      prio)"

text \<open>What the envelope says, or else its payload.\<close>

definition from_envelope :: "string \<Rightarrow> event \<Rightarrow> string \<Rightarrow> string parsed" where
  "from_envelope own e field = (if own \<noteq> '''' then Inr own else GetStringValue (payload e) field)"

definition removeSubscriptions :: "ern \<Rightarrow> ern \<Rightarrow> server \<Rightarrow> server" where
  "removeSubscriptions source dest s =
     (let gone = map bs_ern (filter (\<lambda>b. bs_sourceErn b = source \<and> bs_targetErn b = dest) (bucket_subscriptions s)) in
      s\<lparr>bucket_subscriptions := filter (\<lambda>b. bs_ern b \<notin> set gone) (bucket_subscriptions s)\<rparr>)"

text \<open>The numbers drawn for a delivery: one delivery at a time stores at most one message, so the messages there are
  number them.\<close>

definition delivery_no :: "server \<Rightarrow> nat" where
  "delivery_no s = length (messages (eqs_repo s))"

definition deliver :: "server_env \<Rightarrow> event \<Rightarrow> ern \<Rightarrow> string \<Rightarrow> Queue \<Rightarrow> server \<Rightarrow> json_error + server" where
  "deliver S e dest content q s =
     and_then (GetStringValue (payload e) ''bucketPriority'') (\<lambda>bucketDefault.
     and_then (GetStringValue (payload e) ''priority'') (\<lambda>carried.
       let systemAttrs = readAttributes e ''systemAttributes''; mid = random_uuid S (delivery_no s) in
       case sendMessage (repo_env S (delivery_no s)) dest
              \<lparr>draft_messageId = mid, draft_ern = createEqsMessageErn (ern_region (http S)) (accountIdFromErn dest) mid,
               draft_body = content, draft_attributes = readAttributes e ''attributes'',
               draft_systemAttributes = systemAttrs,
               draft_priority = delivery_priority q bucketDefault systemAttrs carried\<rparr> (eqs_repo s) of
         (m, r) \<Rightarrow> Inr (recordMessagesSent dest 1 (msg_size m) (s\<lparr>eqs_repo := r\<rparr>))))"

definition handleSubscriptionDelivery :: "server_env \<Rightarrow> event \<Rightarrow> server \<Rightarrow> bool option \<times> server" where
  "handleSubscriptionDelivery S e s =
     (case and_then (from_envelope (targetErn e) e ''targetErn'') (\<lambda>dest.
           and_then (from_envelope (ev_messageId e) e ''messageId'') (\<lambda>_.
           and_then (GetStringValue (payload e) ''body'') (\<lambda>content. Inr (dest, content)))) of
        Inl _ \<Rightarrow> (None, s)
      | Inr (dest, content) \<Rightarrow>
          (case findQueueByErnCached (repo_env S (delivery_no s)) dest (eqs_repo s) of
             (found, r) \<Rightarrow>
               let s = s\<lparr>eqs_repo := r\<rparr> in
               (case found of
                  None \<Rightarrow>
                    (let s = on_bus (\<lambda>b. snd (DiscardDeliveries dest b)) s in
                     case from_envelope (sourceErn e) e ''sourceErn'' of
                       Inl _ \<Rightarrow> (None, s)
                     | Inr source \<Rightarrow> (Some True, removeSubscriptions source dest s))
                | Some q \<Rightarrow>
                    (case deliver S e dest content q s of
                       Inl _ \<Rightarrow> (None, s)
                     | Inr s \<Rightarrow> (Some True, s)))))"

text \<open>As a handler of the bus, which keeps the module's state and the bus apart.\<close>

definition delivery_handler :: "server_env \<Rightarrow> server handler" where
  "delivery_handler S e ws =
     (case ws of (s, b) \<Rightarrow>
        case handleSubscriptionDelivery S e (s\<lparr>event_bus := b\<rparr>) of (verdict, s) \<Rightarrow> (verdict, s, event_bus s))"

definition delivered_types :: "string list" where
  "delivered_types = [''ens.message.published'', ''esm.subscription.delivery'']"

definition eqs_handlers :: "server_env \<Rightarrow> string \<Rightarrow> server handler option" where
  "eqs_handlers S et = (if et \<in> set delivered_types then Some (delivery_handler S) else None)"

definition consume :: "server_env \<Rightarrow> bus_env \<Rightarrow> (nat \<Rightarrow> server \<times> bus \<Rightarrow> server \<times> bus) \<Rightarrow> string \<Rightarrow> server \<Rightarrow> server" where
  "consume S E' M instanceId s =
     (case pollOnce (ev_env S) E' M (eqs_handlers S) instanceId eqs_module (s, event_bus s) of
        (s, b) \<Rightarrow> s\<lparr>event_bus := b\<rparr>)"

subsection \<open>Starting and timers\<close>

text \<open>The constructor subscribes the module to both event types; the timers run the repository's upkeep, the recount only
  where this instance claimed it.\<close>

definition EqsServer_start :: "server \<Rightarrow> server" where
  "EqsServer_start s = on_bus (\<lambda>b. fold (Subscribe eqs_module) delivered_types b) s"

definition reset_task :: "server_env \<Rightarrow> server \<Rightarrow> server" where
  "reset_task S s = s\<lparr>eqs_repo := snd (resetExpiredMessages (repo_env S 0) (eqs_repo s))\<rparr>"

definition flush_task :: "server_env \<Rightarrow> server \<Rightarrow> server" where
  "flush_task S s = s\<lparr>eqs_repo := flushQueueCounters (repo_env S 0) (eqs_repo s)\<rparr>"

definition recount_task :: "bool \<Rightarrow> server \<Rightarrow> server" where
  "recount_task claimed_run s = (if \<not> claimed_run then s else s\<lparr>eqs_repo := recountQueues (eqs_repo s)\<rparr>)"

definition EqsServer_stop :: "server_env \<Rightarrow> server \<Rightarrow> server" where
  "EqsServer_stop S s = flush_task S s"

definition purge_thread :: "server_env \<Rightarrow> server \<Rightarrow> server" where
  "purge_thread S s =
     (case background_purges s of
        [] \<Rightarrow> s
      | e # es \<Rightarrow> s\<lparr>background_purges := es, eqs_repo := purgeQueue (repo_env S 0) e (eqs_repo s)\<rparr>)"

end
