(* ===== verification/Eqs_Samples.thy ===== *)
theory Eqs_Samples
  imports Eqs_Server
begin

text \<open>
  A small installation of the EQS module, on which the properties of the server are applied to concrete requests: one
  account, the user ann, who is granted the role of a consumer on the queues named order-, the user bob, who is granted
  nothing, and an administrator. A bearer token is the subject it names; the body of a request is the JSON given.
\<close>

definition sample_user :: "string \<Rightarrow> User" where
  "sample_user name = \<lparr>userId = name, user_ern = ''ern:eam:user:'' @ name, user_accountId = ''1'', user_region = ''eu'',
     accessKeys = []\<rparr>"

definition sample_eam :: eam where
  "sample_eam = \<lparr>users = [sample_user ''ann'', sample_user ''bob'', sample_user ''root''],
     groups = [\<lparr>group_name = ''administrator'', group_ern = ''ern:eam:group:administrator'', userIds = [''root'']\<rparr>],
     grants = [sample_grant], stored_roles = [], accounts = [''1''], account_namespaces = [(''1'', ''dev'')]\<rparr>"

definition sample_http :: "json \<Rightarrow> http_env" where
  "sample_http content =
     \<lparr>cfg = \<lparr>cfg_region = None, cfg_account_ids = None, cfg_namespaces = None, cfg_jwt_secret = None, cfg_audit_reads = False,
        cfg_max_batch_size = None\<rparr>,
      eam_of = sample_eam,
      vrf = \<lparr>signature_present = (\<lambda>_. False), signature_key = (\<lambda>_ _. None), sigv4_key = (\<lambda>_ _. None),
        VerifyToken = (\<lambda>token _. Some token), IsTokenExpired = (\<lambda>_ _. False)\<rparr>,
      wired_scope = True, wired_gate = True, wired_audit = True, parse_json = (\<lambda>_. Some content)\<rparr>"

definition sample_service :: "json \<Rightarrow> server_env" where
  "sample_service content =
     \<lparr>http = sample_http content, repo_env = (\<lambda>i. sample_eqs_env (1000 + int i)), poll_worlds = [(sample_eqs_env 1000, alone, \<lambda>r. r)], ev_env = sample_bus_env 1000,
      regex_env = sample_env, regex_what = (\<lambda>_. ''''), random_uuid = (\<lambda>n. replicate (Suc n) CHR ''u''), slot_held = False,
      info_logged = False, metric_items = []\<rparr>"

definition asks :: "string \<Rightarrow> string \<Rightarrow> http_request" where
  "asks who action =
     \<lparr>headers = [(''x-euclid-target'', ''eqs''), (''x-euclid-action'', action), (''authorization'', ''Bearer '' @ who),
        (''x-euclid-user-id'', who), (''x-euclid-account-id'', ''1''), (''x-euclid-namespace'', ''dev'')],
      http_body = ''''\<rparr>"

definition orders :: ern where
  "orders = ''ern:eqs:queue:order-in''"

text \<open>One queue of orders, and in it as many messages as are named.\<close>

definition sample_server :: "string list \<Rightarrow> server" where
  "sample_server ids =
     \<lparr>eqs_repo = sample_eqs (map (\<lambda>i. Eqs_Counters.sample_message i orders AVAILABLE) ids)
        [(sample_queue orders)\<lparr>available := int (length ids), queue_size := 5 * int (length ids)\<rparr>],
      event_bus = empty_bus, bucket_subscriptions = [], background_purges = [], metrics = []\<rparr>"

lemmas service_samples = sample_server_def orders_def asks_def sample_service_def sample_http_def sample_eam_def sample_user_def
  eqs_samples sample_bus_env_def empty_bus_def

lemma asks_header [simp]:
  "header (asks who action) ''x-euclid-target'' = ''eqs''" "header (asks who action) ''x-euclid-action'' = action"
  "header (asks who action) ''x-euclid-account-id'' = ''1''" "header (asks who action) ''x-euclid-namespace'' = ''dev''"
  "header (asks who action) ''x-euclid-user-id'' = who" "header (asks who action) ''authorization'' = ''Bearer '' @ who"
  by (simp_all add: asks_def header_def)

lemma sample_wired [simp]: "wired_gate (http (sample_service v))" "wired_audit (http (sample_service v))"
  "info_logged (sample_service v) = False" "parse_json (http (sample_service v)) b = Some v"
  "eam_of (http (sample_service v)) = sample_eam"
  by (simp_all add: sample_service_def sample_http_def)

lemma asks_authenticates: "Authenticate (http (sample_service v)) (asks who action) = no_auth\<lparr>subject := Some who\<rparr>"
proof -
  have "CheckScope (http (sample_service v)) (asks who action) = ''''"
    by (simp add: CheckScope_def scopeLookup_def sample_service_def sample_http_def sample_eam_def)
  then have s: "in_scope (http (sample_service v)) (asks who action) sub = no_auth\<lparr>subject := Some sub\<rparr>" for sub
    by (simp add: in_scope_def)
  have "\<not> signature_present (vrf (http (sample_service v))) (asks who action)"
    "VerifyToken (vrf (http (sample_service v))) token secret = Some token" for token secret
    by (simp_all add: sample_service_def sample_http_def)
  then show ?thesis by (simp add: Authenticate_def s)
qed

lemma sample_users [simp]:
  "findUserByUserId sample_eam ''ann'' = Some (sample_user ''ann'')" "findUserByUserId sample_eam ''bob'' = Some (sample_user ''bob'')"
  "findUserByUserId sample_eam ''root'' = Some (sample_user ''root'')" "findUserByUserId sample_eam ''system'' = None"
  "userId (sample_user who) = who" "user_accountId (sample_user who) = ''1''"
  by (simp_all add: findUserByUserId_def sample_eam_def sample_user_def)

lemma sample_admin [simp]: "IsEamAdmin sample_eam who \<longleftrightarrow> who = ''root''"
  by (simp add: IsEamAdmin_def sample_eam_def kEamAdministratorGroupName_def)

lemma asks_resolves:
  "who \<in> {''ann'', ''bob'', ''root''} \<Longrightarrow>
    ResolveCaller (http (sample_service v)) who (asks who action) = Some (sample_user who)"
  by (auto simp: ResolveCaller_def kSystemPrincipal_def)

text \<open>The administrator is entitled to everything; ann to receive from the queues of orders, bob to nothing.\<close>

lemma root_entitled: "entitled (http (sample_service v)) req resource ''root''"
  by (simp add: entitled_def)

lemma sample_grants: "CachedGrantsOf sample_eam (sample_user ''ann'') = [sample_grant]"
  "CachedGrantsOf sample_eam (sample_user ''bob'') = []"
  by (simp_all add: CachedGrantsOf_def PrincipalsOf_def sample_eam_def sample_user_def sample_grant_def)

lemma bob_not_entitled: "\<not> entitled (http (sample_service v)) req resource ''bob''"
  by (simp add: entitled_def sample_grants kSystemPrincipal_def)

lemma sample_lookup: "CachedRolePermissions sample_eam = builtin_lookup"
  by (simp add: CachedRolePermissions_def sample_eam_def builtin_lookup_def fun_eq_iff)

lemma sample_consumer:
  assumes "action \<in> {''receive-messages'', ''delete-message''}" and "resource \<in> {'''', orders}"
  shows "grant_covers builtin_lookup \<lparr>req_target = ''eqs'', req_action = action, req_accountId = ''1'', req_nameSpace = ''dev'',
    req_resourceErn = resource\<rparr> sample_grant"
proof -
  have r: "Exists_role ''consumer''" by (simp add: Exists_role_iff role_assignments_def role_names)
  have m: "''eqs:'' @ action \<in> set consumerPermissions" using assms(1) by (auto simp: consumerPermissions_def)
  then have "''eqs:'' @ action \<in> set All_permissions" using short_lists_exist(2) by blast
  then have "Matches_permission (''eqs:'' @ action) (''eqs:'' @ action)" by (simp add: Matches_refl Exists_mem)
  moreover have "PermissionsOf ''consumer'' = consumerPermissions" using PermissionsOf_simps(5) by (simp add: Consumer_def)
  ultimately show ?thesis using r m assms(2)
    by (auto simp: grant_covers_def builtin_lookup_def sample_grant_def coversNamespace_def coversResource_def
        ResourceMatches_def kEverything_def ends_with_def Of_permission_def orders_def)
qed

lemma ann_entitled:
  assumes "action \<in> {''receive-messages'', ''delete-message''}" and "resource \<in> {'''', orders}"
  shows "entitled (http (sample_service v)) (asks ''ann'' action) resource ''ann''"
  using sample_consumer [OF assms] by (simp add: entitled_def sample_grants sample_lookup)

lemma sample_gate:
  assumes "who \<in> {''ann'', ''bob'', ''root''}"
  shows "AuthorizeResource (http (sample_service v)) (asks who action) resource = None \<longleftrightarrow>
      entitled (http (sample_service v)) (asks who action) resource who"
    and "Authorize (http (sample_service v)) (asks who action) = None \<longleftrightarrow>
      entitled (http (sample_service v)) (asks who action) '''' who"
  using asks_resolves [OF assms, of v action]
  by (simp_all add: AuthorizeResource_entitled [where who = who and user = "sample_user who"]
      Authorize_entitled [where who = who and user = "sample_user who"] asks_authenticates no_auth_def)

lemma sample_body:
  "ParseJsonBody (http (sample_service (JObject fs))) (installErnResolver (http (sample_service (JObject fs)))) (asks who action) =
    Inr (installErnResolver (http (sample_service (JObject fs))) (asks who action) (JObject fs))"
  by (simp add: ParseJsonBody_def)

lemma orders_resolved: "resolveErn reg service type account ns orders = orders"
  by (simp add: resolveErn_def orders_def)

lemmas resolver_defs = installErnResolver_def resolve_field_def orders_resolved Let_def

lemma asks_authenticated:
  assumes "who \<in> {''ann'', ''bob'', ''root''}"
  shows "authenticated (sample_service v) (asks who action) k s = k (sample_user who) s"
  using asks_resolves [OF assms, of v action]
  by (simp add: authenticated_def authenticate_def asks_authenticates Let_def no_auth_def)

lemma root_served:
  "serve (sample_service v) (asks ''root'' action) (s, trail) =
    (case dispatch (sample_service v) (asks ''root'' action) s of
       (Answer r, s) \<Rightarrow> (Answer r, s, RecordAudit (http (sample_service v)) (asks ''root'' action) (status_code (resp_status r)) trail)
     | (other, s) \<Rightarrow> (other, s, trail))"
  using sample_gate(2) [of "''root''" v action] by (simp add: serve_def Dispatch_def root_entitled)

end
