(* ===== verification/Eqs_Answers.thy ===== *)
theory Eqs_Answers
  imports Eqs_Samples
begin

text \<open>
  What holds of every answer of the EQS module. A contract on answers that the steps shared by the handlers respect holds
  of every handler, so it is proved once for all of them and then used with two contracts: that a refusal has changed
  nothing, and that every answer has the shape a client can rely on.
\<close>

subsection \<open>A contract on answers\<close>

definition refusal :: "http_status \<Rightarrow> bool" where
  "refusal st \<longleftrightarrow> st \<in> {Bad_request, http_status.Unauthorized, Forbidden, Not_found, Conflict}"

text \<open>A message that is there is there after its body was rewritten.\<close>

lemma find_update_first: "(\<And>x. P (f x) = P x) \<Longrightarrow> find P (update_first P f xs) = None \<longleftrightarrow> find P xs = None"
  by (induction xs) auto

lemma updateMessageBody_found:
  "findMessageByName mid r = Some m \<Longrightarrow> updateMessageBody E mid newBody r \<noteq> (None, r')"
  by (auto simp: updateMessageBody_def findMessageByName_def find_update_first Let_def split: if_splits)

text \<open>\<open>near s t\<close>: no more has happened since \<open>s\<close> than a refusal may leave behind. \<open>ok s\<close> is the contract on what a request
  that found \<open>s\<close> may end with.\<close>

locale answering =
  fixes near :: "server \<Rightarrow> server \<Rightarrow> bool" and ok :: "server \<Rightarrow> result \<Rightarrow> bool"
  assumes near_refl: "near s s"
    and near_cached: "near s t \<Longrightarrow> near s (t\<lparr>eqs_repo := snd (findQueueByErnCached E e (eqs_repo t))\<rparr>)"
    and refused: "near s t \<Longrightarrow> refusal st \<Longrightarrow> ok s (Answer (ErrorResponse st m), t)"
    and failed: "ok s (Answer (ErrorResponse Internal_server_error m), t)"
    and threw: "ok s (Threw x, t)"
    and waits: "ok s (Waiting, t)"
    and answered: "st = Ok \<or> st = Accepted \<Longrightarrow> content = None \<or> (\<exists>fs. content = Some (JObject fs)) \<Longrightarrow>
      ok s (Answer (JsonResponse st content), t)"
begin

lemma refuse_ok: "near s t \<Longrightarrow> refusal st \<Longrightarrow> ok s (refuse st m t)"
  by (simp add: refuse_def refused)

lemma answer_None_ok: "ok s (answer Ok None t)"
  by (simp add: answer_def answered)

lemma answer_object_ok: "ok s (answer Ok (Some (JObject fs)) t)" "ok s (answer Accepted (Some (JObject fs)) t)"
  by (simp_all add: answer_def answered)

lemma answer_metadata_ok: "ok s (answer Ok (with_metadata user fs) t)"
  by (simp add: with_metadata_def answer_object_ok)

lemma unauthorized_ok: "near s t \<Longrightarrow> ok s (Answer (Unauthorized_response auth), t)"
  by (simp add: Unauthorized_response_def refused refusal_def)

lemma authenticated_ok: "near s t \<Longrightarrow> (\<And>user. ok s (k user t)) \<Longrightarrow> ok s (authenticated S req k t)"
  by (simp add: authenticated_def unauthorized_ok split: prod.split option.split)

lemma with_json_ok: "near s t \<Longrightarrow> (\<And>v. ok s (k v t)) \<Longrightarrow> ok s (with_json S req k t)"
  by (simp add: with_json_def ParseJsonBody_def refused refusal_def split: option.split)

lemma reading_ok: "(\<And>x. r = Inr x \<Longrightarrow> ok s (k x t)) \<Longrightarrow> ok s (reading r k t)"
  by (cases r) (simp_all add: reading_def threw)

lemma logging_ok: "ok s (k t) \<Longrightarrow> ok s (logging S r k t)"
  by (simp add: logging_def reading_ok)

lemma granted_ok: "near s t \<Longrightarrow> ok s (k t) \<Longrightarrow> ok s (granted S req user queue k t)"
  by (auto simp: granted_def denyUngrantedQueue_def AuthorizeResource_def refused refusal_def split: option.split prod.split bool.split)

lemma own_or_granted_ok: "near s t \<Longrightarrow> ok s (k t) \<Longrightarrow> ok s (own_or_granted S req user queue e k t)"
  by (simp add: own_or_granted_def granted_ok)

lemma tag_allowed_ok: "near s t \<Longrightarrow> ok s (k t) \<Longrightarrow> ok s (tag_allowed S req user key k t)"
  by (simp add: tag_allowed_def refuseOwnerTag_def refused refusal_def)

lemma finding_queue_ok: "near s t \<Longrightarrow> (\<And>q. findQueueByErn e (eqs_repo t) = Some q \<Longrightarrow> ok s (k q t)) \<Longrightarrow> ok s (finding_queue e k t)"
  by (simp add: finding_queue_def queue_not_found_def refuse_ok refusal_def split: option.split)

lemma finding_message_ok:
  "near s t \<Longrightarrow> (\<And>m. findMessageByName mid (eqs_repo t) = Some m \<Longrightarrow> ok s (k m t)) \<Longrightarrow> ok s (finding_message mid k t)"
  by (simp add: finding_message_def message_not_found_def refuse_ok refusal_def split: option.split)

lemma storing_ok: "(\<And>q t. ok s (k q t)) \<Longrightarrow> ok s (storing E q k t)"
  by (simp add: storing_def threw split: sum.split prod.split)

lemma on_repo_ok: "(\<And>x r. f (eqs_repo t) = (x, r) \<Longrightarrow> ok s (k x (t\<lparr>eqs_repo := r\<rparr>))) \<Longrightarrow> ok s (on_repo f k t)"
  by (simp add: on_repo_def split: prod.split)

lemma near_looked: "findQueueByErnCached E e (eqs_repo t) = (found, r) \<Longrightarrow> near s t \<Longrightarrow> near s (t\<lparr>eqs_repo := r\<rparr>)"
  by (metis near_cached snd_conv)

lemmas steps_ok = near_refl refuse_ok answer_None_ok answer_object_ok answer_metadata_ok authenticated_ok with_json_ok reading_ok
  logging_ok granted_ok own_or_granted_ok tag_allowed_ok finding_queue_ok finding_message_ok storing_ok waits threw failed

lemma queue_reads_ok:
  "ok s (handleGetQueueErn S req s)" "ok s (handleGetQueue S req s)" "ok s (handleListQueues S req s)"
  "ok s (handleGetMessageCount S req s)" "ok s (handleGetQueueMetadata S req s)" "ok s (handleGetQueueAttributes S req s)"
  "ok s (handleSetQueueAttributes S req s)"
  by (auto simp: handleGetQueueErn_def handleGetQueue_def handleListQueues_def handleGetMessageCount_def handleGetQueueMetadata_def
      handleGetQueueAttributes_def handleSetQueueAttributes_def refusal_def Let_def intro!: steps_ok split: option.split sum.split)

lemma queue_writes_ok:
  "ok s (handleCreateQueue S req s)" "ok s (handleDeleteQueue S req s)" "ok s (handlePurgeQueue S req s)"
  "ok s (handlePurgeAllQueues S req s)"
  by (auto simp: handleCreateQueue_def handleDeleteQueue_def handlePurgeQueue_def handlePurgeAllQueues_def refusal_def Let_def
      queue_not_found_def intro!: steps_ok split: option.split)

lemma setting_queue_ok: "near s t \<Longrightarrow> ok s (setting_queue S e a m change shown t)"
  by (auto simp: setting_queue_def refusal_def intro!: steps_ok)

lemma settings_ok:
  "ok s (handleSetQueueVisibility S req s)" "ok s (handleSetQueueDelay S req s)"
  "ok s (handleSetQueueMaxMessageLength S req s)" "ok s (handleSetQueueMaxRetries S req s)"
  "ok s (handleStopQueue S req s)" "ok s (handleStartQueue S req s)"
  "ok s (handleAddQueueTag S req s)" "ok s (handleSetQueueTag S req s)" "ok s (handleDeleteQueueTag S req s)"
  by (auto simp: handleSetQueueVisibility_def handleSetQueueDelay_def handleSetQueueMaxMessageLength_def handleSetQueueMaxRetries_def
      handleStopQueue_def handleStartQueue_def handleSetQueueStopped_def handleAddQueueTag_def handleSetQueueTag_def
      handleDeleteQueueTag_def refusal_def intro!: steps_ok setting_queue_ok)

lemma redrive_ok: "ok s (handleRedriveDlq S req s)"
proof -
  have answer: "ok s (redrive_answer e d t)" for e d t
    by (simp add: redrive_answer_def Let_def answer_object_ok)
  show ?thesis
    by (auto simp: handleRedriveDlq_def redrive_to_def refusal_def Let_def intro!: steps_ok on_repo_ok answer split: json.split)
qed

lemma message_reads_ok:
  "ok s (handleGetMessage S req s)" "ok s (handleListMessages S req s)" "ok s (handleGetMessageAttribute S req s)"
  "ok s (handleGetMessageMetadata S req s)"
  by (auto simp: handleGetMessage_def handleListMessages_def handleGetMessageAttribute_def handleGetMessageMetadata_def
      attribute_answer_def refusal_def intro!: steps_ok split: option.split)

lemma send_ok: "ok s (handleSendMessage S req s)"
  by (auto simp: handleSendMessage_def refusal_def Let_def intro!: steps_ok on_repo_ok near_looked split: option.split)

lemma send_drafts_ok: "near s t \<Longrightarrow> ok s (send_drafts S user q e asked df t)"
  by (auto simp: send_drafts_def batch_answer_def refuse_def intro!: steps_ok on_repo_ok)

lemma send_batch_ok: "ok s (handleSendMessageBatch S req s)"
  by (auto simp: handleSendMessageBatch_def refusal_def Let_def intro!: steps_ok on_repo_ok near_looked send_drafts_ok
      split: json.split option.split)

lemma receive_ok: "ok s (handleReceiveMessage S req s)"
  by (auto simp: handleReceiveMessage_def refusal_def intro!: steps_ok on_repo_ok near_looked split: option.split)

lemma message_writes_ok:
  "ok s (handleSetVisibility S req s)" "ok s (handleDeleteMessage S req s)" "ok s (handleSetMessageAttribute S req s)"
  "ok s (handleUpdateMessageBody S req s)"
  by (auto simp: handleSetVisibility_def handleDeleteMessage_def handleSetMessageAttribute_def handleUpdateMessageBody_def
      attribute_answer_def refusal_def Let_def intro!: steps_ok on_repo_ok split: option.split simp: updateMessageBody_found)

lemma dispatch_ok: "ok s (dispatch S req s)"
  by (cases "commandFromString (header req ''x-euclid-action'')")
    (simp_all add: dispatch_def Let_def queue_reads_ok queue_writes_ok settings_ok redrive_ok message_reads_ok send_ok send_batch_ok receive_ok
      message_writes_ok MetricsResponse_def answer_object_ok refuse_ok near_refl refusal_def)

end

subsection \<open>A refusal has changed nothing\<close>

definition only_cached :: "server \<Rightarrow> server \<Rightarrow> bool" where
  "only_cached s t \<longleftrightarrow> (\<exists>c. t = s\<lparr>eqs_repo := (eqs_repo s)\<lparr>queueCache := c\<rparr>\<rparr>)"

definition refused_unchanged :: "server \<Rightarrow> result \<Rightarrow> bool" where
  "refused_unchanged s res \<longleftrightarrow> (\<forall>r. fst res = Answer r \<and> refusal (resp_status r) \<longrightarrow> only_cached s (snd res))"

lemma ErrorResponse_simps [simp]:
  "resp_status (ErrorResponse st m) = st" "resp_body (ErrorResponse st m) = Some (JObject [(''error'', JString m)])"
  "resp_status (JsonResponse st c) = st" "resp_body (JsonResponse st c) = c"
  by (simp_all add: ErrorResponse_def JsonResponse_def)

lemma only_cached_lookup:
  "only_cached s t \<Longrightarrow> only_cached s (t\<lparr>eqs_repo := snd (findQueueByErnCached E e (eqs_repo t))\<rparr>)"
  by (auto simp: only_cached_def findQueueByErnCached_def split: prod.split)

interpretation unchanging: answering only_cached refused_unchanged
proof unfold_locales
  show "only_cached s s" for s
    unfolding only_cached_def by (rule exI [of _ "queueCache (eqs_repo s)"]) simp
qed (auto simp: only_cached_lookup refused_unchanged_def refusal_def)

lemma serve_cases:
  assumes "serve S req (s, trail) = (out, s', trail')"
  obtains (gate) refusal_r where "Authorize (http S) req = Some refusal_r" "out = Answer refusal_r" "s' = s"
      "trail' = RecordAudit (http S) req 403 trail"
  | (answered) r where "Authorize (http S) req = None" "dispatch S req s = (Answer r, s')" "out = Answer r"
      "trail' = RecordAudit (http S) req (status_code (resp_status r)) trail"
  | (threw) "Authorize (http S) req = None" "dispatch S req s = (out, s')" "trail' = trail" "\<forall>r. out \<noteq> Answer r"
  using assms refusals_forbidden(1) [of "http S" req]
  by (auto simp: serve_def Dispatch_def split: option.splits prod.splits outcome.splits)


text \<open>A queue with a message in it is not deleted where the request asks for an empty one.\<close>

definition delete_if_empty :: json where
  "delete_if_empty = JObject [(''ern'', JString orders), (''ifEmpty'', JBool True)]"

lemma sample_not_deleted:
  "serve (sample_service delete_if_empty) (asks ''root'' ''delete-queue'') (sample_server [''a''], []) =
    (Answer (ErrorResponse Conflict (not_empty_refusal 1)), sample_server [''a''],
     RecordAudit (http (sample_service delete_if_empty)) (asks ''root'' ''delete-queue'') 409 [])"
proof -
  have p: "ParseJsonBody (http (sample_service delete_if_empty)) (installErnResolver (http (sample_service delete_if_empty)))
      (asks ''root'' ''delete-queue'') = Inr delete_if_empty"
    by (simp add: delete_if_empty_def sample_body resolver_defs)
  have q: "findQueueByErn orders (eqs_repo (sample_server [''a''])) = Some ((sample_queue orders)\<lparr>available := 1, queue_size := 5\<rparr>)"
    "countMessagesOf orders (eqs_repo (sample_server [''a''])) = 1"
    by (simp_all add: service_samples findQueueByErn_def countMessagesOf_def)
  have g: "AuthorizeResource (http (sample_service delete_if_empty)) (asks ''root'' ''delete-queue'') orders = None"
    by (simp add: sample_gate root_entitled)
  have r: "read_DeleteQueueRequest delete_if_empty = Inr (orders, True)"
    by (simp add: read_DeleteQueueRequest_def delete_if_empty_def GetStringValue_def)
  have "dispatch (sample_service delete_if_empty) (asks ''root'' ''delete-queue'') (sample_server [''a'']) =
      refuse Conflict (not_empty_refusal 1) (sample_server [''a''])"
    using q by (simp add: dispatch_def commandFromString_def command_names_def handleDeleteQueue_def asks_authenticated with_json_def p
        reading_def r own_or_granted_def granted_def denyUngrantedQueue_def g Let_def)
  then show ?thesis by (simp add: root_served refuse_def)
qed


subsection \<open>The shape of an answer\<close>

fun well_shaped :: "http_response \<Rightarrow> bool" where
  "well_shaped r =
     (if resp_status r = Ok \<or> resp_status r = Accepted
      then (case resp_body r of None \<Rightarrow> True | Some (JObject _) \<Rightarrow> True | _ \<Rightarrow> False)
      else (case resp_body r of Some (JObject [(field, JString _)]) \<Rightarrow> field = ''error'' | _ \<Rightarrow> False))"

definition shaped :: "server \<Rightarrow> result \<Rightarrow> bool" where
  "shaped s res \<longleftrightarrow> (\<forall>r. fst res = Answer r \<longrightarrow> well_shaped r)"

interpretation shaping: answering "\<lambda>_ _. True" shaped
  by unfold_locales (auto simp: shaped_def refusal_def)

text \<open>(C15) Every answer has the type its status says: a success carries a JSON object or no body, every failure, the gate's
  and the session's for an exception included, an object with one string, the error.\<close>

theorem answers_typed:
  "case session_response (fst (serve S req (s, trail))) of None \<Rightarrow> fst (serve S req (s, trail)) = Waiting | Some r \<Rightarrow> well_shaped r"
proof -
  obtain out s' trail' where r: "serve S req (s, trail) = (out, s', trail')" by (metis prod_cases3)
  then show ?thesis
  proof (cases rule: serve_cases)
    case (gate refusal_r)
    then have "\<exists>m. refusal_r = ErrorResponse Forbidden m"
      by (auto simp: Authorize_def Let_def split: if_splits prod.splits bool.splits)
    then show ?thesis using r gate by (auto simp: session_response_def)
  next
    case (answered r')
    then show ?thesis using r shaping.dispatch_ok [of s S req] by (simp add: session_response_def shaped_def)
  next
    case threw
    then show ?thesis using r by (cases out) (simp_all add: session_response_def)
  qed
qed

subsection \<open>The audit trail\<close>



text \<open>A handler that throws leaves no record: a request that fails with a 500 is not in the trail.\<close>

lemma exceptions_unaudited: "serve S req (s, trail) = (Threw e, s', trail') \<Longrightarrow> trail' = trail"
  by (erule serve_cases) simp_all

subsection \<open>A success is the caller's to have\<close>

lemma authenticated_answer:
  assumes "authenticated S req k s = (Answer r, s')" and "resp_status r = Ok \<or> resp_status r = Accepted"
  shows "\<exists>who user. subject (Authenticate (http S) req) = Some who \<and> ResolveCaller (http S) who req = Some user \<and>
    k user s = (Answer r, s')"
proof -
  have "resp_status (Unauthorized_response auth) \<noteq> Ok \<and> resp_status (Unauthorized_response auth) \<noteq> Accepted" for auth
    by (simp add: Unauthorized_response_def)
  then show ?thesis
    using assms by (auto simp: authenticated_def authenticate_def Let_def split: option.splits prod.splits)
qed

lemmas handler_defs = handleCreateQueue_def handleDeleteQueue_def handleGetQueueErn_def handleGetQueue_def handleListQueues_def
  handleGetMessageCount_def handleGetQueueMetadata_def handleGetQueueAttributes_def handleSetQueueAttributes_def
  handleSetQueueVisibility_def handleSetQueueDelay_def handleSetQueueMaxMessageLength_def handleSetQueueMaxRetries_def
  handleStopQueue_def handleStartQueue_def handleSetQueueStopped_def handleAddQueueTag_def handleSetQueueTag_def
  handleDeleteQueueTag_def handlePurgeQueue_def handlePurgeAllQueues_def handleRedriveDlq_def handleGetMessage_def
  handleListMessages_def handleSendMessage_def handleSendMessageBatch_def handleReceiveMessage_def handleSetVisibility_def
  handleDeleteMessage_def handleGetMessageAttribute_def handleSetMessageAttribute_def handleUpdateMessageBody_def
  handleGetMessageMetadata_def

lemma handler_authenticates:
  "c \<noteq> GetMetrics \<Longrightarrow> c \<noteq> UnknownCommand \<Longrightarrow> \<exists>k. handler_of c S req = authenticated S req k"
  by (cases c) (simp_all add: handler_defs, (rule exI, rule refl)+)

lemma success_authenticated:
  assumes "dispatch S req s = (Answer r, s')" and "resp_status r = Ok \<or> resp_status r = Accepted"
    and "header req ''x-euclid-action'' \<noteq> ''get-metrics''"
  shows "\<exists>who user. subject (Authenticate (http S) req) = Some who \<and> ResolveCaller (http S) who req = Some user"
proof -
  let ?c = "commandFromString (header req ''x-euclid-action'')"
  have "?c \<noteq> GetMetrics"
    using assms(3) by (auto simp: commandFromString_def command_names_def split: option.splits if_splits)
  moreover have "?c \<noteq> UnknownCommand" using assms(1,2) by (auto simp: dispatch_def refuse_def Let_def split: if_splits)
  ultimately obtain k where "handler_of ?c S req = authenticated S req k" using handler_authenticates by blast
  then show ?thesis
    using assms(1,2) authenticated_answer by (fastforce simp: dispatch_def refuse_def Let_def split: if_splits)
qed


text \<open>What ann does with the role of a consumer: she deletes a message.\<close>

definition delete_b :: json where
  "delete_b = JObject [(''messageId'', JString ''b'')]"

lemma ann_deletes:
  "\<exists>s' trail'. serve (sample_service delete_b) (asks ''ann'' ''delete-message'') (sample_server [''a''], []) =
    (Answer (JsonResponse Ok None), s', trail')"
proof -
  let ?S = "sample_service delete_b" and ?r = "asks ''ann'' ''delete-message''"
  have p: "ParseJsonBody (http ?S) (installErnResolver (http ?S)) ?r = Inr delete_b"
    by (simp add: delete_b_def sample_body resolver_defs)
  have r: "read_DeleteMessageRequest delete_b = Inr ('''', ''b'')"
    by (simp add: read_DeleteMessageRequest_def delete_b_def GetStringValue_def)
  have "\<exists>s'. dispatch ?S ?r (sample_server [''a'']) = answer Ok None s'"
    by (simp add: dispatch_def commandFromString_def command_names_def handleDeleteMessage_def asks_authenticated with_json_def p
        reading_def r) blast
  moreover have "Authorize (http ?S) ?r = None" by (simp add: sample_gate ann_entitled)
  ultimately show ?thesis by (auto simp: serve_def Dispatch_def answer_def)
qed


text \<open>The metrics are answered to anybody.\<close>

lemma metrics_for_all:
  assumes "header req ''x-euclid-action'' = ''get-metrics''" and "subject (Authenticate (http S) req) = None"
  shows "fst (serve S req (s, trail)) = Answer (JsonResponse Ok (Some (JObject [(''items'', JArray (metric_items S))])))"
proof -
  have "Authorize (http S) req = None"
    using assms(2) by (simp add: Authorize_def authorizationLookup_def Let_def)
  then show ?thesis
    using assms(1) by (simp add: serve_def Dispatch_def dispatch_def commandFromString_def command_names_def MetricsResponse_def answer_def)
qed

end
