(* ===== verification/Eqs_Guards.thy ===== *)
theory Eqs_Guards
  imports Eqs_Answers
begin

text \<open>
  Who may touch which queue: what the second half of the role gate, on the resource, guarantees of the operations of the
  EQS module that ask for it.
\<close>

subsection \<open>What a success went through\<close>

definition success :: "http_response \<Rightarrow> bool" where
  "success r \<longleftrightarrow> resp_status r = Ok \<or> resp_status r = Accepted"

lemma refused_fails [simp]:
  "success (ErrorResponse st m) \<longleftrightarrow> st = Ok \<or> st = Accepted" "success (JsonResponse st c) \<longleftrightarrow> st = Ok \<or> st = Accepted"
  "\<not> success (Unauthorized_response auth)"
  by (simp_all add: success_def Unauthorized_response_def)

lemma refuse_answer: "refuse st m s = (Answer r, s') \<longleftrightarrow> r = ErrorResponse st m \<and> s' = s"
  by (auto simp: refuse_def)

lemma with_json_answer:
  "with_json S req k s = (Answer r, s') \<Longrightarrow> success r \<Longrightarrow>
    \<exists>v. ParseJsonBody (http S) (installErnResolver (http S)) req = Inr v \<and> k v s = (Answer r, s')"
  by (auto simp: with_json_def ParseJsonBody_def split: option.splits)

lemma reading_answer: "reading p k s = (Answer r, s') \<Longrightarrow> \<exists>x. p = Inr x \<and> k x s = (Answer r, s')"
  by (auto simp: reading_def split: sum.splits)

lemma granted_answer:
  "granted S req user e k s = (Answer r, s') \<Longrightarrow> success r \<Longrightarrow> AuthorizeResource (http S) req e = None \<and> k s = (Answer r, s')"
  using refusals_forbidden(2) [of "http S" req e]
  by (auto simp: granted_def denyUngrantedQueue_def success_def split: option.splits)

lemma own_or_granted_answer:
  assumes "own_or_granted S req user found e k s = (Answer r, s')" and "success r"
  shows "(AuthorizeResource (http S) req e = None \<or> (\<exists>q. found = Some q \<and> isInternalPlumbingOf q (userId user))) \<and> k s = (Answer r, s')"
  using assms granted_answer [of S req user e k s r s']
  by (auto simp: own_or_granted_def isOwnInternalQueue_def split: if_splits option.splits)

lemma tag_allowed_answer:
  "tag_allowed S req user key k s = (Answer r, s') \<Longrightarrow> success r \<Longrightarrow>
    (key = kOwnerTag \<longrightarrow> IsEamAdmin (eam_of (http S)) (userId user)) \<and> k s = (Answer r, s')"
  by (auto simp: tag_allowed_def refuseOwnerTag_def split: option.splits if_splits)

lemma finding_queue_answer:
  "finding_queue e k s = (Answer r, s') \<Longrightarrow> success r \<Longrightarrow> \<exists>q. findQueueByErn e (eqs_repo s) = Some q \<and> k q s = (Answer r, s')"
  by (auto simp: finding_queue_def queue_not_found_def refuse_answer split: option.splits)

subsection \<open>The operations that ask for the queue\<close>

definition plumbing_commands :: "Command list" where
  "plumbing_commands = [DeleteQueue, PurgeQueueCommand, AddQueueTag, SetQueueTag, DeleteQueueTag]"

definition guarded_commands :: "Command list" where
  "guarded_commands = plumbing_commands @ [StopQueue, StartQueue, SendMessageCommand, SendMessageBatch, ReceiveMessagesCommand]"

text \<open>The queue a request asks for, and whether its caller may have it.\<close>

definition may_touch :: "server_env \<Rightarrow> http_request \<Rightarrow> Command \<Rightarrow> User \<Rightarrow> ern \<Rightarrow> eqs \<Rightarrow> bool" where
  "may_touch S req c user e r \<longleftrightarrow>
     AuthorizeResource (http S) req e = None \<or>
     c \<in> set plumbing_commands \<and> (\<exists>q. findQueueByErn e r = Some q \<and> isInternalPlumbingOf q (userId user))"

definition asks_for :: "server_env \<Rightarrow> http_request \<Rightarrow> ern \<Rightarrow> bool" where
  "asks_for S req e \<longleftrightarrow>
     (case ParseJsonBody (http S) (installErnResolver (http S)) req of Inl _ \<Rightarrow> False | Inr v \<Rightarrow> GetStringValue v ''ern'' = Inr e)"

lemma asks_forI:
  "ParseJsonBody (http S) (installErnResolver (http S)) req = Inr v \<Longrightarrow> GetStringValue v ''ern'' = Inr e \<Longrightarrow> asks_for S req e"
  by (simp add: asks_for_def)

definition rightful :: "server_env \<Rightarrow> http_request \<Rightarrow> Command \<Rightarrow> eqs \<Rightarrow> bool" where
  "rightful S req c r \<longleftrightarrow>
     (\<exists>who user e. subject (Authenticate (http S) req) = Some who \<and> ResolveCaller (http S) who req = Some user \<and>
        asks_for S req e \<and> may_touch S req c user e r)"

lemma authenticated_rightful:
  assumes "authenticated S req k s = (Answer r, s')" and "success r"
    and "\<And>user. k user s = (Answer r, s') \<Longrightarrow> \<exists>e. asks_for S req e \<and> may_touch S req c user e (eqs_repo s)"
  shows "rightful S req c (eqs_repo s)"
  using authenticated_answer [OF assms(1)] assms(2,3) unfolding rightful_def success_def by blast

lemmas answer_steps = with_json_answer reading_answer granted_answer own_or_granted_answer tag_allowed_answer finding_queue_answer

lemma on_repo_answer:
  "on_repo f k s = (Answer r, s') \<Longrightarrow> \<exists>x t. f (eqs_repo s) = (x, t) \<and> k x (s\<lparr>eqs_repo := t\<rparr>) = (Answer r, s')"
  by (auto simp: on_repo_def split: prod.splits)

lemmas rightful_simps = may_touch_def plumbing_commands_def and_then_Inr Let_def

lemma delete_rightful: "handleDeleteQueue S req s = (Answer r, s') \<Longrightarrow> success r \<Longrightarrow> rightful S req DeleteQueue (eqs_repo s)"
  unfolding handleDeleteQueue_def
  by (erule authenticated_rightful, assumption)
    (fastforce simp: rightful_simps read_DeleteQueueRequest_def intro: asks_forI
      dest!: with_json_answer reading_answer own_or_granted_answer)

lemma purge_rightful: "handlePurgeQueue S req s = (Answer r, s') \<Longrightarrow> success r \<Longrightarrow> rightful S req PurgeQueueCommand (eqs_repo s)"
  unfolding handlePurgeQueue_def
  by (erule authenticated_rightful, assumption)
    (fastforce simp: rightful_simps read_PurgeQueueRequest_def intro: asks_forI
      dest!: with_json_answer reading_answer own_or_granted_answer)

lemma tags_rightful:
  "handleAddQueueTag S req s = (Answer r, s') \<Longrightarrow> success r \<Longrightarrow> rightful S req AddQueueTag (eqs_repo s)"
  "handleSetQueueTag S req s = (Answer r, s') \<Longrightarrow> success r \<Longrightarrow> rightful S req SetQueueTag (eqs_repo s)"
  "handleDeleteQueueTag S req s = (Answer r, s') \<Longrightarrow> success r \<Longrightarrow> rightful S req DeleteQueueTag (eqs_repo s)"
  unfolding handleAddQueueTag_def handleSetQueueTag_def handleDeleteQueueTag_def
  by (erule authenticated_rightful, assumption,
      fastforce simp: rightful_simps read_AddQueueTagRequest_def read_DeleteQueueTagRequest_def intro: asks_forI
      dest!: with_json_answer reading_answer own_or_granted_answer tag_allowed_answer finding_queue_answer)+

lemma stopping_rightful:
  "handleStopQueue S req s = (Answer r, s') \<Longrightarrow> success r \<Longrightarrow> rightful S req StopQueue (eqs_repo s)"
  "handleStartQueue S req s = (Answer r, s') \<Longrightarrow> success r \<Longrightarrow> rightful S req StartQueue (eqs_repo s)"
  unfolding handleStopQueue_def handleStartQueue_def handleSetQueueStopped_def
  by (erule authenticated_rightful, assumption,
      fastforce simp: rightful_simps refuse_answer intro: asks_forI dest!: with_json_answer reading_answer granted_answer
      split: if_splits)+

lemma send_rightful: "handleSendMessage S req s = (Answer r, s') \<Longrightarrow> success r \<Longrightarrow> rightful S req SendMessageCommand (eqs_repo s)"
  unfolding handleSendMessage_def
  by (erule authenticated_rightful, assumption)
    (fastforce simp: rightful_simps refuse_answer read_SendMessageRequest_def intro: asks_forI
      dest!: with_json_answer reading_answer granted_answer on_repo_answer split: option.splits)

lemma batch_rightful: "handleSendMessageBatch S req s = (Answer r, s') \<Longrightarrow> success r \<Longrightarrow> rightful S req SendMessageBatch (eqs_repo s)"
  unfolding handleSendMessageBatch_def
  by (erule authenticated_rightful, assumption)
    (fastforce simp: rightful_simps refuse_answer read_SendMessageBatchRequest_def intro: asks_forI
      dest!: with_json_answer reading_answer granted_answer on_repo_answer split: option.splits json.splits if_splits)

lemma receive_rightful: "handleReceiveMessage S req s = (Answer r, s') \<Longrightarrow> success r \<Longrightarrow> rightful S req ReceiveMessagesCommand (eqs_repo s)"
  unfolding handleReceiveMessage_def
  by (erule authenticated_rightful, assumption)
    (fastforce simp: rightful_simps refuse_answer read_ReceiveMessagesRequest_def intro: asks_forI
      dest!: with_json_answer reading_answer granted_answer)

lemma guarded_rightful:
  "handler_of c S req s = (Answer r, s') \<Longrightarrow> success r \<Longrightarrow> c \<in> set guarded_commands \<Longrightarrow> rightful S req c (eqs_repo s)"
  by (auto simp: guarded_commands_def plumbing_commands_def
      intro: delete_rightful purge_rightful tags_rightful stopping_rightful send_rightful batch_rightful receive_rightful)

text \<open>(C3) Whoever deletes, purges, stops, starts or tags a queue, or sends to it or receives from it, and succeeds, was
  entitled to that very queue: by being euclid itself or an administrator, or by a grant that covers the action on the
  queue's ERN. The one other way is to be the application whose own internal queue it is, and then neither sending,
  receiving, stopping nor starting is among what may be done to it.\<close>

theorem queue_actions_guarded:
  assumes "wired_gate (http S)" and "commandFromString (header req ''x-euclid-action'') = c" and "c \<in> set guarded_commands"
    and "serve S req (s, trail) = (Answer r, s', trail')" and "resp_status r = Ok \<or> resp_status r = Accepted"
  shows "\<exists>who user e. subject (Authenticate (http S) req) = Some who \<and> ResolveCaller (http S) who req = Some user \<and>
    asks_for S req e \<and>
    (entitled (http S) req e who \<or>
     c \<in> set plumbing_commands \<and> (\<exists>q. findQueueByErn e (eqs_repo s) = Some q \<and> internal q \<and> owner q = userId user \<and> userId user \<noteq> ''''))"
  using assms(4)
proof (cases rule: serve_cases)
  case (gate refusal_r)
  then show ?thesis using refusals_forbidden(1) assms(5) by fastforce
next
  case (answered r')
  then have "rightful S req c (eqs_repo s)"
    using assms(2,3,5) guarded_rightful [of c S req s r' s']
    by (auto simp: dispatch_def refuse_def success_def Let_def split: if_splits)
  then show ?thesis
    using AuthorizeResource_entitled [OF assms(1)] unfolding rightful_def may_touch_def isInternalPlumbingOf_def by blast
qed simp


definition purge_orders :: json where
  "purge_orders = JObject [(''ern'', JString orders), (''async'', JBool True)]"

lemma root_purges:
  "\<exists>s' trail'. serve (sample_service purge_orders) (asks ''root'' ''purge-queue'') (sample_server [''a''], []) =
    (Answer (JsonResponse Accepted (Some (JObject [(''ern'', JString orders), (''async'', JBool True), (''messages'', JInt 1)]))), s', trail')"
proof -
  let ?S = "sample_service purge_orders" and ?r = "asks ''root'' ''purge-queue''"
  have p: "ParseJsonBody (http ?S) (installErnResolver (http ?S)) ?r = Inr purge_orders"
    by (simp add: purge_orders_def sample_body resolver_defs)
  have r: "read_PurgeQueueRequest purge_orders = Inr (orders, True)"
    by (simp add: read_PurgeQueueRequest_def purge_orders_def GetStringValue_def)
  have q: "findQueueByErn orders (eqs_repo (sample_server [''a''])) = Some ((sample_queue orders)\<lparr>available := 1, queue_size := 5\<rparr>)"
    by (simp add: service_samples findQueueByErn_def)
  have g: "AuthorizeResource (http ?S) ?r orders = None" by (simp add: sample_gate root_entitled)
  have "\<exists>s'. dispatch ?S ?r (sample_server [''a'']) =
      answer Accepted (Some (JObject [(''ern'', JString orders), (''async'', JBool True), (''messages'', JInt 1)])) s'"
    by (simp add: dispatch_def commandFromString_def command_names_def handlePurgeQueue_def asks_authenticated with_json_def p
        reading_def r q own_or_granted_def granted_def denyUngrantedQueue_def g Let_def) blast
  then show ?thesis by (auto simp: root_served answer_def)
qed

theorem queue_actions_guarded_witness:
  "\<exists>who user e. subject (Authenticate (http (sample_service purge_orders)) (asks ''root'' ''purge-queue'')) = Some who \<and>
    ResolveCaller (http (sample_service purge_orders)) who (asks ''root'' ''purge-queue'') = Some user \<and>
    asks_for (sample_service purge_orders) (asks ''root'' ''purge-queue'') e \<and>
    (entitled (http (sample_service purge_orders)) (asks ''root'' ''purge-queue'') e who \<or>
     PurgeQueueCommand \<in> set plumbing_commands \<and>
     (\<exists>q. findQueueByErn e (eqs_repo (sample_server [''a''])) = Some q \<and> internal q \<and> owner q = userId user \<and> userId user \<noteq> ''''))"
proof -
  obtain s' trail' where served: "serve (sample_service purge_orders) (asks ''root'' ''purge-queue'') (sample_server [''a''], []) =
    (Answer (JsonResponse Accepted (Some (JObject [(''ern'', JString orders), (''async'', JBool True), (''messages'', JInt 1)]))), s', trail')"
    using root_purges by blast
  have c: "commandFromString (header (asks ''root'' ''purge-queue'') ''x-euclid-action'') = PurgeQueueCommand"
    by (simp add: commandFromString_def command_names_def)
  have g: "PurgeQueueCommand \<in> set guarded_commands" by (simp add: guarded_commands_def plumbing_commands_def)
  show ?thesis by (rule queue_actions_guarded [OF sample_wired(1) c g served]) simp
qed

end
