(* ===== verification/Eqs_Upholds.thy ===== *)
theory Eqs_Upholds
  imports Eqs_Guards Eqs_Runs
begin

text \<open>
  What a request leaves of an invariant of the queue repository. The contract between the handlers and the repository is
  stated once, one law per operation and with what the handler knows when it calls it; a request then keeps whatever
  meets the laws. It is used with the balance of the counters and with the tag that records who owns a queue.
\<close>

subsection \<open>What the handlers know\<close>

definition callers :: "server_env \<Rightarrow> http_request \<Rightarrow> User \<Rightarrow> bool" where
  "callers S req user \<longleftrightarrow> (\<exists>who. subject (Authenticate (http S) req) = Some who \<and> ResolveCaller (http S) who req = Some user)"

definition asks_to_create :: "server_env \<Rightarrow> http_request \<Rightarrow> User \<Rightarrow> CreateQueueRequest \<Rightarrow> bool" where
  "asks_to_create S req user cr \<longleftrightarrow> callers S req user \<and> commandFromString (header req ''x-euclid-action'') = CreateQueue \<and>
     (case ParseJsonBody (http S) (installErnResolver (http S)) req of Inl _ \<Rightarrow> False | Inr v \<Rightarrow> read_CreateQueueRequest v = Inr cr)"

text \<open>A queue stored with other settings or tags, but the same identity and counters.\<close>

definition same_books :: "Queue \<Rightarrow> Queue \<Rightarrow> bool" where
  "same_books q q' \<longleftrightarrow> queue_key q' = queue_key q \<and> queue_ern q' = queue_ern q \<and> (\<forall>c. stored c q' = stored c q)"

definition owner_tag_by :: "server_env \<Rightarrow> http_request \<Rightarrow> Queue \<Rightarrow> Queue \<Rightarrow> bool" where
  "owner_tag_by S req q q' \<longleftrightarrow> map_of (tags q') kOwnerTag = map_of (tags q) kOwnerTag \<or>
     (\<exists>user. callers S req user \<and> IsEamAdmin (eam_of (http S)) (userId user))"

definition same_count :: "Message \<Rightarrow> Message \<Rightarrow> bool" where
  "same_count m m' \<longleftrightarrow> messageId m' = messageId m \<and> queueErn m' = queueErn m \<and> status m' = status m \<and> msg_size m' = msg_size m"

lemma all_counters: "(\<forall>c. P c) \<longleftrightarrow> P CAvailable \<and> P CInvisible \<and> P CDelayed \<and> P CSize"
  by (metis counter.exhaust)

locale upholding =
  fixes S :: server_env and req :: http_request and pre post :: "eqs \<Rightarrow> bool"
  assumes kept: "pre r \<Longrightarrow> post r"
    and looked: "pre r \<Longrightarrow> pre (snd (findQueueByErnCached (repo_env S 0) e r))"
    and sent: "pre r \<Longrightarrow> post (snd (sendMessage (repo_env S 0) e d r))"
    and sent_batch: "pre r \<Longrightarrow> post (snd (sendMessages (repo_env S 0) e (fst (batch_drafts S user q 0 es)) r))"
    and received: "pre r \<Longrightarrow> asks_for S req e \<Longrightarrow> commandFromString (header req ''x-euclid-action'') = ReceiveMessagesCommand \<Longrightarrow>
      receiveMessages (repo_env S 0) (poll_worlds S) e n (if slot_held S then w else 0) r = Some (ms, t) \<Longrightarrow> post t"
    and rewritten: "same_count m m' \<Longrightarrow> findMessageByName mid r = Some m \<Longrightarrow> pre r \<Longrightarrow> post (upsertMessage (repo_env S 0) m' r)"
    and body_rewritten: "pre r \<Longrightarrow> post (snd (updateMessageBody (repo_env S 0) mid b r))"
    and deleted: "pre r \<Longrightarrow> post (deleteMessage (repo_env S 0) h r)" "pre r \<Longrightarrow> post (deleteMessageById (repo_env S 0) mid r)"
    and purged: "pre r \<Longrightarrow> post (purgeQueue (repo_env S 0) e r)" "pre r \<Longrightarrow> post (purgeAllQueues (repo_env S 0) reg account ns r)"
    and removed: "pre r \<Longrightarrow> post (deleteQueueByErn e r)"
    and resettled: "pre r \<Longrightarrow> findQueueByErn e r = Some q \<Longrightarrow> same_books q q' \<Longrightarrow> owner_tag_by S req q q' \<Longrightarrow>
      upsertQueue (repo_env S 0) q' r = Inr (x, t) \<Longrightarrow> post t"
    and created: "pre r \<Longrightarrow> asks_to_create S req user cr \<Longrightarrow>
      upsertQueue (repo_env S 1) ((asked_queue S req user cr prio (cq_name cr))\<lparr>deadLetterQueueErn := ''''\<rparr>) r = Inr (x, t) \<Longrightarrow> post t"
    and created_dlq: "pre r \<Longrightarrow> asks_to_create S req user cr \<Longrightarrow> cq_dlqName cr \<noteq> '''' \<Longrightarrow>
      upsertQueue (repo_env S 0) (asked_queue S req user cr prio (cq_dlqName cr)) r = Inr (dlq, t) \<Longrightarrow>
      post t \<and> (\<forall>x u. upsertQueue (repo_env S 1) ((asked_queue S req user cr prio (cq_name cr))\<lparr>deadLetterQueueErn := queue_ern dlq\<rparr>) t
        = Inr (x, u) \<longrightarrow> post u)"
    and redriven_to: "pre r \<Longrightarrow> commandFromString (header req ''x-euclid-action'') = RedriveDlq \<Longrightarrow> listSourceQueues e r \<noteq> [] \<Longrightarrow>
      post (snd (redriveMessages (repo_env S 0) e dest '''' r))"
    and redriven_each: "pre r \<Longrightarrow> commandFromString (header req ''x-euclid-action'') = RedriveDlq \<Longrightarrow> listSourceQueues e r \<noteq> [] \<Longrightarrow>
      post (snd (redrive_each S 0 e (listSourceQueues e r) acc r))"
begin

lemma refuse_keeps: "pre (eqs_repo t) \<Longrightarrow> post (eqs_repo (snd (refuse st m t)))"
  by (simp add: refuse_def kept)

lemma answer_keeps: "post (eqs_repo t) \<Longrightarrow> post (eqs_repo (snd (answer st c t)))"
  by (simp add: answer_def)

lemma authenticated_keeps:
  "pre (eqs_repo t) \<Longrightarrow> (\<And>user. callers S req user \<Longrightarrow> post (eqs_repo (snd (k user t)))) \<Longrightarrow> post (eqs_repo (snd (authenticated S req k t)))"
  by (auto simp: authenticated_def authenticate_def callers_def kept Let_def split: prod.split option.splits)

lemma with_json_keeps:
  "pre (eqs_repo t) \<Longrightarrow> (\<And>v. ParseJsonBody (http S) (installErnResolver (http S)) req = Inr v \<Longrightarrow> post (eqs_repo (snd (k v t)))) \<Longrightarrow>
    post (eqs_repo (snd (with_json S req k t)))"
  by (simp add: with_json_def kept split: sum.split)

lemma reading_keeps:
  "pre (eqs_repo t) \<Longrightarrow> (\<And>x. p = Inr x \<Longrightarrow> post (eqs_repo (snd (k x t)))) \<Longrightarrow> post (eqs_repo (snd (reading p k t)))"
  by (simp add: reading_def kept split: sum.split)

lemma logging_keeps: "pre (eqs_repo t) \<Longrightarrow> post (eqs_repo (snd (k t))) \<Longrightarrow> post (eqs_repo (snd (logging S p k t)))"
  by (simp add: logging_def reading_keeps)

lemma granted_keeps: "pre (eqs_repo t) \<Longrightarrow> post (eqs_repo (snd (k t))) \<Longrightarrow> post (eqs_repo (snd (granted S req user e k t)))"
  by (simp add: granted_def kept split: option.split)

lemma own_or_granted_keeps:
  "pre (eqs_repo t) \<Longrightarrow> post (eqs_repo (snd (k t))) \<Longrightarrow> post (eqs_repo (snd (own_or_granted S req user found e k t)))"
  by (simp add: own_or_granted_def granted_keeps)

lemma tag_allowed_keeps:
  "pre (eqs_repo t) \<Longrightarrow> (key = kOwnerTag \<Longrightarrow> IsEamAdmin (eam_of (http S)) (userId user) \<Longrightarrow> post (eqs_repo (snd (k t)))) \<Longrightarrow>
    (key \<noteq> kOwnerTag \<Longrightarrow> post (eqs_repo (snd (k t)))) \<Longrightarrow> post (eqs_repo (snd (tag_allowed S req user key k t)))"
  by (auto simp: tag_allowed_def refuseOwnerTag_def kept split: option.split)

lemma finding_queue_keeps:
  "pre (eqs_repo t) \<Longrightarrow> (\<And>q. findQueueByErn e (eqs_repo t) = Some q \<Longrightarrow> post (eqs_repo (snd (k q t)))) \<Longrightarrow>
    post (eqs_repo (snd (finding_queue e k t)))"
  by (simp add: finding_queue_def queue_not_found_def refuse_keeps split: option.split)

lemma finding_message_keeps:
  "pre (eqs_repo t) \<Longrightarrow> (\<And>m. findMessageByName mid (eqs_repo t) = Some m \<Longrightarrow> post (eqs_repo (snd (k m t)))) \<Longrightarrow>
    post (eqs_repo (snd (finding_message mid k t)))"
  by (simp add: finding_message_def message_not_found_def refuse_keeps split: option.split)

lemma storing_keeps:
  "post (eqs_repo t) \<Longrightarrow> (\<And>x r. upsertQueue E q (eqs_repo t) = Inr (x, r) \<Longrightarrow> post (eqs_repo (snd (k x (t\<lparr>eqs_repo := r\<rparr>))))) \<Longrightarrow>
    post (eqs_repo (snd (storing E q k t)))"
  by (simp add: storing_def split: sum.split prod.split)

lemma looking_keeps:
  "pre (eqs_repo t) \<Longrightarrow> (\<And>found r. pre r \<Longrightarrow> post (eqs_repo (snd (k found (t\<lparr>eqs_repo := r\<rparr>))))) \<Longrightarrow>
    post (eqs_repo (snd (on_repo (findQueueByErnCached (repo_env S 0) e) k t)))"
  using looked [of "eqs_repo t" e] by (auto simp: on_repo_def split: prod.split)

lemmas steps_keep = refuse_keeps answer_keeps authenticated_keeps with_json_keeps reading_keeps logging_keeps granted_keeps
  own_or_granted_keeps tag_allowed_keeps finding_queue_keeps finding_message_keeps looking_keeps

lemma reads_keep:
  assumes "pre (eqs_repo s)"
  shows "post (eqs_repo (snd (handleGetQueueErn S req s)))" "post (eqs_repo (snd (handleGetQueue S req s)))"
    "post (eqs_repo (snd (handleListQueues S req s)))" "post (eqs_repo (snd (handleGetMessageCount S req s)))"
    "post (eqs_repo (snd (handleGetQueueMetadata S req s)))" "post (eqs_repo (snd (handleGetQueueAttributes S req s)))"
    "post (eqs_repo (snd (handleSetQueueAttributes S req s)))" "post (eqs_repo (snd (handleGetMessage S req s)))"
    "post (eqs_repo (snd (handleListMessages S req s)))" "post (eqs_repo (snd (handleGetMessageAttribute S req s)))"
    "post (eqs_repo (snd (handleGetMessageMetadata S req s)))"
  using assms
  by (auto simp: handleGetQueueErn_def handleGetQueue_def handleListQueues_def handleGetMessageCount_def handleGetQueueMetadata_def
      handleGetQueueAttributes_def handleSetQueueAttributes_def handleGetMessage_def handleListMessages_def
      handleGetMessageAttribute_def handleGetMessageMetadata_def attribute_answer_def Let_def kept
      intro!: steps_keep split: option.split sum.split)

lemma resettling_keeps:
  assumes "pre (eqs_repo t)" and "findQueueByErn e (eqs_repo t) = Some q" and "same_books q q'" and "owner_tag_by S req q q'"
    and "\<And>x u. post (eqs_repo u) \<Longrightarrow> post (eqs_repo (snd (k x u)))"
  shows "post (eqs_repo (snd (storing (repo_env S 0) q' k t)))"
  using assms by (auto intro!: storing_keeps dest: resettled kept)

lemma settings_books:
  "same_books q (q\<lparr>visibility := n\<rparr>)" "same_books q (q\<lparr>delay := n\<rparr>)" "same_books q (q\<lparr>maxMessageLength := n\<rparr>)"
  "same_books q (q\<lparr>maxReceiveCount := n\<rparr>)" "same_books q (q\<lparr>queue_status := st\<rparr>)" "same_books q (q\<lparr>tags := ts\<rparr>)"
  by (simp_all add: same_books_def queue_key_def all_counters)

lemma settings_owner_tag:
  "owner_tag_by S req q (q\<lparr>visibility := n\<rparr>)" "owner_tag_by S req q (q\<lparr>delay := n\<rparr>)" "owner_tag_by S req q (q\<lparr>maxMessageLength := n\<rparr>)"
  "owner_tag_by S req q (q\<lparr>maxReceiveCount := n\<rparr>)" "owner_tag_by S req q (q\<lparr>queue_status := st\<rparr>)"
  by (simp_all add: owner_tag_by_def)

lemma settings_keep:
  assumes "pre (eqs_repo s)"
  shows "post (eqs_repo (snd (handleSetQueueVisibility S req s)))" "post (eqs_repo (snd (handleSetQueueDelay S req s)))"
    "post (eqs_repo (snd (handleSetQueueMaxMessageLength S req s)))" "post (eqs_repo (snd (handleSetQueueMaxRetries S req s)))"
    "post (eqs_repo (snd (handleStopQueue S req s)))" "post (eqs_repo (snd (handleStartQueue S req s)))"
  using assms
  by (auto simp: handleSetQueueVisibility_def handleSetQueueDelay_def handleSetQueueMaxMessageLength_def handleSetQueueMaxRetries_def
      handleStopQueue_def handleStartQueue_def handleSetQueueStopped_def setting_queue_def
      intro!: steps_keep resettling_keeps settings_books settings_owner_tag)

lemma tags_keep:
  assumes "pre (eqs_repo s)"
  shows "post (eqs_repo (snd (handleAddQueueTag S req s)))" "post (eqs_repo (snd (handleSetQueueTag S req s)))"
    "post (eqs_repo (snd (handleDeleteQueueTag S req s)))"
  using assms
  by (auto simp: handleAddQueueTag_def handleSetQueueTag_def handleDeleteQueueTag_def owner_tag_by_def
      intro!: steps_keep resettling_keeps) (auto simp: settings_books)

lemma create_keeps:
  assumes "pre (eqs_repo s)" and "commandFromString (header req ''x-euclid-action'') = CreateQueue"
  shows "post (eqs_repo (snd (handleCreateQueue S req s)))"
proof -
  have asks: "asks_to_create S req user cr"
    if "callers S req user" "ParseJsonBody (http S) (installErnResolver (http S)) req = Inr v" "read_CreateQueueRequest v = Inr cr" for user v cr
    using that assms(2) by (simp add: asks_to_create_def)
  have one: "post t" if "pre r" "callers S req user" "ParseJsonBody (http S) (installErnResolver (http S)) req = Inr v"
      "read_CreateQueueRequest v = Inr cr"
      "upsertQueue (repo_env S (Suc 0)) ((asked_queue S req user cr prio (cq_name cr))\<lparr>deadLetterQueueErn := ''''\<rparr>) r = Inr (x, t)"
    for r user v cr prio x t
    using created [OF that(1) asks [OF that(2-4)]] that(5) by simp
  have two: "post t \<and> (\<forall>x u. upsertQueue (repo_env S (Suc 0)) ((asked_queue S req user cr prio (cq_name cr))\<lparr>deadLetterQueueErn := queue_ern dlq\<rparr>) t
        = Inr (x, u) \<longrightarrow> post u)"
    if "pre r" "callers S req user" "ParseJsonBody (http S) (installErnResolver (http S)) req = Inr v"
      "read_CreateQueueRequest v = Inr cr" "cq_dlqName cr \<noteq> ''''"
      "upsertQueue (repo_env S 0) (asked_queue S req user cr prio (cq_dlqName cr)) r = Inr (dlq, t)" for r user v cr prio dlq t
    using created_dlq [OF that(1) asks [OF that(2-4)] that(5,6)] by simp
  show ?thesis
    using assms(1)
    by (auto simp: handleCreateQueue_def Let_def intro!: steps_keep storing_keeps split: option.split) (blast intro: kept one dest: two)+
qed

lemma deletes_keep:
  assumes "pre (eqs_repo s)"
  shows "post (eqs_repo (snd (handleDeleteQueue S req s)))" "post (eqs_repo (snd (handlePurgeQueue S req s)))"
    "post (eqs_repo (snd (handlePurgeAllQueues S req s)))" "post (eqs_repo (snd (handleDeleteMessage S req s)))"
  using assms
  by (auto simp: handleDeleteQueue_def handlePurgeQueue_def handlePurgeAllQueues_def handleDeleteMessage_def queue_not_found_def
      on_bus_def Let_def kept removed purged deleted intro!: steps_keep)

lemma same_count_rewrites: "same_count m (set_visibility E vis m)" "same_count m (m\<lparr>attributes := as\<rparr>)"
  by (simp_all add: same_count_def set_visibility_def)

lemma calling_keeps:
  "(\<And>x r. post r \<Longrightarrow> post (eqs_repo (snd (k x (t\<lparr>eqs_repo := r\<rparr>))))) \<Longrightarrow> post (snd (f (eqs_repo t))) \<Longrightarrow>
    post (eqs_repo (snd (on_repo f k t)))"
  by (auto simp: on_repo_def split: prod.split)

lemma rewrites_keep:
  assumes "pre (eqs_repo s)"
  shows "post (eqs_repo (snd (handleSetVisibility S req s)))" "post (eqs_repo (snd (handleSetMessageAttribute S req s)))"
    "post (eqs_repo (snd (handleUpdateMessageBody S req s)))"
proof -
  show "post (eqs_repo (snd (handleSetVisibility S req s)))" "post (eqs_repo (snd (handleSetMessageAttribute S req s)))"
    using assms
    by (auto simp: handleSetVisibility_def handleSetMessageAttribute_def attribute_answer_def
        intro!: steps_keep rewritten same_count_rewrites)
  show "post (eqs_repo (snd (handleUpdateMessageBody S req s)))"
    using assms
    by (auto simp: handleUpdateMessageBody_def Let_def message_not_found_def refuse_def answer_def kept
        intro!: steps_keep calling_keeps body_rewritten split: option.split)
qed

lemma sends_keep:
  assumes "pre (eqs_repo s)"
  shows "post (eqs_repo (snd (handleSendMessage S req s)))" "post (eqs_repo (snd (handleSendMessageBatch S req s)))"
proof -
  have one: "post (eqs_repo (snd (on_repo (sendMessage (repo_env S 0) e d) k t)))"
    if "pre (eqs_repo t)" "\<And>x r. post r \<Longrightarrow> post (eqs_repo (snd (k x (t\<lparr>eqs_repo := r\<rparr>))))" for e d k t
    using that by (intro calling_keeps sent)
  show "post (eqs_repo (snd (handleSendMessage S req s)))"
    using assms
    by (auto simp: handleSendMessage_def Let_def on_bus_def recordMessagesSent_def intro!: steps_keep one split: option.split)
  have "post (eqs_repo (snd (send_drafts S user q e asked (batch_drafts S user q 0 es) t)))" if "pre (eqs_repo t)" for user q e asked es t
    unfolding send_drafts_def
    using that sent_batch [OF that, of e user q es]
    by (auto simp: batch_answer_def refuse_def on_bus_def recordMessagesSent_def kept intro!: answer_keeps calling_keeps)
  then show "post (eqs_repo (snd (handleSendMessageBatch S req s)))"
    using assms
    by (auto simp: handleSendMessageBatch_def Let_def intro!: steps_keep split: json.split option.split)
qed

lemma receive_keeps:
  assumes "pre (eqs_repo s)" and "commandFromString (header req ''x-euclid-action'') = ReceiveMessagesCommand"
  shows "post (eqs_repo (snd (handleReceiveMessage S req s)))"
proof -
  have rcv: "post t" if "ParseJsonBody (http S) (installErnResolver (http S)) req = Inr v" "read_ReceiveMessagesRequest v = Inr (e, n, w)"
      "pre r" "receiveMessages (repo_env S 0) (poll_worlds S) e n (if slot_held S then w else 0) r = Some (ms, t)"
    for v e n w r ms t
    using that received [OF that(3) asks_forI assms(2)] by (auto simp: read_ReceiveMessagesRequest_def and_then_Inr)
  have looks: "post (eqs_repo (snd
      (case receiveMessages (repo_env S 0) (poll_worlds S) e n wait (eqs_repo t) of
         None \<Rightarrow> (Waiting, t)
       | Some (ms, r) \<Rightarrow> answer Ok (c ms) (recordMessagesReceived e (f ms) (g ms) (t\<lparr>eqs_repo := r\<rparr>)))))"
    if "ParseJsonBody (http S) (installErnResolver (http S)) req = Inr v" "read_ReceiveMessagesRequest v = Inr (e, n, w)" "pre (eqs_repo t)"
      "wait = (if slot_held S then w else 0)"
    for v e n w t wait c f g
    using rcv [OF that(1-3)] kept [OF that(3)]
    by (auto simp: recordMessagesReceived_def answer_def that(4) [symmetric] split: option.split)
  have either: "post (eqs_repo (snd (if b then x else y)))" if "b \<Longrightarrow> post (eqs_repo (snd x))" "\<not> b \<Longrightarrow> post (eqs_repo (snd y))" for b x y
    using that by simp
  show ?thesis
    unfolding handleReceiveMessage_def
    apply (intro steps_keep assms(1))
    subgoal for user v x
      apply (cases x)
      apply (simp only: prod.case)
      apply (intro steps_keep assms(1) either looks refl; simp)
      done
    done
qed

lemma redrive_keeps:
  assumes "pre (eqs_repo s)" and "commandFromString (header req ''x-euclid-action'') = RedriveDlq"
  shows "post (eqs_repo (snd (handleRedriveDlq S req s)))"
proof -
  have answer: "post (eqs_repo (snd (redrive_answer e d t)))" if "post (eqs_repo t)" for e d t
    using that by (simp add: redrive_answer_def Let_def answer_keeps)
  show ?thesis
    using assms
    by (auto simp: handleRedriveDlq_def redrive_to_def Let_def intro!: steps_keep calling_keeps answer redriven_to redriven_each
        split: json.split)
qed

lemma dispatch_keeps: "pre (eqs_repo s) \<Longrightarrow> post (eqs_repo (snd (dispatch S req s)))"
  by (cases "commandFromString (header req ''x-euclid-action'')")
    (simp_all add: dispatch_def Let_def reads_keep settings_keep tags_keep create_keeps deletes_keep rewrites_keep sends_keep
      receive_keeps redrive_keeps MetricsResponse_def answer_keeps refuse_keeps kept)

lemma serve_keeps:
  assumes "pre (eqs_repo s)"
  shows "post (eqs_repo (fst (snd (serve S req (s, trail)))))"
proof -
  obtain out s' trail' where r: "serve S req (s, trail) = (out, s', trail')" by (metis prod_cases3)
  then show ?thesis
    using assms dispatch_keeps [OF assms] by (cases rule: serve_cases) (simp_all add: r kept)
qed

end

end
