(* ===== verification/Eqs_Service.thy ===== *)
theory Eqs_Service
  imports Eqs_Upholds Eqs_Delivery
begin

text \<open>
  The module as a transition system: requests, deliveries from the bus, the timers and the background purge, in any
  order. The balance of the counters is its invariant, under the conditions that the repository's callers have to meet;
  and the tag that records a queue's owner changes only at the hand of an administrator.
\<close>

subsection \<open>The counters\<close>

text \<open>The generators of a request's ids have not produced what is stored yet, and it takes one look at most.\<close>

definition undisturbed :: "server_env \<Rightarrow> eqs \<Rightarrow> bool" where
  "undisturbed S r \<longleftrightarrow> fresh_oids (repo_env S 0) r \<and> new_handles (repo_env S 0) r \<and> inj (random_uuid S) \<and>
     (\<forall>i. random_uuid S i \<notin> messageId ` set (messages r)) \<and> poll_worlds S = [(repo_env S 0, alone, \<lambda>r. r)] \<and> \<not> slot_held S"

text \<open>A queue that is created is new; what is redriven is available; who receives does not receive from a queue that is
  its own dead letter queue.\<close>

definition creates_new :: "server_env \<Rightarrow> http_request \<Rightarrow> User \<Rightarrow> CreateQueueRequest \<Rightarrow> eqs \<Rightarrow> bool" where
  "creates_new S req user cr r \<longleftrightarrow>
     counters_current (asked_queue S req user cr MEDIUM (cq_name cr)) r \<and>
     (cq_dlqName cr = '''' \<or>
        cq_dlqName cr \<noteq> cq_name cr \<and> counters_current (asked_queue S req user cr MEDIUM (cq_dlqName cr)) r)"

definition drift_free :: "server_env \<Rightarrow> http_request \<Rightarrow> eqs \<Rightarrow> bool" where
  "drift_free S req r \<longleftrightarrow> undisturbed S r \<and>
     (commandFromString (header req ''x-euclid-action'') = ReceiveMessagesCommand \<longrightarrow>
        (\<forall>e. asks_for S req e \<longrightarrow> terms_deadLetterQueueErn (termsOf (fst (queueConfig (repo_env S 0) e r))) \<noteq> e)) \<and>
     (commandFromString (header req ''x-euclid-action'') = RedriveDlq \<longrightarrow>
        (\<forall>m \<in> set (messages r). (\<exists>q \<in> set (queues r). deadLetterQueueErn q = queueErn m) \<longrightarrow> status m = AVAILABLE)) \<and>
     (\<forall>user cr. asks_to_create S req user cr \<longrightarrow> creates_new S req user cr r)"

lemma batch_draft_ids:
  "draft_messageId ` set (fst (batch_drafts S user q i es)) \<subseteq> random_uuid S ` {i..}"
proof (induction es arbitrary: i)
  case (Cons e es)
  have "random_uuid S ` {Suc i..} \<subseteq> random_uuid S ` {i..}" by (intro image_mono) auto
  then have "draft_messageId ` set (fst (batch_drafts S user q (Suc i) es)) \<subseteq> random_uuid S ` {i..}" using Cons by blast
  then show ?case by (auto simp: Let_def split: prod.split)
qed simp

lemma batch_drafts_distinct:
  assumes "inj (random_uuid S)"
  shows "distinct (map draft_messageId (fst (batch_drafts S user q i es)))"
proof (induction es arbitrary: i)
  case (Cons e es)
  have "random_uuid S i \<notin> draft_messageId ` set (fst (batch_drafts S user q (Suc i) es))"
  proof
    assume "random_uuid S i \<in> draft_messageId ` set (fst (batch_drafts S user q (Suc i) es))"
    then have "random_uuid S i \<in> random_uuid S ` {Suc i..}" by (rule subsetD [OF batch_draft_ids])
    then show False using assms by (simp add: inj_image_mem_iff)
  qed
  with Cons [of "Suc i"] show ?case by (cases "batch_drafts S user q (Suc i) es") (auto simp: Let_def)
qed simp

lemma cached_undisturbed:
  assumes "findQueueByErnCached E e r = (found, t)"
  shows "balanced t = balanced r" "drift_free S req t = drift_free S req r"
proof -
  obtain c where t: "t = r\<lparr>queueCache := c\<rparr>" using assms by (auto simp: findQueueByErnCached_def split: prod.splits)
  have config: "fst (queueConfig E e (r\<lparr>queueCache := c\<rparr>)) = fst (queueConfig E e r)" for E e
    by (simp add: queueConfig_def Let_def split: option.split)
  have "counters_current q (r\<lparr>queueCache := c\<rparr>) = counters_current q r" for q
    by (simp add: counters_current_def findQueueByName_def split: option.split)
  then have "creates_new S req user cr (r\<lparr>queueCache := c\<rparr>) = creates_new S req user cr r" for user cr
    by (simp add: creates_new_def)
  moreover have "undisturbed S (r\<lparr>queueCache := c\<rparr>) = undisturbed S r"
    by (simp add: undisturbed_def fresh_oids_def new_handles_def)
  ultimately show "drift_free S req t = drift_free S req r" by (simp add: t drift_free_def config)
  show "balanced t = balanced r" by (simp add: t)
qed

lemma redriven_available:
  assumes "\<forall>m \<in> set (messages r). queueErn m = e \<longrightarrow> status m = AVAILABLE"
  shows "\<forall>m \<in> set (messages (snd (redriveMessages E dlq dest source r))). queueErn m = e \<longrightarrow> status m = AVAILABLE"
  using assms by (auto simp: redriveMessages_def redriven_def Let_def wake_def)

lemma redrive_each_balanced:
  assumes "balanced r" and "\<forall>m \<in> set (messages r). queueErn m = e \<longrightarrow> status m = AVAILABLE"
  shows "balanced (snd (redrive_each S i e sources acc r))"
  using assms
proof (induction sources arbitrary: i acc r)
  case (Cons source sources)
  obtain n t where t: "redriveMessages (repo_env S i) e (queue_ern source) (queue_ern source) r = (n, t)" by fastforce
  have "balanced t" using redriveMessages_balanced [OF Cons.prems(1), of e] Cons.prems(2) t by (metis snd_conv)
  moreover have "\<forall>m \<in> set (messages t). queueErn m = e \<longrightarrow> status m = AVAILABLE"
    using redriven_available [OF Cons.prems(2)] t by (metis snd_conv)
  ultimately show ?case using Cons.IH by (cases acc) (simp add: t)
qed simp

lemma asked_queue_names [simp]:
  "accountId (asked_queue S req user cr prio name) = user_accountId user" "queue_name (asked_queue S req user cr prio name) = name"
  "nameSpace (asked_queue S req user cr prio name) = header req ''x-euclid-namespace''"
  by (simp_all add: asked_queue_def)

lemma counters_current_asked:
  "counters_current ((asked_queue S req user cr prio name)\<lparr>deadLetterQueueErn := dlq\<rparr>) r =
    counters_current (asked_queue S req user cr MEDIUM name) r"
  "counters_current (asked_queue S req user cr prio name) r = counters_current (asked_queue S req user cr MEDIUM name) r"
  by (simp_all add: counters_current_def asked_queue_def split: option.split)

text \<open>Storing one queue leaves the counters of a queue of another name current.\<close>

lemma counters_current_other:
  assumes "upsertQueue E q r = Inr (q', t)" and "accountId q = accountId p" and "nameSpace q = nameSpace p"
    and "queue_name q \<noteq> queue_name p"
  shows "counters_current p t = counters_current p r"
proof -
  have apart: "\<not> (named (accountId q) (nameSpace q) (queue_name q) x \<and> named (accountId p) (nameSpace p) (queue_name p) x)" for x
    using assms(4) by (auto simp: named_def)
  have upd: "find P (update_first Q (\<lambda>_. y) xs) = find P xs" if "\<And>x. \<not> (P x \<and> Q x)" "\<not> P y" for P Q and y :: Queue and xs
    using that by (induction xs) auto
  have new: "find P (xs @ [y]) = find P xs" if "\<not> P y" for P and y :: Queue and xs
    using that by (induction xs) auto
  have "find (named (accountId p) (nameSpace p) (queue_name p)) (queues t) = find (named (accountId p) (nameSpace p) (queue_name p)) (queues r)"
    using assms(1,4) apart
    by (auto simp: upsertQueue_def Let_def new named_def intro!: upd split: if_splits option.splits)
  moreover have "messages t = messages r" "pendingCounters t = pendingCounters r"
    using assms(1) by (auto simp: upsertQueue_def Let_def split: if_splits option.splits)
  ultimately show ?thesis by (simp add: counters_current_def findQueueByName_def split: option.split)
qed


lemma resettled_current:
  assumes "balanced r" and "findQueueByErn e r = Some q" and "same_books q q'"
  shows "counters_current q' r"
proof -
  have q: "q \<in> set (queues r)" using find_SomeD assms(2) by (fastforce simp: findQueueByErn_def)
  have "distinct (map queue_key (queues r))" using assms(1) by (simp add: balanced_def well_formed_def good_queues_def)
  then have "find (\<lambda>x. queue_key x = queue_key q) (queues r) = Some q"
    using q by (rule find_unique) simp
  moreover have "named (accountId q') (nameSpace q') (queue_name q') = (\<lambda>x. queue_key x = queue_key q)"
    using assms(3) by (auto simp: named_def same_books_def queue_key_def fun_eq_iff)
  ultimately show ?thesis
    using assms(3) by (simp add: counters_current_def findQueueByName_def same_books_def all_counters)
qed

interpretation counting: upholding S req "\<lambda>r. balanced r \<and> drift_free S req r" balanced for S req
proof unfold_locales
  fix r e user q es
  assume p: "balanced r \<and> drift_free S req r"
  then have u: "undisturbed S r" by (simp add: drift_free_def)
  show "balanced (snd (sendMessages (repo_env S 0) e (fst (batch_drafts S user q 0 es)) r))"
  proof (rule sendMessages_balanced)
    show "distinct (map draft_messageId (fst (batch_drafts S user q 0 es)))" using u batch_drafts_distinct by (simp add: undisturbed_def)
    show "\<forall>d \<in> set (fst (batch_drafts S user q 0 es)). \<forall>m \<in> set (messages r). messageId m \<noteq> draft_messageId d"
    proof (intro ballI)
      fix d m assume "d \<in> set (fst (batch_drafts S user q 0 es))" and m: "m \<in> set (messages r)"
      then have "draft_messageId d \<in> random_uuid S ` {0..}" by (intro subsetD [OF batch_draft_ids [of S user q 0 es]]) simp
      moreover have "random_uuid S i \<noteq> messageId m" for i using u m unfolding undisturbed_def by (metis imageI)
      ultimately show "messageId m \<noteq> draft_messageId d" by fastforce
    qed
  qed (use p u in \<open>simp_all add: undisturbed_def\<close>)
next
  fix r e n w ms t
  assume "balanced r \<and> drift_free S req r" and "asks_for S req e"
    and "commandFromString (header req ''x-euclid-action'') = ReceiveMessagesCommand"
    and "receiveMessages (repo_env S 0) (poll_worlds S) e n (if slot_held S then w else 0) r = Some (ms, t)"
  then show "balanced t"
    by (intro receive_now_balanced [of r "repo_env S 0" "repo_env S 0" e "\<lambda>r. r" n ms t]) (auto simp: drift_free_def undisturbed_def)
next
  fix r user cr prio x t
  assume p: "balanced r \<and> drift_free S req r" and a: "asks_to_create S req user cr"
    and u: "upsertQueue (repo_env S 1) ((asked_queue S req user cr prio (cq_name cr))\<lparr>deadLetterQueueErn := ''''\<rparr>) r = Inr (x, t)"
  have "creates_new S req user cr r" using p a by (simp add: drift_free_def)
  then have "counters_current ((asked_queue S req user cr prio (cq_name cr))\<lparr>deadLetterQueueErn := ''''\<rparr>) r"
    unfolding creates_new_def counters_current_asked(1) by blast
  then show "balanced t" using upsertQueue_balanced u p by blast
next
  fix r user cr prio dlq t
  assume p: "balanced r \<and> drift_free S req r" and a: "asks_to_create S req user cr" and d: "cq_dlqName cr \<noteq> ''''"
    and u: "upsertQueue (repo_env S 0) (asked_queue S req user cr prio (cq_dlqName cr)) r = Inr (dlq, t)"
  let ?mine = "\<lambda>d. (asked_queue S req user cr prio (cq_name cr))\<lparr>deadLetterQueueErn := d\<rparr>"
  have "creates_new S req user cr r" using p a by (simp add: drift_free_def)
  then have n: "counters_current (asked_queue S req user cr MEDIUM (cq_name cr)) r" "cq_dlqName cr \<noteq> cq_name cr"
      "counters_current (asked_queue S req user cr MEDIUM (cq_dlqName cr)) r"
    using d by (simp_all add: creates_new_def)
  then have c: "counters_current (asked_queue S req user cr prio (cq_dlqName cr)) r" "counters_current (?mine d) r" "cq_dlqName cr \<noteq> cq_name cr" for d
    by (simp_all only: counters_current_asked(1) counters_current_asked(2) [where prio = prio] n)
  have t: "balanced t" using upsertQueue_balanced c(1) u p by blast
  moreover have "counters_current (?mine d) t" for d
    using counters_current_other [OF u, of "?mine d"] c(2,3) by simp
  ultimately show "balanced t \<and> (\<forall>x u. upsertQueue (repo_env S 1) (?mine (queue_ern dlq)) t = Inr (x, u) \<longrightarrow> balanced u)"
    using upsertQueue_balanced by blast
next
  fix r e dest
  assume "balanced r \<and> drift_free S req r" and "commandFromString (header req ''x-euclid-action'') = RedriveDlq" and "listSourceQueues e r \<noteq> []"
  then show "balanced (snd (redriveMessages (repo_env S 0) e dest '''' r))"
    by (intro redriveMessages_balanced) (auto simp: drift_free_def listSourceQueues_def filter_empty_conv)
next
  fix r e acc
  assume "balanced r \<and> drift_free S req r" and "commandFromString (header req ''x-euclid-action'') = RedriveDlq" and "listSourceQueues e r \<noteq> []"
  then show "balanced (snd (redrive_each S 0 e (listSourceQueues e r) acc r))"
    by (intro redrive_each_balanced) (auto simp: drift_free_def listSourceQueues_def filter_empty_conv)
next
  fix r mid m m'
  assume "same_count m m'" and "findMessageByName mid r = Some m" and "balanced r \<and> drift_free S req r"
  then show "balanced (upsertMessage (repo_env S 0) m' r)"
    by (intro upsertMessage_balanced [of r "repo_env S 0"]) (auto simp: findMessageByName_def same_count_def dest: find_SomeD)
next
  fix r e
  assume "balanced r \<and> drift_free S req r"
  moreover obtain found t where "findQueueByErnCached (repo_env S 0) e r = (found, t)" by fastforce
  ultimately show "balanced (snd (findQueueByErnCached (repo_env S 0) e r)) \<and> drift_free S req (snd (findQueueByErnCached (repo_env S 0) e r))"
    using cached_undisturbed by simp
next
  fix r e d
  assume "balanced r \<and> drift_free S req r"
  then show "balanced (snd (sendMessage (repo_env S 0) e d r))"
    by (intro sendMessage_balanced) (simp_all add: drift_free_def undisturbed_def)
next
  fix r e q q' x t
  assume "balanced r \<and> drift_free S req r" "findQueueByErn e r = Some q" "same_books q q'" "upsertQueue (repo_env S 0) q' r = Inr (x, t)"
  then show "balanced t" using upsertQueue_balanced resettled_current by blast
qed (simp_all add: eqs_balanced deleteMessage_def deleteMessageById_def)


subsection \<open>Runs of the module\<close>

lemma recordMessagesSent_repo [simp]:
  "eqs_repo (recordMessagesSent e n bytes s) = eqs_repo s" "event_bus (recordMessagesSent e n bytes s) = event_bus s"
  by (simp_all add: recordMessagesSent_def)

lemma findQueueByErnCached_elim:
  assumes "findQueueByErnCached E e r = (found, t)"
  obtains c where "t = r\<lparr>queueCache := c\<rparr>"
  using assms by (auto simp: findQueueByErnCached_def split: prod.splits)

lemma cached_same:
  "findQueueByErnCached E e r = (found, t) \<Longrightarrow>
    balanced t = balanced r \<and> fresh_oids E' t = fresh_oids E' r \<and> messages t = messages r \<and> queues t = queues r"
  by (elim findQueueByErnCached_elim) (simp add: fresh_oids_def)

lemma deliver_balanced:
  assumes "deliver S e dest content q u = Inr t" and "balanced (eqs_repo u)" and "fresh_oids (repo_env S (delivery_no u)) (eqs_repo u)"
  shows "balanced (eqs_repo t)"
proof -
  have c: "(case x of (m, r) \<Rightarrow> Inr (f m r)) = Inr t \<longleftrightarrow> t = (case x of (m, r) \<Rightarrow> f m r)" for x :: "Message \<times> eqs" and f
    by (cases x) auto
  obtain d where "t = (case sendMessage (repo_env S (delivery_no u)) dest d (eqs_repo u) of
      (m, r) \<Rightarrow> recordMessagesSent dest 1 (msg_size m) (u\<lparr>eqs_repo := r\<rparr>))"
    using assms(1) by (auto simp: deliver_def and_then_Inr Let_def c)
  then have "eqs_repo t = snd (sendMessage (repo_env S (delivery_no u)) dest d (eqs_repo u))" by (simp split: prod.split)
  then show ?thesis using sendMessage_balanced [OF assms(2,3)] by metis
qed

lemma delivery_balanced:
  assumes "balanced (eqs_repo s)" and "fresh_oids (repo_env S (delivery_no s)) (eqs_repo s)"
  shows "balanced (eqs_repo (snd (handleSubscriptionDelivery S e s)))"
proof -
  have looked: "balanced r" if "findQueueByErnCached (repo_env S (delivery_no s)) dest (eqs_repo s) = (found, r)" for dest found r
    using cached_same [OF that] assms(1) by blast
  have stored: "balanced (eqs_repo t)"
    if "findQueueByErnCached (repo_env S (delivery_no s)) dest (eqs_repo s) = (found, r)"
      "deliver S e dest content q (s\<lparr>eqs_repo := r\<rparr>) = Inr t" for dest found r content q t
  proof (rule deliver_balanced [OF that(2)])
    have "delivery_no (s\<lparr>eqs_repo := r\<rparr>) = delivery_no s" using cached_same [OF that(1)] by (simp add: delivery_no_def)
    then show "fresh_oids (repo_env S (delivery_no (s\<lparr>eqs_repo := r\<rparr>))) (eqs_repo (s\<lparr>eqs_repo := r\<rparr>))"
      using cached_same [OF that(1)] assms(2) by simp
  qed (use looked [OF that(1)] in simp)
  show ?thesis
    using assms(1) looked stored
    by (auto simp: handleSubscriptionDelivery_def removeSubscriptions_def on_bus_def Let_def split: sum.split prod.split option.split)
qed

inductive server_step :: "server \<Rightarrow> server \<Rightarrow> bool" where
  requested: "drift_free S req (eqs_repo s) \<Longrightarrow> serve S req (s, trail) = (out, t, trail') \<Longrightarrow> server_step s t"
| delivered: "fresh_oids (repo_env S (delivery_no s)) (eqs_repo s) \<Longrightarrow> handleSubscriptionDelivery S e s = (verdict, t) \<Longrightarrow> server_step s t"
| reset_expired: "server_step s (reset_task S s)"
| flushed: "server_step s (flush_task S s)"
| recounted: "pendingCounters (eqs_repo s) = [] \<Longrightarrow> server_step s (recount_task claimed_run s)"
| purging: "server_step s (purge_thread S s)"
| on_the_bus: "server_step s (s\<lparr>event_bus := b\<rparr>)"

lemma server_step_balanced: "server_step s t \<Longrightarrow> balanced (eqs_repo s) \<Longrightarrow> balanced (eqs_repo t)"
proof (induction rule: server_step.induct)
  case (requested S req s trail out t trail')
  then show ?case using counting.serve_keeps [of s S req trail] by simp
next
  case (delivered S s e verdict t)
  then show ?case using delivery_balanced by (metis snd_conv)
qed (auto simp: reset_task_def flush_task_def flushQueueCounters_def recount_task_def purge_thread_def split: list.split
      intro: eqs_balanced)

definition empty_server :: server where
  "empty_server = \<lparr>eqs_repo = eqs_start, event_bus = empty_bus, bucket_subscriptions = [], background_purges = [], metrics = []\<rparr>"

interpretation server_runs: inductive_invariant empty_server server_step "\<lambda>s. balanced (eqs_repo s)"
proof unfold_locales
  show "balanced (eqs_repo empty_server)" using eqs_runs.inv_init by (simp add: empty_server_def)
qed (rule server_step_balanced)



text \<open>From the empty installation the administrator creates a queue.\<close>

definition create_order :: json where
  "create_order = JObject [(''name'', JString ''order'')]"

definition created_server :: server where
  "created_server = fst (snd (serve (sample_service create_order) (asks ''root'' ''create-queue'') (empty_server, [])))"

lemma create_order_body:
  "ParseJsonBody (http (sample_service create_order)) (installErnResolver (http (sample_service create_order))) (asks ''root'' ''create-queue'')
    = Inr create_order"
  by (simp add: create_order_def sample_body resolver_defs)

lemma create_order_read: "read_CreateQueueRequest create_order = Inr \<lparr>cq_name = ''order'', cq_visibility = 30, cq_maxRetries = 3,
    cq_maxMessageLength = 1024 * 1024, cq_dlqName = '''', cq_delay = 0, cq_priority = ''MEDIUM'', cq_internal = False\<rparr>"
  by (simp add: read_CreateQueueRequest_def create_order_def GetStringValue_def GetLongValue_def)

lemma create_command: "commandFromString ''create-queue'' = CreateQueue"
  by (simp add: commandFromString_def command_names_def)

lemma create_drift_free: "drift_free (sample_service create_order) (asks ''root'' ''create-queue'') (eqs_repo empty_server)"
proof -
  have "undisturbed (sample_service create_order) (eqs_repo empty_server)"
    by (simp add: undisturbed_def empty_server_def eqs_start_def sample_service_def sample_fresh sample_handles inj_on_def)
  moreover have "creates_new S req user cr eqs_start" if "cq_dlqName cr = ''''" for S req user cr
    using that by (simp add: creates_new_def counters_current_def findQueueByName_def eqs_start_def asked_queue_def new_Queue_def)
  moreover have "cq_dlqName cr = ''''" if "asks_to_create (sample_service create_order) (asks ''root'' ''create-queue'') user cr" for user cr
    using that by (auto simp: asks_to_create_def create_order_body create_order_read)
  ultimately show ?thesis by (simp add: drift_free_def create_command empty_server_def)
qed

lemma created_reached: "reach empty_server server_step created_server"
proof -
  obtain out trail' where "serve (sample_service create_order) (asks ''root'' ''create-queue'') (empty_server, []) = (out, created_server, trail')"
    unfolding created_server_def by (metis prod.collapse)
  from server_step.requested [OF create_drift_free this] show ?thesis
    by (rule reach.step [where step = server_step, OF reach.start])
qed

lemma created_queues: "queues (eqs_repo (flush_task S created_server)) \<noteq> []"
proof -
  let ?S = "sample_service create_order" and ?r = "asks ''root'' ''create-queue''"
  let ?q = "\<lambda>cr. (asked_queue ?S ?r (sample_user ''root'') cr MEDIUM ''order'')\<lparr>deadLetterQueueErn := ''''\<rparr>"
  have "TryMessagePriorityFromString ''MEDIUM'' = Some MEDIUM" by code_simp
  then obtain cr c where "dispatch ?S ?r empty_server = storing (repo_env ?S 1) (?q cr) (\<lambda>saved. answer Ok (c saved)) empty_server"
    by (simp add: dispatch_def create_command handleCreateQueue_def asks_authenticated with_json_def create_order_body reading_def
        create_order_read Let_def)
  moreover have "\<exists>x t. upsertQueue (repo_env ?S 1) (?q cr) (eqs_repo empty_server) = Inr (x, t) \<and> queues t \<noteq> [] \<and> pendingCounters t = []"
    by (simp add: upsertQueue_def empty_server_def eqs_start_def Let_def forgetQueueConfig_def)
  ultimately have "queues (eqs_repo created_server) \<noteq> []"
    by (auto simp: created_server_def root_served storing_def answer_def)
  moreover have "well_formed (eqs_repo created_server)"
    using server_runs.reach_inv [OF created_reached] by (simp add: balanced_def)
  ultimately show ?thesis by (simp add: flush_task_def flushQueueCounters_def flush_simps)
qed


end
