(* ===== verification/Eqs_Owners.thy ===== *)
theory Eqs_Owners
  imports Eqs_Service
begin

text \<open>
  Who owns a queue is recorded in a tag. What the requests leave of it.
\<close>

definition owner_tags :: "(ern \<Rightarrow> string option) \<Rightarrow> eqs \<Rightarrow> bool" where
  "owner_tags T r \<longleftrightarrow> (\<forall>q \<in> set (queues r). map_of (tags q) kOwnerTag = T (queue_ern q))"

definition tagged :: "eqs \<Rightarrow> (ern \<times> (string \<times> string) list) set" where
  "tagged r = (\<lambda>q. (queue_ern q, tags q)) ` set (queues r)"

lemma owner_tags_tagged: "owner_tags T r \<longleftrightarrow> (\<forall>(e, ts) \<in> tagged r. map_of ts kOwnerTag = T e)"
  by (auto simp: owner_tags_def tagged_def)

lemma owner_tags_less: "tagged t \<subseteq> tagged r \<Longrightarrow> owner_tags T r \<Longrightarrow> owner_tags T t"
  unfolding owner_tags_tagged by blast

text \<open>Counting, purging and sending touch no tag.\<close>

lemma tagged_update_first:
  assumes "\<And>q. queue_ern (f q) = queue_ern q \<and> tags (f q) = tags q"
  shows "(\<lambda>q. (queue_ern q, tags q)) ` set (update_first P f qs) = (\<lambda>q. (queue_ern q, tags q)) ` set qs"
  using assms by (induction qs) auto

lemma tagged_updates [simp]:
  "tagged (r\<lparr>messages := ms\<rparr>) = tagged r" "tagged (r\<lparr>pendingCounters := ps\<rparr>) = tagged r" "tagged (r\<lparr>queueConfigs := cs\<rparr>) = tagged r"
  "tagged (r\<lparr>queueCache := c\<rparr>) = tagged r" "tagged (r\<lparr>receiveWaiters := w\<rparr>) = tagged r" "tagged (wake e r) = tagged r"
  by (simp_all add: tagged_def wake_def)

lemma tagged_write: "(\<lambda>q. (queue_ern q, tags q)) ` set (writeCounters E e p qs) = (\<lambda>q. (queue_ern q, tags q)) ` set qs"
  unfolding writeCounters_def by (rule tagged_update_first) (simp add: addPending_def)

lemma tagged_flush [simp]: "tagged (flushPendingCounters E force r) = tagged r"
proof -
  have "(\<lambda>q. (queue_ern q, tags q)) ` set (fold (\<lambda>(e, p). writeCounters E e p) ps qs) = (\<lambda>q. (queue_ern q, tags q)) ` set qs" for ps qs
    by (induction ps arbitrary: qs) (simp_all add: tagged_write case_prod_beta)
  then show ?thesis by (simp add: flushPendingCounters_def tagged_def Let_def)
qed

lemma tagged_adjust [simp]: "tagged (adjustQueueCounters E e a i d sz r) = tagged r"
  by (simp add: adjustQueueCounters_def Let_def)

lemma tagged_config [simp]: "tagged (snd (queueConfig E e r)) = tagged r"
  using queueConfig_state [of E e r] by auto

lemma tagged_send [simp]:
  "tagged (snd (sendMessage E e d r)) = tagged r" "tagged (snd (sendMessages E e ds r)) = tagged r"
proof -
  obtain config t where t: "queueConfig E e r = (config, t)" by fastforce
  then have same: "tagged t = tagged r" by (metis tagged_config snd_conv)
  have one: "tagged u' = tagged u" if "insertMessage x m u = Some u'" for x m u u'
    using that by (auto simp: insertMessage_def split: if_splits)
  have many: "insertMessages f ms u = (b, u') \<Longrightarrow> tagged u' = tagged u" for f ms u b u'
    by (induction f ms u rule: insertMessages.induct) (auto split: option.splits dest: one)
  show "tagged (snd (sendMessage E e d r)) = tagged r"
    by (auto simp: sendMessage_def t same Let_def split: option.split dest: one)
  show "tagged (snd (sendMessages E e ds r)) = tagged r"
    by (auto simp: sendMessages_def t same Let_def split: prod.split bool.split dest: many)
qed


lemma tagged_rewrites [simp]:
  "tagged (snd (updateMessageBody E mid b r)) = tagged r" "tagged (deleteMessage E h r) = tagged r"
  "tagged (deleteMessageById E mid r) = tagged r" "tagged (upsertMessage E m r) = tagged r"
  by (simp_all add: updateMessageBody_def deleteMessage_def deleteMessageById_def deleteFirstMessage_def adjustForDeleted_def
      upsertMessage_def Let_def split: option.split MessageStatus.split)

lemma tagged_redrive [simp]: "tagged (snd (redriveMessages E dlq dest source r)) = tagged r"
  by (auto simp: redriveMessages_def Let_def)

lemma tagged_redrive_each [simp]: "tagged (snd (redrive_each S i e sources acc r)) = tagged r"
proof (induction sources arbitrary: i acc r)
  case (Cons source sources)
  obtain n t where t: "redriveMessages (repo_env S i) e (queue_ern source) (queue_ern source) r = (n, t)" by fastforce
  then have "tagged t = tagged r" by (metis tagged_redrive snd_conv)
  then show ?case using Cons by (cases acc) (simp add: t)
qed simp

lemma tagged_purges [simp]: "tagged (purgeQueue E e r) = tagged r" "tagged (purgeAllQueues E reg account ns r) = tagged r"
proof -
  have f: "(\<lambda>q. (queue_ern q, tags q)) ` set (queues (flushPendingCounters E True r)) = tagged r"
    using tagged_flush [of E True r] by (simp add: tagged_def)
  have z: "queue_ern (zeroCounters E q) = queue_ern q \<and> tags (zeroCounters E q) = tags q" for q by (simp add: zeroCounters_def)
  show "tagged (purgeQueue E e r) = tagged r"
    using f by (simp add: purgeQueue_def Let_def tagged_def tagged_update_first [OF z])
  have "(\<lambda>q. (queue_ern q, tags q)) ` set (map (\<lambda>q. if P q then zeroCounters E q else q) qs) = (\<lambda>q. (queue_ern q, tags q)) ` set qs" for P qs
    unfolding set_map image_image by (rule image_cong) (simp_all add: z)
  then show "tagged (purgeAllQueues E reg account ns r) = tagged r"
    using f by (auto simp: purgeAllQueues_def Let_def tagged_def)
qed

lemma tagged_delete: "tagged (deleteQueueByErn e r) \<subseteq> tagged r"
  by (auto simp: deleteQueueByErn_def tagged_def Let_def)

text \<open>Receiving, one look: the passes work on the messages, and settle the counters.\<close>

lemma claim_pass_tagged: "claim_pass E M T e p want r = Some (r', k) \<Longrightarrow> tagged (rcv_state r') = tagged (rcv_state r)"
proof -
  have f: "finish_pass E T e cs hs x = (x', k) \<Longrightarrow> tagged (rcv_state x') = tagged (rcv_state x)" for cs hs x x' k
    by (auto simp: finish_pass_def Let_def)
  assume "claim_pass E M T e p want r = Some (r', k)"
  then show ?thesis
    by (simp add: claim_pass_def Let_def split: if_split_asm prod.split_asm) (auto dest: f)
qed

lemma claim_passes_tagged: "tagged (rcv_state (claim_passes n E M T e maxCount p want taken r)) = tagged (rcv_state r)"
proof (induction n arbitrary: taken r)
  case (Suc n)
  have "tagged (rcv_state r') = tagged (rcv_state r)" if "claim_pass E M T e p w r = Some (r', k)" for w r' k
    using that by (rule claim_pass_tagged)
  with Suc show ?case by (simp split: option.split prod.split)
qed simp

lemma receive_attempt_tagged: "tagged (rcv_state (receive_attempt E M T e n r)) = tagged (rcv_state r)"
proof -
  have "tagged (rcv_state (fold (\<lambda>p r. case m p of None \<Rightarrow> r | Some want \<Rightarrow> claim_passes k E M T e n p want 0 r) ps r)) = tagged (rcv_state r)"
    for m :: "MessagePriority \<Rightarrow> int option" and k ps r
  proof (induction ps arbitrary: r)
    case (Cons p ps)
    then show ?case by (cases "m p") (simp_all add: claim_passes_tagged)
  qed simp
  then show ?thesis by (simp add: receive_attempt_def Let_def)
qed

lemma receive_tagged:
  assumes "receiveMessages E worlds e n 0 r = Some (ms, t)"
  shows "tagged t = tagged r"
proof -
  obtain config u where u: "queueConfig E e r = (config, u)" by fastforce
  then have same: "tagged u = tagged r" by (metis tagged_config snd_conv)
  have settled: "tagged (rcv_state (settleCounters E' T e x)) = tagged (rcv_state x)" for E' T x
    by (simp add: settleCounters_def Let_def)
  have loop: "tagged (rcv_state x') = tagged (rcv_state x)" if "receive_loop worlds T e n 0 d x = Some x'" for T d x x'
    using that by (cases "(worlds, T, e, n, 0 :: int, d, x)" rule: receive_loop.cases)
      (auto simp: Let_def settled receive_attempt_tagged split: if_splits)
  show ?thesis
    using assms loop by (fastforce simp: receiveMessages_def u same start_receiving_def Let_def)
qed

lemma upsert_tagged:
  assumes "upsertQueue E q' r = Inr (x, t)" and "findQueueByErn e r = Some q" and "same_books q q'"
    and "map_of (tags q') kOwnerTag = map_of (tags q) kOwnerTag" and "owner_tags T r"
  shows "owner_tags T t"
proof -
  have q: "q \<in> set (queues r)" using assms(2) find_SomeD [of _ "queues r" q] by (auto simp: findQueueByErn_def)
  then have "map_of (tags q') kOwnerTag = T (queue_ern q')" using assms(3-5) by (simp add: owner_tags_def same_books_def)
  then show ?thesis
    using assms(1,5) by (auto simp: upsertQueue_def owner_tags_def forgetQueueConfig_def Let_def
        split: if_splits option.splits dest!: set_update_first [THEN subsetD])
qed

text \<open>What an administrator may write, and a queue's creation, are left out.\<close>

definition not_admins :: "server_env \<Rightarrow> http_request \<Rightarrow> bool" where
  "not_admins S req \<longleftrightarrow> (\<forall>user. callers S req user \<longrightarrow> \<not> IsEamAdmin (eam_of (http S)) (userId user)) \<and>
     commandFromString (header req ''x-euclid-action'') \<noteq> CreateQueue \<and> \<not> slot_held S"


interpretation owning: upholding S req "\<lambda>r. owner_tags T r \<and> not_admins S req" "owner_tags T" for S req T
proof unfold_locales
  fix r e q q' x t
  assume p: "owner_tags T r \<and> not_admins S req" and f: "findQueueByErn e r = Some q" "same_books q q'" and o: "owner_tag_by S req q q'"
    and u: "upsertQueue (repo_env S 0) q' r = Inr (x, t)"
  have "map_of (tags q') kOwnerTag = map_of (tags q) kOwnerTag" using o p by (auto simp: owner_tag_by_def not_admins_def)
  then show "owner_tags T t" using upsert_tagged [OF u f] p by blast
next
  fix r e
  assume "owner_tags T r \<and> not_admins S req"
  then show "owner_tags T (snd (findQueueByErnCached (repo_env S 0) e r)) \<and> not_admins S req"
    by (simp add: owner_tags_def findQueueByErnCached_def split: prod.split)
next
  fix r e n w ms t
  assume "owner_tags T r \<and> not_admins S req"
    and "receiveMessages (repo_env S 0) (poll_worlds S) e n (if slot_held S then w else 0) r = Some (ms, t)"
  then show "owner_tags T t" using receive_tagged by (auto simp: not_admins_def owner_tags_tagged)
next
  fix r e
  assume "owner_tags T r \<and> not_admins S req"
  then show "owner_tags T (deleteQueueByErn e r)" using owner_tags_less [OF tagged_delete] by blast
qed (simp_all add: owner_tags_tagged not_admins_def asks_to_create_def)


lemma ann_deletes_nothing:
  "serve (sample_service delete_b) (asks ''ann'' ''delete-message'') (sample_server [''a''], []) =
    (Answer (JsonResponse Ok None), sample_server [''a''],
     RecordAudit (http (sample_service delete_b)) (asks ''ann'' ''delete-message'') 200 [])"
proof -
  let ?S = "sample_service delete_b" and ?r = "asks ''ann'' ''delete-message''"
  have p: "ParseJsonBody (http ?S) (installErnResolver (http ?S)) ?r = Inr delete_b"
    by (simp add: delete_b_def sample_body resolver_defs)
  have r: "read_DeleteMessageRequest delete_b = Inr ('''', ''b'')"
    by (simp add: read_DeleteMessageRequest_def delete_b_def GetStringValue_def)
  have "deleteMessageById E ''b'' (eqs_repo (sample_server [''a''])) = eqs_repo (sample_server [''a''])" for E
    by (simp add: deleteMessageById_def deleteFirstMessage_def service_samples)
  then have "dispatch ?S ?r (sample_server [''a'']) = answer Ok None (sample_server [''a''])"
    by (simp add: dispatch_def commandFromString_def command_names_def handleDeleteMessage_def asks_authenticated with_json_def p
        reading_def r)
  moreover have "Authorize (http ?S) ?r = None" by (simp add: sample_gate ann_entitled)
  ultimately show ?thesis by (simp add: serve_def Dispatch_def answer_def)
qed

lemma ann_is_no_admin: "\<not> (\<exists>user. callers (sample_service v) (asks ''ann'' action) user \<and> IsEamAdmin (eam_of (http (sample_service v))) (userId user))"
  using asks_resolves [of "''ann''" v action] by (auto simp: callers_def asks_authenticates no_auth_def)


end
