(* ===== verification/Eqs_Arrivals.thy ===== *)
theory Eqs_Arrivals
  imports Eqs_Service
begin

text \<open>
  What becomes of a message that arrives as an event: it is stored in the queue the event is for, or, where that queue is
  gone, everything that would keep sending to it is cleaned up.
\<close>

subsection \<open>Into the queue\<close>

lemma from_envelope_own [simp]: "own \<noteq> '''' \<Longrightarrow> from_envelope own e field = Inr own"
  by (simp add: from_envelope_def)

lemma deliver_cases:
  assumes "GetStringValue (payload e) ''bucketPriority'' = Inr bucketDefault" and "GetStringValue (payload e) ''priority'' = Inr carried"
  obtains d m r where "sendMessage (repo_env S (delivery_no s)) dest d (eqs_repo s) = (m, r)"
    "deliver S e dest content q s = Inr (recordMessagesSent dest 1 (msg_size m) (s\<lparr>eqs_repo := r\<rparr>))"
    "draft_messageId d = random_uuid S (delivery_no s)" "draft_body d = content"
    "draft_attributes d = readAttributes e ''attributes''"
    "draft_priority d = delivery_priority q bucketDefault (readAttributes e ''systemAttributes'') carried"
proof -
  define d where "d = \<lparr>draft_messageId = random_uuid S (delivery_no s),
      draft_ern = createEqsMessageErn (ern_region (http S)) (accountIdFromErn dest) (random_uuid S (delivery_no s)),
      draft_body = content, draft_attributes = readAttributes e ''attributes'',
      draft_systemAttributes = readAttributes e ''systemAttributes'',
      draft_priority = delivery_priority q bucketDefault (readAttributes e ''systemAttributes'') carried\<rparr>"
  obtain m r where m: "sendMessage (repo_env S (delivery_no s)) dest d (eqs_repo s) = (m, r)" by fastforce
  have "deliver S e dest content q s = Inr (recordMessagesSent dest 1 (msg_size m) (s\<lparr>eqs_repo := r\<rparr>))"
    using m by (simp add: deliver_def assms Let_def d_def)
  then show thesis using that [OF m] by (simp add: d_def)
qed

text \<open>What is sent is stored, under the message id drawn for it, unless that id is taken.\<close>

lemma sendMessage_stores:
  assumes "sendMessage E dest d r = (m, t)" and "draft_messageId d \<notin> messageId ` set (messages r)"
  shows "\<exists>x. messages t = messages r @ [x] \<and> queueErn x = dest \<and> messageId x = draft_messageId d \<and> body x = draft_body d \<and>
    attributes x = draft_attributes d \<and> priority x = draft_priority d \<and> status x \<in> {AVAILABLE, DELAYED}"
proof -
  obtain config u where u: "queueConfig E dest r = (config, u)" by fastforce
  then obtain cs where cs: "u = r\<lparr>queueConfigs := cs\<rparr>" using queueConfig_state [of E dest r] by auto
  have "insertMessage (next_oid E 0) (buildMessage E config dest d) u =
      Some (u\<lparr>messages := messages r @ [(buildMessage E config dest d)\<lparr>msg_oid := next_oid E 0\<rparr>]\<rparr>)"
    using assms(2) by (simp add: insertMessage_def cs) (metis image_eqI)
  then have "messages t = messages r @ [(buildMessage E config dest d)\<lparr>msg_oid := next_oid E 0\<rparr>]"
    using assms(1) by (auto simp: sendMessage_def u Let_def wake_def split: if_splits)
  moreover have "status (buildMessage E config dest d) \<in> {AVAILABLE, DELAYED}"
    by (simp add: buildMessage_def new_Message_def Let_def split: option.split)
  moreover have "attributes (buildMessage E config dest d) = draft_attributes d" "body (buildMessage E config dest d) = draft_body d"
    "priority (buildMessage E config dest d) = draft_priority d"
    by (simp_all add: buildMessage_def new_Message_def Let_def split: option.split)
  ultimately show ?thesis by simp
qed

lemma delivery_stores:
  assumes "targetErn e = dest" and "dest \<noteq> ''''" and "ev_messageId e \<noteq> ''''"
    and "GetStringValue (payload e) ''body'' = Inr content"
    and "GetStringValue (payload e) ''bucketPriority'' = Inr bucketDefault" and "GetStringValue (payload e) ''priority'' = Inr carried"
    and "fst (findQueueByErnCached (repo_env S (delivery_no s)) dest (eqs_repo s)) = Some q"
    and "random_uuid S (delivery_no s) \<notin> messageId ` set (messages (eqs_repo s))"
  shows "\<exists>t x. handleSubscriptionDelivery S e s = (Some True, t) \<and> messages (eqs_repo t) = messages (eqs_repo s) @ [x] \<and>
    queueErn x = dest \<and> body x = content \<and> attributes x = readAttributes e ''attributes'' \<and> status x \<in> {AVAILABLE, DELAYED} \<and>
    priority x = (if carried \<noteq> '''' then MessagePriorityFromString carried
                  else case map_of (readAttributes e ''systemAttributes'') ''priority'' of
                         Some (VString p) \<Rightarrow> MessagePriorityFromString p
                       | _ \<Rightarrow> if bucketDefault \<noteq> '''' then MessagePriorityFromString bucketDefault else queue_priority q)"
proof -
  obtain r where r: "findQueueByErnCached (repo_env S (delivery_no s)) dest (eqs_repo s) = (Some q, r)"
    using assms(7) by (metis prod.collapse)
  note same = cached_same [OF r]
  let ?s = "s\<lparr>eqs_repo := r\<rparr>"
  obtain d m t where d: "sendMessage (repo_env S (delivery_no ?s)) dest d (eqs_repo ?s) = (m, t)"
      "deliver S e dest content q ?s = Inr (recordMessagesSent dest 1 (msg_size m) (?s\<lparr>eqs_repo := t\<rparr>))"
      "draft_messageId d = random_uuid S (delivery_no ?s)" "draft_body d = content"
      "draft_attributes d = readAttributes e ''attributes''"
      "draft_priority d = delivery_priority q bucketDefault (readAttributes e ''systemAttributes'') carried"
    using deliver_cases [OF assms(5,6), of S ?s dest content q] by blast
  have n: "delivery_no ?s = delivery_no s" using same by (simp add: delivery_no_def)
  have "draft_messageId d \<notin> messageId ` set (messages (eqs_repo ?s))" using d(3) same assms(8) n by simp
  from sendMessage_stores [OF d(1) this] obtain x where x: "messages t = messages (eqs_repo s) @ [x]" "queueErn x = dest"
      "body x = content" "attributes x = readAttributes e ''attributes''" "status x \<in> {AVAILABLE, DELAYED}"
      "priority x = delivery_priority q bucketDefault (readAttributes e ''systemAttributes'') carried"
    using d(4-6) same by auto
  have "handleSubscriptionDelivery S e s = (Some True, recordMessagesSent dest 1 (msg_size m) (?s\<lparr>eqs_repo := t\<rparr>))"
    using assms(1-4) by (simp add: handleSubscriptionDelivery_def r d(2) Let_def)
  moreover have "priority x = (if carried \<noteq> '''' then MessagePriorityFromString carried
                  else case map_of (readAttributes e ''systemAttributes'') ''priority'' of
                         Some (VString p) \<Rightarrow> MessagePriorityFromString p
                       | _ \<Rightarrow> if bucketDefault \<noteq> '''' then MessagePriorityFromString bucketDefault else queue_priority q)"
    unfolding x(6) delivery_priority_def kPriorityAttribute_def Let_def by (auto split: option.split variant.split)
  ultimately show ?thesis using x(1-5) by auto
qed

text \<open>(C9) A message published to a queue arrives: an event that names a queue that exists, and whose payload reads, is
  accepted, and exactly one message more is in the store, in that queue, with the event's content and attributes, and with
  the priority it carries, or else the one among its attributes, or else its bucket's, or else the queue's.\<close>

theorem delivery_arrives:
  assumes "targetErn e = dest" and "dest \<noteq> ''''" and "ev_messageId e \<noteq> ''''"
    and "GetStringValue (payload e) ''body'' = Inr content"
    and "GetStringValue (payload e) ''bucketPriority'' = Inr bucketDefault" and "GetStringValue (payload e) ''priority'' = Inr carried"
    and "fst (findQueueByErnCached (repo_env S (delivery_no s)) dest (eqs_repo s)) = Some q"
    and "random_uuid S (delivery_no s) \<notin> messageId ` set (messages (eqs_repo s))"
  shows "\<exists>t x. handleSubscriptionDelivery S e s = (Some True, t) \<and> messages (eqs_repo t) = messages (eqs_repo s) @ [x] \<and>
    queueErn x = dest \<and> body x = content \<and> attributes x = readAttributes e ''attributes'' \<and> status x \<in> {AVAILABLE, DELAYED} \<and>
    priority x = (if carried \<noteq> '''' then MessagePriorityFromString carried
                  else case map_of (readAttributes e ''systemAttributes'') ''priority'' of
                         Some (VString p) \<Rightarrow> MessagePriorityFromString p
                       | _ \<Rightarrow> if bucketDefault \<noteq> '''' then MessagePriorityFromString bucketDefault else queue_priority q)"
  by (rule delivery_stores [OF assms])

definition arriving :: event where
  "arriving = waiting_event\<lparr>targetErn := orders, ev_messageId := ''m1'', payload := JObject [(''body'', JString ''hello'')]\<rparr>"

theorem delivery_arrives_witness:
  "\<exists>t x. handleSubscriptionDelivery (sample_service JNull) arriving (sample_server []) = (Some True, t) \<and>
    messages (eqs_repo t) = [x] \<and> queueErn x = orders \<and> body x = ''hello''"
proof -
  have f: "fst (findQueueByErnCached (repo_env (sample_service JNull) (delivery_no (sample_server []))) orders (eqs_repo (sample_server []))) =
      Some ((sample_queue orders)\<lparr>available := 0, queue_size := 0\<rparr>)"
    by (simp add: findQueueByErnCached_def findQueueByErn_def cache_get_def get_lookup_def new_cache_def service_samples)
  show ?thesis
    using delivery_arrives [of arriving orders "''hello''" "''''" "''''" "sample_service JNull" "sample_server []", OF _ _ _ _ _ _ f]
    by (auto simp: arriving_def waiting_event_def orders_def service_samples GetStringValue_def)
qed

subsection \<open>Nobody there\<close>

text \<open>(C11) A message published to a queue that is gone is dropped, and so is everything that would follow it: the event is
  accepted, nothing is stored, no event for that queue stays on the bus, and the bucket that sent it is no longer
  subscribed to it.\<close>

theorem missing_queue_cleaned_up:
  assumes "targetErn e = dest" and "dest \<noteq> ''''" and "ev_messageId e \<noteq> ''''" and "sourceErn e \<noteq> ''''"
    and "GetStringValue (payload e) ''body'' = Inr content"
    and "fst (findQueueByErnCached (repo_env S (delivery_no s)) dest (eqs_repo s)) = None"
  shows "\<exists>t. handleSubscriptionDelivery S e s = (Some True, t) \<and> messages (eqs_repo t) = messages (eqs_repo s) \<and>
    (\<forall>x \<in> set (events (event_bus t)). targetErn x \<noteq> dest) \<and>
    (\<forall>b \<in> set (bucket_subscriptions t). \<not> (bs_sourceErn b = sourceErn e \<and> bs_targetErn b = dest))"
proof -
  obtain r where r: "findQueueByErnCached (repo_env S (delivery_no s)) dest (eqs_repo s) = (None, r)"
    using assms(6) by (metis prod.collapse)
  show ?thesis
    using assms(1-5) cached_same [OF r]
    by (auto simp: handleSubscriptionDelivery_def r removeSubscriptions_def on_bus_def DiscardDeliveries_def Let_def)
qed


definition from_bucket :: bucket_subscription where
  "from_bucket = \<lparr>bs_ern = ''s1'', bs_sourceErn = ''bucket'', bs_targetErn = ''gone''\<rparr>"

theorem missing_queue_cleaned_up_witness:
  "\<exists>t. handleSubscriptionDelivery (sample_service JNull) (arriving\<lparr>targetErn := ''gone'', sourceErn := ''bucket''\<rparr>)
      ((sample_server [''a''])\<lparr>bucket_subscriptions := [from_bucket]\<rparr>) = (Some True, t) \<and>
    map messageId (messages (eqs_repo t)) = [''a''] \<and> from_bucket \<notin> set (bucket_subscriptions t)"
proof -
  let ?s = "(sample_server [''a''])\<lparr>bucket_subscriptions := [from_bucket]\<rparr>"
  let ?e = "arriving\<lparr>targetErn := ''gone'', sourceErn := ''bucket''\<rparr>"
  have f: "fst (findQueueByErnCached (repo_env (sample_service JNull) (delivery_no ?s)) ''gone'' (eqs_repo ?s)) = None"
    by (simp add: findQueueByErnCached_def findQueueByErn_def cache_get_def get_lookup_def new_cache_def service_samples)
  have m: "map messageId (messages (eqs_repo ?s)) = [''a'']" by (simp add: service_samples)
  have "targetErn ?e = ''gone''" "''gone'' \<noteq> ''''" "ev_messageId ?e \<noteq> ''''" "sourceErn ?e \<noteq> ''''"
    "GetStringValue (payload ?e) ''body'' = Inr ''hello''"
    by (simp_all add: arriving_def waiting_event_def GetStringValue_def)
  from missing_queue_cleaned_up [OF this f] obtain t where t: "handleSubscriptionDelivery (sample_service JNull) ?e ?s = (Some True, t)"
      "messages (eqs_repo t) = messages (eqs_repo ?s)"
      "\<forall>b \<in> set (bucket_subscriptions t). \<not> (bs_sourceErn b = sourceErn ?e \<and> bs_targetErn b = ''gone'')"
    by blast
  from t(3) have "from_bucket \<notin> set (bucket_subscriptions t)" by (auto simp: from_bucket_def dest: bspec)
  with t(1,2) m show ?thesis by auto
qed


subsection \<open>Sending by request\<close>

text \<open>The handler after the body is read, in two parts.\<close>

definition store_sent :: "server_env \<Rightarrow> User \<Rightarrow> SendMessageRequest \<Rightarrow> Queue \<Rightarrow> MessagePriority \<Rightarrow> server \<Rightarrow> result" where
  "store_sent S user sm q prio =
     (let mid = random_uuid S 0 in
      on_repo (sendMessage (repo_env S 0) (sm_ern sm)
          \<lparr>draft_messageId = mid, draft_ern = createEqsMessageErn (ern_region (http S)) (user_accountId user) mid,
           draft_body = sm_body sm, draft_attributes = sm_attributes sm, draft_systemAttributes = sm_systemAttributes sm,
           draft_priority = prio\<rparr>)
        (\<lambda>m s. answer Ok (with_metadata user [(''messageId'', JString (messageId m))])
           (on_bus (Publish (ev_env S) message_sent (sent_event q m) eqs_module no_delivery)
             (recordMessagesSent (sm_ern sm) 1 (msg_size m) s))))"

definition send_to :: "server_env \<Rightarrow> http_request \<Rightarrow> User \<Rightarrow> SendMessageRequest \<Rightarrow> Queue option \<Rightarrow> server \<Rightarrow> result" where
  "send_to S req user sm found =
     (case found of
        None \<Rightarrow> refuse Bad_request ''Queue does not exist''
      | Some q \<Rightarrow> granted S req user (sm_ern sm)
          (let most = EffectiveMaxMessageLength (maxMessageLength q); len = int (length (sm_body sm)) in
           if len > most then refuse Bad_request (length_refusal len most)
           else case (if sm_priority sm \<noteq> '''' then TryMessagePriorityFromString (sm_priority sm) else Some (queue_priority q)) of
                  None \<Rightarrow> refuse Bad_request (priority_refusal (sm_priority sm))
                | Some prio \<Rightarrow> store_sent S user sm q prio))"

lemma handleSendMessage_parts:
  "handleSendMessage S req = authenticated S req (\<lambda>user. with_json S req (\<lambda>v. reading (read_SendMessageRequest v) (\<lambda>sm.
     on_repo (findQueueByErnCached (repo_env S 0) (sm_ern sm)) (send_to S req user sm))))"
  unfolding handleSendMessage_def send_to_def store_sent_def Let_def ..

text \<open>(C13) A send that is answered with success has done all of it: the queue was there, the body within the queue's limit,
  one message more is in the store, in that queue and with that body, the answer names it, and its announcement is on the
  bus.\<close>

theorem send_stores_and_announces:
  assumes "handleSendMessage S req s = (Answer r, s')" and "resp_status r = Ok"
    and "random_uuid S 0 \<notin> messageId ` set (messages (eqs_repo s))"
  shows "\<exists>q x m user. messages (eqs_repo s') = messages (eqs_repo s) @ [x] \<and> asks_for S req (queueErn x) \<and>
    fst (findQueueByErnCached (repo_env S 0) (queueErn x) (eqs_repo s)) = Some q \<and>
    int (length (body x)) \<le> EffectiveMaxMessageLength (maxMessageLength q) \<and> messageId x = random_uuid S 0 \<and>
    resp_body r = with_metadata user [(''messageId'', JString (messageId x))] \<and>
    event_bus s' = Publish (ev_env S) message_sent (sent_event q m) eqs_module no_delivery (event_bus s) \<and> messageId m = messageId x"
proof -
  have ok: "success r" using assms(2) by (simp add: success_def)
  obtain user v sm where p: "ParseJsonBody (http S) (installErnResolver (http S)) req = Inr v" "read_SendMessageRequest v = Inr sm"
    and looked: "on_repo (findQueueByErnCached (repo_env S 0) (sm_ern sm)) (send_to S req user sm) s = (Answer r, s')"
    using authenticated_answer [OF assms(1) [unfolded handleSendMessage_parts]] assms(2) ok
    by (fastforce dest!: with_json_answer reading_answer)
  obtain found t where t: "findQueueByErnCached (repo_env S 0) (sm_ern sm) (eqs_repo s) = (found, t)"
    and to: "send_to S req user sm found (s\<lparr>eqs_repo := t\<rparr>) = (Answer r, s')"
    using on_repo_answer [OF looked] by blast
  obtain q prio where q: "found = Some q" "int (length (sm_body sm)) \<le> EffectiveMaxMessageLength (maxMessageLength q)"
    and sent: "store_sent S user sm q prio (s\<lparr>eqs_repo := t\<rparr>) = (Answer r, s')"
    using to ok by (auto simp: send_to_def Let_def refuse_answer dest!: granted_answer split: option.splits if_splits)
  define d where "d = \<lparr>draft_messageId = random_uuid S 0, draft_ern = createEqsMessageErn (ern_region (http S)) (user_accountId user) (random_uuid S 0),
    draft_body = sm_body sm, draft_attributes = sm_attributes sm, draft_systemAttributes = sm_systemAttributes sm, draft_priority = prio\<rparr>"
  obtain m u where m: "sendMessage (repo_env S 0) (sm_ern sm) d t = (m, u)" by fastforce
  have same: "messages t = messages (eqs_repo s)" using cached_same [OF t] by blast
  then have new: "draft_messageId d \<notin> messageId ` set (messages t)" using assms(3) by (simp add: d_def)
  have id: "messageId m = draft_messageId d"
    using m by (auto simp: sendMessage_def Let_def split: prod.splits option.splits if_splits)
  have s': "r = JsonResponse Ok (with_metadata user [(''messageId'', JString (messageId m))])" "messages (eqs_repo s') = messages u"
    "event_bus s' = Publish (ev_env S) message_sent (sent_event q m) eqs_module no_delivery (event_bus s)"
    using sent m by (auto simp: store_sent_def on_repo_def answer_def on_bus_def d_def Let_def)
  obtain x where x: "messages u = messages t @ [x]" "queueErn x = sm_ern sm" "messageId x = draft_messageId d" "body x = sm_body sm"
    using sendMessage_stores [OF m new] by (auto simp: d_def)
  have "asks_for S req (queueErn x)"
    using p x(2) by (auto simp: read_SendMessageRequest_def and_then_Inr intro: asks_forI)
  moreover have "messageId x = random_uuid S 0" "messageId m = messageId x" using x(3) id by (simp_all add: d_def)
  ultimately show ?thesis using s' x q t same by (intro exI [of _ q] exI [of _ x] exI [of _ m] exI [of _ user]) simp
qed


definition send_hello :: json where
  "send_hello = JObject [(''ern'', JString orders), (''body'', JString ''hello'')]"

lemma root_sends:
  "\<exists>r s'. handleSendMessage (sample_service send_hello) (asks ''root'' ''send-message'') (sample_server [''a'']) = (Answer r, s') \<and> resp_status r = Ok"
proof -
  let ?S = "sample_service send_hello" and ?r = "asks ''root'' ''send-message''"
  have p: "ParseJsonBody (http ?S) (installErnResolver (http ?S)) ?r = Inr send_hello"
    by (simp add: send_hello_def sample_body resolver_defs)
  have g: "AuthorizeResource (http ?S) ?r orders = None" by (simp add: sample_gate root_entitled)
  have r: "read_SendMessageRequest send_hello = Inr \<lparr>sm_ern = orders, sm_body = ''hello'', sm_attributes = [], sm_systemAttributes = [],
      sm_priority = ''MEDIUM''\<rparr>"
    by (simp add: read_SendMessageRequest_def send_hello_def GetStringValue_def GetMapFromObject_def AttributeExists_def)
  have "fst (findQueueByErnCached (repo_env ?S 0) orders (eqs_repo (sample_server [''a'']))) = Some ((sample_queue orders)\<lparr>available := 1, queue_size := 5\<rparr>)"
    by (simp add: findQueueByErnCached_def findQueueByErn_def cache_get_def get_lookup_def new_cache_def service_samples)
  then obtain t where l: "findQueueByErnCached (repo_env ?S 0) orders (eqs_repo (sample_server [''a''])) =
      (Some ((sample_queue orders)\<lparr>available := 1, queue_size := 5\<rparr>), t)"
    by (metis prod.collapse)
  have "TryMessagePriorityFromString ''MEDIUM'' = Some MEDIUM" by code_simp
  moreover have "maxMessageLength ((sample_queue orders)\<lparr>available := 1, queue_size := 5\<rparr>) = 1000" by (simp add: sample_queue_def)
  ultimately have "\<exists>t prio q. handleSendMessage ?S ?r (sample_server [''a'']) =
      store_sent ?S (sample_user ''root'') \<lparr>sm_ern = orders, sm_body = ''hello'', sm_attributes = [], sm_systemAttributes = [],
        sm_priority = ''MEDIUM''\<rparr> q prio t"
    unfolding handleSendMessage_parts
    by (auto simp: asks_authenticated with_json_def p reading_def r on_repo_def l send_to_def granted_def denyUngrantedQueue_def g
        EffectiveMaxMessageLength_def Let_def)
  then show ?thesis by (auto simp: store_sent_def on_repo_def answer_def Let_def split: prod.split)
qed

theorem send_stores_and_announces_witness:
  "\<exists>r s' x. handleSendMessage (sample_service send_hello) (asks ''root'' ''send-message'') (sample_server [''a'']) = (Answer r, s') \<and>
    messages (eqs_repo s') = messages (eqs_repo (sample_server [''a''])) @ [x] \<and> messageId x = ''u''"
proof -
  obtain r s' where r: "handleSendMessage (sample_service send_hello) (asks ''root'' ''send-message'') (sample_server [''a'']) = (Answer r, s')"
      "resp_status r = Ok"
    using root_sends by blast
  have u: "random_uuid (sample_service send_hello) 0 = ''u''" "''u'' \<notin> messageId ` set (messages (eqs_repo (sample_server [''a''])))"
    by (simp_all add: sample_service_def) (simp add: service_samples)
  show ?thesis using send_stores_and_announces [OF r] u r(1) by (auto simp: u(1))
qed

end
