(* ===== verification/Ens_Topics.thy ===== *)
theory Ens_Topics
  imports Eqs_Documents Ttl_Cache
begin

text \<open>
  The repository of the notification service, \<^verbatim>\<open>database/src/repository/ens/MongoEnsRepository.cpp\<close>: topics, what was
  published to them, and the subscriptions that fan a message out.

  As in the repository of the queues, an entity stands for its document and a method is one step. The counters of a topic
  are not held back here: every change of its messages is written to it in the same call. The subscriptions of a topic are
  looked up through a cache that lives in the process, the component \<^verbatim>\<open>Ttl_Cache\<close>. The database is available; the one
  write that can fail is the insertion of a message whose id exists.
\<close>

subsection \<open>Entities\<close>

definition kTopicRetention :: int where
  "kTopicRetention = 14 * 24 * 60 * 60"

definition kRetentionForever :: int where
  "kRetentionForever = -1"

definition kTopicMaxMessageLength :: int where
  "kTopicMaxMessageLength = 1024 * 1024"

definition EffectiveTopicMessageLength :: "int \<Rightarrow> int" where
  "EffectiveTopicMessageLength configured = (if configured > 0 then configured else kTopicMaxMessageLength)"

definition kStatusRunning :: string where "kStatusRunning = ''RUNNING''"
definition kStatusStopped :: string where "kStatusStopped = ''STOPPED''"
definition kStatusPublished :: string where "kStatusPublished = ''PUBLISHED''"
definition kStatusHeld :: string where "kStatusHeld = ''HELD''"

record Topic =
  t_region :: string
  t_accountId :: string
  t_nameSpace :: string
  t_owner :: string
  t_oid :: string
  t_name :: string
  t_ern :: ern
  t_tags :: "(string \<times> string) list"
  t_size :: int
  t_available :: int
  t_send :: int
  t_resend :: int
  t_maxMessageLength :: int
  delivering :: bool
  t_retentionPeriod :: int
  deleteAfterDelivery :: bool
  t_created :: millis
  t_modified :: millis

definition topic_status :: "Topic \<Rightarrow> string" where
  "topic_status t = (if delivering t then kStatusRunning else kStatusStopped)"

text \<open>A topic as the fields of the entity start out.\<close>

definition new_Topic :: "millis \<Rightarrow> Topic" where
  "new_Topic now = \<lparr>t_region = '''', t_accountId = '''', t_nameSpace = '''', t_owner = '''', t_oid = '''', t_name = '''',
     t_ern = '''', t_tags = [], t_size = 0, t_available = 0, t_send = 0, t_resend = 0,
     t_maxMessageLength = kTopicMaxMessageLength, delivering = True, t_retentionPeriod = 0, deleteAfterDelivery = False,
     t_created = now, t_modified = now\<rparr>"

record TopicMessage =
  tm_oid :: string
  tm_ern :: ern
  tm_topicErn :: ern
  tm_body :: string
  tm_size :: int
  tm_lastReceived :: millis
  tm_messageId :: string
  tm_receiptHandle :: string
  tm_attributes :: "(string \<times> variant) list"
  tm_systemAttributes :: "(string \<times> variant) list"
  tm_contentType :: string
  tm_status :: string
  tm_priority :: string
  tm_expiresAt :: millis
  tm_created :: millis
  tm_modified :: millis

definition new_TopicMessage :: "millis \<Rightarrow> TopicMessage" where
  "new_TopicMessage now = \<lparr>tm_oid = '''', tm_ern = '''', tm_topicErn = '''', tm_body = '''', tm_size = 0, tm_lastReceived = 0,
     tm_messageId = '''', tm_receiptHandle = '''', tm_attributes = [], tm_systemAttributes = [], tm_contentType = '''',
     tm_status = kStatusPublished, tm_priority = ''MEDIUM'', tm_expiresAt = 0, tm_created = now, tm_modified = 0\<rparr>"

record TopicSubscription =
  ts_region :: string
  ts_accountId :: string
  ts_nameSpace :: string
  ts_owner :: string
  ts_oid :: string
  ts_ern :: ern
  ts_sourceErn :: ern
  ts_type :: string
  ts_targetErn :: ern
  ts_created :: millis
  ts_modified :: millis

record ens =
  topics :: "Topic list"
  topic_messages :: "TopicMessage list"
  topic_subscriptions :: "TopicSubscription list"
  subscriptionCache :: "(ern, TopicSubscription list) ttl_cache"

text \<open>What a call reads of the world: the clocks and the generators as the queues' repository, and the installation's
  retention setting.\<close>

record ens_env =
  common :: eqs_env
  topic_retention :: "int option"

abbreviation ens_now :: "ens_env \<Rightarrow> millis" where "ens_now E \<equiv> system_now (common E)"

subsection \<open>Retention\<close>

definition defaultTopicRetention :: "ens_env \<Rightarrow> int" where
  "defaultTopicRetention E =
     (let configured = (case topic_retention E of None \<Rightarrow> kTopicRetention | Some n \<Rightarrow> n) in
      if configured = kRetentionForever then kRetentionForever
      else if configured > 0 then configured else kTopicRetention)"

definition effectiveRetentionPeriod :: "ens_env \<Rightarrow> Topic \<Rightarrow> int" where
  "effectiveRetentionPeriod E t =
     (if t_retentionPeriod t = kRetentionForever then kRetentionForever
      else if t_retentionPeriod t > 0 then t_retentionPeriod t else defaultTopicRetention E)"

subsection \<open>Topics\<close>

definition topic_named :: "string \<Rightarrow> string \<Rightarrow> string \<Rightarrow> Topic \<Rightarrow> bool" where
  "topic_named account ns name t \<longleftrightarrow> t_accountId t = account \<and> t_nameSpace t = ns \<and> t_name t = name"

definition topicExists :: "string \<Rightarrow> string \<Rightarrow> string \<Rightarrow> ens \<Rightarrow> bool" where
  "topicExists account ns name s \<longleftrightarrow> find (topic_named account ns name) (topics s) \<noteq> None"

definition findTopicByName :: "string \<Rightarrow> string \<Rightarrow> string \<Rightarrow> ens \<Rightarrow> Topic option" where
  "findTopicByName account ns name s = find (topic_named account ns name) (topics s)"

definition findTopicByErn :: "ern \<Rightarrow> ens \<Rightarrow> Topic option" where
  "findTopicByErn e s = find (\<lambda>t. t_ern t = e) (topics s)"

text \<open>\<^verbatim>\<open>upsertTopic\<close>: every field of the caller's topic is written, its counters too. A topic of another name that has the
  ERN makes the write fail; the failure is caught and the caller gets back what it passed.\<close>

definition upsertTopic :: "ens_env \<Rightarrow> Topic \<Rightarrow> ens \<Rightarrow> Topic \<times> ens" where
  "upsertTopic E t s =
     (let mine = topic_named (t_accountId t) (t_nameSpace t) (t_name t) in
      if \<exists>x \<in> set (topics s). \<not> mine x \<and> t_ern x = t_ern t then (t, s)
      else case find mine (topics s) of
             Some old \<Rightarrow>
               (let st = t\<lparr>t_oid := t_oid old, t_created := t_created old, t_modified := ens_now E\<rparr> in
                (st, s\<lparr>topics := update_first mine (\<lambda>_. st) (topics s)\<rparr>))
           | None \<Rightarrow>
               (let st = t\<lparr>t_oid := next_oid (common E) 0, t_modified := ens_now E\<rparr> in
                (st, s\<lparr>topics := topics s @ [st]\<rparr>)))"

definition deleteTopicByErn :: "ern \<Rightarrow> ens \<Rightarrow> ens" where
  "deleteTopicByErn e s =
     s\<lparr>topics := filter (\<lambda>t. t_ern t \<noteq> e) (topics s), topic_messages := filter (\<lambda>m. tm_topicErn m \<noteq> e) (topic_messages s)\<rparr>"

text \<open>\<^verbatim>\<open>update_one\<close> of a topic by its ERN, with the time of the change.\<close>

definition update_topic :: "ens_env \<Rightarrow> ern \<Rightarrow> (Topic \<Rightarrow> Topic) \<Rightarrow> ens \<Rightarrow> ens" where
  "update_topic E e f s = s\<lparr>topics := update_first (\<lambda>t. t_ern t = e) (\<lambda>t. (f t)\<lparr>t_modified := ens_now E\<rparr>) (topics s)\<rparr>"

subsection \<open>Subscriptions\<close>

definition subscribes :: "ern \<Rightarrow> string \<Rightarrow> ern \<Rightarrow> TopicSubscription \<Rightarrow> bool" where
  "subscribes source type dest x \<longleftrightarrow> ts_sourceErn x = source \<and> ts_type x = type \<and> ts_targetErn x = dest"

definition upsertSubscription :: "ens_env \<Rightarrow> TopicSubscription \<Rightarrow> ens \<Rightarrow> TopicSubscription \<times> ens" where
  "upsertSubscription E x s =
     (let mine = subscribes (ts_sourceErn x) (ts_type x) (ts_targetErn x);
          s' = s\<lparr>subscriptionCache := cache_erase (ts_sourceErn x) (subscriptionCache s)\<rparr> in
      case find mine (topic_subscriptions s) of
        Some old \<Rightarrow>
          (let st = x\<lparr>ts_oid := ts_oid old, ts_created := ts_created old, ts_modified := ens_now E\<rparr> in
           (st, s'\<lparr>topic_subscriptions := update_first mine (\<lambda>_. st) (topic_subscriptions s)\<rparr>))
      | None \<Rightarrow>
          (let st = x\<lparr>ts_oid := next_oid (common E) 0, ts_modified := ens_now E\<rparr> in
           (st, s'\<lparr>topic_subscriptions := topic_subscriptions s @ [st]\<rparr>)))"

definition loadSubscriptions :: "ens \<Rightarrow> ern \<Rightarrow> TopicSubscription list option" where
  "loadSubscriptions s source = Some (filter (\<lambda>x. ts_sourceErn x = source) (topic_subscriptions s))"

definition listSubscriptionsBySourceErn :: "ern \<Rightarrow> ens \<Rightarrow> TopicSubscription list" where
  "listSubscriptionsBySourceErn source s = (case loadSubscriptions s source of None \<Rightarrow> [] | Some xs \<Rightarrow> xs)"

definition listSubscriptionsBySourceErnCached :: "ens_env \<Rightarrow> ern \<Rightarrow> ens \<Rightarrow> TopicSubscription list \<times> ens" where
  "listSubscriptionsBySourceErnCached E source s =
     (case cache_get source (steady_now (common E)) (loadSubscriptions s) (subscriptionCache s) of
        (found, c) \<Rightarrow> (case found of None \<Rightarrow> [] | Some xs \<Rightarrow> xs, s\<lparr>subscriptionCache := c\<rparr>))"

definition deleteSubscriptionByErn :: "ern \<Rightarrow> ens \<Rightarrow> ens" where
  "deleteSubscriptionByErn e s =
     s\<lparr>topic_subscriptions := filter (\<lambda>x. ts_ern x \<noteq> e) (topic_subscriptions s),
       subscriptionCache := cache_clear (subscriptionCache s)\<rparr>"

subsection \<open>Messages\<close>

definition findMessageById :: "string \<Rightarrow> ens \<Rightarrow> TopicMessage option" where
  "findMessageById mid s = find (\<lambda>m. tm_messageId m = mid) (topic_messages s)"

definition insert_topic_message :: "ens_env \<Rightarrow> TopicMessage \<Rightarrow> ens \<Rightarrow> ens" where
  "insert_topic_message E m s =
     (if \<exists>x \<in> set (topic_messages s). tm_messageId x = tm_messageId m then s
      else s\<lparr>topic_messages := topic_messages s @
             [m\<lparr>tm_oid := next_oid (common E) 0, tm_created := ens_now E, tm_modified := ens_now E\<rparr>]\<rparr>)"

definition published :: "ens_env \<Rightarrow> string \<Rightarrow> ern \<Rightarrow> ern \<Rightarrow> string \<Rightarrow> (string \<times> variant) list \<Rightarrow> string \<Rightarrow> TopicMessage" where
  "published E mid e topic content attrs prio =
     (new_TopicMessage (ens_now E))\<lparr>tm_ern := e, tm_topicErn := topic, tm_body := content, tm_size := int (length content),
       tm_messageId := mid, tm_contentType := fromContent (common E) content, tm_attributes := attrs, tm_priority := prio\<rparr>"

text \<open>\<^verbatim>\<open>publishMessage\<close>: the topic decides the expiry and whether the message is held, and is counted up before the message
  is stored.\<close>

definition publishMessage ::
  "ens_env \<Rightarrow> string \<Rightarrow> ern \<Rightarrow> ern \<Rightarrow> string \<Rightarrow> (string \<times> variant) list \<Rightarrow> string \<Rightarrow> ens \<Rightarrow> TopicMessage \<times> ens" where
  "publishMessage E mid e topic content attrs prio s =
     (let m = published E mid e topic content attrs prio in
      case findTopicByErn topic s of
        None \<Rightarrow> (m, insert_topic_message E m s)
      | Some t \<Rightarrow>
          (let retention = effectiveRetentionPeriod E t;
               m = (if retention \<noteq> kRetentionForever then m\<lparr>tm_expiresAt := ens_now E + retention * 1000\<rparr> else m);
               m = (if \<not> delivering t then m\<lparr>tm_status := kStatusHeld\<rparr> else m) in
           (m, insert_topic_message E m
                 (update_topic E topic (\<lambda>t. t\<lparr>t_size := t_size t + tm_size m, t_available := t_available t + 1\<rparr>) s))))"

definition upsertTopicMessage :: "ens_env \<Rightarrow> TopicMessage \<Rightarrow> ens \<Rightarrow> ens" where
  "upsertTopicMessage E m s =
     (let mine = (\<lambda>x. tm_messageId x = tm_messageId m) in
      case find mine (topic_messages s) of
        Some old \<Rightarrow>
          s\<lparr>topic_messages := update_first mine
              (\<lambda>_. m\<lparr>tm_oid := tm_oid old, tm_created := tm_created old, tm_modified := ens_now E,
                     tm_expiresAt := (if tm_expiresAt m > 0 then tm_expiresAt m else tm_expiresAt old)\<rparr>) (topic_messages s)\<rparr>
      | None \<Rightarrow> s\<lparr>topic_messages := topic_messages s @ [m\<lparr>tm_oid := next_oid (common E) 0, tm_modified := ens_now E\<rparr>]\<rparr>)"

definition updateTopicMessageBody :: "ens_env \<Rightarrow> string \<Rightarrow> string \<Rightarrow> ens \<Rightarrow> TopicMessage option \<times> ens" where
  "updateTopicMessageBody E mid content s =
     (case findMessageById mid s of
        None \<Rightarrow> (None, s)
      | Some previous \<Rightarrow>
          (let newSize = int (length content);
               s = s\<lparr>topic_messages := update_first (\<lambda>m. tm_messageId m = mid)
                     (\<lambda>m. m\<lparr>tm_body := content, tm_size := newSize, tm_contentType := fromContent (common E) content,
                            tm_modified := ens_now E\<rparr>) (topic_messages s)\<rparr>;
               delta = newSize - tm_size previous;
               s = (if delta \<noteq> 0 then update_topic E (tm_topicErn previous) (\<lambda>t. t\<lparr>t_size := t_size t + delta\<rparr>) s else s) in
           (findMessageById mid s, s)))"

definition listHeldMessages :: "ern \<Rightarrow> nat \<Rightarrow> ens \<Rightarrow> TopicMessage list" where
  "listHeldMessages topic n s =
     (let held = stable_sort (\<lambda>a b. tm_created a < tm_created b)
                   (filter (\<lambda>m. tm_topicErn m = topic \<and> tm_status m = kStatusHeld) (topic_messages s)) in
      if n > 0 then take n held else held)"

definition countHeldMessages :: "ern \<Rightarrow> ens \<Rightarrow> int" where
  "countHeldMessages topic s = count_if (\<lambda>m. tm_topicErn m = topic \<and> tm_status m = kStatusHeld) (topic_messages s)"

definition markMessageDelivered :: "ens_env \<Rightarrow> string \<Rightarrow> ens \<Rightarrow> ens" where
  "markMessageDelivered E mid s =
     s\<lparr>topic_messages := update_first (\<lambda>m. tm_messageId m = mid)
         (\<lambda>m. m\<lparr>tm_status := kStatusPublished, tm_modified := ens_now E\<rparr>) (topic_messages s)\<rparr>"

definition deleteDeliveredMessage :: "ens_env \<Rightarrow> ern \<Rightarrow> string \<Rightarrow> int \<Rightarrow> ens \<Rightarrow> bool \<times> ens" where
  "deleteDeliveredMessage E topic mid bytes s =
     (if findMessageById mid s = None then (False, s)
      else (True, update_topic E topic (\<lambda>t. t\<lparr>t_size := t_size t - bytes, t_available := t_available t - 1\<rparr>)
                    (s\<lparr>topic_messages := delete_first (\<lambda>m. tm_messageId m = mid) (topic_messages s)\<rparr>)))"

definition recordSend :: "ens_env \<Rightarrow> ern \<Rightarrow> int \<Rightarrow> ens \<Rightarrow> ens" where
  "recordSend E topic n s = (if n \<le> 0 then s else update_topic E topic (\<lambda>t. t\<lparr>t_send := t_send t + n\<rparr>) s)"

definition recordResend :: "ens_env \<Rightarrow> ern \<Rightarrow> int \<Rightarrow> ens \<Rightarrow> ens" where
  "recordResend E topic n s = (if n \<le> 0 then s else update_topic E topic (\<lambda>t. t\<lparr>t_resend := t_resend t + n\<rparr>) s)"

definition listMessagesAfter :: "ern \<Rightarrow> nat \<Rightarrow> string \<Rightarrow> ens \<Rightarrow> TopicMessage list" where
  "listMessagesAfter topic n afterOid s =
     (let after = stable_sort (\<lambda>a b. tm_oid a < tm_oid b)
            (filter (\<lambda>m. tm_topicErn m = topic \<and> (afterOid = '''' \<or> afterOid < tm_oid m)) (topic_messages s)) in
      if n > 0 then take n after else after)"

definition countTopicMessages :: "ern \<Rightarrow> ens \<Rightarrow> int" where
  "countTopicMessages topic s = count_if (\<lambda>m. tm_topicErn m = topic) (topic_messages s)"

subsection \<open>Purging and recounting\<close>

definition emptied :: "ens_env \<Rightarrow> Topic \<Rightarrow> Topic" where
  "emptied E t = t\<lparr>t_size := 0, t_available := 0, t_send := 0, t_resend := 0, t_modified := ens_now E\<rparr>"

definition purgeTopic :: "ens_env \<Rightarrow> ern \<Rightarrow> ens \<Rightarrow> ens" where
  "purgeTopic E topic s =
     s\<lparr>topic_messages := filter (\<lambda>m. tm_topicErn m \<noteq> topic) (topic_messages s),
       topics := update_first (\<lambda>t. t_ern t = topic) (emptied E) (topics s)\<rparr>"

definition topic_in_scope :: "string \<Rightarrow> string \<Rightarrow> string \<Rightarrow> Topic \<Rightarrow> bool" where
  "topic_in_scope reg account ns t \<longleftrightarrow> t_region t = reg \<and> t_accountId t = account \<and> (ns = '''' \<or> t_nameSpace t = ns)"

definition purgeAllTopics :: "ens_env \<Rightarrow> string \<Rightarrow> string \<Rightarrow> string \<Rightarrow> ens \<Rightarrow> ens" where
  "purgeAllTopics E reg account ns s =
     (let erns = map t_ern (filter (topic_in_scope reg account ns) (topics s)) in
      if erns = [] then s
      else s\<lparr>topic_messages := filter (\<lambda>m. tm_topicErn m \<notin> set erns) (topic_messages s),
             topics := map (\<lambda>t. if t_ern t \<in> set erns then emptied E t else t) (topics s)\<rparr>)"

text \<open>\<^verbatim>\<open>recountTopics\<close>: what the messages of each topic come to, written to the first document with its ERN.\<close>

definition topic_counts :: "ern \<Rightarrow> TopicMessage list \<Rightarrow> int \<times> int" where
  "topic_counts e ms =
     (count_if (\<lambda>m. tm_topicErn m = e) ms, sum_list (map tm_size (filter (\<lambda>m. tm_topicErn m = e) ms)))"

definition recount_topic :: "ern \<Rightarrow> ens \<Rightarrow> ens" where
  "recount_topic e s =
     s\<lparr>topics := update_first (\<lambda>t. t_ern t = e)
         (\<lambda>t. t\<lparr>t_available := fst (topic_counts e (topic_messages s)), t_size := snd (topic_counts e (topic_messages s))\<rparr>) (topics s)\<rparr>"

definition recountTopics :: "ens \<Rightarrow> ens" where
  "recountTopics s = fold recount_topic (map t_ern (topics s)) s"

end
