(* ===== verification/Ens_Documents.thy ===== *)
theory Ens_Documents
  imports Ens_Topics
begin

text \<open>
  How the notification service's entities are stored, \<^verbatim>\<open>database/src/entity/ens\<close>, and the listings of
  \<^verbatim>\<open>MongoEnsRepository.cpp\<close>, which sort by the name of a stored field.
\<close>

subsection \<open>Topics\<close>

definition Topic_toDocument :: "Topic \<Rightarrow> doc" where
  "Topic_toDocument t =
     [(''region'', BString (t_region t)), (''accountId'', BString (t_accountId t)), (''namespace'', BString (t_nameSpace t)),
      (''owner'', BString (t_owner t)), (''name'', BString (t_name t)), (''ern'', BString (t_ern t)),
      (''size'', BInt64 (t_size t)), (''available'', BInt64 (t_available t)), (''send'', BInt64 (t_send t)),
      (''resend'', BInt64 (t_resend t)), (''maxMessageLength'', BInt64 (t_maxMessageLength t)),
      (''retentionPeriod'', BInt64 (t_retentionPeriod t)), (''delivering'', BBool (delivering t)),
      (''deleteAfterDelivery'', BBool (deleteAfterDelivery t)), (''tags'', BDoc (map (\<lambda>(k, v). (k, BString v)) (t_tags t)))]"

definition read_topic_field :: "string \<times> bson \<Rightarrow> Topic \<Rightarrow> Topic read" where
  "read_topic_field field t =
     (let key = fst field; v = snd field in
      if key = ''_id'' then map_sum id (\<lambda>x. t\<lparr>t_oid := x\<rparr>) (get_oid v)
      else if key = ''region'' then map_sum id (\<lambda>x. t\<lparr>t_region := x\<rparr>) (get_string v)
      else if key = ''accountId'' then map_sum id (\<lambda>x. t\<lparr>t_accountId := x\<rparr>) (get_string v)
      else if key = ''namespace'' then map_sum id (\<lambda>x. t\<lparr>t_nameSpace := x\<rparr>) (get_string v)
      else if key = ''owner'' then map_sum id (\<lambda>x. t\<lparr>t_owner := x\<rparr>) (get_string v)
      else if key = ''name'' then map_sum id (\<lambda>x. t\<lparr>t_name := x\<rparr>) (get_string v)
      else if key = ''ern'' then map_sum id (\<lambda>x. t\<lparr>t_ern := x\<rparr>) (get_string v)
      else if key = ''size'' then Inr (t\<lparr>t_size := getBsonInt v\<rparr>)
      else if key = ''available'' then Inr (t\<lparr>t_available := getBsonInt v\<rparr>)
      else if key = ''send'' then Inr (t\<lparr>t_send := getBsonInt v\<rparr>)
      else if key = ''resend'' then Inr (t\<lparr>t_resend := getBsonInt v\<rparr>)
      else if key = ''maxMessageLength'' then Inr (t\<lparr>t_maxMessageLength := getBsonInt v\<rparr>)
      else if key = ''retentionPeriod'' then Inr (t\<lparr>t_retentionPeriod := getBsonInt v\<rparr>)
      else if key = ''delivering'' then map_sum id (\<lambda>x. t\<lparr>delivering := x\<rparr>) (get_bool v)
      else if key = ''deleteAfterDelivery'' then Inr (t\<lparr>deleteAfterDelivery := (v = BBool True)\<rparr>)
      else if key = ''created'' then map_sum id (\<lambda>x. t\<lparr>t_created := x\<rparr>) (get_date v)
      else if key = ''modified'' then map_sum id (\<lambda>x. t\<lparr>t_modified := x\<rparr>) (get_date v)
      else if key = ''tags''
      then and_then (get_document v) (\<lambda>d. map_sum id (\<lambda>m. t\<lparr>t_tags := m\<rparr>) (read_fields read_tag d (t_tags t)))
      else Inr t)"

definition Topic_fromDocument :: "millis \<Rightarrow> doc \<Rightarrow> Topic read" where
  "Topic_fromDocument now d = read_fields read_topic_field d (new_Topic now)"

definition stored_topic :: "Topic \<Rightarrow> doc" where
  "stored_topic t = [(''_id'', BOid (t_oid t))] @ Topic_toDocument t @
     [(''created'', BDate (t_created t)), (''modified'', BDate (t_modified t))]"

subsection \<open>Messages\<close>

definition TopicMessage_ToDocument :: "TopicMessage \<Rightarrow> doc" where
  "TopicMessage_ToDocument m =
     [(''ern'', BString (tm_ern m)), (''topicErn'', BString (tm_topicErn m)), (''body'', BString (tm_body m)),
      (''size'', BInt64 (tm_size m)), (''messageId'', BString (tm_messageId m)), (''receiptHandle'', BString (tm_receiptHandle m)),
      (''contentType'', BString (tm_contentType m)), (''status'', BString (tm_status m)), (''priority'', BString (tm_priority m)),
      (''lastReceived'', BDate (tm_lastReceived m)), (''attributes'', variants_document (tm_attributes m)),
      (''systemAttributes'', variants_document (tm_systemAttributes m))] @
     (if tm_expiresAt m > 0 then [(''expiresAt'', BDate (tm_expiresAt m))] else [])"

definition read_topic_message_field :: "string \<times> bson \<Rightarrow> TopicMessage \<Rightarrow> TopicMessage read" where
  "read_topic_message_field field m =
     (let key = fst field; v = snd field in
      if key = ''_id'' then map_sum id (\<lambda>x. m\<lparr>tm_oid := x\<rparr>) (get_oid v)
      else if key = ''ern'' then map_sum id (\<lambda>x. m\<lparr>tm_ern := x\<rparr>) (get_string v)
      else if key = ''topicErn'' then map_sum id (\<lambda>x. m\<lparr>tm_topicErn := x\<rparr>) (get_string v)
      else if key = ''body'' then map_sum id (\<lambda>x. m\<lparr>tm_body := x\<rparr>) (get_string v)
      else if key = ''size'' then Inr (m\<lparr>tm_size := getBsonInt v\<rparr>)
      else if key = ''messageId'' then map_sum id (\<lambda>x. m\<lparr>tm_messageId := x\<rparr>) (get_string v)
      else if key = ''receiptHandle'' then map_sum id (\<lambda>x. m\<lparr>tm_receiptHandle := x\<rparr>) (get_string v)
      else if key = ''contentType'' then map_sum id (\<lambda>x. m\<lparr>tm_contentType := x\<rparr>) (get_string v)
      else if key = ''status'' then map_sum id (\<lambda>x. m\<lparr>tm_status := x\<rparr>) (get_string v)
      else if key = ''priority'' then map_sum id (\<lambda>x. m\<lparr>tm_priority := x\<rparr>) (get_string v)
      else if key = ''lastReceived'' then map_sum id (\<lambda>x. m\<lparr>tm_lastReceived := x\<rparr>) (get_date v)
      else if key = ''expiresAt'' then map_sum id (\<lambda>x. m\<lparr>tm_expiresAt := x\<rparr>) (get_date v)
      else if key = ''created'' then map_sum id (\<lambda>x. m\<lparr>tm_created := x\<rparr>) (get_date v)
      else if key = ''modified'' then map_sum id (\<lambda>x. m\<lparr>tm_modified := x\<rparr>) (get_date v)
      else if key = ''systemAttributes''
      then and_then (get_document v) (\<lambda>d. map_sum id (\<lambda>a. m\<lparr>tm_systemAttributes := a\<rparr>) (read_fields read_variant d (tm_systemAttributes m)))
      else if key = ''attributes''
      then and_then (get_document v) (\<lambda>d. map_sum id (\<lambda>a. m\<lparr>tm_attributes := a\<rparr>) (read_fields read_variant d (tm_attributes m)))
      else Inr m)"

definition TopicMessage_FromDocument :: "millis \<Rightarrow> doc \<Rightarrow> TopicMessage read" where
  "TopicMessage_FromDocument now d = read_fields read_topic_message_field d (new_TopicMessage now)"

definition stored_topic_message :: "TopicMessage \<Rightarrow> doc" where
  "stored_topic_message m = [(''_id'', BOid (tm_oid m))] @ TopicMessage_ToDocument m @
     [(''created'', BDate (tm_created m)), (''modified'', BDate (tm_modified m))]"

subsection \<open>Subscriptions\<close>

definition new_TopicSubscription :: "millis \<Rightarrow> TopicSubscription" where
  "new_TopicSubscription now = \<lparr>ts_region = '''', ts_accountId = '''', ts_nameSpace = '''', ts_owner = '''', ts_oid = '''', ts_ern = '''',
     ts_sourceErn = '''', ts_type = '''', ts_targetErn = '''', ts_created = now, ts_modified = now\<rparr>"

definition TopicSubscription_toDocument :: "TopicSubscription \<Rightarrow> doc" where
  "TopicSubscription_toDocument x =
     [(''region'', BString (ts_region x)), (''accountId'', BString (ts_accountId x)), (''namespace'', BString (ts_nameSpace x)),
      (''owner'', BString (ts_owner x)), (''ern'', BString (ts_ern x)), (''sourceErn'', BString (ts_sourceErn x)),
      (''type'', BString (ts_type x)), (''targetErn'', BString (ts_targetErn x))]"

definition read_subscription_field :: "string \<times> bson \<Rightarrow> TopicSubscription \<Rightarrow> TopicSubscription read" where
  "read_subscription_field field x =
     (let key = fst field; v = snd field in
      if key = ''_id'' then map_sum id (\<lambda>y. x\<lparr>ts_oid := y\<rparr>) (get_oid v)
      else if key = ''region'' then map_sum id (\<lambda>y. x\<lparr>ts_region := y\<rparr>) (get_string v)
      else if key = ''accountId'' then map_sum id (\<lambda>y. x\<lparr>ts_accountId := y\<rparr>) (get_string v)
      else if key = ''namespace'' then map_sum id (\<lambda>y. x\<lparr>ts_nameSpace := y\<rparr>) (get_string v)
      else if key = ''owner'' then map_sum id (\<lambda>y. x\<lparr>ts_owner := y\<rparr>) (get_string v)
      else if key = ''ern'' then map_sum id (\<lambda>y. x\<lparr>ts_ern := y\<rparr>) (get_string v)
      else if key = ''sourceErn'' then map_sum id (\<lambda>y. x\<lparr>ts_sourceErn := y\<rparr>) (get_string v)
      else if key = ''type'' then map_sum id (\<lambda>y. x\<lparr>ts_type := y\<rparr>) (get_string v)
      else if key = ''targetErn'' then map_sum id (\<lambda>y. x\<lparr>ts_targetErn := y\<rparr>) (get_string v)
      else if key = ''created'' then map_sum id (\<lambda>y. x\<lparr>ts_created := y\<rparr>) (get_date v)
      else if key = ''modified'' then map_sum id (\<lambda>y. x\<lparr>ts_modified := y\<rparr>) (get_date v)
      else Inr x)"

definition TopicSubscription_fromDocument :: "millis \<Rightarrow> doc \<Rightarrow> TopicSubscription read" where
  "TopicSubscription_fromDocument now d = read_fields read_subscription_field d (new_TopicSubscription now)"

definition stored_subscription :: "TopicSubscription \<Rightarrow> doc" where
  "stored_subscription x = [(''_id'', BOid (ts_oid x))] @ TopicSubscription_toDocument x @
     [(''created'', BDate (ts_created x)), (''modified'', BDate (ts_modified x))]"

subsection \<open>Round trips\<close>

lemma topic_roundtrip:
  "key_ordered (t_tags t) \<Longrightarrow> Topic_fromDocument now (stored_topic t) = Inr t"
  using read_tags [of "[]" "t_tags t"]
  by (simp add: Topic_fromDocument_def stored_topic_def Topic_toDocument_def read_topic_field_def new_Topic_def)

lemma subscription_roundtrip: "TopicSubscription_fromDocument now (stored_subscription x) = Inr x"
  by (simp add: TopicSubscription_fromDocument_def stored_subscription_def TopicSubscription_toDocument_def
      read_subscription_field_def new_TopicSubscription_def)

lemma topic_message_roundtrip:
  assumes "key_ordered (tm_attributes m)" and "key_ordered (tm_systemAttributes m)"
    and "list_all (in_range \<circ> snd) (tm_attributes m)" and "list_all (in_range \<circ> snd) (tm_systemAttributes m)"
    and "tm_expiresAt m \<ge> 0"
  shows "TopicMessage_FromDocument now (stored_topic_message m) = Inr m"
  using read_variants [of "[]" "tm_attributes m"] read_variants [of "[]" "tm_systemAttributes m"] assms
  by (cases "tm_expiresAt m > 0")
    (simp_all add: TopicMessage_FromDocument_def stored_topic_message_def TopicMessage_ToDocument_def read_topic_message_field_def
      new_TopicMessage_def variants_document_def)

subsection \<open>Listings\<close>

definition listed_topics :: "store_env \<Rightarrow> string \<Rightarrow> string \<Rightarrow> string \<Rightarrow> MatchType \<Rightarrow> Topic list \<Rightarrow> Topic list option" where
  "listed_topics R account ns pattern type ts =
     (let mine = filter (\<lambda>t. t_accountId t = account \<and> (ns = '''' \<or> t_nameSpace t = ns)) ts in
      if pattern = '''' then Some mine
      else case regex_search R (MatchPattern pattern type) of
             None \<Rightarrow> (if mine = [] then Some [] else None)
           | Some search \<Rightarrow> Some (filter (\<lambda>t. search (t_name t)) mine))"

definition listTopics ::
  "store_env \<Rightarrow> string \<Rightarrow> string \<Rightarrow> string \<Rightarrow> int \<Rightarrow> int \<Rightarrow> string \<Rightarrow> string \<Rightarrow> MatchType \<Rightarrow> ens \<Rightarrow> Topic list" where
  "listTopics R account ns pattern pageSize pageIndex sortColumn sortDirection type s =
     (case listed_topics R account ns pattern type (topics s) of
        None \<Rightarrow> []
      | Some ts \<Rightarrow> sorted_page stored_topic pageSize pageIndex sortColumn sortDirection ts)"

definition countTopics :: "store_env \<Rightarrow> string \<Rightarrow> string \<Rightarrow> string \<Rightarrow> MatchType \<Rightarrow> ens \<Rightarrow> int" where
  "countTopics R account ns pattern type s =
     (case listed_topics R account ns pattern type (topics s) of None \<Rightarrow> -1 | Some ts \<Rightarrow> int32 (int (length ts)))"

definition listTopicMessages :: "ern \<Rightarrow> int \<Rightarrow> int \<Rightarrow> string \<Rightarrow> string \<Rightarrow> ens \<Rightarrow> TopicMessage list" where
  "listTopicMessages topic pageSize pageIndex sortColumn sortDirection s =
     sorted_page stored_topic_message pageSize pageIndex sortColumn sortDirection
       (filter (\<lambda>m. tm_topicErn m = topic) (topic_messages s))"

end
