(* ===== verification/Ens_Requests.thy ===== *)
theory Ens_Requests
  imports Ens_Documents Eqs_Requests
begin

text \<open>
  The bodies of ENS requests and responses, \<^verbatim>\<open>dto/include/euclid/dto/ens\<close> with \<^verbatim>\<open>dto/src/EnsMapper.cpp\<close>. What the two
  services read alike is read by the same words: a message id, an ERN, a page.
\<close>

subsection \<open>Requests\<close>

definition read_CreateTopicRequest :: "json \<Rightarrow> (string \<times> int) parsed" where
  "read_CreateTopicRequest v =
     and_then (GetStringValue v ''name'') (\<lambda>name.
     and_then (GetLongValueOr v ''maxMessageLength'' (1024 * 1024)) (\<lambda>len. Inr (name, len)))"

definition read_DeleteTopicRequest :: "json \<Rightarrow> string parsed" where
  "read_DeleteTopicRequest v = GetStringValue v ''ern''"

definition read_GetTopicErnRequest :: "json \<Rightarrow> string parsed" where
  "read_GetTopicErnRequest v = GetStringValue v ''name''"

definition read_GetTopicRequest :: "json \<Rightarrow> (string \<times> string) parsed" where
  "read_GetTopicRequest v = and_then (GetStringValue v ''ern'') (\<lambda>e. and_then (GetStringValue v ''name'') (\<lambda>n. Inr (e, n)))"

definition read_GetTopicMessageRequest :: "json \<Rightarrow> string parsed" where
  "read_GetTopicMessageRequest v = GetStringValue v ''messageId''"

record ListTopicsRequest =
  lt_prefix :: string
  lt_matchType :: string
  lt_pageSize :: int
  lt_pageIndex :: int
  lt_sortColumn :: string
  lt_sortDirection :: string

definition read_ListTopicsRequest :: "json \<Rightarrow> ListTopicsRequest parsed" where
  "read_ListTopicsRequest v =
     and_then (GetStringValue v ''prefix'') (\<lambda>pre.
     and_then (GetStringValue v ''matchType'') (\<lambda>mt.
     and_then (GetLongValue v ''pageSize'') (\<lambda>ps.
     and_then (GetLongValue v ''pageIndex'') (\<lambda>pi.
     and_then (GetStringValue v ''sortColumn'') (\<lambda>sc.
     and_then (GetStringValue v ''sortDirection'') (\<lambda>sd.
       Inr \<lparr>lt_prefix = pre, lt_matchType = mt, lt_pageSize = ps, lt_pageIndex = pi, lt_sortColumn = sc,
            lt_sortDirection = sd\<rparr>))))))"

record ListTopicMessagesRequest =
  ltm_topicErn :: string
  ltm_pageSize :: int
  ltm_pageIndex :: int
  ltm_sortColumn :: string
  ltm_sortDirection :: string

definition read_ListTopicMessagesRequest :: "json \<Rightarrow> ListTopicMessagesRequest parsed" where
  "read_ListTopicMessagesRequest v =
     and_then (GetStringValue v ''topicErn'') (\<lambda>e.
     and_then (GetLongValue v ''pageSize'') (\<lambda>ps.
     and_then (GetLongValue v ''pageIndex'') (\<lambda>pi.
     and_then (GetStringValue v ''sortColumn'') (\<lambda>sc.
     and_then (GetStringValue v ''sortDirection'') (\<lambda>sd.
       Inr \<lparr>ltm_topicErn = e, ltm_pageSize = ps, ltm_pageIndex = pi, ltm_sortColumn = sc, ltm_sortDirection = sd\<rparr>)))))"

record PublishMessageRequest =
  pm_ern :: string
  pm_body :: string
  pm_attributes :: "(string \<times> variant) list"
  pm_priority :: string

definition read_PublishMessageRequest :: "json \<Rightarrow> PublishMessageRequest parsed" where
  "read_PublishMessageRequest v =
     and_then (GetStringValue v ''ern'') (\<lambda>e.
     and_then (GetStringValue v ''body'') (\<lambda>b.
     and_then (GetMapFromObject variant_value_to v ''attributes'') (\<lambda>as.
     and_then (GetStringValue v ''priority'') (\<lambda>p.
       Inr \<lparr>pm_ern = e, pm_body = b, pm_attributes = as, pm_priority = (if p \<noteq> '''' then p else ''MEDIUM'')\<rparr>))))"

definition read_PurgeTopicRequest :: "json \<Rightarrow> (string \<times> bool) parsed" where
  "read_PurgeTopicRequest v =
     and_then (GetStringValue v ''ern'') (\<lambda>e. and_then (GetBoolValue v ''async'') (\<lambda>a. Inr (e, a)))"

definition read_PurgeAllTopicsRequest :: "json \<Rightarrow> (string \<times> string \<times> string) parsed" where
  "read_PurgeAllTopicsRequest v =
     and_then (GetStringValue v ''region'') (\<lambda>r.
     and_then (GetStringValue v ''accountId'') (\<lambda>a.
     and_then (GetStringValue v ''nameSpace'') (\<lambda>n. Inr (r, a, n))))"

definition read_GetTopicMessageCountRequest :: "json \<Rightarrow> string parsed" where
  "read_GetTopicMessageCountRequest v = GetStringValue v ''ern''"

definition read_GetTopicMetadataRequest :: "json \<Rightarrow> string parsed" where
  "read_GetTopicMetadataRequest v = GetStringValue v ''ern''"

definition read_GetTopicMessageAttributeRequest :: "json \<Rightarrow> (string \<times> string) parsed" where
  "read_GetTopicMessageAttributeRequest v =
     and_then (GetStringValue v ''messageId'') (\<lambda>m. and_then (GetStringValue v ''key'') (\<lambda>k. Inr (m, k)))"

definition read_SetTopicMessageAttributeRequest :: "json \<Rightarrow> (string \<times> string \<times> variant) parsed" where
  "read_SetTopicMessageAttributeRequest v =
     and_then (GetStringValue v ''messageId'') (\<lambda>m.
     and_then (GetStringValue v ''key'') (\<lambda>k.
     and_then (json_at v ''value'') (\<lambda>w. and_then (variant_value_to w) (\<lambda>x. Inr (m, k, x)))))"

definition read_UpdateTopicMessageBodyRequest :: "json \<Rightarrow> (string \<times> string) parsed" where
  "read_UpdateTopicMessageBodyRequest v =
     and_then (GetStringValue v ''messageId'') (\<lambda>m. and_then (GetStringValue v ''body'') (\<lambda>b. Inr (m, b)))"

definition read_AddTopicTagRequest :: "json \<Rightarrow> (string \<times> string \<times> string) parsed" where
  "read_AddTopicTagRequest v =
     and_then (GetStringValue v ''ern'') (\<lambda>e.
     and_then (GetStringValue v ''key'') (\<lambda>k.
     and_then (GetStringValue v ''value'') (\<lambda>w. Inr (e, k, w))))"

definition read_DeleteTopicTagRequest :: "json \<Rightarrow> (string \<times> string) parsed" where
  "read_DeleteTopicTagRequest v =
     and_then (GetStringValue v ''ern'') (\<lambda>e. and_then (GetStringValue v ''key'') (\<lambda>k. Inr (e, k)))"

definition read_SetTopicRetentionRequest :: "json \<Rightarrow> (string \<times> int) parsed" where
  "read_SetTopicRetentionRequest v =
     and_then (GetStringValue v ''ern'') (\<lambda>e. and_then (GetLongValue v ''retentionPeriod'') (\<lambda>n. Inr (e, n)))"

definition read_SetTopicMaxMessageLengthRequest :: "json \<Rightarrow> (string \<times> int) parsed" where
  "read_SetTopicMaxMessageLengthRequest v =
     and_then (GetStringValue v ''ern'') (\<lambda>e. and_then (GetLongValue v ''maxMessageLength'') (\<lambda>n. Inr (e, n)))"

definition read_SetTopicDeleteAfterDeliveryRequest :: "json \<Rightarrow> (string \<times> bool) parsed" where
  "read_SetTopicDeleteAfterDeliveryRequest v =
     and_then (GetStringValue v ''ern'') (\<lambda>e. and_then (GetBoolValue v ''deleteAfterDelivery'') (\<lambda>b. Inr (e, b)))"

record SubscribeRequest =
  sr_sourceErn :: string
  sr_type :: string
  sr_targetErn :: string

definition read_SubscribeRequest :: "json \<Rightarrow> SubscribeRequest parsed" where
  "read_SubscribeRequest v =
     and_then (GetStringValue v ''sourceErn'') (\<lambda>e.
     and_then (GetStringValue v ''type'') (\<lambda>t.
     and_then (GetStringValue v ''targetErn'') (\<lambda>q. Inr \<lparr>sr_sourceErn = e, sr_type = t, sr_targetErn = q\<rparr>)))"

definition read_UnsubscribeRequest :: "json \<Rightarrow> string parsed" where
  "read_UnsubscribeRequest v = GetStringValue v ''ern''"

definition read_ListSubscriptionsRequest :: "json \<Rightarrow> string parsed" where
  "read_ListSubscriptionsRequest v = GetStringValue v ''topicErn''"

subsection \<open>Checks\<close>

definition topic_length_refusal :: "int \<Rightarrow> int \<Rightarrow> string" where
  "topic_length_refusal len most = ''message is '' @ to_string len @ '' bytes, and this topic accepts '' @ to_string most @
     '' - see set-topic-max-message-length''"

text \<open>\<^verbatim>\<open>find(part) != npos\<close>.\<close>

fun contains_text :: "string \<Rightarrow> string \<Rightarrow> bool" where
  "contains_text part [] \<longleftrightarrow> part = []"
| "contains_text part (c # cs) \<longleftrightarrow> starts_with (c # cs) part \<or> contains_text part cs"

definition isEnsTopicErn :: "ern \<Rightarrow> bool" where
  "isEnsTopicErn e \<longleftrightarrow> starts_with e ''ern:ens:'' \<and> contains_text '':topic:'' e"

definition isEqsQueueErn :: "ern \<Rightarrow> bool" where
  "isEqsQueueErn e \<longleftrightarrow> starts_with e ''ern:eqs:'' \<and> contains_text '':queue:'' e"

lemma contains_text_append: "contains_text part s \<Longrightarrow> contains_text part (pre @ s)"
  by (induction pre) simp_all

lemma contains_text_here: "part \<noteq> [] \<Longrightarrow> contains_text part (part @ rest)"
  by (cases part) auto

text \<open>What \<^verbatim>\<open>create-topic\<close> and \<^verbatim>\<open>create-queue\<close> name is what \<^verbatim>\<open>subscribe\<close> takes.\<close>

lemma created_erns_pass:
  "isEnsTopicErn (createEnsTopicErn reg account ns name)" "isEqsQueueErn (createEqsQueueErn reg account ns name)"
proof -
  have pass: "contains_text ('':'' @ kind @ '':'') (createErnIn reg service account ns (kind @ '':'' @ name))" for kind service
    using contains_text_append [OF contains_text_here [of "'':'' @ kind @ '':''" name],
        of "''ern:'' @ service @ '':'' @ reg @ '':'' @ account @ '':'' @ ns"]
    by (simp add: createErnIn_def)
  show "isEnsTopicErn (createEnsTopicErn reg account ns name)"
    using pass [of "''topic''" "''ens''"] by (simp add: isEnsTopicErn_def createEnsTopicErn_def createErnIn_def)
  show "isEqsQueueErn (createEqsQueueErn reg account ns name)"
    using pass [of "''queue''" "''eqs''"] by (simp add: isEqsQueueErn_def createEqsQueueErn_def createErnIn_def)
qed

subsection \<open>Responses\<close>

text \<open>The metadata of a response whose handler sets none.\<close>

definition blank_metadata :: json where
  "blank_metadata = JObject [(''region'', JString ''''), (''user'', JString ''''), (''accountId'', JString '''')]"

definition topic_dto :: "Topic \<Rightarrow> json" where
  "topic_dto t = JObject
     [(''name'', JString (t_name t)), (''owner'', JString (t_owner t)), (''ern'', JString (t_ern t)),
      (''tags'', JObject (map (\<lambda>(k, v). (k, JString v)) (t_tags t))), (''size'', JInt (t_size t)),
      (''messages'', JInt (t_available t)), (''maxMessageLength'', JInt (t_maxMessageLength t)), (''send'', JInt (t_send t)),
      (''resend'', JInt (t_resend t)), (''status'', JString (topic_status t)), (''retentionPeriod'', JInt (t_retentionPeriod t)),
      (''deleteAfterDelivery'', JBool (deleteAfterDelivery t)), (''created'', JString (ToISO8601 (t_created t))),
      (''modified'', JString (ToISO8601 (t_modified t)))]"

definition topic_message_dto :: "TopicMessage \<Rightarrow> json" where
  "topic_message_dto m = JObject
     [(''ern'', JString (tm_ern m)), (''topicErn'', JString (tm_topicErn m)), (''messageId'', JString (tm_messageId m)),
      (''status'', JString (tm_status m)), (''body'', JString (tm_body m)), (''attributes'', variants_dto (tm_attributes m)),
      (''contentType'', JString (tm_contentType m)), (''lastReceived'', JString (ToISO8601 (tm_lastReceived m))),
      (''created'', JString (ToISO8601 (tm_created m))), (''modified'', JString (ToISO8601 (tm_modified m)))]"

definition subscription_dto :: "TopicSubscription \<Rightarrow> json" where
  "subscription_dto x = JObject
     [(''ern'', JString (ts_ern x)), (''sourceErn'', JString (ts_sourceErn x)), (''type'', JString (ts_type x)),
      (''targetErn'', JString (ts_targetErn x)), (''created'', JString (ToISO8601 (ts_created x))),
      (''modified'', JString (ToISO8601 (ts_modified x)))]"

definition topic_metadata_dto :: "int \<Rightarrow> Topic \<Rightarrow> json" where
  "topic_metadata_dto held t = JObject
     [(''region'', JString (t_region t)), (''accountId'', JString (accountIdFromErn (t_ern t))), (''owner'', JString (t_owner t)),
      (''nameSpace'', JString (t_nameSpace t)), (''name'', JString (t_name t)), (''ern'', JString (t_ern t)),
      (''size'', JInt (t_size t)), (''messages'', JInt (t_available t)), (''status'', JString (topic_status t)),
      (''retentionPeriod'', JInt (t_retentionPeriod t)), (''deleteAfterDelivery'', JBool (deleteAfterDelivery t)),
      (''held'', JInt held)]"

end
