(* ===== verification/Ens_Handlers.thy ===== *)
theory Ens_Handlers
  imports Ens_Requests Eqs_Handlers
begin

text \<open>
  The action handlers of \<^verbatim>\<open>modules/ens/src/EnsServer.cpp\<close>. They run on the repository of the topics and hand messages on
  through the event bus, one event for each queue subscribed; of the queues they only look up whether one exists. What a
  handler does first, and how it answers, is what the handlers of the queues do (\<^verbatim>\<open>Eqs_Handlers\<close>).

  \<open>repo_world N i\<close> is what the repository reads of the world for the \<open>i\<close>-th message published, \<open>publish_env N n\<close> what the
  bus reads when it holds \<open>n\<close> events, so that every document has an id of its own. What goes on in a thread after the
  answer is recorded in \<open>topic_purges\<close> and \<open>topic_resends\<close>, and is a step of its own.
\<close>

subsection \<open>State and environment\<close>

record ens_server =
  ens_repo :: ens
  topic_bus :: bus
  queue_repo :: eqs
  topic_purges :: "ern list"
  topic_resends :: "ern list"
  topic_metrics :: "(string \<times> ern \<times> int) list"

record ens_server_env =
  base :: server_env
  repo_world :: "nat \<Rightarrow> ens_env"
  publish_env :: "nat \<Rightarrow> bus_env"
  md5Sum :: "string \<Rightarrow> string"

type_synonym ens_result = "ens_server handled"

definition ens_module :: string where
  "ens_module = ''ens''"

definition message_published :: string where
  "message_published = ''ens.message.published''"

subsection \<open>What the handlers share\<close>

text \<open>\<^verbatim>\<open>installErnResolver\<close>: bare names in five fields become ERNs, of a topic or of a queue.\<close>

definition resolve_as :: "http_env \<Rightarrow> string \<Rightarrow> string \<Rightarrow> string \<times> string \<times> string \<Rightarrow> (string \<times> json) list \<Rightarrow> (string \<times> json) list" where
  "resolve_as H account ns what fs =
     (case what of (field, service, kind) \<Rightarrow>
        case map_of fs field of
          Some (JString v) \<Rightarrow> AList.update field (JString (resolveErn (ern_region H) service kind account ns v)) fs
        | _ \<Rightarrow> fs)"

definition ens_fields :: "(string \<times> string \<times> string) list" where
  "ens_fields =
     [(''topicErn'', ''ens'', ''topic''), (''queueErn'', ''eqs'', ''queue''), (''ern'', ''ens'', ''topic''),
      (''sourceErn'', ''ens'', ''topic''), (''targetErn'', ''eqs'', ''queue'')]"

definition ens_installErnResolver :: "http_env \<Rightarrow> http_request \<Rightarrow> json \<Rightarrow> json" where
  "ens_installErnResolver H req v =
     (case v of
        JObject fs \<Rightarrow>
          (let account = header req ''x-euclid-account-id'';
               account = (if account = '''' then (case cfg_account_ids (cfg H) of Some [only] \<Rightarrow> only | _ \<Rightarrow> account) else account);
               ns = header req ''x-euclid-namespace'' in
           JObject (fold (resolve_as H account ns) ens_fields fs))
      | _ \<Rightarrow> v)"

definition with_topic_json :: "ens_server_env \<Rightarrow> http_request \<Rightarrow> (json \<Rightarrow> ens_server \<Rightarrow> ens_result) \<Rightarrow> ens_server \<Rightarrow> ens_result" where
  "with_topic_json N req k s =
     (case ParseJsonBody (http (base N)) (ens_installErnResolver (http (base N))) req of
        Inl err \<Rightarrow> (Answer err, s)
      | Inr v \<Rightarrow> k v s)"

text \<open>Authentication, the body, and what the request reads of it.\<close>

definition asking ::
  "ens_server_env \<Rightarrow> http_request \<Rightarrow> (json \<Rightarrow> 'a parsed) \<Rightarrow> (User \<Rightarrow> 'a \<Rightarrow> ens_server \<Rightarrow> ens_result) \<Rightarrow> ens_server \<Rightarrow> ens_result" where
  "asking N req read k = authenticated (base N) req (\<lambda>user. with_topic_json N req (\<lambda>v. reading (read v) (k user)))"

definition on_ens :: "(ens \<Rightarrow> 'a \<times> ens) \<Rightarrow> ('a \<Rightarrow> ens_server \<Rightarrow> ens_result) \<Rightarrow> ens_server \<Rightarrow> ens_result" where
  "on_ens f k s = (case f (ens_repo s) of (x, r) \<Rightarrow> k x (s\<lparr>ens_repo := r\<rparr>))"

definition on_topics :: "(ens \<Rightarrow> ens) \<Rightarrow> ens_server \<Rightarrow> ens_server" where
  "on_topics f s = s\<lparr>ens_repo := f (ens_repo s)\<rparr>"

definition finding_topic :: "ern \<Rightarrow> (Topic \<Rightarrow> ens_server \<Rightarrow> ens_result) \<Rightarrow> ens_server \<Rightarrow> ens_result" where
  "finding_topic e k s =
     (case findTopicByErn e (ens_repo s) of None \<Rightarrow> refuse Not_found (''Topic not found, ern: '' @ e) s | Some t \<Rightarrow> k t s)"

definition topic_message_missing :: "string \<Rightarrow> ens_server \<Rightarrow> ens_result" where
  "topic_message_missing mid = refuse Not_found (''Message not found, messageId: '' @ mid)"

definition finding_topic_message :: "string \<Rightarrow> (TopicMessage \<Rightarrow> ens_server \<Rightarrow> ens_result) \<Rightarrow> ens_server \<Rightarrow> ens_result" where
  "finding_topic_message mid k s = (case findMessageById mid (ens_repo s) of None \<Rightarrow> topic_message_missing mid s | Some m \<Rightarrow> k m s)"

definition storing_topic :: "ens_server_env \<Rightarrow> Topic \<Rightarrow> (Topic \<Rightarrow> ens_server \<Rightarrow> ens_result) \<Rightarrow> ens_server \<Rightarrow> ens_result" where
  "storing_topic N t = on_ens (upsertTopic (repo_world N 0) t)"

definition kTopicMessagesSent :: string where "kTopicMessagesSent = ''ens-messages-sent''"
definition kTopicMessagesReceived :: string where "kTopicMessagesReceived = ''ens-messages-received''"
definition kTopicBytesSent :: string where "kTopicBytesSent = ''ens-bytes-sent''"
definition kTopicBytesReceived :: string where "kTopicBytesReceived = ''ens-bytes-received''"

definition recordMessages :: "string \<Rightarrow> string \<Rightarrow> ern \<Rightarrow> int \<Rightarrow> int \<Rightarrow> ens_server \<Rightarrow> ens_server" where
  "recordMessages messageMetric byteMetric topic n bytes s =
     (if n \<le> 0 then s
      else s\<lparr>topic_metrics := topic_metrics s @ [(messageMetric, topic, n)] @ (if bytes > 0 then [(byteMetric, topic, bytes)] else [])\<rparr>)"

subsection \<open>Handing a message on\<close>

definition published_payload ::
  "string \<Rightarrow> (string \<times> json) list \<Rightarrow> (string \<times> json) list \<Rightarrow> string \<Rightarrow> string \<Rightarrow> json" where
  "published_payload content attrs sysattrs prio bucketPriority = JObject
     ([(''body'', JString content), (''attributes'', JObject attrs), (''systemAttributes'', JObject sysattrs),
       (''priority'', JString prio)] @
      (if bucketPriority \<noteq> '''' then [(''bucketPriority'', JString bucketPriority)] else []))"

definition handed_to :: "ern \<Rightarrow> string \<Rightarrow> TopicSubscription \<Rightarrow> Delivery" where
  "handed_to topic mid x =
     \<lparr>del_targetErn = ts_targetErn x, del_sourceErn = topic, del_messageId = mid, del_heldBy = ''''\<rparr>"

definition announce :: "ens_server_env \<Rightarrow> ern \<Rightarrow> string \<Rightarrow> json \<Rightarrow> TopicSubscription \<Rightarrow> bus \<Rightarrow> bus" where
  "announce N topic mid content x b =
     Publish (publish_env N (length (events b))) message_published content ens_module (handed_to topic mid x) b"

definition deliverToSubscriptions ::
  "ens_server_env \<Rightarrow> ern \<Rightarrow> string \<Rightarrow> string \<Rightarrow> (string \<times> json) list \<Rightarrow> (string \<times> json) list \<Rightarrow> string \<Rightarrow> string \<Rightarrow>
   ens_server \<Rightarrow> int \<times> ens_server" where
  "deliverToSubscriptions N topic mid content attrs sysattrs prio bucketPriority s =
     (case listSubscriptionsBySourceErnCached (repo_world N 0) topic (ens_repo s) of
        (found, r) \<Rightarrow>
          let queues = filter (\<lambda>x. ts_type x = ''SQS'') found in
          (int (length queues),
           s\<lparr>ens_repo := r,
             topic_bus := fold (announce N topic mid (published_payload content attrs sysattrs prio bucketPriority)) queues
                            (topic_bus s)\<rparr>))"

text \<open>The JSON of the attributes of a message.\<close>

definition attributes_json :: "(string \<times> variant) list \<Rightarrow> (string \<times> json) list" where
  "attributes_json attrs = map (\<lambda>(k, v). (k, variant_value_from v)) attrs"

definition publish_no :: "ens_server \<Rightarrow> nat" where
  "publish_no s = length (topic_metrics s)"

definition publishToTopic ::
  "ens_server_env \<Rightarrow> ern \<Rightarrow> string \<Rightarrow> (string \<times> variant) list \<Rightarrow> string \<Rightarrow> string \<Rightarrow> (string \<times> json) list \<Rightarrow> string \<Rightarrow> bool \<Rightarrow>
   ens_server \<Rightarrow> TopicMessage \<times> ens_server" where
  "publishToTopic N topic content attrs account prio sysattrs bucketPriority deleteAfter s =
     (let E = repo_world N (publish_no s); mid = random_uuid (base N) (publish_no s) in
      case publishMessage E mid (createEnsMessageErn (ern_region (http (base N))) account mid) topic content attrs prio (ens_repo s) of
        (m, r) \<Rightarrow>
          let s = recordMessages kTopicMessagesSent kTopicBytesSent topic 1 (tm_size m) (s\<lparr>ens_repo := r\<rparr>);
              s = on_topics (recordSend E topic 1) s in
          if tm_status m = kStatusHeld then (m, s)
          else case deliverToSubscriptions N topic (tm_messageId m) content (attributes_json attrs) sysattrs prio bucketPriority s of
                 (delivered, s) \<Rightarrow>
                   let s = recordMessages kTopicMessagesReceived kTopicBytesReceived topic delivered (delivered * tm_size m) s in
                   (m, if deleteAfter \<and> delivered > 0
                       then on_topics (\<lambda>r. snd (deleteDeliveredMessage E topic (tm_messageId m) (tm_size m) r)) s else s))"

text \<open>A stored message once more.\<close>

definition redeliver :: "ens_server_env \<Rightarrow> ern \<Rightarrow> TopicMessage \<Rightarrow> ens_server \<Rightarrow> int \<times> ens_server" where
  "redeliver N topic m =
     deliverToSubscriptions N topic (tm_messageId m) (tm_body m) (attributes_json (tm_attributes m))
       (attributes_json (tm_systemAttributes m)) (tm_priority m) ''''"

definition resendMessage :: "ens_server_env \<Rightarrow> ern \<Rightarrow> TopicMessage \<Rightarrow> ens_server \<Rightarrow> ens_server" where
  "resendMessage N topic m s = snd (redeliver N topic m s)"


subsection \<open>Topics: create, delete, read\<close>

definition asked_topic :: "ens_server_env \<Rightarrow> http_request \<Rightarrow> User \<Rightarrow> string \<Rightarrow> int \<Rightarrow> Topic" where
  "asked_topic N req user name len =
     (let ns = header req ''x-euclid-namespace'' in
      (new_Topic (ens_now (repo_world N 0)))
        \<lparr>t_accountId := user_accountId user, t_nameSpace := ns, t_name := name,
         t_ern := createEnsTopicErn (ern_region (http (base N))) (user_accountId user) ns name, t_maxMessageLength := len,
         t_region := user_region user, t_owner := userId user\<rparr>)"

definition handleCreateTopic :: "ens_server_env \<Rightarrow> http_request \<Rightarrow> ens_server \<Rightarrow> ens_result" where
  "handleCreateTopic N req =
     asking N req read_CreateTopicRequest (\<lambda>user (name, len). storing_topic N (asked_topic N req user name len) (\<lambda>saved.
       answer Ok (Some (JObject [(''name'', JString (t_name saved)), (''ern'', JString (t_ern saved))]))))"

definition handleDeleteTopic :: "ens_server_env \<Rightarrow> http_request \<Rightarrow> ens_server \<Rightarrow> ens_result" where
  "handleDeleteTopic N req =
     asking N req read_DeleteTopicRequest (\<lambda>user e s. answer Ok None (on_topics (deleteTopicByErn e) s))"

definition handleGetTopicErn :: "ens_server_env \<Rightarrow> http_request \<Rightarrow> ens_server \<Rightarrow> ens_result" where
  "handleGetTopicErn N req =
     asking N req read_GetTopicErnRequest (\<lambda>user name s.
       case findTopicByName (user_accountId user) (header req ''x-euclid-namespace'') name (ens_repo s) of
         None \<Rightarrow> refuse Not_found (''Topic not found, name: '' @ name) s
       | Some t \<Rightarrow> answer Ok (Some (JObject [(''name'', JString (t_name t)), (''ern'', JString (t_ern t))])) s)"

definition handleGetTopic :: "ens_server_env \<Rightarrow> http_request \<Rightarrow> ens_server \<Rightarrow> ens_result" where
  "handleGetTopic N req =
     asking N req read_GetTopicRequest (\<lambda>user (e, name) s.
       if e = '''' \<and> name = '''' then refuse Bad_request ''Either ern or name is required'' s
       else case (if e = '''' then findTopicByName (user_accountId user) (header req ''x-euclid-namespace'') name (ens_repo s)
                  else findTopicByErn e (ens_repo s)) of
              None \<Rightarrow> refuse Not_found (if e = '''' then ''Topic not found, name: '' @ name else ''Topic not found, ern: '' @ e) s
            | Some t \<Rightarrow> answer Ok (Some (JObject [(''metadata'', blank_metadata), (''topic'', topic_dto t)])) s)"

definition handleListTopics :: "ens_server_env \<Rightarrow> http_request \<Rightarrow> ens_server \<Rightarrow> ens_result" where
  "handleListTopics N req =
     asking N req read_ListTopicsRequest (\<lambda>user r s.
       case ParseMatch (regex_env (base N)) (regex_what (base N)) (lt_prefix r) (lt_matchType r) of
         Inl error \<Rightarrow> refuse Bad_request error s
       | Inr type \<Rightarrow>
           (let account = user_accountId user; ns = header req ''x-euclid-namespace'' in
            answer Ok (Some (JObject
              [(''topics'', JArray (map topic_dto (listTopics (regex_env (base N)) account ns (lt_prefix r) (lt_pageSize r)
                  (lt_pageIndex r) (lt_sortColumn r) (lt_sortDirection r) type (ens_repo s)))),
               (''total'', JInt (countTopics (regex_env (base N)) account ns (lt_prefix r) type (ens_repo s)))])) s))"

definition handleGetTopicMessageCount :: "ens_server_env \<Rightarrow> http_request \<Rightarrow> ens_server \<Rightarrow> ens_result" where
  "handleGetTopicMessageCount N req =
     asking N req read_GetTopicMessageCountRequest (\<lambda>user e. finding_topic e (\<lambda>t.
       answer Ok (Some (JObject [(''ern'', JString e), (''available'', JInt (t_available t)), (''send'', JInt (t_send t)),
         (''resend'', JInt (t_resend t))]))))"

definition handleGetTopicMetadata :: "ens_server_env \<Rightarrow> http_request \<Rightarrow> ens_server \<Rightarrow> ens_result" where
  "handleGetTopicMetadata N req =
     asking N req read_GetTopicMetadataRequest (\<lambda>user e. finding_topic e (\<lambda>t s.
       answer Ok (Some (topic_metadata_dto (if delivering t then 0 else countHeldMessages (t_ern t) (ens_repo s)) t)) s))"

subsection \<open>Topics: settings and tags\<close>

definition storing_setting ::
  "ens_server_env \<Rightarrow> ern \<Rightarrow> (Topic \<Rightarrow> Topic) \<Rightarrow> (Topic \<Rightarrow> (string \<times> json) list) \<Rightarrow> ens_server \<Rightarrow> ens_result" where
  "storing_setting N e change shown =
     finding_topic e (\<lambda>t. storing_topic N (change t) (\<lambda>t. answer Ok (Some (JObject ((''ern'', JString (t_ern t)) # shown t)))))"

definition retention_refusal :: string where
  "retention_refusal = ''retentionPeriod has to be seconds, 0 to follow the installation default, or -1 to keep messages forever''"

definition handleSetTopicRetention :: "ens_server_env \<Rightarrow> http_request \<Rightarrow> ens_server \<Rightarrow> ens_result" where
  "handleSetTopicRetention N req =
     asking N req read_SetTopicRetentionRequest (\<lambda>user (e, n).
       if n < kRetentionForever then refuse Bad_request retention_refusal
       else storing_setting N e (\<lambda>t. t\<lparr>t_retentionPeriod := n\<rparr>) (\<lambda>t. [(''retentionPeriod'', JInt (t_retentionPeriod t))]))"

definition handleSetTopicMaxMessageLength :: "ens_server_env \<Rightarrow> http_request \<Rightarrow> ens_server \<Rightarrow> ens_result" where
  "handleSetTopicMaxMessageLength N req =
     asking N req read_SetTopicMaxMessageLengthRequest (\<lambda>user (e, n).
       if n \<le> 0 then refuse Bad_request ''maxMessageLength has to be a positive number of bytes''
       else storing_setting N e (\<lambda>t. t\<lparr>t_maxMessageLength := n\<rparr>) (\<lambda>t. [(''maxMessageLength'', JInt (t_maxMessageLength t))]))"

definition handleSetTopicDeleteAfterDelivery :: "ens_server_env \<Rightarrow> http_request \<Rightarrow> ens_server \<Rightarrow> ens_result" where
  "handleSetTopicDeleteAfterDelivery N req =
     asking N req read_SetTopicDeleteAfterDeliveryRequest (\<lambda>user (e, b).
       storing_setting N e (\<lambda>t. t\<lparr>deleteAfterDelivery := b\<rparr>) (\<lambda>t. [(''deleteAfterDelivery'', JBool (deleteAfterDelivery t))]))"

definition handleAddTopicTag :: "ens_server_env \<Rightarrow> http_request \<Rightarrow> ens_server \<Rightarrow> ens_result" where
  "handleAddTopicTag N req =
     asking N req read_AddTopicTagRequest (\<lambda>user (e, key, val). tag_allowed (base N) req user key (finding_topic e (\<lambda>t.
       storing_topic N (t\<lparr>t_tags := map_put key val (t_tags t)\<rparr>) (\<lambda>_. answer Ok None))))"

definition handleSetTopicTag :: "ens_server_env \<Rightarrow> http_request \<Rightarrow> ens_server \<Rightarrow> ens_result" where
  "handleSetTopicTag N req =
     asking N req read_AddTopicTagRequest (\<lambda>user (e, key, val). tag_allowed (base N) req user key (finding_topic e (\<lambda>t.
       if map_of (t_tags t) key = None then refuse Not_found (''Tag not found, key: '' @ key)
       else storing_topic N (t\<lparr>t_tags := map_put key val (t_tags t)\<rparr>) (\<lambda>_. answer Ok None))))"

definition handleDeleteTopicTag :: "ens_server_env \<Rightarrow> http_request \<Rightarrow> ens_server \<Rightarrow> ens_result" where
  "handleDeleteTopicTag N req =
     asking N req read_DeleteTopicTagRequest (\<lambda>user (e, key). tag_allowed (base N) req user key (finding_topic e (\<lambda>t.
       storing_topic N (t\<lparr>t_tags := map_erase key (t_tags t)\<rparr>) (\<lambda>_. answer Ok None))))"

subsection \<open>Publishing and purging\<close>

definition handlePublishMessage :: "ens_server_env \<Rightarrow> http_request \<Rightarrow> ens_server \<Rightarrow> ens_result" where
  "handlePublishMessage N req =
     asking N req read_PublishMessageRequest (\<lambda>user r. finding_topic (pm_ern r) (\<lambda>t s.
       let most = EffectiveTopicMessageLength (t_maxMessageLength t); len = int (length (pm_body r)) in
       if len > most then refuse Bad_request (topic_length_refusal len most) s
       else if pm_priority r \<noteq> '''' \<and> TryMessagePriorityFromString (pm_priority r) = None
       then refuse Bad_request (priority_refusal (pm_priority r)) s
       else case publishToTopic N (pm_ern r) (pm_body r) (pm_attributes r) (user_accountId user) (pm_priority r) [] ''''
                   (deleteAfterDelivery t) s of
              (m, s) \<Rightarrow> answer Ok (Some (JObject [(''messageId'', JString (tm_messageId m))])) s))"

definition handlePurgeTopic :: "ens_server_env \<Rightarrow> http_request \<Rightarrow> ens_server \<Rightarrow> ens_result" where
  "handlePurgeTopic N req =
     asking N req read_PurgeTopicRequest (\<lambda>user (e, async) s.
       if async
       then answer Accepted (Some (JObject [(''ern'', JString e), (''async'', JBool True),
              (''messages'', JInt (case findTopicByErn e (ens_repo s) of None \<Rightarrow> 0 | Some t \<Rightarrow> t_available t))]))
              (s\<lparr>topic_purges := topic_purges s @ [e]\<rparr>)
       else answer Ok (Some (JObject [(''ern'', JString e), (''async'', JBool False)])) (on_topics (purgeTopic (repo_world N 0) e) s))"

definition handlePurgeAllTopics :: "ens_server_env \<Rightarrow> http_request \<Rightarrow> ens_server \<Rightarrow> ens_result" where
  "handlePurgeAllTopics N req =
     asking N req read_PurgeAllTopicsRequest (\<lambda>user (reg, account, ns) s.
       answer Ok None (on_topics (purgeAllTopics (repo_world N 0) reg account ns) s))"


subsection \<open>Messages\<close>

definition handleGetTopicMessage :: "ens_server_env \<Rightarrow> http_request \<Rightarrow> ens_server \<Rightarrow> ens_result" where
  "handleGetTopicMessage N req =
     asking N req read_GetTopicMessageRequest (\<lambda>user mid.
       if mid = '''' then refuse Bad_request ''messageId is required''
       else finding_topic_message mid (\<lambda>m.
         answer Ok (Some (JObject [(''metadata'', blank_metadata), (''message'', topic_message_dto m)]))))"

definition handleListTopicMessages :: "ens_server_env \<Rightarrow> http_request \<Rightarrow> ens_server \<Rightarrow> ens_result" where
  "handleListTopicMessages N req =
     asking N req read_ListTopicMessagesRequest (\<lambda>user r s.
       answer Ok (Some (JObject
         [(''messages'', JArray (map topic_message_dto (listTopicMessages (ltm_topicErn r) (ltm_pageSize r) (ltm_pageIndex r)
             (ltm_sortColumn r) (ltm_sortDirection r) (ens_repo s)))),
          (''total'', JInt (countTopicMessages (ltm_topicErn r) (ens_repo s)))])) s)"

definition topic_attribute_answer :: "string \<Rightarrow> string \<Rightarrow> variant \<Rightarrow> ens_server \<Rightarrow> ens_result" where
  "topic_attribute_answer mid key val =
     answer Ok (Some (JObject [(''messageId'', JString mid), (''key'', JString key), (''value'', variant_value_from val)]))"

definition handleGetTopicMessageAttribute :: "ens_server_env \<Rightarrow> http_request \<Rightarrow> ens_server \<Rightarrow> ens_result" where
  "handleGetTopicMessageAttribute N req =
     asking N req read_GetTopicMessageAttributeRequest (\<lambda>user (mid, key). finding_topic_message mid (\<lambda>m.
       case map_of (tm_attributes m) key of
         None \<Rightarrow> refuse Not_found (''Attribute not found, messageId: '' @ mid @ '', key: '' @ key)
       | Some val \<Rightarrow> topic_attribute_answer mid key val))"

definition handleSetTopicMessageAttribute :: "ens_server_env \<Rightarrow> http_request \<Rightarrow> ens_server \<Rightarrow> ens_result" where
  "handleSetTopicMessageAttribute N req =
     asking N req read_SetTopicMessageAttributeRequest (\<lambda>user (mid, key, val). finding_topic_message mid (\<lambda>m s.
       topic_attribute_answer mid key val
         (on_topics (upsertTopicMessage (repo_world N 0) (m\<lparr>tm_attributes := map_put key val (tm_attributes m)\<rparr>)) s)))"

definition handleUpdateTopicMessageBody :: "ens_server_env \<Rightarrow> http_request \<Rightarrow> ens_server \<Rightarrow> ens_result" where
  "handleUpdateTopicMessageBody N req =
     asking N req read_UpdateTopicMessageBodyRequest (\<lambda>user (mid, content).
       if mid = '''' then refuse Bad_request ''messageId is required''
       else finding_topic_message mid (\<lambda>m s.
         let most = EffectiveTopicMessageLength
               (case findTopicByErn (tm_topicErn m) (ens_repo s) of None \<Rightarrow> 0 | Some t \<Rightarrow> t_maxMessageLength t);
             len = int (length content) in
         if len > most then refuse Bad_request (topic_length_refusal len most) s
         else on_ens (updateTopicMessageBody (repo_world N 0) mid content) (\<lambda>updated.
           case updated of
             None \<Rightarrow> topic_message_missing mid
           | Some u \<Rightarrow> answer Ok (Some (JObject [(''messageId'', JString (tm_messageId u)), (''topicErn'', JString (tm_topicErn u)),
                 (''size'', JInt (tm_size u)), (''previousSize'', JInt (tm_size m)),
                 (''contentType'', JString (tm_contentType u))]))) s))"

subsection \<open>Stopping, starting, resending\<close>

definition kTopicPage :: nat where
  "kTopicPage = 500"

text \<open>One held message on its way: handed over, then marked or deleted.\<close>

definition settle_held :: "ens_server_env \<Rightarrow> ern \<Rightarrow> bool \<Rightarrow> TopicMessage \<Rightarrow> ens_server \<Rightarrow> ens_server" where
  "settle_held N e deleteAfter m s =
     (case redeliver N e m s of (delivered, s) \<Rightarrow>
        on_topics (\<lambda>r. if deleteAfter \<and> delivered > 0
                       then snd (deleteDeliveredMessage (repo_world N 0) e (tm_messageId m) (tm_size m) r)
                       else markMessageDelivered (repo_world N 0) (tm_messageId m) r) s)"

text \<open>Page after page until none is held; \<open>None\<close> is a start that does not return.\<close>

partial_function (option) release_held ::
  "ens_server_env \<Rightarrow> ern \<Rightarrow> bool \<Rightarrow> int \<Rightarrow> ens_server \<Rightarrow> (int \<times> ens_server) option" where
  "release_held N e deleteAfter released s =
     (let held = listHeldMessages e kTopicPage (ens_repo s) in
      if held = [] then Some (released, s)
      else let s = fold (settle_held N e deleteAfter) held s; released = released + int (length held) in
        if length held < kTopicPage then Some (released, s) else release_held N e deleteAfter released s)"

definition delivering_answer :: "Topic \<Rightarrow> int \<Rightarrow> ens_server \<Rightarrow> ens_result" where
  "delivering_answer t released =
     answer Ok (Some (JObject [(''ern'', JString (t_ern t)), (''status'', JString (topic_status t)), (''released'', JInt released)]))"

definition setTopicDelivering :: "ens_server_env \<Rightarrow> http_request \<Rightarrow> bool \<Rightarrow> ens_server \<Rightarrow> ens_result" where
  "setTopicDelivering N req on =
     asking N req (\<lambda>v. GetStringValue v ''ern'') (\<lambda>user e.
       if e = '''' then refuse Bad_request ''ern is required''
       else finding_topic e (\<lambda>t. storing_topic N (t\<lparr>delivering := on\<rparr>) (\<lambda>t s.
         if \<not> on then delivering_answer t 0 s
         else case release_held N e (deleteAfterDelivery t) 0 s of
                None \<Rightarrow> (Waiting, s)
              | Some (released, s) \<Rightarrow> delivering_answer t released (on_topics (recordResend (repo_world N 0) e released) s))))"

definition handleStartTopic :: "ens_server_env \<Rightarrow> http_request \<Rightarrow> ens_server \<Rightarrow> ens_result" where
  "handleStartTopic N req = setTopicDelivering N req True"

definition handleStopTopic :: "ens_server_env \<Rightarrow> http_request \<Rightarrow> ens_server \<Rightarrow> ens_result" where
  "handleStopTopic N req = setTopicDelivering N req False"

text \<open>Resending counts what it handed over and, apart from it, what is held.\<close>

type_synonym ResendCounts = "int \<times> int"

definition resend_one :: "ens_server_env \<Rightarrow> ern \<Rightarrow> TopicMessage \<Rightarrow> ResendCounts \<times> ens_server \<Rightarrow> ResendCounts \<times> ens_server" where
  "resend_one N e m acc =
     (case acc of ((resent, held), s) \<Rightarrow>
        if tm_status m = kStatusHeld then ((resent, held + 1), s) else ((resent + 1, held), resendMessage N e m s))"

partial_function (option) resend_pages ::
  "ens_server_env \<Rightarrow> ern \<Rightarrow> string \<Rightarrow> ResendCounts \<times> ens_server \<Rightarrow> (ResendCounts \<times> ens_server) option" where
  "resend_pages N e afterOid acc =
     (let page = listMessagesAfter e kTopicPage afterOid (ens_repo (snd acc)) in
      if page = [] then Some acc
      else let acc = fold (resend_one N e) page acc in
        if length page < kTopicPage then Some acc else resend_pages N e (tm_oid (last page)) acc)"

definition resendAllMessages :: "ens_server_env \<Rightarrow> ern \<Rightarrow> ens_server \<Rightarrow> (ResendCounts \<times> ens_server) option" where
  "resendAllMessages N e s = resend_pages N e '''' ((0, 0), s)"

definition stopped_refusal :: string where
  "stopped_refusal = ''Topic is stopped and delivers nothing - start it first, which also releases '' @
     ''whatever was published while it was stopped; see start-topic''"

definition async_refusal :: string where
  "async_refusal = ''async resends a whole topic; a single --message-id is one delivery and is done inline''"

definition resend_answer :: "ens_server_env \<Rightarrow> Topic \<Rightarrow> ern \<Rightarrow> ResendCounts \<Rightarrow> ens_server \<Rightarrow> ens_result" where
  "resend_answer N t e counts s =
     answer Ok (Some (JObject [(''ern'', JString (t_ern t)), (''resent'', JInt (fst counts)), (''held'', JInt (snd counts))]))
       (on_topics (recordResend (repo_world N 0) e (fst counts)) s)"

definition resend_single :: "ens_server_env \<Rightarrow> Topic \<Rightarrow> ern \<Rightarrow> string \<Rightarrow> ens_server \<Rightarrow> ens_result" where
  "resend_single N t e mid =
     finding_topic_message mid (\<lambda>m.
       if tm_topicErn m \<noteq> e then refuse Bad_request (''Message '' @ mid @ '' belongs to another topic'')
       else if tm_status m = kStatusHeld then resend_answer N t e (0, 1)
       else (\<lambda>s. resend_answer N t e (1, 0) (resendMessage N e m s)))"

definition handleResendMessages :: "ens_server_env \<Rightarrow> http_request \<Rightarrow> ens_server \<Rightarrow> ens_result" where
  "handleResendMessages N req =
     asking N req Inr (\<lambda>user v. reading (GetStringValue v ''ern'') (\<lambda>e.
       if e = '''' then refuse Bad_request ''ern is required''
       else reading (GetStringValue v ''messageId'') (\<lambda>mid. finding_topic e (\<lambda>t.
         if \<not> delivering t then refuse Conflict stopped_refusal
         else reading (GetBoolValue v ''async'') (\<lambda>async.
           if async \<and> mid \<noteq> '''' then refuse Bad_request async_refusal
           else if async then (\<lambda>s.
             answer Accepted (Some (JObject [(''ern'', JString (t_ern t)), (''async'', JBool True),
                 (''messages'', JInt (countTopicMessages e (ens_repo s)))])) (s\<lparr>topic_resends := topic_resends s @ [e]\<rparr>))
           else if mid \<noteq> '''' then resend_single N t e mid
           else (\<lambda>s. case resendAllMessages N e s of
                       None \<Rightarrow> (Waiting, s)
                     | Some (counts, s) \<Rightarrow> resend_answer N t e counts s))))))"

subsection \<open>Subscriptions\<close>

definition asked_subscription :: "ens_server_env \<Rightarrow> http_request \<Rightarrow> User \<Rightarrow> SubscribeRequest \<Rightarrow> TopicSubscription" where
  "asked_subscription N req user r =
     (let sid = md5Sum N (sr_sourceErn r @ '':'' @ sr_type r @ '':'' @ sr_targetErn r) in
      (new_TopicSubscription (ens_now (repo_world N 0)))
        \<lparr>ts_accountId := user_accountId user, ts_nameSpace := header req ''x-euclid-namespace'', ts_region := user_region user,
         ts_owner := userId user, ts_ern := createEnsSubscriptionErn (ern_region (http (base N))) (user_accountId user) sid,
         ts_sourceErn := sr_sourceErn r, ts_type := sr_type r, ts_targetErn := sr_targetErn r\<rparr>)"

definition handleSubscribe :: "ens_server_env \<Rightarrow> http_request \<Rightarrow> ens_server \<Rightarrow> ens_result" where
  "handleSubscribe N req =
     asking N req read_SubscribeRequest (\<lambda>user r.
       if sr_type r \<noteq> ''SQS''
       then refuse Bad_request (''Unsupported subscription type (only SQS is supported for now): '' @ sr_type r)
       else if \<not> isEnsTopicErn (sr_sourceErn r)
       then refuse Bad_request (''sourceErn is not an ENS topic ERN: '' @ sr_sourceErn r)
       else if \<not> isEqsQueueErn (sr_targetErn r)
       then refuse Bad_request (''targetErn is not an EQS queue ERN: '' @ sr_targetErn r)
       else finding_topic (sr_sourceErn r) (\<lambda>_ s.
         if findQueueByErn (sr_targetErn r) (queue_repo s) = None
         then refuse Not_found (''Queue not found, ern: '' @ sr_targetErn r) s
         else on_ens (upsertSubscription (repo_world N 0) (asked_subscription N req user r)) (\<lambda>saved.
           answer Ok (Some (JObject [(''ern'', JString (ts_ern saved)), (''sourceErn'', JString (ts_sourceErn saved)),
             (''type'', JString (ts_type saved)), (''targetErn'', JString (ts_targetErn saved))]))) s))"

definition handleUnsubscribe :: "ens_server_env \<Rightarrow> http_request \<Rightarrow> ens_server \<Rightarrow> ens_result" where
  "handleUnsubscribe N req =
     asking N req read_UnsubscribeRequest (\<lambda>user e s. answer Ok None (on_topics (deleteSubscriptionByErn e) s))"

definition handleListSubscriptions :: "ens_server_env \<Rightarrow> http_request \<Rightarrow> ens_server \<Rightarrow> ens_result" where
  "handleListSubscriptions N req =
     asking N req read_ListSubscriptionsRequest (\<lambda>user e s.
       let found = listSubscriptionsBySourceErn e (ens_repo s) in
       answer Ok (Some (JObject [(''subscriptions'', JArray (map subscription_dto found)),
         (''total'', JInt (int (length found)))])) s)"

end
