(* ===== verification/Ens_Server.thy ===== *)
theory Ens_Server
  imports Ens_Handlers Eqs_Server
begin

text \<open>
  The ENS module: the dispatcher of \<^verbatim>\<open>modules/ens/src/EnsServer.cpp\<close>, the notifications of stored objects it takes from the
  bus, its timer, and the threads that go on after an answer. \<open>ens_serve\<close> is one request, from the gate to the audit trail;
  \<open>ens_consume\<close> one poll of the bus by this module.
\<close>

subsection \<open>Commands\<close>

datatype TopicCommand =
    UnknownTopicCommand | CreateTopic | DeleteTopic | GetTopic | GetTopicMessage | GetTopicErn | GetTopicMessageCount
  | GetQueueMetadataCommand | GetTopicMessageAttribute | SetTopicMessageAttribute | UpdateTopicMessageBody
  | GetTopicMessageMetadata | ListTopics | ListTopicMessages | ResendMessages | PublishMessage | ReceiveTopicMessages
  | DeleteTopicMessage | PurgeTopicCommand | PurgeAllTopicsCommand | GetTopicMetadata | AddTopicMetadata | AddTopicTag
  | SetTopicTag | SetTopicRetention | SetTopicMaxMessageLength | SetTopicDeleteAfterDelivery | StartTopic | StopTopic
  | DeleteTopicTag | SubscribeCommand | UnsubscribeCommand | ListSubscriptionsCommand | GetTopicMetrics

definition topic_command_names :: "(string \<times> TopicCommand) list" where
  "topic_command_names =
    [(''create-topic'', CreateTopic), (''get-topic'', GetTopic), (''get-message'', GetTopicMessage),
     (''get-topic-ern'', GetTopicErn), (''list-topics'', ListTopics), (''purge-topic'', PurgeTopicCommand),
     (''purge-all-topics'', PurgeAllTopicsCommand), (''publish-message'', PublishMessage), (''delete-topic'', DeleteTopic),
     (''list-messages'', ListTopicMessages), (''resend-messages'', ResendMessages),
     (''get-message-count'', GetTopicMessageCount), (''get-message-attribute'', GetTopicMessageAttribute),
     (''set-message-attribute'', SetTopicMessageAttribute), (''update-message-body'', UpdateTopicMessageBody),
     (''get-topic-metadata'', GetTopicMetadata), (''add-topic-tag'', AddTopicTag), (''set-topic-tag'', SetTopicTag),
     (''set-topic-retention'', SetTopicRetention), (''set-topic-max-message-length'', SetTopicMaxMessageLength),
     (''set-topic-delete-after-delivery'', SetTopicDeleteAfterDelivery), (''start-topic'', StartTopic),
     (''stop-topic'', StopTopic), (''delete-topic-tag'', DeleteTopicTag), (''subscribe'', SubscribeCommand),
     (''unsubscribe'', UnsubscribeCommand), (''list-subscriptions'', ListSubscriptionsCommand)]"

definition topicCommandFromString :: "string \<Rightarrow> TopicCommand" where
  "topicCommandFromString action = (case map_of topic_command_names action of None \<Rightarrow> UnknownTopicCommand | Some c \<Rightarrow> c)"

definition not_implemented :: "ens_server_env \<Rightarrow> http_request \<Rightarrow> ens_server \<Rightarrow> ens_result" where
  "not_implemented N req = refuse Not_found (''Action not implemented: '' @ header req ''x-euclid-action'')"

definition ens_MetricsResponse :: "ens_server_env \<Rightarrow> http_request \<Rightarrow> ens_server \<Rightarrow> ens_result" where
  "ens_MetricsResponse N req = answer Ok (Some (JObject [(''items'', JArray (metric_items (base N)))]))"

fun topic_handler_of :: "TopicCommand \<Rightarrow> ens_server_env \<Rightarrow> http_request \<Rightarrow> ens_server \<Rightarrow> ens_result" where
  "topic_handler_of CreateTopic = handleCreateTopic"
| "topic_handler_of DeleteTopic = handleDeleteTopic"
| "topic_handler_of GetTopic = handleGetTopic"
| "topic_handler_of GetTopicMessage = handleGetTopicMessage"
| "topic_handler_of GetTopicErn = handleGetTopicErn"
| "topic_handler_of ListTopics = handleListTopics"
| "topic_handler_of ListTopicMessages = handleListTopicMessages"
| "topic_handler_of ResendMessages = handleResendMessages"
| "topic_handler_of PublishMessage = handlePublishMessage"
| "topic_handler_of PurgeTopicCommand = handlePurgeTopic"
| "topic_handler_of PurgeAllTopicsCommand = handlePurgeAllTopics"
| "topic_handler_of GetTopicMetadata = handleGetTopicMetadata"
| "topic_handler_of GetTopicMessageCount = handleGetTopicMessageCount"
| "topic_handler_of GetTopicMessageAttribute = handleGetTopicMessageAttribute"
| "topic_handler_of SetTopicMessageAttribute = handleSetTopicMessageAttribute"
| "topic_handler_of UpdateTopicMessageBody = handleUpdateTopicMessageBody"
| "topic_handler_of AddTopicTag = handleAddTopicTag"
| "topic_handler_of SetTopicTag = handleSetTopicTag"
| "topic_handler_of SetTopicRetention = handleSetTopicRetention"
| "topic_handler_of SetTopicMaxMessageLength = handleSetTopicMaxMessageLength"
| "topic_handler_of SetTopicDeleteAfterDelivery = handleSetTopicDeleteAfterDelivery"
| "topic_handler_of StartTopic = handleStartTopic"
| "topic_handler_of StopTopic = handleStopTopic"
| "topic_handler_of DeleteTopicTag = handleDeleteTopicTag"
| "topic_handler_of SubscribeCommand = handleSubscribe"
| "topic_handler_of UnsubscribeCommand = handleUnsubscribe"
| "topic_handler_of ListSubscriptionsCommand = handleListSubscriptions"
| "topic_handler_of GetTopicMetrics = ens_MetricsResponse"
| "topic_handler_of UnknownTopicCommand = not_implemented"
| "topic_handler_of GetQueueMetadataCommand = not_implemented"
| "topic_handler_of GetTopicMessageMetadata = not_implemented"
| "topic_handler_of ReceiveTopicMessages = not_implemented"
| "topic_handler_of DeleteTopicMessage = not_implemented"
| "topic_handler_of AddTopicMetadata = not_implemented"

definition ens_dispatch :: "ens_server_env \<Rightarrow> http_request \<Rightarrow> ens_server \<Rightarrow> ens_result" where
  "ens_dispatch N req s =
     (let action = header req ''x-euclid-action'' in
      if action = '''' then refuse Bad_request ''Missing x-euclid-action header'' s
      else topic_handler_of (topicCommandFromString action) N req s)"

definition ens_serve ::
  "ens_server_env \<Rightarrow> http_request \<Rightarrow> ens_server \<times> AuditRecord list \<Rightarrow> server_error outcome \<times> ens_server \<times> AuditRecord list" where
  "ens_serve N req st = Dispatch (http (base N)) (ens_dispatch N) req st"

subsection \<open>Notifications of stored objects\<close>

definition carried_system_attributes :: "event \<Rightarrow> (string \<times> json) list" where
  "carried_system_attributes e =
     (case payload e of
        JObject fs \<Rightarrow> (case map_of fs ''systemAttributes'' of Some (JObject attrs) \<Rightarrow> attrs | _ \<Rightarrow> [])
      | _ \<Rightarrow> [])"

definition handleObjectPublishedNotification :: "ens_server_env \<Rightarrow> event \<Rightarrow> ens_server \<Rightarrow> bool option \<times> ens_server" where
  "handleObjectPublishedNotification N e s =
     (case and_then (from_envelope (targetErn e) e ''targetErn'') (\<lambda>dest.
           and_then (GetStringValue (payload e) ''body'') (\<lambda>content. Inr (dest, content))) of
        Inl _ \<Rightarrow> (None, s)
      | Inr (dest, content) \<Rightarrow>
          (case findTopicByErn dest (ens_repo s) of
             None \<Rightarrow> (Some True, s)
           | Some t \<Rightarrow>
               (case GetStringValue (payload e) ''bucketPriority'' of
                  Inl _ \<Rightarrow> (None, s)
                | Inr bucketPriority \<Rightarrow>
                    (Some True, snd (publishToTopic N dest content [] (accountIdFromErn dest) ''MEDIUM''
                       (carried_system_attributes e) bucketPriority (deleteAfterDelivery t) s)))))"

definition notification_handler :: "ens_server_env \<Rightarrow> ens_server handler" where
  "notification_handler N e ws =
     (case ws of (s, b) \<Rightarrow>
        case handleObjectPublishedNotification N e (s\<lparr>topic_bus := b\<rparr>) of (verdict, s) \<Rightarrow> (verdict, s, topic_bus s))"

definition notification_type :: string where
  "notification_type = ''esm.subscription.publication''"

definition ens_handlers :: "ens_server_env \<Rightarrow> string \<Rightarrow> ens_server handler option" where
  "ens_handlers N et = (if et = notification_type then Some (notification_handler N) else None)"

definition ens_consume ::
  "ens_server_env \<Rightarrow> bus_env \<Rightarrow> (nat \<Rightarrow> ens_server \<times> bus \<Rightarrow> ens_server \<times> bus) \<Rightarrow> string \<Rightarrow> ens_server \<Rightarrow> ens_server" where
  "ens_consume N E' M instanceId s =
     (case pollOnce (ev_env (base N)) E' M (ens_handlers N) instanceId ens_module (s, topic_bus s) of (s, b) \<Rightarrow> s\<lparr>topic_bus := b\<rparr>)"

subsection \<open>Starting, the timer, and what runs in the background\<close>

definition EnsServer_start :: "ens_server \<Rightarrow> ens_server" where
  "EnsServer_start s = s\<lparr>topic_bus := Subscribe ens_module notification_type (topic_bus s)\<rparr>"

definition topics_recount_task :: "bool \<Rightarrow> ens_server \<Rightarrow> ens_server" where
  "topics_recount_task claimed_run s = (if \<not> claimed_run then s else on_topics recountTopics s)"

definition topic_purge_thread :: "ens_server_env \<Rightarrow> ens_server \<Rightarrow> ens_server" where
  "topic_purge_thread N s =
     (case topic_purges s of [] \<Rightarrow> s | e # es \<Rightarrow> on_topics (purgeTopic (repo_world N 0) e) (s\<lparr>topic_purges := es\<rparr>))"

definition topic_resend_thread :: "ens_server_env \<Rightarrow> ens_server \<Rightarrow> ens_server option" where
  "topic_resend_thread N s =
     (case topic_resends s of
        [] \<Rightarrow> Some s
      | e # es \<Rightarrow> map_option (\<lambda>(counts, s). on_topics (recordResend (repo_world N 0) e (fst counts)) s)
                     (resendAllMessages N e (s\<lparr>topic_resends := es\<rparr>)))"

end
