(* ===== verification/Ens_Counts.thy ===== *)
theory Ens_Counts
  imports Ens_Topics
begin

text \<open>
  That a topic's numbers are those of its messages, operation by operation: how many it holds and how many bytes they are.
  Every operation of the repository keeps this, given ids of its own for what it stores; the one exception is
  \<^verbatim>\<open>upsertTopic\<close>, which writes the counters of its caller.
\<close>

subsection \<open>Exact topics\<close>

definition books :: "Topic \<Rightarrow> int \<times> int" where
  "books t = (t_available t, t_size t)"

definition topic_key :: "Topic \<Rightarrow> string \<times> string \<times> string" where
  "topic_key t = (t_accountId t, t_nameSpace t, t_name t)"

definition exact_topics :: "ens \<Rightarrow> bool" where
  "exact_topics r \<longleftrightarrow> distinct (map t_ern (topics r)) \<and> distinct (map topic_key (topics r)) \<and>
     distinct (map tm_messageId (topic_messages r)) \<and> tm_topicErn ` set (topic_messages r) \<subseteq> t_ern ` set (topics r) \<and>
     (\<forall>t \<in> set (topics r). books t = topic_counts (t_ern t) (topic_messages r))"

lemma exactD:
  assumes "exact_topics r"
  shows "distinct (map t_ern (topics r))" "distinct (map topic_key (topics r))" "distinct (map tm_messageId (topic_messages r))"
    "m \<in> set (topic_messages r) \<Longrightarrow> tm_topicErn m \<in> t_ern ` set (topics r)"
    "t \<in> set (topics r) \<Longrightarrow> books t = topic_counts (t_ern t) (topic_messages r)"
  using assms by (auto simp: exact_topics_def)

lemma exact_counts:
  assumes "exact_topics r" and "t \<in> set (topics r)"
  shows "t_available t = fst (topic_counts (t_ern t) (topic_messages r))" "t_size t = snd (topic_counts (t_ern t) (topic_messages r))"
  using exactD(5) [OF assms] by (simp_all add: books_def prod_eq_iff)

lemma exact_cong: "topics r' = topics r \<Longrightarrow> topic_messages r' = topic_messages r \<Longrightarrow> exact_topics r' = exact_topics r"
  by (simp add: exact_topics_def)

lemma exact_swap: "exact_topics (r\<lparr>topics := ts, topic_messages := ms\<rparr>) = exact_topics (r\<lparr>topic_messages := ms, topics := ts\<rparr>)"
  by (simp add: exact_topics_def)

text \<open>What the messages of a topic come to, as messages come and go.\<close>

lemma topic_counts_simps [simp]:
  "topic_counts e [] = (0, 0)"
  "topic_counts e (m # ms) = (if tm_topicErn m = e then (fst (topic_counts e ms) + 1, snd (topic_counts e ms) + tm_size m)
                               else topic_counts e ms)"
  by (simp_all add: topic_counts_def)

lemma topic_counts_append:
  "topic_counts e (ms @ [m]) = (if tm_topicErn m = e then (fst (topic_counts e ms) + 1, snd (topic_counts e ms) + tm_size m)
                               else topic_counts e ms)"
  by (simp add: topic_counts_def)

lemma topic_counts_filter: "topic_counts e (filter P ms) = topic_counts e (filter (\<lambda>m. P m \<and> tm_topicErn m = e) ms)"
  by (induction ms) simp_all

lemma topic_counts_none: "(\<And>m. m \<in> set ms \<Longrightarrow> tm_topicErn m \<noteq> e) \<Longrightarrow> topic_counts e ms = (0, 0)"
  by (induction ms) simp_all

lemma topic_counts_all: "(\<And>m. m \<in> set ms \<Longrightarrow> tm_topicErn m = e \<Longrightarrow> P m) \<Longrightarrow> topic_counts e (filter P ms) = topic_counts e ms"
  by (induction ms) simp_all

lemma topic_counts_delete:
  assumes "find P ms = Some m"
  shows "topic_counts e (delete_first P ms) =
    (if tm_topicErn m = e then (fst (topic_counts e ms) - 1, snd (topic_counts e ms) - tm_size m) else topic_counts e ms)"
  using assms by (induction ms) (auto split: if_splits)

lemma topic_counts_update:
  assumes "find P ms = Some m" and "tm_topicErn (f m) = tm_topicErn m"
  shows "topic_counts e (update_first P f ms) =
    (if tm_topicErn m = e then (fst (topic_counts e ms), snd (topic_counts e ms) - tm_size m + tm_size (f m)) else topic_counts e ms)"
  using assms by (induction ms) (auto split: if_splits)

lemma topic_counts_kept:
  "(\<And>m. P m \<Longrightarrow> tm_topicErn (f m) = tm_topicErn m \<and> tm_size (f m) = tm_size m) \<Longrightarrow>
    topic_counts e (update_first P f ms) = topic_counts e ms"
  by (induction ms) auto

text \<open>Topics changed in place.\<close>

lemma exact_map:
  assumes "exact_topics r" and "topics r' = map g (topics r)" and "\<And>t. t_ern (g t) = t_ern t \<and> topic_key (g t) = topic_key t"
    and "distinct (map tm_messageId (topic_messages r'))" and "tm_topicErn ` set (topic_messages r') \<subseteq> t_ern ` set (topics r)"
    and "\<And>t. t \<in> set (topics r) \<Longrightarrow> books (g t) = topic_counts (t_ern t) (topic_messages r')"
  shows "exact_topics r'"
  using assms unfolding exact_topics_def by (auto simp: o_def image_image)

lemma update_topic_map:
  "distinct (map t_ern (topics r)) \<Longrightarrow>
    topics (update_topic E e f r) = map (\<lambda>t. if t_ern t = e then (f t)\<lparr>t_modified := ens_now E\<rparr> else t) (topics r)"
  unfolding update_topic_def by (simp add: update_first_unique)

lemma update_topic_messages [simp]: "topic_messages (update_topic E e f r) = topic_messages r"
  by (simp add: update_topic_def)

definition keeps_name :: "(Topic \<Rightarrow> Topic) \<Rightarrow> bool" where
  "keeps_name f \<longleftrightarrow> (\<forall>t. t_ern (f t) = t_ern t \<and> topic_key (f t) = topic_key t)"

lemma books_simps [simp]:
  "books (t\<lparr>t_modified := n\<rparr>) = books t" "books (t\<lparr>t_send := n\<rparr>) = books t" "books (t\<lparr>t_resend := n\<rparr>) = books t"
  "topic_key (t\<lparr>t_modified := n\<rparr>) = topic_key t"
  by (simp_all add: books_def topic_key_def)

text \<open>An update of one topic and the messages together.\<close>

lemma exact_update:
  assumes "exact_topics r" and "keeps_name f"
    and "distinct (map tm_messageId ms)" and "tm_topicErn ` set ms \<subseteq> t_ern ` set (topics r)"
    and "\<And>t. t \<in> set (topics r) \<Longrightarrow> t_ern t = e \<Longrightarrow> books (f t) = topic_counts e ms"
    and "\<And>t. t \<in> set (topics r) \<Longrightarrow> t_ern t \<noteq> e \<Longrightarrow> topic_counts (t_ern t) ms = topic_counts (t_ern t) (topic_messages r)"
    and "r' = (update_topic E e f r)\<lparr>topic_messages := ms\<rparr>"
  shows "exact_topics r'"
  by (rule exact_map [OF assms(1), of r' "\<lambda>t. if t_ern t = e then (f t)\<lparr>t_modified := ens_now E\<rparr> else t"])
    (use assms(2-6) exactD(1,5) [OF assms(1)] in \<open>auto simp: assms(7) update_topic_map keeps_name_def\<close>)


subsection \<open>The operations\<close>

lemma findTopicByErn_mem: "findTopicByErn e r = Some t \<Longrightarrow> t \<in> set (topics r) \<and> t_ern t = e"
  by (metis (mono_tags, lifting) findTopicByErn_def find_SomeD)

lemma findMessageById_mem: "findMessageById mid r = Some m \<Longrightarrow> m \<in> set (topic_messages r) \<and> tm_messageId m = mid"
  by (metis (mono_tags, lifting) findMessageById_def find_SomeD)

lemma one_topic: "exact_topics r \<Longrightarrow> t \<in> set (topics r) \<Longrightarrow> u \<in> set (topics r) \<Longrightarrow> t_ern t = t_ern u \<Longrightarrow> t = u"
  by (metis exactD(1) distinct_map inj_onD)

lemma one_topic_named: "exact_topics r \<Longrightarrow> t \<in> set (topics r) \<Longrightarrow> u \<in> set (topics r) \<Longrightarrow> topic_key t = topic_key u \<Longrightarrow> t = u"
  by (metis exactD(2) distinct_map inj_onD)

lemma one_topic_message:
  "exact_topics r \<Longrightarrow> m \<in> set (topic_messages r) \<Longrightarrow> n \<in> set (topic_messages r) \<Longrightarrow> tm_messageId m = tm_messageId n \<Longrightarrow> m = n"
  by (metis exactD(3) distinct_map inj_onD)

lemma update_first_cong: "(\<And>x. x \<in> set xs \<Longrightarrow> P x = Q x) \<Longrightarrow> update_first P f xs = update_first Q f xs"
  by (induction xs) auto

text \<open>Counters nobody counts messages by, and changes of a message that leave its topic and its size.\<close>

lemma exact_update_topic:
  assumes "exact_topics r" and "keeps_name f" and "\<And>t. books (f t) = books t"
  shows "exact_topics (update_topic E e f r)"
  by (rule exact_update [OF assms(1,2), of "topic_messages r" e])
    (use assms(3) exactD [OF assms(1)] in \<open>auto simp: update_topic_def\<close>)

lemma exact_sends [simp]:
  "exact_topics r \<Longrightarrow> exact_topics (recordSend E e n r)" "exact_topics r \<Longrightarrow> exact_topics (recordResend E e n r)"
  by (auto simp: recordSend_def recordResend_def keeps_name_def topic_key_def intro!: exact_update_topic)

definition same_load :: "(TopicMessage \<Rightarrow> TopicMessage) \<Rightarrow> bool" where
  "same_load f \<longleftrightarrow> (\<forall>m. tm_topicErn (f m) = tm_topicErn m \<and> tm_size (f m) = tm_size m \<and> tm_messageId (f m) = tm_messageId m)"

lemma exact_messages:
  assumes "exact_topics r" and "\<And>m. P m \<Longrightarrow> tm_topicErn (f m) = tm_topicErn m \<and> tm_size (f m) = tm_size m \<and> tm_messageId (f m) = tm_messageId m"
  shows "exact_topics (r\<lparr>topic_messages := update_first P f (topic_messages r)\<rparr>)"
proof (rule exact_map [OF assms(1), where g = id])
  show "tm_topicErn ` set (topic_messages (r\<lparr>topic_messages := update_first P f (topic_messages r)\<rparr>)) \<subseteq> t_ern ` set (topics r)"
  proof -
    have "map tm_topicErn (update_first P f (topic_messages r)) = map tm_topicErn (topic_messages r)"
      using assms(2) by (intro map_update_first) auto
    then show ?thesis using assms(1) by (simp add: exact_topics_def flip: set_map)
  qed
qed (use assms(2) exactD [OF assms(1)] in \<open>auto simp: map_update_first topic_counts_kept\<close>)

lemma exact_marked [simp]: "exact_topics r \<Longrightarrow> exact_topics (markMessageDelivered E mid r)"
  unfolding markMessageDelivered_def by (rule exact_messages) simp_all

lemma exact_upsertTopicMessage:
  assumes "exact_topics r" and "findMessageById (tm_messageId m) r = Some old" and "tm_topicErn m = tm_topicErn old" and "tm_size m = tm_size old"
  shows "exact_topics (upsertTopicMessage E m r)"
proof -
  let ?P = "\<lambda>x. tm_messageId x = tm_messageId m"
  let ?new = "m\<lparr>tm_oid := tm_oid old, tm_created := tm_created old, tm_modified := ens_now E,
                tm_expiresAt := (if tm_expiresAt m > 0 then tm_expiresAt m else tm_expiresAt old)\<rparr>"
  have "update_first ?P (\<lambda>_. ?new) (topic_messages r) =
      update_first (\<lambda>x. x = old) (\<lambda>_. ?new) (topic_messages r)"
    using assms(2) one_topic_message [OF assms(1)] findMessageById_mem [OF assms(2)]
    by (intro update_first_cong) auto
  moreover have "exact_topics (r\<lparr>topic_messages := update_first (\<lambda>x. x = old) (\<lambda>_. ?new) (topic_messages r)\<rparr>)"
    using findMessageById_mem [OF assms(2)] assms(3,4) by (intro exact_messages [OF assms(1)]) simp_all
  ultimately show ?thesis using assms(2) by (simp add: upsertTopicMessage_def findMessageById_def)
qed

text \<open>A publication, and what may delete a message or change its size.\<close>

lemma exact_publish:
  assumes "exact_topics r" and "findTopicByErn topic r \<noteq> None" and "mid \<notin> tm_messageId ` set (topic_messages r)"
  shows "exact_topics (snd (publishMessage E mid e topic content attrs prio r))"
proof -
  obtain t where t: "findTopicByErn topic r = Some t" using assms(2) by blast
  obtain m where m: "snd (publishMessage E mid e topic content attrs prio r) =
      insert_topic_message E m (update_topic E topic (\<lambda>t. t\<lparr>t_size := t_size t + tm_size m, t_available := t_available t + 1\<rparr>) r)"
      "tm_messageId m = mid" "tm_topicErn m = topic"
  proof
    show "snd (publishMessage E mid e topic content attrs prio r) =
        insert_topic_message E (fst (publishMessage E mid e topic content attrs prio r))
          (update_topic E topic (\<lambda>t. t\<lparr>t_size := t_size t + tm_size (fst (publishMessage E mid e topic content attrs prio r)),
             t_available := t_available t + 1\<rparr>) r)"
      by (simp add: publishMessage_def t Let_def)
  qed (simp_all add: publishMessage_def t Let_def published_def)
  show ?thesis
    unfolding m(1)
    by (rule exact_update [OF assms(1), of "\<lambda>t. t\<lparr>t_size := t_size t + tm_size m, t_available := t_available t + 1\<rparr>"
          "topic_messages r @ [m\<lparr>tm_oid := next_oid (common E) 0, tm_created := ens_now E, tm_modified := ens_now E\<rparr>]" topic])
      (use assms(3) exactD(1-4) [OF assms(1)] exact_counts [OF assms(1)] findTopicByErn_mem [OF t] in
        \<open>auto simp: keeps_name_def topic_key_def topic_counts_append insert_topic_message_def m(2,3) books_def update_topic_def\<close>)
qed

lemma exact_deleteDelivered:
  assumes "exact_topics r" and "\<And>m. findMessageById mid r = Some m \<Longrightarrow> tm_topicErn m = topic \<and> tm_size m = bytes"
  shows "exact_topics (snd (deleteDeliveredMessage E topic mid bytes r))"
proof (cases "findMessageById mid r")
  case (Some m)
  then have f: "find (\<lambda>m. tm_messageId m = mid) (topic_messages r) = Some m" by (simp add: findMessageById_def)
  define ms where "ms = delete_first (\<lambda>m. tm_messageId m = mid) (topic_messages r)"
  have ms: "distinct (map tm_messageId ms)" "set ms \<subseteq> set (topic_messages r)"
    "topic_counts e ms = (if topic = e then (fst (topic_counts e (topic_messages r)) - 1, snd (topic_counts e (topic_messages r)) - bytes)
       else topic_counts e (topic_messages r))" for e
    using assms(2) [OF Some] exactD(3) [OF assms(1)] topic_counts_delete [OF f, of e]
    by (auto simp: ms_def distinct_delete_first dest: subsetD [OF set_delete_first])
  have "exact_topics ((update_topic E topic (\<lambda>t. t\<lparr>t_size := t_size t - bytes, t_available := t_available t - 1\<rparr>) r)\<lparr>topic_messages := ms\<rparr>)"
    by (rule exact_update [OF assms(1), of "\<lambda>t. t\<lparr>t_size := t_size t - bytes, t_available := t_available t - 1\<rparr>" ms topic])
      (use ms exactD [OF assms(1)] in \<open>auto simp: keeps_name_def topic_key_def books_def prod_eq_iff\<close>)
  then show ?thesis by (simp add: deleteDeliveredMessage_def Some ms_def update_topic_def exact_swap)
qed (use assms(1) in \<open>simp add: deleteDeliveredMessage_def\<close>)

lemma exact_body:
  assumes "exact_topics r"
  shows "exact_topics (snd (updateTopicMessageBody E mid content r))"
proof (cases "findMessageById mid r")
  case (Some m)
  let ?P = "\<lambda>x. tm_messageId x = mid"
  let ?f = "\<lambda>x. x\<lparr>tm_body := content, tm_size := int (length content), tm_contentType := fromContent (common E) content,
                  tm_modified := ens_now E\<rparr>"
  let ?delta = "int (length content) - tm_size m"
  have f: "find ?P (topic_messages r) = Some m" using Some by (simp add: findMessageById_def)
  define ms where "ms = update_first ?P ?f (topic_messages r)"
  have names: "map tm_messageId ms = map tm_messageId (topic_messages r)" "tm_topicErn ` set ms = tm_topicErn ` set (topic_messages r)"
    using map_update_first [of ?P tm_messageId ?f] map_update_first [of ?P tm_topicErn ?f "topic_messages r"]
    by (simp_all add: ms_def flip: set_map)
  have all: "topic_counts e ms =
      (if tm_topicErn m = e then (fst (topic_counts e (topic_messages r)), snd (topic_counts e (topic_messages r)) + ?delta)
       else topic_counts e (topic_messages r))" for e
    by (simp add: ms_def topic_counts_update [OF f])
  have "exact_topics ((update_topic E (tm_topicErn m) (\<lambda>t. t\<lparr>t_size := t_size t + ?delta\<rparr>) r)\<lparr>topic_messages := ms\<rparr>)"
    by (rule exact_update [OF assms, of "\<lambda>t. t\<lparr>t_size := t_size t + ?delta\<rparr>" ms "tm_topicErn m"])
      (use names(2) exactD [OF assms] in \<open>auto simp: keeps_name_def topic_key_def names(1) all books_def prod_eq_iff\<close>)
  moreover have "exact_topics (r\<lparr>topic_messages := ms\<rparr>)" if "?delta = 0"
    by (rule exact_map [OF assms, where g = id])
      (use that names(2) exactD [OF assms] in \<open>auto simp: names(1) all prod_eq_iff\<close>)
  ultimately show ?thesis by (auto simp: updateTopicMessageBody_def Some Let_def update_topic_def ms_def exact_swap)
qed (use assms in \<open>simp add: updateTopicMessageBody_def\<close>)


text \<open>Purging, deleting, recounting.\<close>

lemma exact_drop:
  assumes "exact_topics r" and "topics r' = map g (topics r)" and "\<And>t. t_ern (g t) = t_ern t \<and> topic_key (g t) = topic_key t"
    and "topic_messages r' = filter (\<lambda>m. tm_topicErn m \<notin> gone) (topic_messages r)"
    and "\<And>t. t \<in> set (topics r) \<Longrightarrow> books (g t) = (if t_ern t \<in> gone then (0, 0) else books t)"
  shows "exact_topics r'"
proof (rule exact_map [OF assms(1-3)])
  have "topic_counts e (filter (\<lambda>m. tm_topicErn m \<notin> gone) ms) = (if e \<in> gone then (0, 0) else topic_counts e ms)" for e ms
    by (auto intro!: topic_counts_none topic_counts_all)
  then show "books (g t) = topic_counts (t_ern t) (topic_messages r')" if "t \<in> set (topics r)" for t
    using assms(4,5) that exactD(5) [OF assms(1) that] by simp
qed (use assms(4) exactD [OF assms(1)] in \<open>auto simp: distinct_map_filter\<close>)

lemma exact_purges [simp]:
  assumes "exact_topics r"
  shows "exact_topics (purgeTopic E e r)" "exact_topics (purgeAllTopics E reg account ns r)"
proof -
  show "exact_topics (purgeTopic E e r)"
    by (rule exact_drop [OF assms, of _ "\<lambda>t. if t_ern t = e then emptied E t else t" "{e}"])
      (use exactD(1) [OF assms] in \<open>auto simp: purgeTopic_def update_first_unique emptied_def topic_key_def books_def\<close>)
  show "exact_topics (purgeAllTopics E reg account ns r)"
  proof (cases "map t_ern (filter (topic_in_scope reg account ns) (topics r)) = []")
    case False
    then show ?thesis
      by (intro exact_drop [OF assms, of _ "\<lambda>t. if t_ern t \<in> set (map t_ern (filter (topic_in_scope reg account ns) (topics r)))
            then emptied E t else t" "set (map t_ern (filter (topic_in_scope reg account ns) (topics r)))"])
        (auto simp: purgeAllTopics_def Let_def emptied_def topic_key_def books_def)
  qed (simp add: purgeAllTopics_def assms)
qed

lemma exact_deleteTopic [simp]:
  assumes "exact_topics r"
  shows "exact_topics (deleteTopicByErn e r)"
  using assms by (auto simp: exact_topics_def deleteTopicByErn_def distinct_map_filter topic_counts_all)

lemma exact_recount:
  assumes "exact_topics r"
  shows "exact_topics (recountTopics r)"
proof -
  have same: "topics (recount_topic e u) = topics u \<and> topic_messages (recount_topic e u) = topic_messages u" if "exact_topics u" for e u
  proof -
    have same: "t\<lparr>t_available := fst (topic_counts (t_ern t) (topic_messages u)), t_size := snd (topic_counts (t_ern t) (topic_messages u))\<rparr> = t"
      if "t \<in> set (topics u)" for t
      using exact_counts [OF \<open>exact_topics u\<close> that, symmetric] by simp
    have "map (\<lambda>t. if t_ern t = e then t\<lparr>t_available := fst (topic_counts e (topic_messages u)), t_size := snd (topic_counts e (topic_messages u))\<rparr> else t)
        (topics u) = topics u"
      by (rule map_idI) (use same in auto)
    then show ?thesis by (simp add: recount_topic_def update_first_unique exactD(1) [OF that])
  qed
  have "topics (fold recount_topic es r) = topics r \<and> topic_messages (fold recount_topic es r) = topic_messages r" for es
    using assms
  proof (induction es arbitrary: r)
    case (Cons e es)
    then show ?case using same [OF Cons.prems] exact_cong [of "recount_topic e r" r] by simp
  qed simp
  then show ?thesis using assms exact_cong [of "recountTopics r" r] by (simp add: recountTopics_def)
qed

text \<open>A topic stored again under its own name with its own counters, and a new one.\<close>

lemma exact_resettled:
  assumes "exact_topics r" and "t \<in> set (topics r)" and "t_ern t' = t_ern t" and "topic_key t' = topic_key t" and "books t' = books t"
  shows "exact_topics (snd (upsertTopic E t' r))"
    and "\<exists>n. fst (upsertTopic E t' r) = t'\<lparr>t_oid := t_oid t, t_created := t_created t, t_modified := n\<rparr>"
    and "snd (upsertTopic E t' r) = r\<lparr>topics := map (\<lambda>x. if x = t then fst (upsertTopic E t' r) else x) (topics r)\<rparr>"
proof -
  let ?mine = "topic_named (t_accountId t') (t_nameSpace t') (t_name t')"
  have mine: "?mine x \<longleftrightarrow> topic_key x = topic_key t" for x using assms(4) by (auto simp: topic_named_def topic_key_def)
  have only: "x = t" if "x \<in> set (topics r)" "?mine x" for x using one_topic_named [OF assms(1) that(1) assms(2)] that(2) mine by simp
  have t: "?mine t" by (simp add: mine)
  have found: "find ?mine (topics r) = Some t"
  proof (cases "find ?mine (topics r)")
    case None
    then show ?thesis using t assms(2) by (metis find_None_iff)
  next
    case (Some x)
    then show ?thesis using only by (metis (mono_tags, lifting) find_SomeD)
  qed
  have free: "\<not> (\<exists>x \<in> set (topics r). \<not> ?mine x \<and> t_ern x = t_ern t')"
    using one_topic [OF assms(1) _ assms(2)] assms(3) t by auto
  let ?st = "t'\<lparr>t_oid := t_oid t, t_created := t_created t, t_modified := ens_now E\<rparr>"
  have u: "upsertTopic E t' r = (?st, r\<lparr>topics := update_first ?mine (\<lambda>_. ?st) (topics r)\<rparr>)"
    unfolding upsertTopic_def Let_def by (simp only: if_not_P [OF free] found option.case)
  show "\<exists>n. fst (upsertTopic E t' r) = t'\<lparr>t_oid := t_oid t, t_created := t_created t, t_modified := n\<rparr>" unfolding u by auto
  have "update_first ?mine (\<lambda>_. ?st) (topics r) = update_first (\<lambda>x. topic_key x = topic_key t) (\<lambda>_. ?st) (topics r)"
    by (intro update_first_cong) (simp add: mine)
  also have "\<dots> = map (\<lambda>x. if topic_key x = topic_key t then ?st else x) (topics r)"
    by (rule update_first_unique [OF exactD(2) [OF assms(1)]])
  finally have m: "update_first ?mine (\<lambda>_. ?st) (topics r) = map (\<lambda>x. if x = t then ?st else x) (topics r)"
    using only mine by (auto intro!: map_cong)
  show "snd (upsertTopic E t' r) = r\<lparr>topics := map (\<lambda>x. if x = t then fst (upsertTopic E t' r) else x) (topics r)\<rparr>"
    unfolding u fst_conv snd_conv m ..
  have st: "t_ern ?st = t_ern t" "topic_key ?st = topic_key t" "books ?st = books t"
    using assms(3-5) by (simp_all add: topic_key_def books_def)
  have "map t_ern (map (\<lambda>x. if x = t then ?st else x) (topics r)) = map t_ern (topics r)"
    "map topic_key (map (\<lambda>x. if x = t then ?st else x) (topics r)) = map topic_key (topics r)"
    using st by auto
  moreover from this(1) have "t_ern ` set (map (\<lambda>x. if x = t then ?st else x) (topics r)) = t_ern ` set (topics r)"
    by (metis set_map)
  ultimately show "exact_topics (snd (upsertTopic E t' r))"
    using assms(1) st assms(2) unfolding u m exact_topics_def by (auto simp del: map_map)
qed

lemma exact_created:
  assumes "exact_topics r" and "findTopicByName (t_accountId t) (t_nameSpace t) (t_name t) r = None" and "books t = (0, 0)"
  shows "exact_topics (snd (upsertTopic E t r))"
proof -
  have none: "topic_key x \<noteq> topic_key t" if "x \<in> set (topics r)" for x
    using assms(2) that by (auto simp: findTopicByName_def find_None_iff topic_named_def topic_key_def)
  have "topic_counts (t_ern t) (topic_messages r) = (0, 0)" if "t_ern t \<notin> t_ern ` set (topics r)"
  proof (rule topic_counts_none)
    show "tm_topicErn m \<noteq> t_ern t" if "m \<in> set (topic_messages r)" for m
      using exactD(4) [OF assms(1) that] \<open>t_ern t \<notin> t_ern ` set (topics r)\<close> by metis
  qed
  moreover have "upsertTopic E t r = (if t_ern t \<in> t_ern ` set (topics r) then (t, r)
      else let st = t\<lparr>t_oid := next_oid (common E) 0, t_modified := ens_now E\<rparr> in (st, r\<lparr>topics := topics r @ [st]\<rparr>))"
  proof -
    have "\<not> topic_named (t_accountId t) (t_nameSpace t) (t_name t) x" if "x \<in> set (topics r)" for x
      using none [OF that] by (auto simp: topic_named_def topic_key_def)
    then have "(\<exists>x \<in> set (topics r). \<not> topic_named (t_accountId t) (t_nameSpace t) (t_name t) x \<and> t_ern x = t_ern t)
        \<longleftrightarrow> t_ern t \<in> t_ern ` set (topics r)"
      by (auto simp: image_iff dest: sym)
    then show ?thesis using assms(2) unfolding upsertTopic_def findTopicByName_def Let_def by simp
  qed
  ultimately have u: "snd (upsertTopic E t r) = (if t_ern t \<in> t_ern ` set (topics r) then r
      else r\<lparr>topics := topics r @ [t\<lparr>t_oid := next_oid (common E) 0, t_modified := ens_now E\<rparr>]\<rparr>)"
    and zero: "t_ern t \<notin> t_ern ` set (topics r) \<Longrightarrow> topic_counts (t_ern t) (topic_messages r) = (0, 0)"
    by (simp_all add: Let_def)
  have "topic_key t \<notin> topic_key ` set (topics r)" using none by force
  then show ?thesis
    unfolding u using assms(1,3) zero by (auto simp: exact_topics_def topic_key_def books_def)
qed

end
