(* ===== verification/Ens_Subscriptions.thy ===== *)
theory Ens_Subscriptions
  imports Ens_Topics
begin

text \<open>
  Subscriptions and the cache they are looked up through. Every write forgets what it changes, so that within a process a
  lookup is never behind the store, whatever the clock says; that is what a message published right after a subscription
  relies on.
\<close>

definition current_subscriptions :: "ens \<Rightarrow> bool" where
  "current_subscriptions r \<longleftrightarrow> (\<forall>(e, found, until) \<in> set (entries (subscriptionCache r)). found = loadSubscriptions r e)"

lemma loadSubscriptions_cong: "topic_subscriptions r' = topic_subscriptions r \<Longrightarrow> loadSubscriptions r' = loadSubscriptions r"
  by (rule ext) (simp add: loadSubscriptions_def)

lemma current_cong:
  "topic_subscriptions r' = topic_subscriptions r \<Longrightarrow> subscriptionCache r' = subscriptionCache r \<Longrightarrow>
    current_subscriptions r' = current_subscriptions r"
  by (simp add: current_subscriptions_def loadSubscriptions_cong [of r' r])

lemma current_lookup:
  assumes "current_subscriptions r"
  shows "fst (listSubscriptionsBySourceErnCached E e r) = listSubscriptionsBySourceErn e r"
  using assms
  by (auto simp: listSubscriptionsBySourceErnCached_def listSubscriptionsBySourceErn_def current_subscriptions_def cache_get_def
      get_lookup_def split: cache_answer.split option.splits if_splits dest!: map_of_SomeD)

lemma looked_up_kept [simp]:
  "topics (snd (listSubscriptionsBySourceErnCached E e r)) = topics r"
  "topic_messages (snd (listSubscriptionsBySourceErnCached E e r)) = topic_messages r"
  "topic_subscriptions (snd (listSubscriptionsBySourceErnCached E e r)) = topic_subscriptions r"
  by (simp_all add: listSubscriptionsBySourceErnCached_def split: prod.split)

lemma current_looked_up: "current_subscriptions r \<Longrightarrow> current_subscriptions (snd (listSubscriptionsBySourceErnCached E e r))"
  by (auto simp: listSubscriptionsBySourceErnCached_def current_subscriptions_def cache_get_def
      loadSubscriptions_cong [of "r\<lparr>subscriptionCache := c\<rparr>" r for c] split: cache_answer.split dest!: get_store_memD)

text \<open>Subscribing changes what is listed for one source, which is forgotten.\<close>

lemma filter_update_first:
  "(\<And>x. P x \<Longrightarrow> \<not> Q x \<and> \<not> Q (f x)) \<Longrightarrow> filter Q (update_first P f xs) = filter Q xs"
  by (induction xs) auto

lemma subscribed_elsewhere:
  "e \<noteq> ts_sourceErn x \<Longrightarrow> loadSubscriptions (snd (upsertSubscription E x r)) e = loadSubscriptions r e"
  by (auto simp: loadSubscriptions_def upsertSubscription_def Let_def split: option.split intro!: filter_update_first)
    (auto simp: subscribes_def)

lemma subscribed_cache: "subscriptionCache (snd (upsertSubscription E x r)) = cache_erase (ts_sourceErn x) (subscriptionCache r)"
  by (simp add: upsertSubscription_def Let_def split: option.split)

lemma current_subscribed:
  assumes "current_subscriptions r"
  shows "current_subscriptions (snd (upsertSubscription E x r))"
  unfolding current_subscriptions_def
proof clarify
  fix e found until assume "(e, found, until) \<in> set (entries (subscriptionCache (snd (upsertSubscription E x r))))"
  then have "(e, found, until) \<in> set (entries (subscriptionCache r))" "e \<noteq> ts_sourceErn x"
    by (auto simp: subscribed_cache cache_erase_def AList.delete_eq)
  then show "found = loadSubscriptions (snd (upsertSubscription E x r)) e"
    using assms by (auto simp: current_subscriptions_def subscribed_elsewhere)
qed

lemma current_unsubscribed: "current_subscriptions (deleteSubscriptionByErn e r)"
  by (simp add: deleteSubscriptionByErn_def current_subscriptions_def cache_clear_def)

subsection \<open>One subscription per source, type and target\<close>

lemma find_append: "find P (xs @ ys) = (case find P xs of None \<Rightarrow> find P ys | Some x \<Rightarrow> Some x)"
  by (induction xs) auto

lemma update_first_found: "find P xs = Some y \<Longrightarrow> (\<And>x. P x \<Longrightarrow> P (f x)) \<Longrightarrow> find P (update_first P f xs) = Some (f y)"
  by (induction xs) (auto split: if_splits)

lemma subscribed_listed:
  assumes "upsertSubscription E x r = (saved, t)"
  shows "find (subscribes (ts_sourceErn x) (ts_type x) (ts_targetErn x)) (topic_subscriptions t) = Some saved"
    "ts_sourceErn saved = ts_sourceErn x" "ts_type saved = ts_type x" "ts_targetErn saved = ts_targetErn x" "ts_ern saved = ts_ern x"
    "topics t = topics r" "topic_messages t = topic_messages r"
proof -
  let ?mine = "subscribes (ts_sourceErn x) (ts_type x) (ts_targetErn x)"
  have "find ?mine (topic_subscriptions t) = Some saved \<and> ts_sourceErn saved = ts_sourceErn x \<and> ts_type saved = ts_type x \<and>
    ts_targetErn saved = ts_targetErn x \<and> ts_ern saved = ts_ern x \<and> topics t = topics r \<and> topic_messages t = topic_messages r"
  proof (cases "find ?mine (topic_subscriptions r)")
    case None
    then show ?thesis using assms by (auto simp: upsertSubscription_def find_append Let_def) (simp_all add: subscribes_def)
  next
    case (Some old)
    have "find ?mine (update_first ?mine (\<lambda>_. y) (topic_subscriptions r)) = Some y" if "?mine y" for y
      using update_first_found [OF Some, of "\<lambda>_. y"] that by simp
    then show ?thesis using assms Some by (auto simp: upsertSubscription_def Let_def) (simp_all add: subscribes_def)
  qed
  then show "find ?mine (topic_subscriptions t) = Some saved"
    "ts_sourceErn saved = ts_sourceErn x" "ts_type saved = ts_type x" "ts_targetErn saved = ts_targetErn x" "ts_ern saved = ts_ern x"
    "topics t = topics r" "topic_messages t = topic_messages r" by simp_all
qed

end
