(* ===== verification/Ens_Upholds.thy ===== *)
theory Ens_Upholds
  imports Ens_Server Ens_Counts Ens_Subscriptions Eqs_Upholds
begin

text \<open>
  What a request leaves of an invariant of the topics. The contract between the handlers and the repository is stated once,
  one law per operation and with what the handler knows when it calls it; a request then keeps whatever meets the laws. It
  is used with the exactness of the counters and with the tag that records who owns a topic.
\<close>

subsection \<open>What the handlers know\<close>

definition asks_for_topic :: "ens_server_env \<Rightarrow> http_request \<Rightarrow> User \<Rightarrow> string \<Rightarrow> int \<Rightarrow> bool" where
  "asks_for_topic N req user name len \<longleftrightarrow> callers (base N) req user \<and>
     topicCommandFromString (header req ''x-euclid-action'') = CreateTopic \<and>
     (case ParseJsonBody (http (base N)) (ens_installErnResolver (http (base N))) req of
        Inl _ \<Rightarrow> False | Inr v \<Rightarrow> read_CreateTopicRequest v = Inr (name, len))"

text \<open>A topic stored with other settings or tags, but the same identity and counters.\<close>

definition same_topic :: "Topic \<Rightarrow> Topic \<Rightarrow> bool" where
  "same_topic t t' \<longleftrightarrow> t_ern t' = t_ern t \<and> topic_key t' = topic_key t \<and> books t' = books t"

definition topic_tag_by :: "ens_server_env \<Rightarrow> http_request \<Rightarrow> Topic \<Rightarrow> Topic \<Rightarrow> bool" where
  "topic_tag_by N req t t' \<longleftrightarrow> map_of (t_tags t') kOwnerTag = map_of (t_tags t) kOwnerTag \<or>
     (\<exists>user. callers (base N) req user \<and> IsEamAdmin (eam_of (http (base N))) (userId user))"

text \<open>Nothing but what is known of the message can be stored under its id.\<close>

definition known_as :: "ern \<Rightarrow> string \<Rightarrow> int \<Rightarrow> ens \<Rightarrow> bool" where
  "known_as topic mid bytes r \<longleftrightarrow> (\<forall>m. findMessageById mid r = Some m \<longrightarrow> tm_topicErn m = topic \<and> tm_size m = bytes)"

text \<open>No message has come since.\<close>

definition no_new :: "ens \<Rightarrow> ens \<Rightarrow> bool" where
  "no_new r r' \<longleftrightarrow> (\<forall>m' \<in> set (topic_messages r'). \<exists>m \<in> set (topic_messages r).
     tm_messageId m' = tm_messageId m \<and> tm_topicErn m' = tm_topicErn m \<and> tm_size m' = tm_size m)"

lemma no_new_refl [simp]: "no_new r r"
  by (auto simp: no_new_def)

lemma no_new_trans: "no_new r s \<Longrightarrow> no_new s t \<Longrightarrow> no_new r t"
  unfolding no_new_def by metis

lemma no_new_same: "topic_messages r' = topic_messages s \<Longrightarrow> no_new r r' = no_new r s"
  by (simp add: no_new_def)

lemma no_new_marked [simp]: "no_new r (markMessageDelivered E mid r)"
  using set_update_first by (fastforce simp: no_new_def markMessageDelivered_def)

lemma no_new_deleted [simp]: "no_new r (snd (deleteDeliveredMessage E topic mid bytes r))"
  using set_delete_first by (fastforce simp: no_new_def deleteDeliveredMessage_def update_topic_def)

lemma known_from:
  assumes "no_new r0 r" and "distinct (map tm_messageId (topic_messages r0))" and "m \<in> set (topic_messages r0)"
  shows "known_as (tm_topicErn m) (tm_messageId m) (tm_size m) r"
  unfolding known_as_def
proof (intro allI impI)
  fix m' assume "findMessageById (tm_messageId m) r = Some m'"
  then have m': "m' \<in> set (topic_messages r)" "tm_messageId m' = tm_messageId m" by (simp_all add: findMessageById_mem)
  then obtain m0 where "m0 \<in> set (topic_messages r0)" "tm_messageId m' = tm_messageId m0" "tm_topicErn m' = tm_topicErn m0"
      "tm_size m' = tm_size m0"
    using assms(1) unfolding no_new_def by blast
  moreover from this m' have "m0 = m" using assms(2,3) by (metis distinct_map inj_onD)
  ultimately show "tm_topicErn m' = tm_topicErn m \<and> tm_size m' = tm_size m" by simp
qed

subsection \<open>What delivering leaves alone\<close>

lemma deliver_repo:
  "\<exists>c. ens_repo (snd (deliverToSubscriptions N topic mid content attrs sysattrs prio bp s)) = (ens_repo s)\<lparr>subscriptionCache := c\<rparr>"
  by (auto simp: deliverToSubscriptions_def listSubscriptionsBySourceErnCached_def Let_def split: prod.split)

lemma deliver_looked:
  "ens_repo (snd (deliverToSubscriptions N topic mid content attrs sysattrs prio bp s)) =
    snd (listSubscriptionsBySourceErnCached (repo_world N 0) topic (ens_repo s))"
  by (simp add: deliverToSubscriptions_def Let_def case_prod_beta)

lemma deliver_kept [simp]:
  "topics (ens_repo (snd (deliverToSubscriptions N topic mid content attrs sysattrs prio bp s))) = topics (ens_repo s)"
  "topic_messages (ens_repo (snd (deliverToSubscriptions N topic mid content attrs sysattrs prio bp s))) = topic_messages (ens_repo s)"
  "topic_subscriptions (ens_repo (snd (deliverToSubscriptions N topic mid content attrs sysattrs prio bp s))) = topic_subscriptions (ens_repo s)"
  "topic_metrics (snd (deliverToSubscriptions N topic mid content attrs sysattrs prio bp s)) = topic_metrics s"
  using deliver_repo [of N topic mid content attrs sysattrs prio bp s]
  by (auto simp: deliverToSubscriptions_def Let_def split: prod.split)

lemma recordMessages_repo [simp]: "ens_repo (recordMessages a b e n bytes s) = ens_repo s" "topic_bus (recordMessages a b e n bytes s) = topic_bus s"
  by (simp_all add: recordMessages_def)

lemma on_topics_simps [simp]: "ens_repo (on_topics f s) = f (ens_repo s)" "topic_bus (on_topics f s) = topic_bus s"
  by (simp_all add: on_topics_def)

lemma redeliver_kept [simp]:
  "topics (ens_repo (snd (redeliver N e m s))) = topics (ens_repo s)"
  "topic_messages (ens_repo (snd (redeliver N e m s))) = topic_messages (ens_repo s)"
  by (simp_all add: redeliver_def)

lemma resend_one_kept [simp]:
  "topics (ens_repo (snd (resend_one N e m acc))) = topics (ens_repo (snd acc))"
  "topic_messages (ens_repo (snd (resend_one N e m acc))) = topic_messages (ens_repo (snd acc))"
  by (auto simp: resend_one_def resendMessage_def split: prod.split)

lemma resend_fold_kept:
  "topics (ens_repo (snd (fold (resend_one N e) ms acc))) = topics (ens_repo (snd acc)) \<and>
   topic_messages (ens_repo (snd (fold (resend_one N e) ms acc))) = topic_messages (ens_repo (snd acc))"
  by (induction ms arbitrary: acc) simp_all

lemma resend_pages_kept:
  assumes "resend_pages N e afterOid acc = Some acc'"
  shows "topics (ens_repo (snd acc')) = topics (ens_repo (snd acc)) \<and> topic_messages (ens_repo (snd acc')) = topic_messages (ens_repo (snd acc))"
proof (rule resend_pages.raw_induct [OF _ assms])
  fix resend N e afterOid and acc acc' :: "ResendCounts \<times> ens_server"
  assume later: "\<And>N e afterOid acc acc'. resend N e afterOid acc = Some acc' \<Longrightarrow>
      topics (ens_repo (snd acc')) = topics (ens_repo (snd acc)) \<and> topic_messages (ens_repo (snd acc')) = topic_messages (ens_repo (snd acc))"
    and run: "(let page = listMessagesAfter e kTopicPage afterOid (ens_repo (snd acc))
      in if page = [] then Some acc
         else let acc = fold (resend_one N e) page acc
              in if length page < kTopicPage then Some acc else resend N e (tm_oid (last page)) acc) = Some acc'"
  show "topics (ens_repo (snd acc')) = topics (ens_repo (snd acc)) \<and> topic_messages (ens_repo (snd acc')) = topic_messages (ens_repo (snd acc))"
    using run resend_fold_kept [of N e "listMessagesAfter e kTopicPage afterOid (ens_repo (snd acc))" acc]
    by (auto simp: Let_def split: if_splits dest!: later)
qed


text \<open>The orders a topic is walked in.\<close>

interpretation by_publication: weak_order_on UNIV "\<lambda>a b. tm_created a < tm_created (b :: TopicMessage)"
  by unfold_locales auto

interpretation by_insertion: weak_order_on UNIV "\<lambda>a b. tm_oid a < tm_oid (b :: TopicMessage)"
  by unfold_locales auto

text \<open>What is stored under the id of a message just published.\<close>

lemma published_fields:
  assumes "publishMessage E mid e topic content attrs prio r = (m, t)"
  shows "tm_messageId m = mid" "tm_topicErn m = topic" "tm_body m = content" "tm_size m = int (length content)" "tm_attributes m = attrs"
    "tm_priority m = prio" "tm_systemAttributes m = []" "tm_ern m = e"
    "tm_status m = (case findTopicByErn topic r of None \<Rightarrow> kStatusPublished | Some x \<Rightarrow> if delivering x then kStatusPublished else kStatusHeld)"
proof -
  have m: "m = fst (publishMessage E mid e topic content attrs prio r)" by (simp add: assms)
  show "tm_messageId m = mid" "tm_topicErn m = topic" "tm_body m = content" "tm_size m = int (length content)" "tm_attributes m = attrs"
    "tm_priority m = prio" "tm_systemAttributes m = []" "tm_ern m = e"
    "tm_status m = (case findTopicByErn topic r of None \<Rightarrow> kStatusPublished | Some x \<Rightarrow> if delivering x then kStatusPublished else kStatusHeld)"
    unfolding m by (simp_all add: publishMessage_def published_def new_TopicMessage_def Let_def split: option.split)
qed

lemma published_stored:
  assumes "publishMessage E mid e topic content attrs prio r = (m, t)" and "findTopicByErn topic r \<noteq> None"
    and "mid \<notin> tm_messageId ` set (topic_messages r)"
  shows "topic_messages t = topic_messages r @ [m\<lparr>tm_oid := next_oid (common E) 0, tm_created := ens_now E, tm_modified := ens_now E\<rparr>]"
proof -
  obtain x where x: "findTopicByErn topic r = Some x" using assms(2) by blast
  have "t = insert_topic_message E m (update_topic E topic (\<lambda>t. t\<lparr>t_size := t_size t + tm_size m, t_available := t_available t + 1\<rparr>) r)"
    using assms(1) by (auto simp: publishMessage_def x Let_def)
  moreover have "\<not> (\<exists>x \<in> set (topic_messages r). tm_messageId x = tm_messageId m)"
    using assms(3) published_fields(1) [OF assms(1)] by (metis imageI)
  ultimately show ?thesis by (simp add: insert_topic_message_def)
qed

lemma known_published:
  assumes "publishMessage E mid e topic content attrs prio r = (m, t)" and "findTopicByErn topic r \<noteq> None"
    and "mid \<notin> tm_messageId ` set (topic_messages r)"
  shows "known_as topic mid (tm_size m) t"
proof -
  have none: "find (\<lambda>m. tm_messageId m = mid) (topic_messages r) = None" using assms(3) by (force simp: find_None_iff)
  show ?thesis
    using published_stored [OF assms] published_fields [OF assms(1)] by (simp add: known_as_def findMessageById_def find_append none)
qed

subsection \<open>The contract\<close>

locale topics_upholding =
  fixes N :: ens_server_env and req :: http_request and pre :: "ens_server \<Rightarrow> bool" and post :: "ens \<Rightarrow> bool"
  assumes kept: "pre s \<Longrightarrow> post (ens_repo s)"
    and unique: "post r \<Longrightarrow> distinct (map tm_messageId (topic_messages r))"
    and fresh: "pre s \<Longrightarrow> random_uuid (base N) (publish_no s) \<notin> tm_messageId ` set (topic_messages (ens_repo s))"
    and looked_up: "post r \<Longrightarrow> post (snd (listSubscriptionsBySourceErnCached E e r))"
    and subscribed: "post r \<Longrightarrow> post (snd (upsertSubscription E x r))"
    and unsubscribed: "post r \<Longrightarrow> post (deleteSubscriptionByErn e r)"
    and published: "post r \<Longrightarrow> findTopicByErn topic r \<noteq> None \<Longrightarrow> mid \<notin> tm_messageId ` set (topic_messages r) \<Longrightarrow>
      post (snd (publishMessage E mid e topic content attrs prio r))"
    and counted: "post r \<Longrightarrow> post (recordSend E e n r)" "post r \<Longrightarrow> post (recordResend E e n r)"
    and marked: "post r \<Longrightarrow> post (markMessageDelivered E mid r)"
    and handed_on: "post r \<Longrightarrow> known_as e mid bytes r \<Longrightarrow> post (snd (deleteDeliveredMessage E e mid bytes r))"
    and resettled: "post r \<Longrightarrow> findTopicByErn e r = Some t \<Longrightarrow> same_topic t t' \<Longrightarrow> topic_tag_by N req t t' \<Longrightarrow>
      post (snd (upsertTopic (repo_world N 0) t' r))"
    and created: "pre s \<Longrightarrow> asks_for_topic N req user name len \<Longrightarrow>
      post (snd (upsertTopic (repo_world N 0) (asked_topic N req user name len) (ens_repo s)))"
    and rewritten: "post r \<Longrightarrow> findMessageById mid r = Some m \<Longrightarrow>
      post (upsertTopicMessage E (m\<lparr>tm_attributes := as\<rparr>) r)"
    and body_rewritten: "post r \<Longrightarrow> post (snd (updateTopicMessageBody E mid content r))"
    and purged: "post r \<Longrightarrow> post (purgeTopic E e r)" "post r \<Longrightarrow> post (purgeAllTopics E reg account ns r)"
    and removed: "post r \<Longrightarrow> post (deleteTopicByErn e r)"
begin

lemma refuse_keeps: "post (ens_repo t) \<Longrightarrow> post (ens_repo (snd (refuse st m t)))"
  by (simp add: refuse_def)

lemma answer_keeps: "post (ens_repo t) \<Longrightarrow> post (ens_repo (snd (answer st c t)))"
  by (simp add: answer_def)

lemma reading_keeps:
  "post (ens_repo t) \<Longrightarrow> (\<And>x. p = Inr x \<Longrightarrow> post (ens_repo (snd (k x t)))) \<Longrightarrow> post (ens_repo (snd (reading p k t)))"
  by (simp add: reading_def split: sum.split)

lemma asking_keeps:
  assumes "post (ens_repo t)"
    and "\<And>user v x. callers (base N) req user \<Longrightarrow> ParseJsonBody (http (base N)) (ens_installErnResolver (http (base N))) req = Inr v \<Longrightarrow>
      read v = Inr x \<Longrightarrow> post (ens_repo (snd (k user x t)))"
  shows "post (ens_repo (snd (asking N req read k t)))"
  using assms
  by (auto simp: asking_def authenticated_def authenticate_def callers_def with_topic_json_def Let_def
      intro!: reading_keeps split: prod.split option.splits sum.split)

lemma tag_allowed_keeps:
  "post (ens_repo t) \<Longrightarrow> (key = kOwnerTag \<Longrightarrow> IsEamAdmin (eam_of (http (base N))) (userId user) \<Longrightarrow> post (ens_repo (snd (k t)))) \<Longrightarrow>
    (key \<noteq> kOwnerTag \<Longrightarrow> post (ens_repo (snd (k t)))) \<Longrightarrow> post (ens_repo (snd (tag_allowed (base N) req user key k t)))"
  by (auto simp: tag_allowed_def refuseOwnerTag_def split: option.split)

lemma finding_topic_keeps:
  "post (ens_repo t) \<Longrightarrow> (\<And>x. findTopicByErn e (ens_repo t) = Some x \<Longrightarrow> post (ens_repo (snd (k x t)))) \<Longrightarrow>
    post (ens_repo (snd (finding_topic e k t)))"
  by (simp add: finding_topic_def refuse_keeps split: option.split)

lemma finding_message_keeps:
  "post (ens_repo t) \<Longrightarrow> (\<And>m. findMessageById mid (ens_repo t) = Some m \<Longrightarrow> post (ens_repo (snd (k m t)))) \<Longrightarrow>
    post (ens_repo (snd (finding_topic_message mid k t)))"
  by (simp add: finding_topic_message_def topic_message_missing_def refuse_keeps split: option.split)

lemma calling_keeps:
  "post (snd (f (ens_repo t))) \<Longrightarrow> (\<And>x r. post r \<Longrightarrow> post (ens_repo (snd (k x (t\<lparr>ens_repo := r\<rparr>))))) \<Longrightarrow> post (ens_repo (snd (on_ens f k t)))"
  by (auto simp: on_ens_def split: prod.split)

lemma storing_keeps:
  assumes "post (ens_repo t)" and "findTopicByErn e (ens_repo t) = Some x" and "same_topic x x'" and "topic_tag_by N req x x'"
    and "\<And>y u. post (ens_repo u) \<Longrightarrow> post (ens_repo (snd (k y u)))"
  shows "post (ens_repo (snd (storing_topic N x' k t)))"
  unfolding storing_topic_def using assms resettled by (intro calling_keeps) simp_all

lemmas steps_keep = refuse_keeps answer_keeps reading_keeps asking_keeps tag_allowed_keeps finding_topic_keeps finding_message_keeps

subsubsection \<open>Delivering\<close>

lemma deliver_keeps: "post (ens_repo s) \<Longrightarrow> post (ens_repo (snd (deliverToSubscriptions N topic mid content attrs sysattrs prio bp s)))"
  by (simp add: deliver_looked looked_up)

lemma redeliver_keeps: "post (ens_repo s) \<Longrightarrow> post (ens_repo (snd (redeliver N e m s)))"
  by (simp add: redeliver_def deliver_keeps)

lemma resend_one_keeps: "post (ens_repo (snd acc)) \<Longrightarrow> post (ens_repo (snd (resend_one N e m acc)))"
  using redeliver_keeps by (auto simp: resend_one_def resendMessage_def split: prod.split)

lemma settling_keeps:
  assumes "post (ens_repo s)" and "known_as e (tm_messageId m) (tm_size m) (ens_repo s)"
  shows "post (ens_repo (settle_held N e b m s)) \<and> no_new (ens_repo s) (ens_repo (settle_held N e b m s))"
proof -
  obtain n u where u: "redeliver N e m s = (n, u)" by fastforce
  then have same: "topic_messages (ens_repo u) = topic_messages (ens_repo s)" "post (ens_repo u)"
    using redeliver_kept(2) [of N e m s] redeliver_keeps [OF assms(1), of e m] by simp_all
  have "known_as e (tm_messageId m) (tm_size m) (ens_repo u)" using assms(2) same(1) by (simp add: known_as_def findMessageById_def)
  moreover have "no_new (ens_repo s) (ens_repo u)" by (simp add: no_new_same [OF same(1)])
  ultimately show ?thesis
    using same(2) handed_on marked no_new_trans [OF _ no_new_marked] no_new_trans [OF _ no_new_deleted] by (simp add: settle_held_def u)
qed

lemma settle_all_keeps:
  assumes "post (ens_repo r0)" and "set ms \<subseteq> {m \<in> set (topic_messages (ens_repo r0)). tm_topicErn m = e}"
    and "post (ens_repo s)" and "no_new (ens_repo r0) (ens_repo s)"
  shows "post (ens_repo (fold (settle_held N e b) ms s))"
  using assms(2-)
proof (induction ms arbitrary: s)
  case (Cons m ms)
  have "known_as (tm_topicErn m) (tm_messageId m) (tm_size m) (ens_repo s)"
    using Cons.prems(1) by (intro known_from [OF Cons.prems(3) unique [OF assms(1)]]) auto
  then have "post (ens_repo (settle_held N e b m s)) \<and> no_new (ens_repo s) (ens_repo (settle_held N e b m s))"
    using Cons.prems(1) by (intro settling_keeps [OF Cons.prems(2)]) auto
  then show ?case using Cons.IH [of "settle_held N e b m s"] Cons.prems(1) no_new_trans [OF Cons.prems(3)] by simp
qed simp

lemma held_of_topic: "set (listHeldMessages e n r) \<subseteq> {m \<in> set (topic_messages r). tm_topicErn m = e}"
  by (auto simp: listHeldMessages_def Let_def by_publication.set_stable_sort dest!: in_set_takeD split: if_splits)

lemma release_keeps:
  assumes "release_held N e b n s = Some (n', s')" and "post (ens_repo s)"
  shows "post (ens_repo s')"
proof -
  have "N = N \<longrightarrow> post (ens_repo s) \<longrightarrow> post (ens_repo (snd (n', s')))"
  proof (rule release_held.raw_induct [where P = "\<lambda>M e b n s r. M = N \<longrightarrow> post (ens_repo s) \<longrightarrow> post (ens_repo (snd r))", OF _ assms(1)])
    fix release M e b and n :: int and s and r :: "int \<times> ens_server"
    assume later: "\<And>M e b n s r. release M e b n s = Some r \<Longrightarrow> M = N \<longrightarrow> post (ens_repo s) \<longrightarrow> post (ens_repo (snd r))"
      and run: "(let held = listHeldMessages e kTopicPage (ens_repo s)
        in if held = [] then Some (n, s)
           else let s = fold (settle_held M e b) held s; n = n + int (length held)
                in if length held < kTopicPage then Some (n, s) else release M e b n s) = Some r"
    show "M = N \<longrightarrow> post (ens_repo s) \<longrightarrow> post (ens_repo (snd r))"
    proof (intro impI)
      assume "M = N" and s: "post (ens_repo s)"
      then show "post (ens_repo (snd r))"
        using run settle_all_keeps [OF s held_of_topic s no_new_refl]
        by (auto simp: Let_def split: if_splits dest: later)
    qed
  qed
  then show ?thesis using assms(2) by simp
qed

lemma resend_all_keep: "post (ens_repo (snd acc)) \<Longrightarrow> post (ens_repo (snd (fold (resend_one N e) ms acc)))"
  by (induction ms arbitrary: acc) (simp_all add: resend_one_keeps)

lemma resend_pages_keep:
  assumes "resend_pages N e afterOid acc = Some acc'" and "post (ens_repo (snd acc))"
  shows "post (ens_repo (snd acc'))"
proof -
  have "N = N \<longrightarrow> post (ens_repo (snd acc)) \<longrightarrow> post (ens_repo (snd acc'))"
  proof (rule resend_pages.raw_induct [where P = "\<lambda>M e afterOid acc r. M = N \<longrightarrow> post (ens_repo (snd acc)) \<longrightarrow> post (ens_repo (snd r))", OF _ assms(1)])
    fix resend M e afterOid and acc acc' :: "ResendCounts \<times> ens_server"
    assume later: "\<And>M e afterOid acc acc'. resend M e afterOid acc = Some acc' \<Longrightarrow>
        M = N \<longrightarrow> post (ens_repo (snd acc)) \<longrightarrow> post (ens_repo (snd acc'))"
      and run: "(let page = listMessagesAfter e kTopicPage afterOid (ens_repo (snd acc))
        in if page = [] then Some acc
           else let acc = fold (resend_one M e) page acc
                in if length page < kTopicPage then Some acc else resend M e (tm_oid (last page)) acc) = Some acc'"
    show "M = N \<longrightarrow> post (ens_repo (snd acc)) \<longrightarrow> post (ens_repo (snd acc'))"
      using run resend_all_keep [of acc e "listMessagesAfter e kTopicPage afterOid (ens_repo (snd acc))"]
      by (auto simp: Let_def split: if_splits dest!: later)
  qed
  then show ?thesis using assms(2) by simp
qed

lemma resend_keeps: "resendAllMessages N e s = Some (counts, t) \<Longrightarrow> post (ens_repo s) \<Longrightarrow> post (ens_repo t)"
  using resend_pages_keep [of e "''''" "((0, 0), s)" "(counts, t)"] by (simp add: resendAllMessages_def)

lemma publish_keeps:
  assumes "pre s" and "findTopicByErn topic (ens_repo s) \<noteq> None"
  shows "post (ens_repo (snd (publishToTopic N topic content attrs account prio sysattrs bp b s)))"
proof -
  let ?n = "publish_no s"
  let ?mid = "random_uuid (base N) ?n"
  obtain m r where m: "publishMessage (repo_world N ?n) ?mid (createEnsMessageErn (ern_region (http (base N))) account ?mid) topic content
      attrs prio (ens_repo s) = (m, r)" by fastforce
  have r: "post r" using published [OF kept [OF assms(1)] assms(2) fresh [OF assms(1)]] m by (metis snd_conv)
  note fm = published_fields(1,2) [OF m]
  have "known_as topic ?mid (tm_size m) r"
    using known_published [OF m assms(2) fresh [OF assms(1)]] .
  moreover have "known_as topic ?mid (tm_size m) t" if "known_as topic ?mid (tm_size m) r" "topic_messages t = topic_messages r" for t
    using that by (simp add: known_as_def findMessageById_def)
  moreover obtain s1 where s1: "s1 = on_topics (recordSend (repo_world N ?n) topic 1)
      (recordMessages kTopicMessagesSent kTopicBytesSent topic 1 (tm_size m) (s\<lparr>ens_repo := r\<rparr>))" by blast
  have post1: "post (ens_repo s1)" "topic_messages (ens_repo s1) = topic_messages r"
    using counted(1) [OF r] by (simp add: s1) (simp add: s1 recordSend_def)
  obtain n u where u: "deliverToSubscriptions N topic ?mid content (attributes_json attrs) sysattrs prio bp s1 = (n, u)" by fastforce
  have "post (ens_repo u)" "topic_messages (ens_repo u) = topic_messages r"
    using deliver_keeps [OF post1(1), of topic ?mid content "attributes_json attrs" sysattrs prio bp]
      deliver_kept(2) [of N topic ?mid content "attributes_json attrs" sysattrs prio bp s1] post1(2)
    by (simp_all add: u)
  ultimately show ?thesis
    using post1(1) unfolding publishToTopic_def m Let_def by (simp add: s1 [symmetric] fm u handed_on)
qed

subsubsection \<open>The handlers\<close>

lemma reads_keep:
  assumes "post (ens_repo s)"
  shows "post (ens_repo (snd (handleGetTopicErn N req s)))" "post (ens_repo (snd (handleGetTopic N req s)))"
    "post (ens_repo (snd (handleListTopics N req s)))" "post (ens_repo (snd (handleGetTopicMessageCount N req s)))"
    "post (ens_repo (snd (handleGetTopicMetadata N req s)))" "post (ens_repo (snd (handleGetTopicMessage N req s)))"
    "post (ens_repo (snd (handleListTopicMessages N req s)))" "post (ens_repo (snd (handleGetTopicMessageAttribute N req s)))"
    "post (ens_repo (snd (handleListSubscriptions N req s)))"
  using assms
  by (auto simp: handleGetTopicErn_def handleGetTopic_def handleListTopics_def handleGetTopicMessageCount_def handleGetTopicMetadata_def
      handleGetTopicMessage_def handleListTopicMessages_def handleGetTopicMessageAttribute_def handleListSubscriptions_def
      topic_attribute_answer_def Let_def intro!: steps_keep split: option.split sum.split)

lemma settings_same:
  "same_topic t (t\<lparr>t_retentionPeriod := n\<rparr>)" "same_topic t (t\<lparr>t_maxMessageLength := n\<rparr>)" "same_topic t (t\<lparr>deleteAfterDelivery := b\<rparr>)"
  "same_topic t (t\<lparr>delivering := b\<rparr>)" "same_topic t (t\<lparr>t_tags := ts\<rparr>)"
  by (simp_all add: same_topic_def topic_key_def books_def)

lemma settings_tag:
  "topic_tag_by N req t (t\<lparr>t_retentionPeriod := n\<rparr>)" "topic_tag_by N req t (t\<lparr>t_maxMessageLength := n\<rparr>)"
  "topic_tag_by N req t (t\<lparr>deleteAfterDelivery := b\<rparr>)" "topic_tag_by N req t (t\<lparr>delivering := b\<rparr>)"
  by (simp_all add: topic_tag_by_def)

lemma settings_keep:
  assumes "post (ens_repo s)"
  shows "post (ens_repo (snd (handleSetTopicRetention N req s)))" "post (ens_repo (snd (handleSetTopicMaxMessageLength N req s)))"
    "post (ens_repo (snd (handleSetTopicDeleteAfterDelivery N req s)))"
  using assms
  by (auto simp: handleSetTopicRetention_def handleSetTopicMaxMessageLength_def handleSetTopicDeleteAfterDelivery_def storing_setting_def
      intro!: steps_keep storing_keeps settings_same settings_tag)

lemma tags_keep:
  assumes "post (ens_repo s)"
  shows "post (ens_repo (snd (handleAddTopicTag N req s)))" "post (ens_repo (snd (handleSetTopicTag N req s)))"
    "post (ens_repo (snd (handleDeleteTopicTag N req s)))"
  using assms
  by (auto simp: handleAddTopicTag_def handleSetTopicTag_def handleDeleteTopicTag_def topic_tag_by_def
      intro!: steps_keep storing_keeps) (auto simp: settings_same)

lemma delivering_keeps:
  assumes "post (ens_repo s)"
  shows "post (ens_repo (snd (handleStartTopic N req s)))" "post (ens_repo (snd (handleStopTopic N req s)))"
    "post (ens_repo (snd (handleResendMessages N req s)))"
proof -
  have "post (ens_repo (snd (case release_held N e b 0 u of None \<Rightarrow> (Waiting, u) | Some (n, v) \<Rightarrow>
      delivering_answer t n (on_topics (recordResend (repo_world N 0) e n) v))))" if "post (ens_repo u)" for e b u t
    using that by (auto simp: delivering_answer_def intro!: answer_keeps counted dest: release_keeps split: option.split)
  then have release: "post (ens_repo (snd (if \<not> on then delivering_answer t 0 u else case release_held N e b 0 u of None \<Rightarrow> (Waiting, u) | Some (n, v) \<Rightarrow>
      delivering_answer t n (on_topics (recordResend (repo_world N 0) e n) v))))" if "post (ens_repo u)" for on e b u t
    using that by (cases on) (simp_all add: delivering_answer_def answer_keeps)
  have "post (ens_repo (snd (setTopicDelivering N req on s)))" for on
    unfolding setTopicDelivering_def
  proof (rule asking_keeps [OF assms])
    fix user and e :: string
    have "post (ens_repo (snd (finding_topic e (\<lambda>t. storing_topic N (t\<lparr>delivering := on\<rparr>) (\<lambda>t s.
         if \<not> on then delivering_answer t 0 s
         else case release_held N e (deleteAfterDelivery t) 0 s of
                None \<Rightarrow> (Waiting, s)
              | Some (released, s) \<Rightarrow> delivering_answer t released (on_topics (recordResend (repo_world N 0) e released) s))) s)))"
    proof (rule finding_topic_keeps [OF assms])
      show "post (ens_repo (snd (storing_topic N (x\<lparr>delivering := on\<rparr>) (\<lambda>t s.
         if \<not> on then delivering_answer t 0 s
         else case release_held N e (deleteAfterDelivery t) 0 s of
                None \<Rightarrow> (Waiting, s)
              | Some (released, s) \<Rightarrow> delivering_answer t released (on_topics (recordResend (repo_world N 0) e released) s)) s)))"
        if "findTopicByErn e (ens_repo s) = Some x" for x
        by (rule storing_keeps [OF assms that settings_same(4) settings_tag(4)]) (rule release)
    qed
    then show "post (ens_repo (snd ((if e = '''' then refuse Bad_request ''ern is required''
         else finding_topic e (\<lambda>t. storing_topic N (t\<lparr>delivering := on\<rparr>) (\<lambda>t s.
         if \<not> on then delivering_answer t 0 s
         else case release_held N e (deleteAfterDelivery t) 0 s of
                None \<Rightarrow> (Waiting, s)
              | Some (released, s) \<Rightarrow> delivering_answer t released (on_topics (recordResend (repo_world N 0) e released) s)))) s)))"
      using refuse_keeps [OF assms] by simp
  qed
  then show "post (ens_repo (snd (handleStartTopic N req s)))" "post (ens_repo (snd (handleStopTopic N req s)))"
    by (simp_all add: handleStartTopic_def handleStopTopic_def)
  have resend: "post (ens_repo (snd (resend_answer N t e counts u)))" if "post (ens_repo u)" for t e counts u
    using that by (simp add: resend_answer_def answer_keeps counted)
  have "post (ens_repo (resendMessage N e m u))" if "post (ens_repo u)" for e m u
    using that by (simp add: resendMessage_def redeliver_keeps)
  then have single: "post (ens_repo (snd (resend_single N t e mid u)))" if "post (ens_repo u)" for t e mid u
    using that by (auto simp: resend_single_def intro!: steps_keep resend)
  have every: "post (ens_repo (snd (case resendAllMessages N e s of None \<Rightarrow> (Waiting, s) | Some (counts, u) \<Rightarrow> resend_answer N t e counts u)))"
    for e t
    using assms resend_keeps [OF _ assms] by (auto split: option.split prod.split intro: resend)
  show "post (ens_repo (snd (handleResendMessages N req s)))"
    using assms by (auto simp: handleResendMessages_def intro!: steps_keep single every)
qed

lemma create_keeps:
  assumes "pre s" and "topicCommandFromString (header req ''x-euclid-action'') = CreateTopic"
  shows "post (ens_repo (snd (handleCreateTopic N req s)))"
proof -
  have "post (snd (upsertTopic (repo_world N 0) (asked_topic N req user name len) (ens_repo s)))"
    if "callers (base N) req user" "ParseJsonBody (http (base N)) (ens_installErnResolver (http (base N))) req = Inr v"
      "read_CreateTopicRequest v = Inr (name, len)" for user v name len
    using that assms(2) by (intro created [OF assms(1)]) (simp add: asks_for_topic_def)
  then show ?thesis
    using kept [OF assms(1)] by (auto simp: handleCreateTopic_def storing_topic_def intro!: steps_keep calling_keeps)
qed

lemma message_writes_keep:
  assumes "post (ens_repo s)"
  shows "post (ens_repo (snd (handleSetTopicMessageAttribute N req s)))" "post (ens_repo (snd (handleUpdateTopicMessageBody N req s)))"
    "post (ens_repo (snd (handlePurgeTopic N req s)))" "post (ens_repo (snd (handlePurgeAllTopics N req s)))"
    "post (ens_repo (snd (handleDeleteTopic N req s)))"
  using assms
  by (auto simp: handleSetTopicMessageAttribute_def handleUpdateTopicMessageBody_def handlePurgeTopic_def handlePurgeAllTopics_def
      handleDeleteTopic_def topic_attribute_answer_def topic_message_missing_def Let_def rewritten body_rewritten purged removed
      intro!: steps_keep calling_keeps split: option.split)

lemma subscriptions_keep:
  assumes "post (ens_repo s)"
  shows "post (ens_repo (snd (handleSubscribe N req s)))" "post (ens_repo (snd (handleUnsubscribe N req s)))"
  using assms by (auto simp: handleSubscribe_def handleUnsubscribe_def intro!: steps_keep calling_keeps subscribed unsubscribed)

lemma publishing_keeps:
  assumes "pre s"
  shows "post (ens_repo (snd (handlePublishMessage N req s)))"
proof -
  have "post (ens_repo (snd (case publishToTopic N topic content attrs account prio sysattrs bp b s of (m, t) \<Rightarrow> answer Ok (f m) t)))"
    if "findTopicByErn topic (ens_repo s) = Some x" for topic content attrs account prio sysattrs bp b f x
    using publish_keeps [OF assms, of topic content attrs account prio sysattrs bp b] that
    by (auto simp: answer_def split: prod.split)
  then show ?thesis
    using kept [OF assms] by (auto simp: handlePublishMessage_def Let_def intro!: steps_keep)
qed

lemma dispatch_keeps: "pre s \<Longrightarrow> post (ens_repo (snd (ens_dispatch N req s)))"
  by (cases "topicCommandFromString (header req ''x-euclid-action'')")
    (simp_all add: ens_dispatch_def Let_def kept reads_keep settings_keep tags_keep delivering_keeps create_keeps message_writes_keep
      subscriptions_keep publishing_keeps refuse_keeps answer_keeps not_implemented_def ens_MetricsResponse_def)

lemma serve_keeps: "pre s \<Longrightarrow> post (ens_repo (fst (snd (ens_serve N req (s, trail)))))"
  using dispatch_keeps [of s] kept [of s]
  by (auto simp: ens_serve_def Dispatch_def split: option.split prod.split outcome.split)

lemma notification_keeps: "pre s \<Longrightarrow> post (ens_repo (snd (handleObjectPublishedNotification N e s)))"
  using kept [of s] publish_keeps [of s]
  by (auto simp: handleObjectPublishedNotification_def split: sum.split prod.split option.split)

lemma thread_keeps:
  assumes "post (ens_repo s)"
  shows "post (ens_repo (topic_purge_thread N s))" "topic_resend_thread N s = Some t \<Longrightarrow> post (ens_repo t)"
  using assms resend_keeps
  by (auto simp: topic_purge_thread_def topic_resend_thread_def purged counted split: list.splits)

end

end
