(* ===== verification/Ens_Service.thy ===== *)
theory Ens_Service
  imports Ens_Upholds Eqs_Service
begin

text \<open>
  The topics' counters over everything the ENS module does: requests, notifications of stored objects, purges and resends in
  the background, and the timer. The index that expires messages is not among the steps; what it takes is counted until the
  next recount, which is exact whatever was there before.
\<close>

subsection \<open>Exact counters\<close>

text \<open>Where the counters cannot drift: the id drawn for a message is new, and a topic is not created over one that exists.\<close>

definition topics_drift_free :: "ens_server_env \<Rightarrow> http_request \<Rightarrow> ens_server \<Rightarrow> bool" where
  "topics_drift_free N req s \<longleftrightarrow> random_uuid (base N) (publish_no s) \<notin> tm_messageId ` set (topic_messages (ens_repo s)) \<and>
     (\<forall>user name len. asks_for_topic N req user name len \<longrightarrow>
        findTopicByName (user_accountId user) (header req ''x-euclid-namespace'') name (ens_repo s) = None)"

text \<open>The counters exact, and the cache of subscriptions not behind the store.\<close>

definition sound_topics :: "ens \<Rightarrow> bool" where
  "sound_topics r \<longleftrightarrow> exact_topics r \<and> current_subscriptions r"

text \<open>What writes topics and messages leaves the subscriptions and their cache.\<close>

lemma writes_leave_current [simp]:
  "current_subscriptions (snd (publishMessage E mid e topic content attrs prio r)) = current_subscriptions r"
  "current_subscriptions (recordSend E e n r) = current_subscriptions r"
  "current_subscriptions (recordResend E e n r) = current_subscriptions r"
  "current_subscriptions (markMessageDelivered E mid r) = current_subscriptions r"
  "current_subscriptions (snd (deleteDeliveredMessage E e mid bytes r)) = current_subscriptions r"
  "current_subscriptions (snd (upsertTopic E t r)) = current_subscriptions r"
  "current_subscriptions (upsertTopicMessage E m r) = current_subscriptions r"
  "current_subscriptions (snd (updateTopicMessageBody E mid content r)) = current_subscriptions r"
  "current_subscriptions (purgeTopic E e r) = current_subscriptions r"
  "current_subscriptions (purgeAllTopics E reg account ns r) = current_subscriptions r"
  "current_subscriptions (deleteTopicByErn e r) = current_subscriptions r"
  by (rule current_cong;
      simp add: publishMessage_def insert_topic_message_def recordSend_def recordResend_def markMessageDelivered_def
        deleteDeliveredMessage_def upsertTopic_def upsertTopicMessage_def updateTopicMessageBody_def purgeTopic_def purgeAllTopics_def
        deleteTopicByErn_def update_topic_def Let_def split: option.split)+

lemma recount_current: "current_subscriptions (recountTopics r) = current_subscriptions r"
proof -
  have "topic_subscriptions (fold recount_topic es r) = topic_subscriptions r \<and> subscriptionCache (fold recount_topic es r) = subscriptionCache r" for es r
    by (induction es arbitrary: r) (simp_all add: recount_topic_def)
  then show ?thesis by (intro current_cong) (simp_all add: recountTopics_def)
qed

interpretation sound: topics_upholding N req "\<lambda>s. sound_topics (ens_repo s) \<and> topics_drift_free N req s" sound_topics for N req
proof unfold_locales
  fix r r' :: ens
  show "distinct (map tm_messageId (topic_messages r))" if "sound_topics r" using that exactD(3) by (simp add: sound_topics_def)
  show "sound_topics (snd (listSubscriptionsBySourceErnCached E e r))" if "sound_topics r" for E e
    using that exact_cong [of "snd (listSubscriptionsBySourceErnCached E e r)" r] by (simp add: sound_topics_def current_looked_up)
  show "sound_topics (snd (upsertSubscription E x r))" if "sound_topics r" for E x
  proof -
    obtain y u where u: "upsertSubscription E x r = (y, u)" by fastforce
    have "exact_topics u" using that exact_cong [OF subscribed_listed(6,7) [OF u]] by (simp add: sound_topics_def)
    moreover have "current_subscriptions u" using that current_subscribed [of r E x] by (simp add: u sound_topics_def)
    ultimately show ?thesis by (simp add: u sound_topics_def)
  qed
  show "sound_topics (deleteSubscriptionByErn e r)" if "sound_topics r" for e
    using that exact_cong [of "deleteSubscriptionByErn e r" r] current_unsubscribed [of e r]
    by (simp add: sound_topics_def deleteSubscriptionByErn_def)
  show "sound_topics (snd (deleteDeliveredMessage E e mid bytes r))" if "sound_topics r" "known_as e mid bytes r" for E e mid bytes
    using that exact_deleteDelivered [of r mid e bytes E] by (auto simp: sound_topics_def known_as_def)
  show "sound_topics (snd (upsertTopic (repo_world N 0) t' r))" if "sound_topics r" "findTopicByErn e r = Some t" "same_topic t t'" for e t t'
    using that findTopicByErn_mem [OF that(2)] exact_resettled(1) [of r t t'] by (auto simp: sound_topics_def same_topic_def)
  show "sound_topics (snd (upsertTopic (repo_world N 0) (asked_topic N req user name len) (ens_repo s)))"
    if "sound_topics (ens_repo s) \<and> topics_drift_free N req s" "asks_for_topic N req user name len" for s user name len
  proof -
    have "findTopicByName (t_accountId (asked_topic N req user name len)) (t_nameSpace (asked_topic N req user name len))
        (t_name (asked_topic N req user name len)) (ens_repo s) = None"
      using that by (auto simp: topics_drift_free_def asked_topic_def Let_def)
    moreover have "exact_topics (ens_repo s)" and c: "current_subscriptions (ens_repo s)" using that by (simp_all add: sound_topics_def)
    moreover have "books (asked_topic N req user name len) = (0, 0)" by (simp add: asked_topic_def new_Topic_def books_def Let_def)
    ultimately have "exact_topics (snd (upsertTopic (repo_world N 0) (asked_topic N req user name len) (ens_repo s)))"
      using exact_created by blast
    then show ?thesis using c by (simp add: sound_topics_def)
  qed
  show "sound_topics (upsertTopicMessage E (m\<lparr>tm_attributes := as\<rparr>) r)" if "sound_topics r" "findMessageById mid r = Some m" for E mid m as
  proof -
    have "exact_topics r" "current_subscriptions r" using that(1) by (simp_all add: sound_topics_def)
    moreover have "exact_topics (upsertTopicMessage E (m\<lparr>tm_attributes := as\<rparr>) r)"
      using \<open>exact_topics r\<close> findMessageById_mem [OF that(2)] that(2) by (intro exact_upsertTopicMessage [where old = m]) simp_all
    ultimately show ?thesis by (simp add: sound_topics_def)
  qed
qed (auto simp: topics_drift_free_def sound_topics_def exact_publish exact_body)

subsection \<open>Runs\<close>

inductive topic_step :: "ens_server \<Rightarrow> ens_server \<Rightarrow> bool" where
  asked: "topics_drift_free N req s \<Longrightarrow> ens_serve N req (s, trail) = (out, t, trail') \<Longrightarrow> topic_step s t"
| notified: "random_uuid (base N) (publish_no s) \<notin> tm_messageId ` set (topic_messages (ens_repo s)) \<Longrightarrow>
    handleObjectPublishedNotification N e s = (verdict, t) \<Longrightarrow> topic_step s t"
| purged_behind: "topic_step s (topic_purge_thread N s)"
| resent_behind: "topic_resend_thread N s = Some t \<Longrightarrow> topic_step s t"
| recounted_topics: "topic_step s (topics_recount_task claimed_run s)"
| on_the_bus: "topic_step s (s\<lparr>topic_bus := b\<rparr>)"
| queues_changed: "topic_step s (s\<lparr>queue_repo := q\<rparr>)"

text \<open>A request of nobody, with which the laws of the interpretation serve the steps that are no request.\<close>

definition nobody_asks :: http_request where
  "nobody_asks = \<lparr>headers = [], http_body = ''''\<rparr>"

lemma nobody_creates: "\<not> asks_for_topic N nobody_asks user name len"
  by (simp add: asks_for_topic_def nobody_asks_def header_def topicCommandFromString_def topic_command_names_def)

lemma topic_step_sound: "topic_step s t \<Longrightarrow> sound_topics (ens_repo s) \<Longrightarrow> sound_topics (ens_repo t)"
proof (induction rule: topic_step.induct)
  case (asked N req s trail out t trail')
  then show ?case using sound.serve_keeps [of s N req trail] by simp
next
  case (notified N s e verdict t)
  then have "topics_drift_free N nobody_asks s" by (simp add: topics_drift_free_def nobody_creates)
  then show ?case using sound.notification_keeps [of s N nobody_asks e] notified by simp
next
  case (resent_behind N s t)
  then show ?case using sound.thread_keeps(2) by blast
next
  case (purged_behind s N)
  then show ?case by (rule sound.thread_keeps(1))
qed (simp_all add: topics_recount_task_def sound_topics_def exact_recount recount_current)

definition empty_ens :: ens where
  "empty_ens = \<lparr>topics = [], topic_messages = [], topic_subscriptions = [], subscriptionCache = new_cache 5000 4096 False\<rparr>"

definition empty_ens_server :: ens_server where
  "empty_ens_server = \<lparr>ens_repo = empty_ens, topic_bus = empty_bus, queue_repo = eqs_start, topic_purges = [], topic_resends = [],
     topic_metrics = []\<rparr>"

interpretation topic_runs: inductive_invariant empty_ens_server topic_step "\<lambda>s. sound_topics (ens_repo s)"
proof unfold_locales
  show "sound_topics (ens_repo empty_ens_server)"
    by (simp add: sound_topics_def exact_topics_def current_subscriptions_def empty_ens_server_def empty_ens_def new_cache_def)
qed (rule topic_step_sound)


end
