(* ===== verification/Ens_Samples.thy ===== *)
theory Ens_Samples
  imports Ens_Service
begin

text \<open>
  A small installation of the ENS module, on which its properties are applied to concrete requests: the users of
  \<^verbatim>\<open>Eqs_Samples\<close>, one topic, and one queue subscribed to it.
\<close>

definition sample_ens_service :: "json \<Rightarrow> ens_server_env" where
  "sample_ens_service content =
     \<lparr>base = sample_service content, repo_world = (\<lambda>i. \<lparr>common = sample_eqs_env (1000 + int i), topic_retention = None\<rparr>),
      publish_env = (\<lambda>n. sample_bus_env (2000 + int n)), md5Sum = (\<lambda>s. s)\<rparr>"

definition news :: ern where
  "news = ''ern:ens:eu-central-1:1:dev:topic:news''"

definition sample_topic :: Topic where
  "sample_topic = (new_Topic 0)\<lparr>t_region := ''eu'', t_accountId := ''1'', t_nameSpace := ''dev'', t_owner := ''root'',
     t_oid := ''t'', t_name := ''news'', t_ern := news\<rparr>"

definition sample_subscription :: TopicSubscription where
  "sample_subscription = \<lparr>ts_region = ''eu'', ts_accountId = ''1'', ts_nameSpace = ''dev'', ts_owner = ''root'', ts_oid = ''x'',
     ts_ern = ''ern:ens:subscription'', ts_sourceErn = news, ts_type = ''SQS'', ts_targetErn = orders, ts_created = 0, ts_modified = 0\<rparr>"

definition subscribed_bus :: bus where
  "subscribed_bus = empty_bus\<lparr>subscriptions := [\<lparr>sub_moduleType = ''eqs'', sub_eventType = message_published, sub_filter = [],
     sub_accountId = '''', sub_mode = Durable, ephemeral = False, sub_createdAt = 0, lastSeenAt = 0\<rparr>]\<rparr>"

definition topic_server :: "Topic \<Rightarrow> TopicMessage list \<Rightarrow> ens_server" where
  "topic_server t ms = empty_ens_server\<lparr>ens_repo := empty_ens\<lparr>topics := [t], topic_messages := ms, topic_subscriptions := [sample_subscription]\<rparr>,
     topic_bus := subscribed_bus\<rparr>"

lemmas ens_samples = sample_ens_service_def sample_topic_def sample_subscription_def subscribed_bus_def topic_server_def
  empty_ens_server_def empty_ens_def new_Topic_def news_def

lemma sample_base [simp]: "base (sample_ens_service v) = sample_service v"
  by (simp add: sample_ens_service_def)

lemma sample_region [simp]: "ern_region (http (sample_service v)) = ''eu-central-1''"
  by (simp add: ern_region_def sample_service_def sample_http_def)

lemma root_asking:
  "asking (sample_ens_service (JObject fs)) (asks ''root'' action) read k s =
    reading (read (ens_installErnResolver (http (sample_service (JObject fs))) (asks ''root'' action) (JObject fs))) (k (sample_user ''root'')) s"
  by (simp add: asking_def asks_authenticated with_topic_json_def ParseJsonBody_def)

lemma root_resolver:
  "ens_installErnResolver (http (sample_service v)) (asks ''root'' action) (JObject fs) =
    JObject (fold (resolve_as (http (sample_service v)) ''1'' ''dev'') ens_fields fs)"
  by (simp add: ens_installErnResolver_def Let_def)

lemma root_ens_served:
  "ens_serve (sample_ens_service v) (asks ''root'' action) (s, trail) =
    (case ens_dispatch (sample_ens_service v) (asks ''root'' action) s of
       (Answer r, s) \<Rightarrow> (Answer r, s, RecordAudit (http (sample_service v)) (asks ''root'' action) (status_code (resp_status r)) trail)
     | (other, s) \<Rightarrow> (other, s, trail))"
  using sample_gate(2) [of "''root''" v action] by (simp add: ens_serve_def Dispatch_def root_entitled)

lemmas resolving = root_resolver ens_fields_def resolve_as_def resolveErn_def createErnIn_def

subsection \<open>A topic is created and published to\<close>

definition create_news :: json where
  "create_news = JObject [(''name'', JString ''news'')]"

definition created_news :: ens_server where
  "created_news = fst (snd (ens_serve (sample_ens_service create_news) (asks ''root'' ''create-topic'') (empty_ens_server, [])))"

definition publish_hello :: json where
  "publish_hello = JObject [(''ern'', JString ''news''), (''body'', JString ''hello'')]"

definition published_hello :: ens_server where
  "published_hello = fst (snd (ens_serve (sample_ens_service publish_hello) (asks ''root'' ''publish-message'') (created_news, [])))"

lemma sample_commands:
  "topicCommandFromString ''create-topic'' = CreateTopic" "topicCommandFromString ''publish-message'' = PublishMessage"
  "topicCommandFromString ''start-topic'' = StartTopic" "topicCommandFromString ''resend-messages'' = ResendMessages"
  "topicCommandFromString ''add-topic-tag'' = AddTopicTag"
  by (simp_all add: topicCommandFromString_def topic_command_names_def)

lemma created_news_repo: "ens_repo created_news =
    empty_ens\<lparr>topics := [sample_topic\<lparr>t_oid := ''o'', t_created := 1000, t_modified := 1000\<rparr>]\<rparr>" "topic_metrics created_news = []"
  "topic_bus created_news = empty_bus"
proof -
  have "read_CreateTopicRequest create_news = Inr (''news'', 1024 * 1024)"
    by (simp add: read_CreateTopicRequest_def create_news_def GetStringValue_def)
  then have d: "ens_dispatch (sample_ens_service create_news) (asks ''root'' ''create-topic'') empty_ens_server =
      storing_topic (sample_ens_service create_news) (asked_topic (sample_ens_service create_news) (asks ''root'' ''create-topic'')
          (sample_user ''root'') ''news'' (1024 * 1024))
        (\<lambda>saved. answer Ok (Some (JObject [(''name'', JString (t_name saved)), (''ern'', JString (t_ern saved))]))) empty_ens_server"
    by (simp add: ens_dispatch_def sample_commands handleCreateTopic_def create_news_def root_asking resolving reading_def)
  have "ens_repo created_news = empty_ens\<lparr>topics := [sample_topic\<lparr>t_oid := ''o'', t_created := 1000, t_modified := 1000\<rparr>]\<rparr> \<and>
      topic_metrics created_news = [] \<and> topic_bus created_news = empty_bus"
    unfolding created_news_def root_ens_served d storing_topic_def on_ens_def
    by (simp add: answer_def upsertTopic_def asked_topic_def topic_named_def
        createEnsTopicErn_def createErnIn_def kTopicMaxMessageLength_def ens_samples sample_user_def sample_eqs_env_def Let_def)
  then show "ens_repo created_news = empty_ens\<lparr>topics := [sample_topic\<lparr>t_oid := ''o'', t_created := 1000, t_modified := 1000\<rparr>]\<rparr>"
    "topic_metrics created_news = []" "topic_bus created_news = empty_bus" by simp_all
qed


lemma created_news_found: "findTopicByErn news (ens_repo created_news) = Some (sample_topic\<lparr>t_oid := ''o'', t_created := 1000, t_modified := 1000\<rparr>)"
  by (simp add: findTopicByErn_def created_news_repo sample_topic_def)

lemma hello_published:
  assumes "findTopicByErn news (ens_repo s) = Some t" and "t_maxMessageLength t = kTopicMaxMessageLength"
  shows "handlePublishMessage (sample_ens_service publish_hello) (asks ''root'' action) s =
    (case publishToTopic (sample_ens_service publish_hello) news ''hello'' [] ''1'' ''MEDIUM'' [] '''' (deleteAfterDelivery t) s of
       (m, s) \<Rightarrow> answer Ok (Some (JObject [(''messageId'', JString (tm_messageId m))])) s)"
proof -
  have r: "read_PublishMessageRequest (JObject [(''ern'', JString news), (''body'', JString ''hello'')]) =
      Inr \<lparr>pm_ern = news, pm_body = ''hello'', pm_attributes = [], pm_priority = ''MEDIUM''\<rparr>"
    by (simp add: read_PublishMessageRequest_def GetStringValue_def GetMapFromObject_def AttributeExists_def)
  have f: "JObject (fold (resolve_as (http (sample_service publish_hello)) ''1'' ''dev'') ens_fields [(''ern'', JString ''news''), (''body'', JString ''hello'')]) =
      JObject [(''ern'', JString news), (''body'', JString ''hello'')]"
    by (simp add: ens_fields_def resolve_as_def resolveErn_def createErnIn_def news_def)
  have p: "TryMessagePriorityFromString ''MEDIUM'' = Some MEDIUM" by code_simp
  show ?thesis
    unfolding publish_hello_def
    by (simp add: handlePublishMessage_def root_asking root_resolver f [unfolded publish_hello_def] r reading_def
      finding_topic_def assms EffectiveTopicMessageLength_def kTopicMaxMessageLength_def p sample_user_def)
qed

subsection \<open>What is counted\<close>

lemma news_drift_free:
  "topics_drift_free (sample_ens_service create_news) (asks ''root'' ''create-topic'') empty_ens_server"
  "topics_drift_free (sample_ens_service publish_hello) (asks ''root'' ''publish-message'') created_news"
  by (simp_all add: topics_drift_free_def asks_for_topic_def sample_commands empty_ens_server_def empty_ens_def findTopicByName_def
      created_news_repo)

lemma created_news_reached: "reach empty_ens_server topic_step created_news"
  unfolding created_news_def
  by (rule reach.step [OF reach.start])
    (use news_drift_free(1) in \<open>auto intro!: topic_step.asked [of _ _ _ "[]"] simp: prod_eq_iff\<close>)

lemma published_hello_reached: "reach empty_ens_server topic_step published_hello"
  unfolding published_hello_def
  by (rule reach.step [OF created_news_reached])
    (use news_drift_free(2) in \<open>auto intro!: topic_step.asked [of _ _ _ "[]"] simp: prod_eq_iff\<close>)

subsection \<open>A queue is subscribed\<close>

definition subscribe_orders :: json where
  "subscribe_orders = JObject [(''sourceErn'', JString ''news''), (''type'', JString ''SQS''), (''targetErn'', JString orders)]"

definition with_orders :: "ens_server \<Rightarrow> ens_server" where
  "with_orders s = s\<lparr>queue_repo := eqs_repo (sample_server []), topic_bus := subscribed_bus\<rparr>"

definition subscribed_news :: ens_server where
  "subscribed_news =
     fst (snd (ens_serve (sample_ens_service subscribe_orders) (asks ''root'' ''subscribe'') (with_orders created_news, [])))"

lemma subscribe_command: "topicCommandFromString ''subscribe'' = SubscribeCommand"
  by (simp add: topicCommandFromString_def topic_command_names_def)

lemma subscribed_news_eq: "\<exists>x. subscribed_news = (with_orders created_news)\<lparr>ens_repo :=
    (ens_repo created_news)\<lparr>topic_subscriptions := [x], subscriptionCache := cache_erase news (subscriptionCache (ens_repo created_news))\<rparr>\<rparr> \<and>
    ts_sourceErn x = news \<and> ts_type x = ''SQS'' \<and> ts_targetErn x = orders"
proof -
  have f: "JObject (fold (resolve_as (http (sample_service subscribe_orders)) ''1'' ''dev'') ens_fields
        [(''sourceErn'', JString ''news''), (''type'', JString ''SQS''), (''targetErn'', JString orders)]) =
      JObject [(''sourceErn'', JString news), (''type'', JString ''SQS''), (''targetErn'', JString orders)]"
    by (simp add: ens_fields_def resolve_as_def orders_resolved) (simp add: resolveErn_def createErnIn_def news_def)
  have r: "read_SubscribeRequest (JObject [(''sourceErn'', JString news), (''type'', JString ''SQS''), (''targetErn'', JString orders)]) =
      Inr \<lparr>sr_sourceErn = news, sr_type = ''SQS'', sr_targetErn = orders\<rparr>"
    by (simp add: read_SubscribeRequest_def GetStringValue_def)
  have e: "isEnsTopicErn news" "isEqsQueueErn orders" by (simp_all add: isEnsTopicErn_def isEqsQueueErn_def news_def orders_def)
  obtain q where q: "findQueueByErn orders (queue_repo (with_orders created_news)) = Some q"
    by (simp add: with_orders_def findQueueByErn_def service_samples)
  define x where "x = asked_subscription (sample_ens_service subscribe_orders) (asks ''root'' ''subscribe'') (sample_user ''root'')
      \<lparr>sr_sourceErn = news, sr_type = ''SQS'', sr_targetErn = orders\<rparr>"
  have x: "ts_sourceErn x = news" "ts_type x = ''SQS''" "ts_targetErn x = orders" by (simp_all add: x_def asked_subscription_def Let_def)
  obtain t where t: "findTopicByErn news (ens_repo (with_orders created_news)) = Some t" by (simp add: with_orders_def created_news_found)
  have d: "ens_dispatch (sample_ens_service subscribe_orders) (asks ''root'' ''subscribe'') (with_orders created_news) =
      on_ens (upsertSubscription (repo_world (sample_ens_service subscribe_orders) 0) x) (\<lambda>saved.
           answer Ok (Some (JObject [(''ern'', JString (ts_ern saved)), (''sourceErn'', JString (ts_sourceErn saved)),
             (''type'', JString (ts_type saved)), (''targetErn'', JString (ts_targetErn saved))]))) (with_orders created_news)"
    unfolding subscribe_orders_def
    by (simp add: q ens_dispatch_def subscribe_command handleSubscribe_def root_asking root_resolver f [unfolded subscribe_orders_def] r reading_def
        finding_topic_def t e x_def subscribe_orders_def)
  show ?thesis
    unfolding subscribed_news_def root_ens_served d using x
    by (intro exI [of _ "fst (upsertSubscription (repo_world (sample_ens_service subscribe_orders) 0) x (ens_repo created_news))"])
      (simp add: on_ens_def upsertSubscription_def answer_def Let_def with_orders_def created_news_repo empty_ens_def)
qed

lemma subscribed_news_reached: "reach empty_ens_server topic_step subscribed_news"
proof -
  have "reach empty_ens_server topic_step (created_news\<lparr>queue_repo := eqs_repo (sample_server [])\<rparr>)"
    by (rule reach.step [OF created_news_reached topic_step.queues_changed])
  from reach.step [OF this topic_step.on_the_bus] have here: "reach empty_ens_server topic_step (with_orders created_news)"
    by (simp add: with_orders_def)
  have "topics_drift_free (sample_ens_service subscribe_orders) (asks ''root'' ''subscribe'') (with_orders created_news)"
    by (simp add: topics_drift_free_def asks_for_topic_def subscribe_command with_orders_def created_news_repo empty_ens_def)
  then show ?thesis
    unfolding subscribed_news_def
    by (intro reach.step [OF here]) (auto intro!: topic_step.asked [of _ _ _ "[]"] simp: prod_eq_iff)
qed

end
