(* ===== verification/Ens_Publishing.thy ===== *)
theory Ens_Publishing
  imports Ens_Samples Event_Promises
begin

text \<open>
  What a publication comes to: one message in the topic, counted once, and on the bus one envelope for every queue subscribed
  and every module that listens, or, where the topic is stopped, none until it is started.
\<close>

subsection \<open>On the bus\<close>

text \<open>What the envelopes for modules say, and the modules that listen to an event type.\<close>

definition letters_to_modules :: "event list \<Rightarrow> (string \<times> ern \<times> ern \<times> string \<times> json \<times> event_status) list" where
  "letters_to_modules es =
     map (\<lambda>e. (targetModule e, targetErn e, sourceErn e, ev_messageId e, payload e, ev_status e))
       (filter (\<lambda>e. \<not> starts_with (targetModule e) kExternalPrefix) es)"

definition listening :: "string \<Rightarrow> bus \<Rightarrow> SubscriberRecord list" where
  "listening et b = map recordOf (filter (\<lambda>x. sub_eventType x = et) (subscriptions b))"

definition listening_modules :: "bus \<Rightarrow> string list" where
  "listening_modules b =
     std_set (map sub_moduleType
       (filter (\<lambda>x. sub_eventType x = message_published \<and> \<not> starts_with (sub_moduleType x) kExternalPrefix) (subscriptions b)))"

text \<open>The bus does not remember subscribers that have changed.\<close>

definition listeners_known :: "bus \<Rightarrow> bool" where
  "listeners_known b \<longleftrightarrow> (\<forall>since found. map_of (subscriberCache b) message_published = Some (since, found) \<longrightarrow> found = listening message_published b)"

lemma listeners_found: "listeners_known b \<Longrightarrow> fst (subscribersOf E message_published b) = listening message_published b"
  by (auto simp: listeners_known_def listening_def subscribersOf_def Let_def split: option.split)

lemma map_of_filter_other: "map_of (filter (\<lambda>e. fst e \<noteq> k) xs) k' = (if k' = k then None else map_of xs k')"
  by (induction xs) auto

lemma subscribersOf_knows: "listeners_known b \<Longrightarrow> listeners_known (snd (subscribersOf E message_published b))"
  by (auto simp: listeners_known_def listening_def subscribersOf_def Let_def split: option.splits if_splits)

lemma Publish_cached:
  "subscriberCache (Publish E et content source d b) = subscriberCache (snd (subscribersOf E et b)) \<and>
   subscriptions (Publish E et content source d b) = subscriptions b"
  by (auto simp: Publish_def Let_def split: prod.splits dest: subscribersOf_eqD)

lemma Publish_knows: "listeners_known b \<Longrightarrow> listeners_known (Publish E message_published content source d b)"
  using subscribersOf_knows [of b E] Publish_cached [of E message_published content source d b]
  by (simp add: listeners_known_def listening_def)

lemma listening_kept:
  "listening_modules (Publish E message_published content source d b) = listening_modules b"
  by (simp add: listening_modules_def Publish_cached)

lemma targets_modules:
  "modules (fold (addTarget p) rs t) = fold std_insert (map rec_target (filter (\<lambda>r. \<not> external r) rs)) (modules t)"
  by (induction rs arbitrary: t) (auto simp: addTarget_def)

lemma external_targets: "t \<in> set (externals (targetsOf p (listening et b))) \<Longrightarrow> starts_with t kExternalPrefix"
  by (auto simp: targetsOf_def targetsOf_sets listening_def)

lemma modules_listening: "modules (targetsOf p (listening message_published b)) = listening_modules b"
  by (simp add: targetsOf_def targets_modules listening_def listening_modules_def std_set_def filter_map comp_def)

lemma set_listening: "t \<in> set (listening_modules b) \<Longrightarrow> \<not> starts_with t kExternalPrefix"
  unfolding modules_listening [of "[]", symmetric] by (auto simp: targetsOf_def targetsOf_sets listening_def)

lemma letters_append [simp]: "letters_to_modules (es @ es') = letters_to_modules es @ letters_to_modules es'"
  by (simp add: letters_to_modules_def)

lemma published_letters_to_modules:
  "letters_to_modules (published_events E message_published content source d (listening message_published b)) =
     map (\<lambda>t. (t, del_targetErn d, del_sourceErn d, del_messageId d, content, if del_heldBy d = '''' then PENDING else HELD))
       (listening_modules b)"
proof -
  let ?ts = "listening_modules b" and ?xs = "externals (targetsOf (payloadObject content) (listening message_published b))"
  have m: "letters_to_modules (map (\<lambda>(i, t). module_envelope E i message_published content source d t) (enumerate n ts)) =
      map (\<lambda>t. (t, del_targetErn d, del_sourceErn d, del_messageId d, content, if del_heldBy d = '''' then PENDING else HELD)) ts"
    if "\<forall>t \<in> set ts. \<not> starts_with t kExternalPrefix" for n ts
    using that by (induction ts arbitrary: n) (simp_all add: letters_to_modules_def, simp add: module_envelope_def envelope_def appendStatus_def)
  have x: "letters_to_modules (map (\<lambda>(i, t). external_envelope E i message_published content source d t) (enumerate n ts)) = []"
    if "\<forall>t \<in> set ts. starts_with t kExternalPrefix" for n ts
    using that by (induction ts arbitrary: n) (simp_all add: letters_to_modules_def)
  show ?thesis
    using m [of ?ts 0] x [of ?xs "length ?ts"] external_targets set_listening
    by (auto simp: published_events_def Let_def modules_listening)
qed

text \<open>Message by message: one round of the subscriptions.\<close>

definition letters_for :: "bus \<Rightarrow> ern \<Rightarrow> string \<Rightarrow> json \<Rightarrow> TopicSubscription \<Rightarrow> (string \<times> ern \<times> ern \<times> string \<times> json \<times> event_status) list" where
  "letters_for b topic mid content x = map (\<lambda>t. (t, ts_targetErn x, topic, mid, content, PENDING)) (listening_modules b)"

lemma announced:
  assumes "listeners_known b"
  shows "\<exists>es. events (fold (announce N topic mid content) xs b) = events b @ es \<and>
    letters_to_modules es = concat (map (letters_for b topic mid content) xs)"
    and "listeners_known (fold (announce N topic mid content) xs b)"
    and "listening_modules (fold (announce N topic mid content) xs b) = listening_modules b"
proof -
  have "listeners_known (fold (announce N topic mid content) xs b) \<and>
      listening_modules (fold (announce N topic mid content) xs b) = listening_modules b \<and>
      (\<exists>es. events (fold (announce N topic mid content) xs b) = events b @ es \<and>
        letters_to_modules es = concat (map (letters_for b topic mid content) xs))"
    using assms
  proof (induction xs arbitrary: b)
    case Nil
    then show ?case by (simp add: letters_to_modules_def)
  next
    case (Cons x xs)
    define b' where "b' = announce N topic mid content x b"
    have k: "listeners_known b'" "listening_modules b' = listening_modules b"
      using Cons.prems by (simp_all add: b'_def announce_def Publish_knows listening_kept)
    define es where "es = published_events (publish_env N (length (events b))) message_published content ens_module (handed_to topic mid x)
      (listening message_published b)"
    have "events b' = events b @ es" using Cons.prems by (simp add: b'_def es_def announce_def Publish_events listeners_found)
    moreover have "letters_to_modules es = letters_for b topic mid content x"
      by (simp add: es_def published_letters_to_modules letters_for_def handed_to_def)
    moreover have "letters_for b' topic mid content = letters_for b topic mid content" by (rule ext) (simp add: letters_for_def k)
    ultimately show ?case using Cons.IH [OF k(1)] k(2) by (auto simp: b'_def [symmetric])
  qed
  then show "\<exists>es. events (fold (announce N topic mid content) xs b) = events b @ es \<and>
    letters_to_modules es = concat (map (letters_for b topic mid content) xs)"
    "listeners_known (fold (announce N topic mid content) xs b)"
    "listening_modules (fold (announce N topic mid content) xs b) = listening_modules b" by simp_all
qed


subsection \<open>Handing a message on\<close>

definition queues_of :: "ern \<Rightarrow> ens \<Rightarrow> TopicSubscription list" where
  "queues_of topic r = filter (\<lambda>x. ts_type x = ''SQS'') (listSubscriptionsBySourceErn topic r)"

lemma queues_of_cong: "topic_subscriptions r' = topic_subscriptions r \<Longrightarrow> queues_of topic r' = queues_of topic r"
  by (simp add: queues_of_def listSubscriptionsBySourceErn_def loadSubscriptions_def)

lemma delivered:
  assumes "current_subscriptions (ens_repo s)" and "listeners_known (topic_bus s)"
    and "deliverToSubscriptions N topic mid content attrs sysattrs prio bp s = (n, s')"
  shows "n = int (length (queues_of topic (ens_repo s)))"
    "\<exists>es. events (topic_bus s') = events (topic_bus s) @ es \<and> letters_to_modules es =
       concat (map (letters_for (topic_bus s) topic mid (published_payload content attrs sysattrs prio bp)) (queues_of topic (ens_repo s)))"
    "listeners_known (topic_bus s')" "listening_modules (topic_bus s') = listening_modules (topic_bus s)"
    "current_subscriptions (ens_repo s')" "queues_of topic' (ens_repo s') = queues_of topic' (ens_repo s)"
    "topics (ens_repo s') = topics (ens_repo s)" "topic_messages (ens_repo s') = topic_messages (ens_repo s)"
    "topic_metrics s' = topic_metrics s"
proof -
  let ?w = "published_payload content attrs sysattrs prio bp" and ?qs = "queues_of topic (ens_repo s)"
  have found: "fst (listSubscriptionsBySourceErnCached (repo_world N 0) topic (ens_repo s)) = listSubscriptionsBySourceErn topic (ens_repo s)"
    by (rule current_lookup [OF assms(1)])
  have b: "topic_bus s' = fold (announce N topic mid ?w) ?qs (topic_bus s)" "n = int (length ?qs)"
    using assms(3) found by (auto simp: deliverToSubscriptions_def queues_of_def Let_def split: prod.splits)
  show "n = int (length (queues_of topic (ens_repo s)))" by (rule b(2))
  show "\<exists>es. events (topic_bus s') = events (topic_bus s) @ es \<and> letters_to_modules es = concat (map (letters_for (topic_bus s) topic mid ?w) ?qs)"
    "listeners_known (topic_bus s')" "listening_modules (topic_bus s') = listening_modules (topic_bus s)"
    unfolding b(1) by (rule announced [OF assms(2)])+
  have s': "s' = snd (deliverToSubscriptions N topic mid content attrs sysattrs prio bp s)" by (simp add: assms(3))
  show "topics (ens_repo s') = topics (ens_repo s)" "topic_messages (ens_repo s') = topic_messages (ens_repo s)"
    "topic_metrics s' = topic_metrics s" "current_subscriptions (ens_repo s')"
    using current_looked_up [OF assms(1)] unfolding s' by (simp_all add: deliver_looked)
  show "queues_of topic' (ens_repo s') = queues_of topic' (ens_repo s)"
    unfolding s' by (rule queues_of_cong) (rule deliver_kept)
qed

text \<open>\<^verbatim>\<open>publishToTopic\<close>, once the message is built and stored.\<close>

definition publish_counted :: "ens_server_env \<Rightarrow> ern \<Rightarrow> TopicMessage \<Rightarrow> ens \<Rightarrow> ens_server \<Rightarrow> ens_server" where
  "publish_counted N topic m r s =
     on_topics (recordSend (repo_world N (publish_no s)) topic 1)
       (recordMessages kTopicMessagesSent kTopicBytesSent topic 1 (tm_size m) (s\<lparr>ens_repo := r\<rparr>))"

lemma recordSend_kept [simp]:
  "topic_messages (recordSend E e n r) = topic_messages r" "topic_subscriptions (recordSend E e n r) = topic_subscriptions r"
  by (simp_all add: recordSend_def update_topic_def)

lemma publish_counted_kept [simp]:
  "topic_bus (publish_counted N topic m r s) = topic_bus s" "topic_messages (ens_repo (publish_counted N topic m r s)) = topic_messages r"
  "current_subscriptions (ens_repo (publish_counted N topic m r s)) = current_subscriptions r"
  "queues_of e (ens_repo (publish_counted N topic m r s)) = queues_of e r"
  by (simp_all add: publish_counted_def queues_of_def listSubscriptionsBySourceErn_def loadSubscriptions_def)

lemma publish_subscriptions:
  "publishMessage E mid e topic content attrs prio r = (m, r') \<Longrightarrow> queues_of e' r' = queues_of e' r"
  by (rule queues_of_cong) (auto simp: publishMessage_def insert_topic_message_def update_topic_def Let_def split: option.splits)

lemma find_mem_append:
  assumes "P x" and "\<forall>y \<in> set xs. \<not> P y"
  shows "delete_first P (xs @ [x]) = xs" "find P (xs @ [x]) = Some x"
  using assms by (induction xs) auto

text \<open>What is published, and what is left of it in the topic.\<close>

lemma publishing:
  assumes "findTopicByErn topic (ens_repo s) = Some t" and "random_uuid (base N) (publish_no s) \<notin> tm_messageId ` set (topic_messages (ens_repo s))"
    and "current_subscriptions (ens_repo s)" and "listeners_known (topic_bus s)"
    and "publishToTopic N topic content attrs account prio sysattrs bp b s = (m, s')"
  shows "tm_messageId m = random_uuid (base N) (publish_no s)" "tm_topicErn m = topic" "tm_body m = content" "tm_attributes m = attrs"
    "tm_priority m = prio" "tm_status m = (if delivering t then kStatusPublished else kStatusHeld)" "tm_size m = int (length content)"
    "\<exists>es. events (topic_bus s') = events (topic_bus s) @ es \<and> letters_to_modules es = (if \<not> delivering t then [] else
       concat (map (letters_for (topic_bus s) topic (tm_messageId m) (published_payload content (attributes_json attrs) sysattrs prio bp))
         (queues_of topic (ens_repo s)))) \<and> (delivering t \<or> es = [])"
    "\<exists>x n k. x = m\<lparr>tm_oid := n, tm_created := k, tm_modified := k\<rparr> \<and> topic_messages (ens_repo s') =
       topic_messages (ens_repo s) @ (if delivering t \<and> b \<and> queues_of topic (ens_repo s) \<noteq> [] then [] else [x])"
proof -
  let ?E = "repo_world N (publish_no s)" and ?mid = "random_uuid (base N) (publish_no s)"
  obtain r where r: "publishMessage ?E ?mid (createEnsMessageErn (ern_region (http (base N))) account ?mid) topic content attrs prio (ens_repo s) = (m, r)"
    using assms(5) by (auto simp: publishToTopic_def Let_def split: prod.splits if_splits)
  note fields = published_fields [OF r]
  show "tm_messageId m = ?mid" "tm_topicErn m = topic" "tm_body m = content" "tm_attributes m = attrs" "tm_priority m = prio"
    "tm_size m = int (length content)" by (rule fields)+
  show status: "tm_status m = (if delivering t then kStatusPublished else kStatusHeld)" using fields(9) assms(1) by simp
  define x where "x = m\<lparr>tm_oid := next_oid (common ?E) 0, tm_created := ens_now ?E, tm_modified := ens_now ?E\<rparr>"
  have stored: "topic_messages r = topic_messages (ens_repo s) @ [x]"
    using published_stored [OF r] assms(1,2) by (simp add: x_def)
  have qs: "queues_of topic r = queues_of topic (ens_repo s)" by (rule publish_subscriptions [OF r])
  have cur: "current_subscriptions r" using assms(3) r by (metis snd_conv writes_leave_current(1))
  define u where "u = publish_counted N topic m r s"
  show "\<exists>es. events (topic_bus s') = events (topic_bus s) @ es \<and> letters_to_modules es = (if \<not> delivering t then [] else
       concat (map (letters_for (topic_bus s) topic (tm_messageId m) (published_payload content (attributes_json attrs) sysattrs prio bp))
         (queues_of topic (ens_repo s)))) \<and> (delivering t \<or> es = [])"
    "\<exists>x n k. x = m\<lparr>tm_oid := n, tm_created := k, tm_modified := k\<rparr> \<and> topic_messages (ens_repo s') =
       topic_messages (ens_repo s) @ (if delivering t \<and> b \<and> queues_of topic (ens_repo s) \<noteq> [] then [] else [x])"
  proof -
    obtain n v where v: "deliverToSubscriptions N topic (tm_messageId m) content (attributes_json attrs) sysattrs prio bp u = (n, v)" by fastforce
    have u: "current_subscriptions (ens_repo u)" "listeners_known (topic_bus u)" using cur assms(4) by (simp_all add: u_def)
    note del = delivered [OF u v]
    let ?w = "recordMessages kTopicMessagesReceived kTopicBytesReceived topic n (n * tm_size m) v"
    have s': "s' = (if tm_status m = kStatusHeld then u
        else if b \<and> n > 0 then on_topics (\<lambda>r. snd (deleteDeliveredMessage ?E topic (tm_messageId m) (tm_size m) r)) ?w else ?w)"
      using assms(5) v by (auto simp: publishToTopic_def r u_def publish_counted_def Let_def split: if_splits)
    have held: "tm_status m = kStatusHeld \<longleftrightarrow> \<not> delivering t" by (simp add: status kStatusHeld_def kStatusPublished_def)
    show "\<exists>es. events (topic_bus s') = events (topic_bus s) @ es \<and> letters_to_modules es = (if \<not> delivering t then [] else
       concat (map (letters_for (topic_bus s) topic (tm_messageId m) (published_payload content (attributes_json attrs) sysattrs prio bp))
         (queues_of topic (ens_repo s)))) \<and> (delivering t \<or> es = [])"
      using del(2) qs by (auto simp: s' held u_def letters_to_modules_def)
    have fresh: "\<forall>y \<in> set (topic_messages (ens_repo s)). tm_messageId y \<noteq> tm_messageId m" "tm_messageId x = tm_messageId m"
      using assms(2) fields(1) by (auto simp: x_def image_iff)
    have "topic_messages (snd (deleteDeliveredMessage ?E topic (tm_messageId m) (tm_size m) (ens_repo v))) = topic_messages (ens_repo s)"
      using del(8) fresh find_mem_append [of "\<lambda>y. tm_messageId y = tm_messageId m" x "topic_messages (ens_repo s)"]
      by (simp add: deleteDeliveredMessage_def findMessageById_def update_topic_def u_def stored)
    moreover have "n > 0 \<longleftrightarrow> queues_of topic (ens_repo s) \<noteq> []" using del(1) qs by (simp add: u_def)
    ultimately have "topic_messages (ens_repo s') = topic_messages (ens_repo s) @
        (if delivering t \<and> b \<and> queues_of topic (ens_repo s) \<noteq> [] then [] else [x])"
      using del(8) by (auto simp: s' held u_def stored)
    then show "\<exists>x n k. x = m\<lparr>tm_oid := n, tm_created := k, tm_modified := k\<rparr> \<and> topic_messages (ens_repo s') =
       topic_messages (ens_repo s) @ (if delivering t \<and> b \<and> queues_of topic (ens_repo s) \<noteq> [] then [] else [x])"
      unfolding x_def by blast
  qed
qed


subsection \<open>A publication that is answered\<close>

definition asked_for :: "ens_server_env \<Rightarrow> http_request \<Rightarrow> (json \<Rightarrow> 'a parsed) \<Rightarrow> 'a \<Rightarrow> bool" where
  "asked_for N req read x \<longleftrightarrow>
     (case ParseJsonBody (http (base N)) (ens_installErnResolver (http (base N))) req of Inl _ \<Rightarrow> False | Inr v \<Rightarrow> read v = Inr x)"

lemma asking_answer:
  assumes "asking N req read k s = (Answer r, s')" and "success r"
  shows "\<exists>user x. callers (base N) req user \<and> asked_for N req read x \<and> k user x s = (Answer r, s')"
proof -
  obtain user where user: "callers (base N) req user" "with_topic_json N req (\<lambda>v. reading (read v) (k user)) s = (Answer r, s')"
    using authenticated_answer [OF assms(1) [unfolded asking_def]] assms(2) by (auto simp: success_def callers_def)
  then obtain v where v: "ParseJsonBody (http (base N)) (ens_installErnResolver (http (base N))) req = Inr v"
      "reading (read v) (k user) s = (Answer r, s')"
    using assms(2) by (auto simp: with_topic_json_def ParseJsonBody_def split: option.splits)
  obtain x where "read v = Inr x" "k user x s = (Answer r, s')" using reading_answer [OF v(2)] by blast
  then show ?thesis using user(1) v(1) by (auto simp: asked_for_def)
qed

lemma finding_topic_answer:
  assumes "finding_topic e k s = (Answer r, s')" and "success r"
  shows "\<exists>t. findTopicByErn e (ens_repo s) = Some t \<and> k t s = (Answer r, s')"
  using assms by (auto simp: finding_topic_def refuse_def ErrorResponse_def success_def split: option.splits)

lemma publish_answered:
  assumes "handlePublishMessage N req s = (Answer r, s')" and "resp_status r = Ok"
  shows "\<exists>(user :: User) pm t m. asked_for N req read_PublishMessageRequest pm \<and> findTopicByErn (pm_ern pm) (ens_repo s) = Some t \<and>
    int (length (pm_body pm)) \<le> EffectiveTopicMessageLength (t_maxMessageLength t) \<and>
    (pm_priority pm = '''' \<or> TryMessagePriorityFromString (pm_priority pm) \<noteq> None) \<and>
    publishToTopic N (pm_ern pm) (pm_body pm) (pm_attributes pm) (user_accountId user) (pm_priority pm) [] '''' (deleteAfterDelivery t) s = (m, s') \<and>
    resp_body r = Some (JObject [(''messageId'', JString (tm_messageId m))])"
proof -
  have ok: "success r" using assms(2) by (simp add: success_def)
  obtain user :: User and pm where p: "asked_for N req read_PublishMessageRequest pm"
    "finding_topic (pm_ern pm) (\<lambda>t s.
       let most = EffectiveTopicMessageLength (t_maxMessageLength t); len = int (length (pm_body pm)) in
       if len > most then refuse Bad_request (topic_length_refusal len most) s
       else if pm_priority pm \<noteq> '''' \<and> TryMessagePriorityFromString (pm_priority pm) = None
       then refuse Bad_request (priority_refusal (pm_priority pm)) s
       else case publishToTopic N (pm_ern pm) (pm_body pm) (pm_attributes pm) (user_accountId user) (pm_priority pm) [] ''''
                   (deleteAfterDelivery t) s of
              (m, s) \<Rightarrow> answer Ok (Some (JObject [(''messageId'', JString (tm_messageId m))])) s) s = (Answer r, s')"
    using asking_answer [OF assms(1) [unfolded handlePublishMessage_def] ok] by (elim exE conjE) (rule that)
  obtain m where m: "publishToTopic N (pm_ern pm) (pm_body pm) (pm_attributes pm) (user_accountId user) (pm_priority pm) [] ''''
      (deleteAfterDelivery t) s = (m, s')" if "findTopicByErn (pm_ern pm) (ens_repo s) = Some t" for t
    using finding_topic_answer [OF p(2) ok] ok
    by (auto simp: Let_def refuse_answer answer_def split: if_splits prod.splits)
  show ?thesis
    using finding_topic_answer [OF p(2) ok] p(1) ok m
    by (intro exI [of _ user] exI [of _ pm]) (auto simp: Let_def refuse_answer answer_def JsonResponse_def split: if_splits)
qed

text \<open>(C5) A message published to a running topic reaches every queue subscribed to it. The publication that is answered
  with success names a topic that exists and a body within its limit; on the bus there is one envelope more for every
  subscription of the topic and every module that listens, in the order of the subscriptions, with the body, the attributes
  and the priority of the message and the id in the answer; and the message is in the topic, unless the topic deletes what
  it has delivered and there was a queue to deliver to.\<close>

theorem publish_reaches_queues:
  assumes "reach empty_ens_server topic_step s" and "listeners_known (topic_bus s)"
    and "random_uuid (base N) (publish_no s) \<notin> tm_messageId ` set (topic_messages (ens_repo s))"
    and "handlePublishMessage N req s = (Answer r, s')" and "resp_status r = Ok"
    and "\<forall>pm t. asked_for N req read_PublishMessageRequest pm \<and> findTopicByErn (pm_ern pm) (ens_repo s) = Some t \<longrightarrow> delivering t"
  shows "\<exists>pm t mid es. asked_for N req read_PublishMessageRequest pm \<and> findTopicByErn (pm_ern pm) (ens_repo s) = Some t \<and>
    int (length (pm_body pm)) \<le> EffectiveTopicMessageLength (t_maxMessageLength t) \<and>
    resp_body r = Some (JObject [(''messageId'', JString mid)]) \<and> events (topic_bus s') = events (topic_bus s) @ es \<and>
    letters_to_modules es = concat (map (letters_for (topic_bus s) (pm_ern pm) mid
      (published_payload (pm_body pm) (attributes_json (pm_attributes pm)) [] (pm_priority pm) '''')) (queues_of (pm_ern pm) (ens_repo s))) \<and>
    (\<exists>ms. topic_messages (ens_repo s') = topic_messages (ens_repo s) @ ms \<and>
       map (\<lambda>m. (tm_messageId m, tm_topicErn m, tm_body m, tm_attributes m, tm_priority m, tm_status m)) ms =
         (if deleteAfterDelivery t \<and> queues_of (pm_ern pm) (ens_repo s) \<noteq> [] then []
          else [(mid, pm_ern pm, pm_body pm, pm_attributes pm, pm_priority pm, kStatusPublished)]))"
proof -
  obtain user :: User and pm t m where p: "asked_for N req read_PublishMessageRequest pm" "findTopicByErn (pm_ern pm) (ens_repo s) = Some t"
      "int (length (pm_body pm)) \<le> EffectiveTopicMessageLength (t_maxMessageLength t)"
      "resp_body r = Some (JObject [(''messageId'', JString (tm_messageId m))])"
    and pub: "publishToTopic N (pm_ern pm) (pm_body pm) (pm_attributes pm) (user_accountId user) (pm_priority pm) [] ''''
      (deleteAfterDelivery t) s = (m, s')"
    using publish_answered [OF assms(4,5)] by blast
  have cur: "current_subscriptions (ens_repo s)" using topic_runs.reach_inv [OF assms(1)] by (simp add: sound_topics_def)
  have on: "delivering t" using assms(6) p(1,2) by blast
  note pb = publishing [OF p(2) assms(3) cur assms(2) pub]
  obtain es where "events (topic_bus s') = events (topic_bus s) @ es" "letters_to_modules es = concat (map (letters_for (topic_bus s) (pm_ern pm)
      (tm_messageId m) (published_payload (pm_body pm) (attributes_json (pm_attributes pm)) [] (pm_priority pm) '''')) (queues_of (pm_ern pm) (ens_repo s)))"
    using pb(8) on by auto
  moreover obtain x n k where "x = m\<lparr>tm_oid := n, tm_created := k, tm_modified := k\<rparr>" "topic_messages (ens_repo s') = topic_messages (ens_repo s) @
      (if delivering t \<and> deleteAfterDelivery t \<and> queues_of (pm_ern pm) (ens_repo s) \<noteq> [] then [] else [x])"
    using pb(9) by blast
  ultimately show ?thesis
    using p on pb(1-6) by (intro exI [of _ pm] exI [of _ t] exI [of _ "tm_messageId m"] exI [of _ es]) simp
qed



subsection \<open>Applied\<close>

lemma subscribed_news_simps:
  "topics (ens_repo subscribed_news) = topics (ens_repo created_news)" "topic_messages (ens_repo subscribed_news) = []"
  "publish_no subscribed_news = 0" "topic_bus subscribed_news = subscribed_bus"
  "\<exists>x. queues_of news (ens_repo subscribed_news) = [x] \<and> ts_targetErn x = orders"
proof -
  obtain x where x: "subscribed_news = (with_orders created_news)\<lparr>ens_repo :=
      (ens_repo created_news)\<lparr>topic_subscriptions := [x], subscriptionCache := cache_erase news (subscriptionCache (ens_repo created_news))\<rparr>\<rparr>"
      "ts_sourceErn x = news" "ts_type x = ''SQS''" "ts_targetErn x = orders"
    using subscribed_news_eq by blast
  show "topics (ens_repo subscribed_news) = topics (ens_repo created_news)" "topic_messages (ens_repo subscribed_news) = []"
    "publish_no subscribed_news = 0" "topic_bus subscribed_news = subscribed_bus"
    by (simp_all add: x(1) created_news_repo empty_ens_def publish_no_def with_orders_def)
  show "\<exists>x. queues_of news (ens_repo subscribed_news) = [x] \<and> ts_targetErn x = orders"
    using x(2-4) by (simp add: x(1) queues_of_def listSubscriptionsBySourceErn_def loadSubscriptions_def)
qed

lemma hello_asked: "asked_for (sample_ens_service publish_hello) (asks ''root'' action) read_PublishMessageRequest pm \<longleftrightarrow>
    pm = \<lparr>pm_ern = news, pm_body = ''hello'', pm_attributes = [], pm_priority = ''MEDIUM''\<rparr>"
proof -
  have r: "read_PublishMessageRequest (JObject [(''ern'', JString news), (''body'', JString ''hello'')]) =
      Inr \<lparr>pm_ern = news, pm_body = ''hello'', pm_attributes = [], pm_priority = ''MEDIUM''\<rparr>"
    by (simp add: read_PublishMessageRequest_def GetStringValue_def GetMapFromObject_def AttributeExists_def)
  have "ens_installErnResolver (http (sample_service publish_hello)) (asks ''root'' action) publish_hello = JObject [(''ern'', JString news), (''body'', JString ''hello'')]"
    unfolding publish_hello_def root_resolver by (simp add: ens_fields_def resolve_as_def resolveErn_def createErnIn_def news_def)
  moreover have "parse_json (http (sample_service publish_hello)) b = Some publish_hello" for b
    by (simp add: sample_service_def sample_http_def)
  ultimately show ?thesis using r by (auto simp: asked_for_def ParseJsonBody_def)
qed

theorem publish_reaches_queues_witness:
  "\<exists>r s' es. handlePublishMessage (sample_ens_service publish_hello) (asks ''root'' ''publish-message'') subscribed_news = (Answer r, s') \<and>
    events (topic_bus s') = es \<and> letters_to_modules es =
      [(''eqs'', orders, news, ''u'', published_payload ''hello'' [] [] ''MEDIUM'' '''', PENDING)] \<and>
    map tm_body (topic_messages (ens_repo s')) = [''hello'']"
proof -
  let ?N = "sample_ens_service publish_hello" and ?r = "asks ''root'' ''publish-message''"
  let ?t = "sample_topic\<lparr>t_oid := ''o'', t_created := 1000, t_modified := 1000\<rparr>"
  have t: "findTopicByErn news (ens_repo subscribed_news) = Some ?t"
    using created_news_found by (simp add: findTopicByErn_def subscribed_news_simps)
  have dt: "delivering ?t" "\<not> deleteAfterDelivery ?t" "t_maxMessageLength ?t = kTopicMaxMessageLength"
    by (simp_all add: sample_topic_def new_Topic_def)
  have k: "listeners_known (topic_bus subscribed_news)" by (simp add: subscribed_news_simps listeners_known_def subscribed_bus_def empty_bus_def)
  have u: "random_uuid (base ?N) (publish_no subscribed_news) \<notin> tm_messageId ` set (topic_messages (ens_repo subscribed_news))"
    by (simp add: subscribed_news_simps)
  obtain m s' where m: "publishToTopic ?N news ''hello'' [] ''1'' ''MEDIUM'' [] '''' (deleteAfterDelivery ?t) subscribed_news = (m, s')" by fastforce
  let ?ans = "JsonResponse Ok (Some (JObject [(''messageId'', JString (tm_messageId m))]))"
  have h: "handlePublishMessage ?N ?r subscribed_news = (Answer ?ans, s')"
    using m by (simp add: hello_published [OF t dt(3)] answer_def)
  have id: "tm_messageId m = ''u''"
    using m by (auto simp: publishToTopic_def Let_def subscribed_news_simps sample_service_def dest: published_fields(1) split: prod.splits if_splits)
  have on: "\<forall>pm x. asked_for ?N ?r read_PublishMessageRequest pm \<and> findTopicByErn (pm_ern pm) (ens_repo subscribed_news) = Some x \<longrightarrow> delivering x"
    using t dt by (auto simp: hello_asked)
  have st: "resp_status ?ans = Ok" by (simp add: JsonResponse_def)
  obtain es ms where es: "events (topic_bus s') = events (topic_bus subscribed_news) @ es"
    "letters_to_modules es = concat (map (letters_for (topic_bus subscribed_news) news ''u''
      (published_payload ''hello'' (attributes_json []) [] ''MEDIUM'' '''')) (queues_of news (ens_repo subscribed_news)))"
    "topic_messages (ens_repo s') = topic_messages (ens_repo subscribed_news) @ ms" "map tm_body ms = [''hello'']"
    using publish_reaches_queues [OF subscribed_news_reached k u h st on] id t dt by (auto simp: hello_asked JsonResponse_def)
  have "listening_modules subscribed_bus = [''eqs'']"
    by (simp add: listening_modules_def subscribed_bus_def empty_bus_def kExternalPrefix_def std_set_def std_insert_def List.insort_insert_key_def)
  then show ?thesis
    using h es subscribed_news_simps(5)
    by (auto simp: subscribed_news_simps(2,4) letters_for_def attributes_json_def) (auto simp: subscribed_bus_def empty_bus_def letters_to_modules_def)
qed

definition stopped_news :: "ens_server \<Rightarrow> ens_server" where
  "stopped_news = on_topics (\<lambda>r. r\<lparr>topics := map (\<lambda>t. t\<lparr>delivering := False\<rparr>) (topics r)\<rparr>)"



end
