(* ===== verification/Ens_Walks.thy ===== *)
theory Ens_Walks
  imports Ens_Publishing
begin

text \<open>
  The walks over a topic's messages: what was held while the topic was stopped goes out when it is started, page after page
  and in the order it was published, and a resend takes every message once in the order it was stored. Both end, on any
  number of messages: a page leaves fewer held messages behind, and the next page of a resend starts after the last id.
\<close>

subsection \<open>Sorting a part\<close>

context weak_order_on
begin

lemma filter_insert:
  assumes "x \<in> S" and "set ys \<subseteq> S" and "sorted_wrt (\<lambda>a b. \<not> lt b a) ys"
  shows "filter P (insert_stable lt x ys) = (if P x then insert_stable lt x (filter P ys) else filter P ys)"
  using assms
proof (induction ys)
  case (Cons y ys)
  have first: "insert_stable lt x zs = x # zs" if "\<forall>z \<in> set zs. \<not> lt z x" for zs using that by (cases zs) auto
  show ?case
  proof (cases "lt y x")
    case False
    have "\<not> lt z x" if "z \<in> set (filter P ys)" for z
      using Cons.prems False that by (intro negtrans [of x y z]) auto
    then show ?thesis using False first [of "filter P ys"] by auto
  qed (use Cons in auto)
qed simp

lemma stable_sort_filter: "set xs \<subseteq> S \<Longrightarrow> stable_sort lt (filter P xs) = filter P (stable_sort lt xs)"
proof (induction xs)
  case (Cons x xs)
  have "filter P (insert_stable lt x (stable_sort lt xs)) =
      (if P x then insert_stable lt x (filter P (stable_sort lt xs)) else filter P (stable_sort lt xs))"
    using Cons.prems by (intro filter_insert sorted_stable_sort) (auto simp: set_stable_sort)
  then show ?case using Cons by (simp add: stable_sort_def)
qed (simp add: stable_sort_def)

end

subsection \<open>The held messages of a topic\<close>

abbreviation all_held :: "ern \<Rightarrow> ens \<Rightarrow> TopicMessage list" where
  "all_held e r \<equiv> listHeldMessages e 0 r"

lemma held_page: "listHeldMessages e kTopicPage r = take kTopicPage (all_held e r)"
  by (simp add: listHeldMessages_def kTopicPage_def Let_def)

lemma held_cong: "topic_messages r' = topic_messages r \<Longrightarrow> all_held e r' = all_held e r"
  by (simp add: listHeldMessages_def Let_def)

lemma filter_update_by_key:
  assumes "distinct (map k xs)" and "\<And>x. x \<in> set xs \<Longrightarrow> k x = v \<Longrightarrow> \<not> Q (f x)"
  shows "filter Q (update_first (\<lambda>x. k x = v) f xs) = filter (\<lambda>x. k x \<noteq> v) (filter Q xs)"
  using assms
proof (induction xs)
  case (Cons x xs)
  have "filter (\<lambda>y. Q y \<and> k y \<noteq> k x) xs = filter Q xs"
    by (rule filter_cong) (use Cons.prems(1) in \<open>auto simp: image_iff\<close>)
  with Cons show ?case by (auto simp: conj_commute)
qed simp

lemma filter_delete_by_key:
  assumes "distinct (map k xs)"
  shows "filter Q (delete_first (\<lambda>x. k x = v) xs) = filter (\<lambda>x. k x \<noteq> v) (filter Q xs)"
  using assms
proof (induction xs)
  case (Cons x xs)
  have "filter (\<lambda>y. Q y \<and> k y \<noteq> k x) xs = filter Q xs"
    by (rule filter_cong) (use Cons.prems in \<open>auto simp: image_iff\<close>)
  with Cons show ?case by (auto simp: conj_commute)
qed simp

definition without :: "string \<Rightarrow> TopicMessage list \<Rightarrow> TopicMessage list" where
  "without mid ms = filter (\<lambda>m. tm_messageId m \<noteq> mid) ms"

text \<open>A message delivered is not held any more, and nothing else has changed for the others.\<close>

lemma settled_held:
  assumes "distinct (map tm_messageId (topic_messages r))"
  shows "all_held e (markMessageDelivered E mid r) = without mid (all_held e r)"
    "findMessageById mid r = Some m \<Longrightarrow> all_held e (snd (deleteDeliveredMessage E e' mid bytes r)) = without mid (all_held e r)"
  using assms
  by (simp_all add: listHeldMessages_def markMessageDelivered_def deleteDeliveredMessage_def update_topic_def without_def
      by_publication.stable_sort_filter [symmetric] filter_update_by_key filter_delete_by_key kStatusHeld_def kStatusPublished_def conj_ac)

lemma held_stored: "m \<in> set (all_held e r) \<Longrightarrow> m \<in> set (topic_messages r) \<and> tm_topicErn m = e \<and> tm_status m = kStatusHeld"
  by (auto simp: listHeldMessages_def Let_def by_publication.set_stable_sort)

lemma stored_found: "m \<in> set (topic_messages r) \<Longrightarrow> \<exists>m'. findMessageById (tm_messageId m) r = Some m'"
  by (cases "findMessageById (tm_messageId m) r") (auto simp: findMessageById_def find_None_iff)

lemma mset_held: "mset (all_held e r) = mset (filter (\<lambda>m. tm_topicErn m = e \<and> tm_status m = kStatusHeld) (topic_messages r))"
  by (simp add: listHeldMessages_def Let_def by_publication.mset_stable_sort)

lemma held_count: "countHeldMessages e r = int (length (all_held e r))"
  unfolding countHeldMessages_def count_if_def by (metis mset_held size_mset)

lemma held_distinct:
  assumes "distinct (map tm_messageId (topic_messages r))"
  shows "distinct (map tm_messageId (all_held e r))"
proof -
  have "mset (map tm_messageId (all_held e r)) =
      mset (map tm_messageId (filter (\<lambda>m. tm_topicErn m = e \<and> tm_status m = kStatusHeld) (topic_messages r)))"
    by (simp add: mset_held)
  then show ?thesis using assms by (metis distinct_map_filter mset_eq_imp_distinct_iff)
qed

subsection \<open>What a walk puts on the bus\<close>

definition round_of :: "bus \<Rightarrow> TopicSubscription list \<Rightarrow> ern \<Rightarrow> TopicMessage \<Rightarrow> (string \<times> ern \<times> ern \<times> string \<times> json \<times> event_status) list" where
  "round_of b qs e m = concat (map (letters_for b e (tm_messageId m)
     (published_payload (tm_body m) (attributes_json (tm_attributes m)) (attributes_json (tm_systemAttributes m)) (tm_priority m) '''')) qs)"

text \<open>What stays the same all along.\<close>

definition ready :: "ens_server \<Rightarrow> bool" where
  "ready s \<longleftrightarrow> distinct (map tm_messageId (topic_messages (ens_repo s))) \<and> current_subscriptions (ens_repo s) \<and> listeners_known (topic_bus s)"

definition settings :: "ens_server \<Rightarrow> (ern \<times> bool) list \<times> string list" where
  "settings s = (map (\<lambda>t. (t_ern t, delivering t)) (topics (ens_repo s)), listening_modules (topic_bus s))"

lemma round_of_cong: "listening_modules b' = listening_modules b \<Longrightarrow> round_of b' = round_of b"
  unfolding round_of_def letters_for_def by simp

lemma redelivered:
  assumes "ready s"
  shows "ready (snd (redeliver N e m s))" "settings (snd (redeliver N e m s)) = settings s"
    "queues_of e' (ens_repo (snd (redeliver N e m s))) = queues_of e' (ens_repo s)"
    "\<exists>es. events (topic_bus (snd (redeliver N e m s))) = events (topic_bus s) @ es \<and>
      letters_to_modules es = round_of (topic_bus s) (queues_of e (ens_repo s)) e m"
proof -
  obtain n u where u: "redeliver N e m s = (n, u)" by fastforce
  have cur: "current_subscriptions (ens_repo s)" "listeners_known (topic_bus s)" using assms by (simp_all add: ready_def)
  note del = delivered [OF cur u [unfolded redeliver_def]]
  show "ready (snd (redeliver N e m s))" using del assms by (simp add: u ready_def)
  show "settings (snd (redeliver N e m s)) = settings s" using del by (simp add: u settings_def)
  show "queues_of e' (ens_repo (snd (redeliver N e m s))) = queues_of e' (ens_repo s)" using del(6) by (simp add: u)
  show "\<exists>es. events (topic_bus (snd (redeliver N e m s))) = events (topic_bus s) @ es \<and>
      letters_to_modules es = round_of (topic_bus s) (queues_of e (ens_repo s)) e m"
    using del(2) by (simp add: u round_of_def)
qed


subsection \<open>Starting\<close>

lemma settled:
  assumes "ready s" and "m \<in> set (all_held e (ens_repo s))"
  shows "all_held e (ens_repo (settle_held N e b m s)) = without (tm_messageId m) (all_held e (ens_repo s))"
    "ready (settle_held N e b m s)" "settings (settle_held N e b m s) = settings s"
    "queues_of e' (ens_repo (settle_held N e b m s)) = queues_of e' (ens_repo s)"
    "\<exists>es. events (topic_bus (settle_held N e b m s)) = events (topic_bus s) @ es \<and>
      letters_to_modules es = round_of (topic_bus s) (queues_of e (ens_repo s)) e m"
proof -
  obtain n u where u: "redeliver N e m s = (n, u)" by fastforce
  note red = redelivered [OF assms(1), where N = N and e = e and m = m, unfolded u snd_conv]
  have same: "topic_messages (ens_repo u) = topic_messages (ens_repo s)" using redeliver_kept(2) [of N e m s] by (simp add: u)
  then have held: "all_held e (ens_repo u) = all_held e (ens_repo s)" by (rule held_cong)
  have d: "distinct (map tm_messageId (topic_messages (ens_repo u)))" using red(1) by (simp add: ready_def)
  obtain m' where m': "findMessageById (tm_messageId m) (ens_repo u) = Some m'"
    using stored_found [of m "ens_repo u"] held_stored [OF assms(2)] same by auto
  have s': "settle_held N e b m s = on_topics (\<lambda>r. if b \<and> n > 0
      then snd (deleteDeliveredMessage (repo_world N 0) e (tm_messageId m) (tm_size m) r)
      else markMessageDelivered (repo_world N 0) (tm_messageId m) r) u"
    by (simp add: settle_held_def u)
  show "all_held e (ens_repo (settle_held N e b m s)) = without (tm_messageId m) (all_held e (ens_repo s))"
    by (simp add: s' settled_held [OF d] m' held)
  show "ready (settle_held N e b m s)"
    using red(1) m' by (simp add: s' ready_def)
      (auto simp: markMessageDelivered_def deleteDeliveredMessage_def update_topic_def map_update_first distinct_delete_first)
  show "settings (settle_held N e b m s) = settings s"
    using red(2) m' by (simp add: s' settings_def)
      (auto simp: markMessageDelivered_def deleteDeliveredMessage_def update_topic_def map_update_first)
  show "queues_of e' (ens_repo (settle_held N e b m s)) = queues_of e' (ens_repo s)"
    unfolding red(3) [of e', symmetric] s'
    by (rule queues_of_cong) (simp add: markMessageDelivered_def deleteDeliveredMessage_def update_topic_def)
  show "\<exists>es. events (topic_bus (settle_held N e b m s)) = events (topic_bus s) @ es \<and>
      letters_to_modules es = round_of (topic_bus s) (queues_of e (ens_repo s)) e m"
    using red(4) by (simp add: s')
qed

lemma without_others: "tm_messageId m \<notin> tm_messageId ` set ms \<Longrightarrow> without (tm_messageId m) ms = ms"
  unfolding without_def by (rule filter_True) (metis imageI)

lemma settled_all:
  assumes "ready s" and "all_held e (ens_repo s) = ms @ rest"
  shows "all_held e (ens_repo (fold (settle_held N e b) ms s)) = rest \<and> ready (fold (settle_held N e b) ms s) \<and>
    settings (fold (settle_held N e b) ms s) = settings s \<and>
    queues_of e (ens_repo (fold (settle_held N e b) ms s)) = queues_of e (ens_repo s) \<and>
    (\<exists>es. events (topic_bus (fold (settle_held N e b) ms s)) = events (topic_bus s) @ es \<and>
      letters_to_modules es = concat (map (round_of (topic_bus s) (queues_of e (ens_repo s)) e) ms))"
  using assms
proof (induction ms arbitrary: s)
  case Nil
  then show ?case by (simp add: letters_to_modules_def)
next
  case (Cons m ms)
  define u where "u = settle_held N e b m s"
  have m: "m \<in> set (all_held e (ens_repo s))" using Cons.prems(2) by simp
  note one = settled [OF Cons.prems(1) m, where N = N and b = b, folded u_def]
  have "distinct (map tm_messageId (all_held e (ens_repo s)))" using Cons.prems(1) by (intro held_distinct) (simp add: ready_def)
  then have "without (tm_messageId m) (all_held e (ens_repo s)) = ms @ rest"
    using without_others [of m "ms @ rest"] unfolding Cons.prems(2) by (simp add: without_def image_Un)
  then have "all_held e (ens_repo u) = ms @ rest" using one(1) by simp
  note more = Cons.IH [OF one(2) this]
  have "round_of (topic_bus u) = round_of (topic_bus s)" using one(3) by (intro round_of_cong) (simp add: settings_def)
  then show ?case using more one(3-5) by (fastforce simp: u_def [symmetric])
qed

text \<open>A start goes through every held message, in pages that do not show.\<close>

lemma release_walks:
  assumes "ready s"
  shows "release_held N e b n s =
    Some (n + int (length (all_held e (ens_repo s))), fold (settle_held N e b) (all_held e (ens_repo s)) s)"
  using assms
proof (induction "length (all_held e (ens_repo s))" arbitrary: n s rule: less_induct)
  case less
  define H where "H = all_held e (ens_repo s)"
  define u where "u = fold (settle_held N e b) (take kTopicPage H) s"
  have all: "all_held e (ens_repo u) = drop kTopicPage H" "ready u"
    using settled_all [OF less.prems, of e "take kTopicPage H" "drop kTopicPage H" N b] by (simp_all add: H_def u_def)
  have step: "release_held N e b n s = (if H = [] then Some (n, s)
      else if length (take kTopicPage H) < kTopicPage then Some (n + int (length (take kTopicPage H)), u)
      else release_held N e b (n + int (length (take kTopicPage H))) u)"
  proof -
    have "take kTopicPage H = [] \<longleftrightarrow> H = []" by (simp add: kTopicPage_def)
    then show ?thesis
      by (subst release_held.simps) (simp del: take_eq_Nil length_take add: held_page H_def [symmetric] u_def Let_def)
  qed
  have f: "fold (settle_held N e b) H s = fold (settle_held N e b) (drop kTopicPage H) u"
    by (metis append_take_drop_id comp_apply fold_append u_def)
  show ?case
  proof (cases "length H < kTopicPage")
    case True
    then show ?thesis by (simp add: step u_def H_def [symmetric])
  next
    case False
    then have p: "length (take kTopicPage H) = kTopicPage" "H \<noteq> []" "length (drop kTopicPage H) < length H" by (auto simp: kTopicPage_def)
    have "release_held N e b (n + int kTopicPage) u =
        Some (n + int kTopicPage + int (length (drop kTopicPage H)), fold (settle_held N e b) (drop kTopicPage H) u)"
      using less.hyps [of u "n + int kTopicPage"] all p(3) by (simp add: H_def)
    then show ?thesis using p by (simp add: step H_def [symmetric] f)
  qed
qed


text \<open>The request, up to the loop.\<close>

lemma asking_goes_on:
  assumes "callers (base N) req user" and "asked_for N req read x"
  shows "asking N req read k s = k user x s"
  using assms
  by (auto simp: asking_def authenticated_def authenticate_def callers_def with_topic_json_def asked_for_def reading_def Let_def split: sum.splits)

lemma started:
  assumes "sound_topics r" and "findTopicByErn e r = Some t" and "upsertTopic E (t\<lparr>delivering := on\<rparr>) r = (t', r')"
  shows "t_ern t' = e" "delivering t' = on" "deleteAfterDelivery t' = deleteAfterDelivery t" "topic_messages r' = topic_messages r"
    "queues_of e' r' = queues_of e' r" "current_subscriptions r' = current_subscriptions r"
    "\<forall>x \<in> set (topics r'). t_ern x = e \<longrightarrow> delivering x = on"
proof -
  have t: "t \<in> set (topics r)" "t_ern t = e" "exact_topics r"
    using findTopicByErn_mem [OF assms(2)] assms(1) by (simp_all add: sound_topics_def)
  have key: "t_ern (t\<lparr>delivering := on\<rparr>) = t_ern t" "topic_key (t\<lparr>delivering := on\<rparr>) = topic_key t" "books (t\<lparr>delivering := on\<rparr>) = books t"
    by (simp_all add: topic_key_def books_def)
  note up = exact_resettled(2,3) [OF t(3,1) key, of E, unfolded assms(3) fst_conv snd_conv]
  show t': "t_ern t' = e" "delivering t' = on" "deleteAfterDelivery t' = deleteAfterDelivery t" using up(1) t(2) by auto
  show "topic_messages r' = topic_messages r" by (simp add: up(2))
  show "queues_of e' r' = queues_of e' r" by (rule queues_of_cong) (simp add: up(2))
  show "current_subscriptions r' = current_subscriptions r" by (rule current_cong) (simp_all add: up(2))
  have "x = t" if "x \<in> set (topics r)" "t_ern x = e" for x
    using exactD(1) [OF t(3)] that t(1,2) by (metis distinct_map inj_onD)
  then show "\<forall>x \<in> set (topics r'). t_ern x = e \<longrightarrow> delivering x = on" using t' by (auto simp: up(2))
qed

lemma recordResend_kept [simp]:
  "topic_messages (recordResend E e n r) = topic_messages r"
  "map (\<lambda>t. (t_ern t, delivering t)) (topics (recordResend E e n r)) = map (\<lambda>t. (t_ern t, delivering t)) (topics r)"
  by (simp_all add: recordResend_def update_topic_def map_update_first)

lemma map_all: "map f xs = map f ys \<Longrightarrow> (\<forall>x \<in> set xs. P (f x)) = (\<forall>y \<in> set ys. P (f y))"
  by (metis (mono_tags, lifting) image_iff list.set_map)

text \<open>(C8) Starting a topic delivers what it held. The request always ends, whatever is waiting: it is answered with the
  number of messages that were held; each of them has gone to every queue subscribed, once and in the order of publication;
  none is held any more, and the topic is running.\<close>

theorem start_releases_held:
  assumes "reach empty_ens_server topic_step s" and "listeners_known (topic_bus s)" and "callers (base N) req user"
    and "asked_for N req (\<lambda>v. GetStringValue v ''ern'') e" and "e \<noteq> ''''" and "findTopicByErn e (ens_repo s) = Some t"
  shows "\<exists>r s' es. handleStartTopic N req s = (Answer r, s') \<and> resp_status r = Ok \<and>
    resp_body r = Some (JObject [(''ern'', JString e), (''status'', JString kStatusRunning),
      (''released'', JInt (countHeldMessages e (ens_repo s)))]) \<and>
    events (topic_bus s') = events (topic_bus s) @ es \<and>
    letters_to_modules es = concat (map (round_of (topic_bus s) (queues_of e (ens_repo s)) e) (all_held e (ens_repo s))) \<and>
    countHeldMessages e (ens_repo s') = 0 \<and> (\<forall>x \<in> set (topics (ens_repo s')). t_ern x = e \<longrightarrow> delivering x)"
proof -
  have sound: "sound_topics (ens_repo s)" by (rule topic_runs.reach_inv [OF assms(1)])
  obtain t' r' where up: "upsertTopic (repo_world N 0) (t\<lparr>delivering := True\<rparr>) (ens_repo s) = (t', r')" by fastforce
  note st = started [OF sound assms(6) up]
  define u where "u = s\<lparr>ens_repo := r'\<rparr>"
  have ready: "ready u"
    using sound assms(2) st(4,6) by (simp add: u_def ready_def sound_topics_def exactD(3))
  have held: "all_held e (ens_repo u) = all_held e (ens_repo s)" by (rule held_cong) (simp add: u_def st)
  define v where "v = fold (settle_held N e (deleteAfterDelivery t')) (all_held e (ens_repo u)) u"
  have walk: "release_held N e (deleteAfterDelivery t') 0 u = Some (countHeldMessages e (ens_repo s), v)"
    using release_walks [OF ready, of N e "deleteAfterDelivery t'" 0] by (simp add: v_def held held_count)
  obtain es where es: "all_held e (ens_repo v) = []" "settings v = settings u" "events (topic_bus v) = events (topic_bus u) @ es"
      "letters_to_modules es = concat (map (round_of (topic_bus u) (queues_of e (ens_repo u)) e) (all_held e (ens_repo u)))"
    using settled_all [OF ready, of e "all_held e (ens_repo u)" "[]" N "deleteAfterDelivery t'"] unfolding v_def by auto
  define w where "w = on_topics (recordResend (repo_world N 0) e (countHeldMessages e (ens_repo s))) v"
  have "handleStartTopic N req s = delivering_answer t' (countHeldMessages e (ens_repo s)) w"
    using assms(5) walk
    by (simp add: handleStartTopic_def setTopicDelivering_def asking_goes_on [OF assms(3,4)] finding_topic_def assms(6) storing_topic_def
        on_ens_def up u_def [symmetric] w_def)
  moreover have "countHeldMessages e (ens_repo w) = 0"
    using es(1) held_cong [of "ens_repo w" "ens_repo v" e] by (simp add: held_count w_def)
  moreover have "\<forall>x \<in> set (topics (ens_repo w)). t_ern x = e \<longrightarrow> delivering x"
  proof -
    have "map (\<lambda>t. (t_ern t, delivering t)) (topics (ens_repo w)) = map (\<lambda>t. (t_ern t, delivering t)) (topics r')"
      using es(2) by (simp add: w_def settings_def u_def)
    from map_all [OF this, of "\<lambda>(x, y). x = e \<longrightarrow> y"] show ?thesis using st(7) by simp
  qed
  ultimately show ?thesis
    using es(3,4) st(1,2,5) held
    by (auto simp: delivering_answer_def answer_def JsonResponse_def topic_status_def u_def w_def)
qed


subsection \<open>Resending\<close>

definition is_sent :: "TopicMessage \<Rightarrow> bool" where
  "is_sent m \<longleftrightarrow> tm_status m \<noteq> kStatusHeld"

abbreviation stored_order :: "ern \<Rightarrow> ens \<Rightarrow> TopicMessage list" where
  "stored_order e r \<equiv> listMessagesAfter e 0 '''' r"

lemma order_cong: "topic_messages r' = topic_messages r \<Longrightarrow> listMessagesAfter e n a r' = listMessagesAfter e n a r"
  by (simp add: listMessagesAfter_def)

lemma page_after:
  "listMessagesAfter e kTopicPage a r = take kTopicPage (filter (\<lambda>m. a = '''' \<or> a < tm_oid m) (stored_order e r))"
  by (simp add: listMessagesAfter_def kTopicPage_def by_insertion.stable_sort_filter [symmetric] Let_def)

lemma resent:
  assumes "ready s"
  shows "\<exists>s'. fold (resend_one N e) ms ((a, b), s) = ((a + count_if is_sent ms, b + count_if (\<lambda>m. \<not> is_sent m) ms), s') \<and>
    ready s' \<and> topics (ens_repo s') = topics (ens_repo s) \<and> topic_messages (ens_repo s') = topic_messages (ens_repo s) \<and>
    listening_modules (topic_bus s') = listening_modules (topic_bus s) \<and> queues_of e (ens_repo s') = queues_of e (ens_repo s) \<and>
    (\<exists>es. events (topic_bus s') = events (topic_bus s) @ es \<and>
      letters_to_modules es = concat (map (round_of (topic_bus s) (queues_of e (ens_repo s)) e) (filter is_sent ms)))"
  using assms
proof (induction ms arbitrary: a b s)
  case Nil
  then show ?case by (simp add: letters_to_modules_def)
next
  case (Cons m ms)
  show ?case
  proof (cases "is_sent m")
    case True
    define u where "u = resendMessage N e m s"
    have step: "fold (resend_one N e) (m # ms) ((a, b), s) = fold (resend_one N e) ms ((a + 1, b), u)"
      using True by (simp add: resend_one_def is_sent_def u_def)
    note red = redelivered [OF Cons.prems, where N = N and e = e and m = m, folded resendMessage_def, folded u_def]
    have kept: "topics (ens_repo u) = topics (ens_repo s)" "topic_messages (ens_repo u) = topic_messages (ens_repo s)"
      by (simp_all add: u_def resendMessage_def)
    have listen: "listening_modules (topic_bus u) = listening_modules (topic_bus s)" using red(2) by (simp add: settings_def)
    obtain s' where s': "fold (resend_one N e) ms ((a + 1, b), u) = ((a + 1 + count_if is_sent ms, b + count_if (\<lambda>m. \<not> is_sent m) ms), s')"
      "ready s'" "topics (ens_repo s') = topics (ens_repo u)" "topic_messages (ens_repo s') = topic_messages (ens_repo u)"
      "listening_modules (topic_bus s') = listening_modules (topic_bus u)" "queues_of e (ens_repo s') = queues_of e (ens_repo u)"
      "\<exists>es. events (topic_bus s') = events (topic_bus u) @ es \<and>
        letters_to_modules es = concat (map (round_of (topic_bus u) (queues_of e (ens_repo u)) e) (filter is_sent ms))"
      using Cons.IH [OF red(1), of "a + 1" b] by blast
    show ?thesis
      using s' kept listen red(3) red(4) True round_of_cong [OF listen] unfolding step by fastforce
  next
    case False
    then have step: "fold (resend_one N e) (m # ms) ((a, b), s) = fold (resend_one N e) ms ((a, b + 1), s)"
      by (simp add: resend_one_def is_sent_def)
    show ?thesis using Cons.IH [OF Cons.prems, of a "b + 1"] False unfolding step by (simp add: add.assoc)
  qed
qed

text \<open>The next page starts where the last one ended.\<close>

lemma up_to_last: "sorted_wrt (\<lambda>x y. tm_oid x < tm_oid y) ms \<Longrightarrow> m \<in> set ms \<Longrightarrow> \<not> tm_oid (last ms) < tm_oid m"
  by (induction ms rule: rev_induct) (auto simp: sorted_wrt_append)

lemma sorted_after:
  assumes "sorted_wrt (\<lambda>x y. tm_oid x < tm_oid y) (gone @ todo)" and "'''' \<notin> tm_oid ` set (gone @ todo)"
    and "a = (if gone = [] then '''' else tm_oid (last gone))"
  shows "filter (\<lambda>m. a = '''' \<or> a < tm_oid m) (gone @ todo) = todo"
proof (cases "gone = []")
  case False
  then have l: "last gone \<in> set gone" "a = tm_oid (last gone)" using assms(3) by simp_all
  then have "a \<noteq> ''''" using assms(2) by (metis Un_iff imageI set_append)
  moreover have "\<not> a < tm_oid m" if "m \<in> set gone" for m
    using up_to_last [of gone m] assms(1) that l(2) by (simp add: sorted_wrt_append)
  moreover have "a < tm_oid m" if "m \<in> set todo" for m using assms(1) l that by (auto simp: sorted_wrt_append)
  ultimately show ?thesis by (simp add: filter_empty_conv)
qed (simp add: assms(3))

lemma strictly_sorted:
  "distinct (map tm_oid ms) \<Longrightarrow> sorted_wrt (\<lambda>x y. \<not> tm_oid y < tm_oid x) ms \<Longrightarrow> sorted_wrt (\<lambda>x y. tm_oid x < tm_oid y) ms"
proof (induction ms)
  case (Cons m ms)
  have "tm_oid m < tm_oid x" if "x \<in> set ms" for x
    using Cons.prems that linorder_less_linear [of "tm_oid m" "tm_oid x"] by (auto simp: image_iff)
  then show ?case using Cons by simp
qed simp

lemma order_sorted:
  assumes "distinct (map tm_oid (topic_messages r))"
  shows "sorted_wrt (\<lambda>x y. tm_oid x < tm_oid y) (stored_order e r)" "set (stored_order e r) \<subseteq> set (topic_messages r)"
proof -
  let ?ms = "filter (\<lambda>m. tm_topicErn m = e) (topic_messages r)"
  have o: "stored_order e r = stable_sort (\<lambda>x y. tm_oid x < tm_oid y) ?ms" by (simp add: listMessagesAfter_def Let_def)
  show "set (stored_order e r) \<subseteq> set (topic_messages r)" by (auto simp: o by_insertion.set_stable_sort)
  have "mset (map tm_oid (stored_order e r)) = mset (map tm_oid ?ms)" by (simp add: o by_insertion.mset_stable_sort)
  then have d: "distinct (map tm_oid (stored_order e r))" using assms by (metis distinct_map_filter mset_eq_imp_distinct_iff)
  have "sorted_wrt (\<lambda>x y. \<not> tm_oid y < tm_oid x) (stored_order e r)"
    unfolding o by (rule by_insertion.sorted_stable_sort) simp
  with d show "sorted_wrt (\<lambda>x y. tm_oid x < tm_oid y) (stored_order e r)"
    by (rule strictly_sorted)
qed

text \<open>So a resend goes through the messages in their order, in pages that do not show.\<close>

lemma resend_walks:
  assumes "ready (snd acc)" and "sorted_wrt (\<lambda>x y. tm_oid x < tm_oid y) (gone @ todo)" and "'''' \<notin> tm_oid ` set (gone @ todo)"
    and "stored_order e (ens_repo (snd acc)) = gone @ todo" and "a = (if gone = [] then '''' else tm_oid (last gone))"
  shows "resend_pages N e a acc = Some (fold (resend_one N e) todo acc)"
  using assms
proof (induction "length todo" arbitrary: gone todo acc a rule: less_induct)
  case less
  define page where "page = take kTopicPage todo"
  define acc' where "acc' = fold (resend_one N e) page acc"
  have p: "listMessagesAfter e kTopicPage a (ens_repo (snd acc)) = page"
    using sorted_after [OF less.prems(2,3,5)] by (simp add: page_after less.prems(4) page_def)
  have step: "resend_pages N e a acc = (if page = [] then Some acc else if length page < kTopicPage then Some acc'
      else resend_pages N e (tm_oid (last page)) acc')"
    by (subst resend_pages.simps) (simp add: p acc'_def Let_def)
  show ?case
  proof (cases "length page < kTopicPage")
    case True
    then have "page = todo" by (simp add: page_def)
    then show ?thesis using True by (simp add: step acc'_def)
  next
    case False
    then have l: "length page = kTopicPage" "page \<noteq> []" "length (drop kTopicPage todo) < length todo" by (auto simp: page_def kTopicPage_def)
    have todo: "todo = page @ drop kTopicPage todo" by (simp add: page_def)
    obtain x y s where acc: "acc = ((x, y), s)" by (metis prod.exhaust)
    have "ready (snd acc')" "topic_messages (ens_repo (snd acc')) = topic_messages (ens_repo (snd acc))"
      using resent [of s N e page x y] less.prems(1) by (auto simp: acc'_def acc)
    moreover from this(2) have "stored_order e (ens_repo (snd acc')) = (gone @ page) @ drop kTopicPage todo"
      using less.prems(4) todo order_cong [of "ens_repo (snd acc')" "ens_repo (snd acc)" e 0 "''''"] by simp
    moreover have "(gone @ page) @ drop kTopicPage todo = gone @ todo" using todo by simp
    ultimately have "resend_pages N e (tm_oid (last page)) acc' = Some (fold (resend_one N e) (drop kTopicPage todo) acc')"
      using less.prems(2,3) l by (intro less.hyps [of "drop kTopicPage todo" acc' "gone @ page"]) simp_all
    then show ?thesis using l step by (metis acc'_def comp_apply fold_append todo less_irrefl)
  qed
qed

text \<open>(C12) A resend hands every message of the topic on once more. It always ends; what was sent goes to every queue
  subscribed, once and in the order it was stored; what is held stays held and is counted apart; and the topic keeps all of
  its messages as they are.\<close>

theorem resend_delivers_all:
  assumes "reach empty_ens_server topic_step s" and "listeners_known (topic_bus s)"
    and "distinct (map tm_oid (topic_messages (ens_repo s)))" and "'''' \<notin> tm_oid ` set (topic_messages (ens_repo s))"
  shows "\<exists>s' es. resendAllMessages N e s =
      Some ((count_if is_sent (stored_order e (ens_repo s)), count_if (\<lambda>m. \<not> is_sent m) (stored_order e (ens_repo s))), s') \<and>
    topics (ens_repo s') = topics (ens_repo s) \<and> topic_messages (ens_repo s') = topic_messages (ens_repo s) \<and>
    events (topic_bus s') = events (topic_bus s) @ es \<and>
    letters_to_modules es =
      concat (map (round_of (topic_bus s) (queues_of e (ens_repo s)) e) (filter is_sent (stored_order e (ens_repo s))))"
proof -
  have ready: "ready s"
    using topic_runs.reach_inv [OF assms(1)] assms(2) by (simp add: ready_def sound_topics_def exactD(3))
  note o = order_sorted [OF assms(3), of e]
  have "resendAllMessages N e s = Some (fold (resend_one N e) (stored_order e (ens_repo s)) ((0, 0), s))"
    unfolding resendAllMessages_def using ready o assms(4) by (intro resend_walks [where gone = "[]"]) auto
  moreover obtain s' where "fold (resend_one N e) (stored_order e (ens_repo s)) ((0, 0), s) =
      ((count_if is_sent (stored_order e (ens_repo s)), count_if (\<lambda>m. \<not> is_sent m) (stored_order e (ens_repo s))), s')"
    "topics (ens_repo s') = topics (ens_repo s)" "topic_messages (ens_repo s') = topic_messages (ens_repo s)"
    "\<exists>es. events (topic_bus s') = events (topic_bus s) @ es \<and> letters_to_modules es =
      concat (map (round_of (topic_bus s) (queues_of e (ens_repo s)) e) (filter is_sent (stored_order e (ens_repo s))))"
    using resent [OF ready, of N e "stored_order e (ens_repo s)" 0 0] by auto
  ultimately show ?thesis by auto
qed


subsection \<open>Applied: a topic is stopped, published to, and started\<close>

definition about_news :: json where
  "about_news = JObject [(''ern'', JString ''news'')]"

lemma news_nonempty: "news \<noteq> ''''"
  by (simp add: news_def)

lemma about_news_asked: "asked_for (sample_ens_service about_news) (asks ''root'' action) (\<lambda>v. GetStringValue v ''ern'') news"
proof -
  have "ens_installErnResolver (http (sample_service about_news)) (asks ''root'' action) about_news = JObject [(''ern'', JString news)]"
    unfolding about_news_def root_resolver by (simp add: ens_fields_def resolve_as_def resolveErn_def createErnIn_def news_def)
  moreover have "parse_json (http (sample_service about_news)) b = Some about_news" for b by (simp add: sample_service_def sample_http_def)
  ultimately show ?thesis by (simp add: asked_for_def ParseJsonBody_def GetStringValue_def)
qed

lemma root_calls: "callers (base (sample_ens_service v)) (asks ''root'' action) (sample_user ''root'')"
  using asks_resolves [of "''root''" v action] by (auto simp: callers_def asks_authenticates)

definition news_closed :: ens_server where
  "news_closed = fst (snd (ens_serve (sample_ens_service about_news) (asks ''root'' ''stop-topic'') (subscribed_news, [])))"

definition news_waiting :: ens_server where
  "news_waiting = fst (snd (ens_serve (sample_ens_service publish_hello) (asks ''root'' ''publish-message'') (news_closed, [])))"

lemma news_closed_eq:
  "\<exists>t. findTopicByErn news (ens_repo news_closed) = Some t \<and> \<not> delivering t \<and> t_maxMessageLength t = kTopicMaxMessageLength"
  "topic_messages (ens_repo news_closed) = []" "publish_no news_closed = 0" "topic_bus news_closed = subscribed_bus"
proof -
  let ?N = "sample_ens_service about_news"
  let ?t = "sample_topic\<lparr>t_oid := ''o'', t_created := 1000, t_modified := 1000\<rparr>"
  have t: "findTopicByErn news (ens_repo subscribed_news) = Some ?t"
    using created_news_found by (simp add: findTopicByErn_def subscribed_news_simps)
  obtain t' r' where up: "upsertTopic (repo_world ?N 0) (?t\<lparr>delivering := False\<rparr>) (ens_repo subscribed_news) = (t', r')" by fastforce
  have sound: "sound_topics (ens_repo subscribed_news)" by (rule topic_runs.reach_inv [OF subscribed_news_reached])
  note st = started [OF sound t up]
  have len: "t_maxMessageLength t' = kTopicMaxMessageLength" and r': "findTopicByErn news r' = Some t'"
    using up by (auto simp: upsertTopic_def subscribed_news_simps created_news_repo sample_topic_def new_Topic_def topic_named_def findTopicByErn_def Let_def)
  have c: "topicCommandFromString ''stop-topic'' = StopTopic" by (simp add: topicCommandFromString_def topic_command_names_def)
  have "ens_dispatch ?N (asks ''root'' ''stop-topic'') subscribed_news = delivering_answer t' 0 (subscribed_news\<lparr>ens_repo := r'\<rparr>)"
    by (simp add: asking_goes_on [OF root_calls about_news_asked] ens_dispatch_def c handleStopTopic_def setTopicDelivering_def news_nonempty finding_topic_def t storing_topic_def on_ens_def up)
  then have eq: "news_closed = subscribed_news\<lparr>ens_repo := r'\<rparr>"
    by (simp add: news_closed_def root_ens_served delivering_answer_def answer_def)
  show "\<exists>t. findTopicByErn news (ens_repo news_closed) = Some t \<and> \<not> delivering t \<and> t_maxMessageLength t = kTopicMaxMessageLength"
    "topic_messages (ens_repo news_closed) = []" "publish_no news_closed = 0" "topic_bus news_closed = subscribed_bus"
    unfolding eq using st(2,4) len r' subscribed_news_simps(2-4) by (simp_all add: publish_no_def)
qed

lemma news_closed_reached: "reach empty_ens_server topic_step news_closed"
proof -
  have "topics_drift_free (sample_ens_service about_news) (asks ''root'' ''stop-topic'') subscribed_news"
    by (simp add: topics_drift_free_def asks_for_topic_def subscribed_news_simps topicCommandFromString_def topic_command_names_def)
  then show ?thesis
    unfolding news_closed_def
    by (intro reach.step [OF subscribed_news_reached]) (auto intro!: topic_step.asked [of _ _ _ "[]"] simp: prod_eq_iff)
qed

lemma news_waiting_reached: "reach empty_ens_server topic_step news_waiting"
proof -
  have "topics_drift_free (sample_ens_service publish_hello) (asks ''root'' ''publish-message'') news_closed"
    by (simp add: news_closed_eq(2) topics_drift_free_def asks_for_topic_def sample_commands)
  then show ?thesis
    unfolding news_waiting_def
    by (intro reach.step [OF news_closed_reached]) (auto intro!: topic_step.asked [of _ _ _ "[]"] simp: prod_eq_iff)
qed

lemma news_waiting_eq:
  "\<exists>x. topic_messages (ens_repo news_waiting) = [x] \<and> tm_topicErn x = news \<and> tm_messageId x = ''u'' \<and> tm_status x = kStatusHeld \<and> tm_oid x = ''o''"
  "events (topic_bus news_waiting) = []" "listeners_known (topic_bus news_waiting)"
proof -
  let ?N = "sample_ens_service publish_hello"
  obtain t where c: "findTopicByErn news (ens_repo news_closed) = Some t" "\<not> delivering t" "t_maxMessageLength t = kTopicMaxMessageLength"
    using news_closed_eq(1) by blast
  let ?w = "repo_world ?N (publish_no news_closed)" and ?mid = "random_uuid (base ?N) (publish_no news_closed)"
  obtain m u where m: "publishMessage ?w ?mid (createEnsMessageErn (ern_region (http (base ?N))) ''1'' ?mid) news ''hello'' [] ''MEDIUM''
      (ens_repo news_closed) = (m, u)"
    by fastforce
  note fields = published_fields [OF m] and stored = published_stored [OF m]
  have held: "tm_status m = kStatusHeld" using fields(9) c(1,2) by simp
  have "publishToTopic ?N news ''hello'' [] ''1'' ''MEDIUM'' [] '''' (deleteAfterDelivery t) news_closed = (m, publish_counted ?N news m u news_closed)"
    using m held by (simp add: publishToTopic_def publish_counted_def Let_def)
  then have "handlePublishMessage ?N (asks ''root'' ''publish-message'') news_closed =
      answer Ok (Some (JObject [(''messageId'', JString (tm_messageId m))])) (publish_counted ?N news m u news_closed)"
    using hello_published [OF c(1,3), of "''publish-message''"] by simp
  then have w: "news_waiting = publish_counted ?N news m u news_closed"
    unfolding news_waiting_def root_ens_served by (simp add: ens_dispatch_def sample_commands answer_def)
  have ms: "topic_messages u = [m\<lparr>tm_oid := ''o'', tm_created := ens_now ?w, tm_modified := ens_now ?w\<rparr>]"
    using stored c(1) news_closed_eq(2) by (simp add: sample_ens_service_def sample_eqs_env_def)
  have u: "?mid = ''u''" by (simp add: news_closed_eq(3)) (simp add: sample_service_def)
  show "\<exists>x. topic_messages (ens_repo news_waiting) = [x] \<and> tm_topicErn x = news \<and> tm_messageId x = ''u'' \<and> tm_status x = kStatusHeld \<and> tm_oid x = ''o''"
    using fields(1,2) held u by (simp add: w ms)
  show "events (topic_bus news_waiting) = []" "listeners_known (topic_bus news_waiting)"
    using news_closed_eq(4) by (simp_all add: w subscribed_bus_def empty_bus_def listeners_known_def)
qed

theorem start_releases_held_witness:
  "\<exists>r s'. handleStartTopic (sample_ens_service about_news) (asks ''root'' ''start-topic'') news_waiting = (Answer r, s') \<and>
    resp_body r = Some (JObject [(''ern'', JString news), (''status'', JString ''RUNNING''), (''released'', JInt 1)]) \<and>
    countHeldMessages news (ens_repo s') = 0"
proof -
  obtain x where x: "topic_messages (ens_repo news_waiting) = [x]" "tm_topicErn x = news" "tm_status x = kStatusHeld"
    using news_waiting_eq(1) by blast
  have one: "countHeldMessages news (ens_repo news_waiting) = 1" using x by (simp add: countHeldMessages_def)
  have "exact_topics (ens_repo news_waiting)" using topic_runs.reach_inv [OF news_waiting_reached] by (simp add: sound_topics_def)
  then have "news \<in> t_ern ` set (topics (ens_repo news_waiting))" using exactD(4) [of "ens_repo news_waiting" x] x by simp
  then obtain t where "findTopicByErn news (ens_repo news_waiting) = Some t"
    by (cases "findTopicByErn news (ens_repo news_waiting)") (auto simp: findTopicByErn_def find_None_iff)
  from start_releases_held [OF news_waiting_reached news_waiting_eq(3) root_calls about_news_asked news_nonempty this, of "''start-topic''"] show ?thesis
    by (auto simp: one kStatusRunning_def)
qed

theorem resend_delivers_all_witness:
  "\<exists>s'. resendAllMessages (sample_ens_service about_news) news news_waiting = Some ((0, 1), s') \<and>
    map tm_messageId (topic_messages (ens_repo s')) = [''u''] \<and> letters_to_modules (events (topic_bus s')) = []"
proof -
  obtain x where x: "topic_messages (ens_repo news_waiting) = [x]" "tm_topicErn x = news" "tm_messageId x = ''u''" "tm_status x = kStatusHeld"
      "tm_oid x = ''o''"
    using news_waiting_eq(1) by blast
  have o: "stored_order news (ens_repo news_waiting) = [x]"
    using x by (simp add: listMessagesAfter_def stable_sort_def)
  have "distinct (map tm_oid (topic_messages (ens_repo news_waiting)))" "'''' \<notin> tm_oid ` set (topic_messages (ens_repo news_waiting))"
    using x by simp_all
  from resend_delivers_all [OF news_waiting_reached news_waiting_eq(3) this, of "sample_ens_service about_news" news] show ?thesis
    using x news_waiting_eq(2) by (auto simp: o is_sent_def)
qed

end
