(* ===== verification/Ens_To_Queue.thy ===== *)
theory Ens_To_Queue
  imports Ens_Walks Eqs_Arrivals
begin

text \<open>
  From the topic to the queue, across the two modules: what \<^verbatim>\<open>EnsServer.cpp\<close> writes into an envelope is what
  \<^verbatim>\<open>EqsServer.cpp\<close> reads out of it.
\<close>

subsection \<open>The envelope\<close>

text \<open>An envelope that carries a message to a queue.\<close>

definition letter_to :: "ern \<Rightarrow> string \<Rightarrow> (string \<times> variant) list \<Rightarrow> string \<Rightarrow> event \<Rightarrow> bool" where
  "letter_to dest content attrs prio e \<longleftrightarrow> targetErn e = dest \<and> ev_messageId e \<noteq> '''' \<and>
     payload e = published_payload content (attributes_json attrs) [] prio ''''"

text \<open>Attributes are written in key order, and read back one by one.\<close>

lemma attributes_read:
  assumes "key_ordered (m @ attrs)" and "list_all (in_range \<circ> snd) attrs"
  shows "fold (\<lambda>(key, v) out. case variant_value_to v of Inl _ \<Rightarrow> out | Inr x \<Rightarrow> map_put key x out) (attributes_json attrs) m = m @ attrs"
  using assms
proof (induction attrs arbitrary: m)
  case (Cons kv attrs)
  obtain k v where "kv = (k, v)" by force
  then show ?case
    using Cons.IH [of "m @ [kv]"] Cons.prems map_put_last [of m k v] key_ordered_append1 [OF Cons.prems(1)]
    by (simp add: attributes_json_def variant_reads)
qed (simp add: attributes_json_def)

lemma letter_reads:
  assumes "letter_to dest content attrs prio e" and "key_ordered attrs" and "list_all (in_range \<circ> snd) attrs"
  shows "GetStringValue (payload e) ''body'' = Inr content" "GetStringValue (payload e) ''bucketPriority'' = Inr ''''"
    "GetStringValue (payload e) ''priority'' = Inr prio" "readAttributes e ''attributes'' = attrs"
    "readAttributes e ''systemAttributes'' = []"
  using assms attributes_read [of "[]" attrs]
  by (simp_all add: letter_to_def published_payload_def GetStringValue_def readAttributes_def)

text \<open>What the queue's module makes of it.\<close>

lemma letter_arrives:
  assumes "letter_to dest content attrs prio e" and "key_ordered attrs" and "list_all (in_range \<circ> snd) attrs" and "dest \<noteq> ''''" and "prio \<noteq> ''''"
    and "fst (findQueueByErnCached (repo_env S (delivery_no s)) dest (eqs_repo s)) = Some q"
    and "random_uuid S (delivery_no s) \<notin> messageId ` set (messages (eqs_repo s))"
  shows "\<exists>t x. handleSubscriptionDelivery S e s = (Some True, t) \<and> messages (eqs_repo t) = messages (eqs_repo s) @ [x] \<and>
    queueErn x = dest \<and> body x = content \<and> attributes x = attrs \<and> priority x = MessagePriorityFromString prio"
proof -
  note r = letter_reads [OF assms(1-3)]
  have "targetErn e = dest" "ev_messageId e \<noteq> ''''" using assms(1) by (simp_all add: letter_to_def)
  from delivery_stores [OF this(1) assms(4) this(2) r(1-3) assms(6,7)] show ?thesis using assms(5) by (auto simp: r)
qed

text \<open>What the topic's module writes.\<close>

lemma published_letter:
  assumes "letters_to_modules es = concat (map (letters_for b topic mid (published_payload content (attributes_json attrs) [] prio '''')) qs)"
    and "e \<in> set es" and "\<not> starts_with (targetModule e) kExternalPrefix" and "mid \<noteq> ''''"
  shows "\<exists>x \<in> set qs. letter_to (ts_targetErn x) content attrs prio e"
proof -
  have "(targetModule e, targetErn e, sourceErn e, ev_messageId e, payload e, ev_status e) \<in> set (letters_to_modules es)"
    using assms(2,3) by (auto simp: letters_to_modules_def)
  then show ?thesis unfolding assms(1) using assms(4) by (auto simp: letters_for_def letter_to_def)
qed

lemma publication_read:
  assumes "asked_for N req read_PublishMessageRequest pm"
  shows "pm_priority pm \<noteq> ''''" "key_ordered (pm_attributes pm)"
proof -
  obtain v where v: "read_PublishMessageRequest v = Inr pm" using assms by (auto simp: asked_for_def split: sum.splits)
  then show "pm_priority pm \<noteq> ''''" by (auto simp: read_PublishMessageRequest_def and_then_Inr split: if_splits)
  obtain as where as: "GetMapFromObject variant_value_to v ''attributes'' = Inr as" "pm_attributes pm = as"
    using v by (auto simp: read_PublishMessageRequest_def and_then_Inr)
  then show "key_ordered (pm_attributes pm)"
    by (auto simp: GetMapFromObject_def and_then_Inr split: if_splits dest: map_elements_ordered)
qed

subsection \<open>A publication becomes a message\<close>

text \<open>(C4) What is published to a topic arrives in its queues as it was published. Take any envelope that a publication
  answered with success has put on the bus for a module: it is for a queue subscribed to the topic, and when the queue's
  module handles it, and the queue is there, exactly one message more is in that queue, with the body, the attributes and
  the priority of the publication.\<close>

theorem published_message_arrives:
  assumes "reach empty_ens_server topic_step s" and "listeners_known (topic_bus s)"
    and "random_uuid (base N) (publish_no s) \<notin> insert '''' (tm_messageId ` set (topic_messages (ens_repo s)))"
    and "handlePublishMessage N req s = (Answer r, s')" and "resp_status r = Ok"
    and "\<forall>pm. asked_for N req read_PublishMessageRequest pm \<longrightarrow> list_all (in_range \<circ> snd) (pm_attributes pm)"
    and "events (topic_bus s') = events (topic_bus s) @ es" and "e \<in> set es" and "\<not> starts_with (targetModule e) kExternalPrefix"
    and "targetErn e \<noteq> ''''" and "fst (findQueueByErnCached (repo_env S (delivery_no qs)) (targetErn e) (eqs_repo qs)) = Some q"
    and "random_uuid S (delivery_no qs) \<notin> messageId ` set (messages (eqs_repo qs))"
  shows "\<exists>pm qs' x. asked_for N req read_PublishMessageRequest pm \<and> targetErn e \<in> ts_targetErn ` set (queues_of (pm_ern pm) (ens_repo s)) \<and>
    handleSubscriptionDelivery S e qs = (Some True, qs') \<and> messages (eqs_repo qs') = messages (eqs_repo qs) @ [x] \<and>
    queueErn x = targetErn e \<and> body x = pm_body pm \<and> attributes x = pm_attributes pm \<and>
    priority x = MessagePriorityFromString (pm_priority pm)"
proof -
  obtain user :: User and pm t m where p: "asked_for N req read_PublishMessageRequest pm" "findTopicByErn (pm_ern pm) (ens_repo s) = Some t"
    and pub: "publishToTopic N (pm_ern pm) (pm_body pm) (pm_attributes pm) (user_accountId user) (pm_priority pm) [] ''''
      (deleteAfterDelivery t) s = (m, s')"
    using publish_answered [OF assms(4,5)] by blast
  have cur: "current_subscriptions (ens_repo s)" using topic_runs.reach_inv [OF assms(1)] by (simp add: sound_topics_def)
  have fresh: "random_uuid (base N) (publish_no s) \<notin> tm_messageId ` set (topic_messages (ens_repo s))" using assms(3) by simp
  note pb = publishing [OF p(2) fresh cur assms(2) pub]
  have "es \<noteq> []" using assms(8) by auto
  then have letters: "letters_to_modules es = concat (map (letters_for (topic_bus s) (pm_ern pm) (tm_messageId m)
      (published_payload (pm_body pm) (attributes_json (pm_attributes pm)) [] (pm_priority pm) '''')) (queues_of (pm_ern pm) (ens_repo s)))"
    using pb(8) assms(7) by auto
  have "tm_messageId m \<noteq> ''''" using pb(1) assms(3) by auto
  from published_letter [OF letters assms(8,9) this] obtain x where
    x: "x \<in> set (queues_of (pm_ern pm) (ens_repo s))" "letter_to (ts_targetErn x) (pm_body pm) (pm_attributes pm) (pm_priority pm) e"
    by blast
  then have dest: "targetErn e = ts_targetErn x" by (simp add: letter_to_def)
  have range: "list_all (in_range \<circ> snd) (pm_attributes pm)" using assms(6) p(1) by blast
  from letter_arrives [OF x(2) publication_read(2) [OF p(1)] range _ publication_read(1) [OF p(1)]] assms(10-12)
  show ?thesis using p(1) x(1) unfolding dest by blast
qed

lemma hello_on_the_bus:
  "\<exists>r s' es e. handlePublishMessage (sample_ens_service publish_hello) (asks ''root'' ''publish-message'') subscribed_news = (Answer r, s') \<and>
    resp_status r = Ok \<and> events (topic_bus s') = events (topic_bus subscribed_news) @ es \<and> e \<in> set es \<and>
    targetModule e = ''eqs'' \<and> targetErn e = orders"
proof -
  let ?N = "sample_ens_service publish_hello" and ?r = "asks ''root'' ''publish-message''"
  let ?t = "sample_topic\<lparr>t_oid := ''o'', t_created := 1000, t_modified := 1000\<rparr>"
  have t: "findTopicByErn news (ens_repo subscribed_news) = Some ?t"
    using created_news_found by (simp add: findTopicByErn_def subscribed_news_simps)
  have dt: "delivering ?t" "t_maxMessageLength ?t = kTopicMaxMessageLength" by (simp_all add: sample_topic_def new_Topic_def)
  obtain m s' where m: "publishToTopic ?N news ''hello'' [] ''1'' ''MEDIUM'' [] '''' (deleteAfterDelivery ?t) subscribed_news = (m, s')" by fastforce
  have h: "handlePublishMessage ?N ?r subscribed_news = (Answer (JsonResponse Ok (Some (JObject [(''messageId'', JString (tm_messageId m))]))), s')"
    using m by (simp add: hello_published [OF t dt(2)] answer_def)
  have cur: "current_subscriptions (ens_repo subscribed_news)" using topic_runs.reach_inv [OF subscribed_news_reached] by (simp add: sound_topics_def)
  have k: "listeners_known (topic_bus subscribed_news)" by (simp add: subscribed_news_simps listeners_known_def subscribed_bus_def empty_bus_def)
  have u: "random_uuid (base ?N) (publish_no subscribed_news) \<notin> tm_messageId ` set (topic_messages (ens_repo subscribed_news))"
    by (simp add: subscribed_news_simps)
  obtain es where es: "events (topic_bus s') = events (topic_bus subscribed_news) @ es"
    "letters_to_modules es = concat (map (letters_for (topic_bus subscribed_news) news (tm_messageId m)
      (published_payload ''hello'' (attributes_json []) [] ''MEDIUM'' '''')) (queues_of news (ens_repo subscribed_news)))"
    using publishing(8) [OF t u cur k m] dt(1) by auto
  have "listening_modules subscribed_bus = [''eqs'']"
    by (simp add: listening_modules_def subscribed_bus_def empty_bus_def kExternalPrefix_def std_set_def std_insert_def List.insort_insert_key_def)
  then have "(''eqs'', orders) \<in> (\<lambda>(t, d, _). (t, d)) ` set (letters_to_modules es)"
    unfolding es(2) using subscribed_news_simps(5) by (auto simp: subscribed_news_simps(4) letters_for_def)
  then obtain e where "e \<in> set es" "targetModule e = ''eqs''" "targetErn e = orders" by (auto simp: letters_to_modules_def)
  then show ?thesis using h es(1) by (auto simp: JsonResponse_def)
qed

theorem published_message_arrives_witness:
  "\<exists>r s' e qs' x. handlePublishMessage (sample_ens_service publish_hello) (asks ''root'' ''publish-message'') subscribed_news = (Answer r, s') \<and>
    e \<in> set (events (topic_bus s')) \<and> handleSubscriptionDelivery (sample_service JNull) e (sample_server []) = (Some True, qs') \<and>
    messages (eqs_repo qs') = [x] \<and> queueErn x = orders \<and> body x = ''hello'' \<and> priority x = MEDIUM"
proof -
  obtain r s' es e where h: "handlePublishMessage (sample_ens_service publish_hello) (asks ''root'' ''publish-message'') subscribed_news = (Answer r, s')"
    "resp_status r = Ok" "events (topic_bus s') = events (topic_bus subscribed_news) @ es" "targetModule e = ''eqs''" "targetErn e = orders" "e \<in> set es"
    using hello_on_the_bus by blast
  have f: "fst (findQueueByErnCached (repo_env (sample_service JNull) (delivery_no (sample_server []))) (targetErn e) (eqs_repo (sample_server []))) =
      Some ((sample_queue orders)\<lparr>available := 0, queue_size := 0\<rparr>)"
    unfolding h(5) by (simp add: findQueueByErnCached_def findQueueByErn_def cache_get_def get_lookup_def new_cache_def service_samples)
  have k: "listeners_known (topic_bus subscribed_news)" by (simp add: subscribed_news_simps listeners_known_def subscribed_bus_def empty_bus_def)
  have u: "random_uuid (base (sample_ens_service publish_hello)) (publish_no subscribed_news) \<notin>
      insert '''' (tm_messageId ` set (topic_messages (ens_repo subscribed_news)))"
    by (simp add: subscribed_news_simps sample_service_def)
  have p: "MessagePriorityFromString ''MEDIUM'' = MEDIUM" by code_simp
  have q: "messages (eqs_repo (sample_server [])) = []" by (simp add: service_samples)
  have a: "\<forall>pm. asked_for (sample_ens_service publish_hello) (asks ''root'' ''publish-message'') read_PublishMessageRequest pm \<longrightarrow>
      list_all (in_range \<circ> snd) (pm_attributes pm)" by (simp add: hello_asked)
  have x: "\<not> starts_with (targetModule e) kExternalPrefix" "targetErn e \<noteq> ''''" by (simp_all add: h kExternalPrefix_def orders_def)
  obtain qs' x where "handleSubscriptionDelivery (sample_service JNull) e (sample_server []) = (Some True, qs')"
    "messages (eqs_repo qs') = [x]" "queueErn x = orders" "body x = ''hello''" "priority x = MEDIUM"
    using published_message_arrives [OF subscribed_news_reached k u h(1,2) a h(3) h(6) x f] by (auto simp: hello_asked q p h(5))
  then show ?thesis using h by auto
qed

end
